(* ===== verification/Prelude.thy ===== *)
theory Prelude
  imports Main "HOL-Library.AList"
begin

text \<open>
  Shared vocabulary of the development: Go strings as byte lists with the UTF-8 decoding of
  the language (ranging over a string, \<open>[]rune\<close>, \<open>string(runes)\<close>, \<open>utf8.RuneCountInString\<close>),
  the functions of package \<open>strings\<close> the program uses, decimal formatting, Go maps as
  association lists, and the \<open>machine\<close> locale that lifts a one-step invariant to runs.
\<close>

named_theorems gostr "facts about Go strings and runes"

section \<open>Bytes and runes\<close>

type_synonym rune = nat

abbreviation byte :: "char \<Rightarrow> nat" where
  "byte c \<equiv> of_char c"

definition ascii :: "char \<Rightarrow> bool" where
  "ascii c \<longleftrightarrow> byte c < 128"

definition rune_error :: rune where
  "rune_error = 0xFFFD"

text \<open>\<open>utf8.DecodeRuneInString\<close>: the rune at the front and its width; an invalid or
  truncated sequence is \<open>RuneError\<close> of width 1.\<close>

definition cont :: "nat \<Rightarrow> nat \<Rightarrow> char \<Rightarrow> bool" where
  "cont lo hi c \<longleftrightarrow> lo \<le> byte c \<and> byte c \<le> hi"

definition second_lo :: "nat \<Rightarrow> nat" where
  "second_lo b = (if b = 0xE0 then 0xA0 else if b = 0xF0 then 0x90 else 0x80)"

definition second_hi :: "nat \<Rightarrow> nat" where
  "second_hi b = (if b = 0xED then 0x9F else if b = 0xF4 then 0x8F else 0xBF)"

definition decode_rune :: "string \<Rightarrow> rune \<times> nat" where
  "decode_rune s = (case s of
      [] \<Rightarrow> (rune_error, 0)
    | c # cs \<Rightarrow> (let b = byte c in
        if b < 0x80 then (b, 1)
        else if 0xC2 \<le> b \<and> b \<le> 0xDF then
          (case cs of
             c1 # _ \<Rightarrow> if cont 0x80 0xBF c1 then ((b - 0xC0) * 64 + (byte c1 - 0x80), 2)
                       else (rune_error, 1)
           | [] \<Rightarrow> (rune_error, 1))
        else if 0xE0 \<le> b \<and> b \<le> 0xEF then
          (case cs of
             c1 # c2 # _ \<Rightarrow>
               if cont (second_lo b) (second_hi b) c1 \<and> cont 0x80 0xBF c2
               then ((b - 0xE0) * 4096 + (byte c1 - 0x80) * 64 + (byte c2 - 0x80), 3)
               else (rune_error, 1)
           | _ \<Rightarrow> (rune_error, 1))
        else if 0xF0 \<le> b \<and> b \<le> 0xF4 then
          (case cs of
             c1 # c2 # c3 # _ \<Rightarrow>
               if cont (second_lo b) (second_hi b) c1 \<and> cont 0x80 0xBF c2 \<and> cont 0x80 0xBF c3
               then ((b - 0xF0) * 262144 + (byte c1 - 0x80) * 4096
                      + (byte c2 - 0x80) * 64 + (byte c3 - 0x80), 4)
               else (rune_error, 1)
           | _ \<Rightarrow> (rune_error, 1))
        else (rune_error, 1)))"

text \<open>\<open>[]rune(s)\<close>.\<close>

function runes :: "string \<Rightarrow> rune list" where
  "runes [] = []"
| "runes (c # cs) = fst (decode_rune (c # cs)) # runes (drop (snd (decode_rune (c # cs)) - 1) cs)"
  by pat_completeness auto
termination
  by (relation "measure length") auto

abbreviation rune_count :: "string \<Rightarrow> nat" where
  "rune_count s \<equiv> length (runes s)"

text \<open>A Unicode scalar value: what \<open>utf8.AppendRune\<close> encodes as itself.\<close>

definition scalar :: "rune \<Rightarrow> bool" where
  "scalar r \<longleftrightarrow> r < 0xD800 \<or> 0xE000 \<le> r \<and> r \<le> 0x10FFFF"

definition encode_scalar :: "rune \<Rightarrow> string" where
  "encode_scalar r =
     (if r < 0x80 then [char_of r]
      else if r < 0x800 then [char_of (0xC0 + r div 64), char_of (0x80 + r mod 64)]
      else if r < 0x10000 then
        [char_of (0xE0 + r div 4096), char_of (0x80 + r div 64 mod 64), char_of (0x80 + r mod 64)]
      else [char_of (0xF0 + r div 262144), char_of (0x80 + r div 4096 mod 64),
            char_of (0x80 + r div 64 mod 64), char_of (0x80 + r mod 64)])"

definition encode_rune :: "rune \<Rightarrow> string" where
  "encode_rune r = encode_scalar (if scalar r then r else rune_error)"

text \<open>\<open>string(runes)\<close>.\<close>

definition encode_runes :: "rune list \<Rightarrow> string" where
  "encode_runes rs = concat (map encode_rune rs)"

subsection \<open>Decoding inverts encoding\<close>

lemma byte_char_of [simp]: "n < 256 \<Longrightarrow> byte (char_of n) = (n::nat)"
  by simp

lemma decode_width [simp]: "s \<noteq> [] \<Longrightarrow> 1 \<le> snd (decode_rune s)"
  by (auto simp: decode_rune_def Let_def split: list.splits)

lemma runes_unfold: "s \<noteq> [] \<Longrightarrow> runes s = fst (decode_rune s) # runes (drop (snd (decode_rune s)) s)"
proof (cases s)
  case (Cons c cs)
  have "1 \<le> snd (decode_rune (c # cs))" by (rule decode_width) simp
  then obtain w where "snd (decode_rune (c # cs)) = Suc w"
    by (metis One_nat_def Suc_le_D)
  with Cons show ?thesis by simp
qed simp

lemma length_drop_decode: "s \<noteq> [] \<Longrightarrow> length s - snd (decode_rune s) < length s"
  using decode_width [of s] by (simp add: Suc_le_eq)

lemma decode_encode_scalar:
  assumes "scalar r"
  shows "decode_rune (encode_scalar r @ rest) = (r, length (encode_scalar r))"
proof -
  consider "r < 0x80" | "0x80 \<le> r" "r < 0x800" | "0x800 \<le> r" "r < 0x10000" | "0x10000 \<le> r" "r \<le> 0x10FFFF"
    using assms unfolding scalar_def by linarith
  then show ?thesis
  proof cases
    case 1
    then show ?thesis by (simp add: decode_rune_def encode_scalar_def)
  next
    case 2
    have a: "2 \<le> r div 64" "r div 64 < 32" using 2 by auto
    then show ?thesis using 2 by (simp add: decode_rune_def encode_scalar_def cont_def)
  next
    case 3
    define a b c where "a = r div 4096" and "b = r div 64 mod 64" and "c = r mod 64"
    have r: "r = a * 4096 + b * 64 + c" 
    proof -
      have "r div 4096 = r div 64 div 64" by (simp add: div_mult2_eq [symmetric])
      then have "r div 64 = a * 64 + b" unfolding a_def b_def by simp
      moreover have "r = r div 64 * 64 + c" unfolding c_def by simp
      ultimately show ?thesis by simp
    qed
    have bnd: "a < 16" "b < 64" "c < 64" using 3 by (auto simp: a_def b_def c_def)
    have "a = 0 \<Longrightarrow> 32 \<le> b" using 3 r bnd by linarith
    moreover have "a = 13 \<Longrightarrow> b < 32" using assms r bnd unfolding scalar_def by linarith
    ultimately show ?thesis using 3 bnd
      unfolding encode_scalar_def a_def [symmetric] b_def [symmetric] c_def [symmetric]
      by (auto simp: decode_rune_def Let_def cont_def second_lo_def second_hi_def r)
  next
    case 4
    define a b c d where "a = r div 262144" and "b = r div 4096 mod 64" and "c = r div 64 mod 64" and "d = r mod 64"
    have r: "r = a * 262144 + b * 4096 + c * 64 + d" 
    proof -
      have "r div 4096 = r div 64 div 64" "r div 262144 = r div 4096 div 64"
        by (simp_all add: div_mult2_eq [symmetric])
      then have "r div 4096 = a * 64 + b" "r div 64 = r div 4096 * 64 + c"
        unfolding a_def b_def c_def by simp_all
      moreover have "r = r div 64 * 64 + d" unfolding d_def by simp
      ultimately show ?thesis by simp
    qed
    have bnd: "a < 5" "b < 64" "c < 64" "d < 64" using 4 by (auto simp: a_def b_def c_def d_def)
    have "a = 0 \<Longrightarrow> 16 \<le> b" using 4 r bnd by linarith
    moreover have "a = 4 \<Longrightarrow> b < 16" using 4 r bnd by linarith
    ultimately show ?thesis using 4 bnd
      unfolding encode_scalar_def a_def [symmetric] b_def [symmetric] c_def [symmetric] d_def [symmetric]
      by (auto simp: decode_rune_def Let_def cont_def second_lo_def second_hi_def r)
  qed
qed

lemma encode_rune_ne [simp]: "encode_rune r \<noteq> []"
  by (simp add: encode_rune_def encode_scalar_def)

lemma scalar_rune_error [simp]: "scalar rune_error"
  by (simp add: scalar_def rune_error_def)

lemma runes_encode_rune: "scalar r \<Longrightarrow> runes (encode_rune r @ s) = r # runes s"
  by (subst runes_unfold) (simp, simp add: encode_rune_def decode_encode_scalar)

lemma runes_encode_runes: "list_all scalar rs \<Longrightarrow> runes (encode_runes rs @ s) = rs @ runes s"
  by (induction rs) (simp_all add: encode_runes_def runes_encode_rune)

lemma decode_scalar: "scalar (fst (decode_rune s))"
proof (cases s)
  case Nil then show ?thesis by (simp add: decode_rune_def)
next
  case (Cons c cs)
  define b where "b = byte c"
  have 1: "b < 0x80 \<Longrightarrow> scalar b" by (simp add: scalar_def)
  have 2: "b < 0xE0 \<Longrightarrow> cont 0x80 0xBF c1 \<Longrightarrow> scalar ((b - 0xC0) * 64 + (byte c1 - 0x80))" for c1
    unfolding scalar_def cont_def by (rule disjI1) linarith
  have 3: "0xE0 \<le> b \<Longrightarrow> b \<le> 0xEF \<Longrightarrow> cont (second_lo b) (second_hi b) c1 \<Longrightarrow> cont 0x80 0xBF c2 \<Longrightarrow>
      scalar ((b - 0xE0) * 4096 + (byte c1 - 0x80) * 64 + (byte c2 - 0x80))" for c1 c2
    unfolding cont_def second_hi_def second_lo_def scalar_def
    by (cases "b \<le> 0xEC"; cases "b = 0xED") (auto split: if_splits)
  have 4: "0xF0 \<le> b \<Longrightarrow> b \<le> 0xF4 \<Longrightarrow> cont (second_lo b) (second_hi b) c1 \<Longrightarrow> cont 0x80 0xBF c2 \<Longrightarrow>
      cont 0x80 0xBF c3 \<Longrightarrow>
      scalar ((b - 0xF0) * 262144 + (byte c1 - 0x80) * 4096 + (byte c2 - 0x80) * 64 + (byte c3 - 0x80))" for c1 c2 c3
    unfolding cont_def second_hi_def second_lo_def scalar_def
    by (cases "b = 0xF0"; cases "b = 0xF4") (auto split: if_splits)
  show ?thesis
    unfolding Cons decode_rune_def list.case b_def [symmetric] Let_def
    by (simp only: fst_conv if_distrib [of fst] if_distrib [of scalar] split: list.split)
      (auto simp: fst_conv intro!: 1 2 3 4)
qed

lemma list_all_scalar_runes [simp]: "list_all scalar (runes s)"
  by (induction s rule: runes.induct) (simp_all add: decode_scalar)

lemma runes_of_encode [simp]: "list_all scalar rs \<Longrightarrow> runes (encode_runes rs) = rs"
  using runes_encode_runes [of rs "[]"] by simp

lemma runes_ascii: "list_all ascii s \<Longrightarrow> runes (s @ t) = map byte s @ runes t"
  by (induction s) (simp_all add: decode_rune_def ascii_def)

lemma runes_ascii' [simp]: "list_all ascii s \<Longrightarrow> runes s = map byte s"
  using runes_ascii [of s "[]"] by simp

lemma encode_ascii: "list_all ascii s \<Longrightarrow> encode_runes (map byte s) = s"
  by (induction s) (auto simp: encode_runes_def encode_rune_def encode_scalar_def scalar_def ascii_def)


lemma decode_snoc_ascii:
  "s \<noteq> [] \<Longrightarrow> ascii x \<Longrightarrow> decode_rune (s @ [x]) = decode_rune s"
  by (auto simp: decode_rune_def ascii_def cont_def second_lo_def Let_def split: list.splits)

lemma decode_width_le: "snd (decode_rune s) \<le> length s"
  by (auto simp: decode_rune_def Let_def split: list.splits)

lemma runes_snoc_ascii: "ascii x \<Longrightarrow> runes (s @ [x]) = runes s @ [byte x]"
proof (induction s rule: length_induct)
  case (1 s)
  show ?case
  proof (cases "s = []")
    case True
    then show ?thesis using 1 by (simp add: decode_rune_def ascii_def)
  next
    case False
    let ?w = "snd (decode_rune s)"
    have "runes (drop ?w s @ [x]) = runes (drop ?w s) @ [byte x]"
      using 1 False length_drop_decode [OF False] by simp
    then show ?thesis using False 1 decode_width_le [of s]
      by (simp add: runes_unfold [of s] runes_unfold [of "s @ [x]"] decode_snoc_ascii)
  qed
qed

lemmas [gostr] = runes_of_encode runes_ascii' encode_ascii

section \<open>Package strings and strconv\<close>

text \<open>\<open>unicode.IsSpace\<close>, and \<open>strings.TrimSpace\<close>, which trims it at both ends;
\<open>utf8.DecodeLastRuneInString\<close> looks back at most four bytes for a rune start.\<close>

definition is_space :: "rune \<Rightarrow> bool" where
  "is_space r \<longleftrightarrow> (9 \<le> r \<and> r \<le> 13) \<or> r = 32 \<or> r = 0x85 \<or> r = 0xA0 \<or> r = 0x1680 \<or>
     (0x2000 \<le> r \<and> r \<le> 0x200A) \<or> r = 0x2028 \<or> r = 0x2029 \<or> r = 0x202F \<or> r = 0x205F \<or> r = 0x3000"

definition rune_start :: "char \<Rightarrow> bool" where
  "rune_start c \<longleftrightarrow> \<not> cont 0x80 0xBF c"

fun last_start :: "nat \<Rightarrow> nat \<Rightarrow> string \<Rightarrow> nat" where
  "last_start 0 i s = i"
| "last_start (Suc lim) 0 s = 0"
| "last_start (Suc lim) (Suc i) s = (if rune_start (s ! i) then i else last_start lim i s)"

definition decode_last_rune :: "string \<Rightarrow> rune \<times> nat" where
  "decode_last_rune s = (if s = [] then (rune_error, 0)
     else if byte (last s) < 0x80 then (byte (last s), 1)
     else let i = (if rune_start (last s) then length s - 1 else last_start 3 (length s - 1) s);
              (r, w) = decode_rune (drop i s)
          in if i + w = length s then (r, w) else (rune_error, 1))"

function trim_left :: "string \<Rightarrow> string" where
  "trim_left s = (if s \<noteq> [] \<and> is_space (fst (decode_rune s))
     then trim_left (drop (snd (decode_rune s)) s) else s)"
  by pat_completeness auto
termination
  by (relation "measure length") (auto simp: length_drop_decode)

function trim_right :: "string \<Rightarrow> string" where
  "trim_right s = (if s \<noteq> [] \<and> is_space (fst (decode_last_rune s)) \<and> 0 < snd (decode_last_rune s)
     then trim_right (take (length s - snd (decode_last_rune s)) s) else s)"
  by pat_completeness auto
termination
  by (relation "measure length") auto

declare trim_left.simps [simp del] trim_right.simps [simp del]

definition trim_space :: "string \<Rightarrow> string" where
  "trim_space s = trim_right (trim_left s)"

lemma trim_plain:
  assumes "s \<noteq> []" "byte (hd s) < (128 :: nat)" "\<not> is_space (byte (hd s))" "byte (last s) < (128 :: nat)" "\<not> is_space (byte (last s))"
  shows "trim_space s = s"
  using assms trim_left.simps [of s] trim_right.simps [of s]
  by (cases s) (auto simp: trim_space_def decode_rune_def decode_last_rune_def)

text \<open>The comparison \<open><\<close> on Go strings is bytewise lexicographic.\<close>

fun str_less :: "string \<Rightarrow> string \<Rightarrow> bool" where
  "str_less s [] = False"
| "str_less [] (c # cs) = True"
| "str_less (a # as) (c # cs) = (byte a < (byte c :: nat) \<or> a = c \<and> str_less as cs)"

definition has_prefix :: "string \<Rightarrow> string \<Rightarrow> bool" where
  "has_prefix s p \<longleftrightarrow> take (length p) s = p"

text \<open>\<open>strings.IndexByte\<close> and \<open>strings.LastIndexByte\<close>; \<open>None\<close> for -1.\<close>

fun index_byte :: "string \<Rightarrow> char \<Rightarrow> nat option" where
  "index_byte [] c = None"
| "index_byte (x # xs) c = (if x = c then Some 0 else map_option Suc (index_byte xs c))"

definition last_index_byte :: "string \<Rightarrow> char \<Rightarrow> nat option" where
  "last_index_byte s c = map_option (\<lambda>i. length s - Suc i) (index_byte (rev s) c)"

fun join :: "string list \<Rightarrow> string \<Rightarrow> string" where
  "join [] sep = []"
| "join [x] sep = x"
| "join (x # y # ys) sep = x @ sep @ join (y # ys) sep"

text \<open>\<open>strings.ToLower\<close> rune by rune; \<open>U\<close> is Unicode's simple lower-case mapping
outside ASCII, a table of the Go library.\<close>

definition lower_rune :: "(rune \<Rightarrow> rune) \<Rightarrow> rune \<Rightarrow> rune" where
  "lower_rune U r = (if 65 \<le> r \<and> r \<le> 90 then r + 32 else if r < 128 then r else U r)"

definition to_lower :: "(rune \<Rightarrow> rune) \<Rightarrow> string \<Rightarrow> string" where
  "to_lower U s = encode_runes (map (lower_rune U) (runes s))"

text \<open>SQLite's \<open>lower(trim(x))\<close>: spaces at the ends, ASCII letters.\<close>

definition trim_slashes :: "string \<Rightarrow> string" where
  "trim_slashes s = rev (dropWhile (\<lambda>c. c = CHR ''/'') (rev (dropWhile (\<lambda>c. c = CHR ''/'') s)))"

definition sql_lower :: "char \<Rightarrow> char" where
  "sql_lower c = (if 65 \<le> byte c \<and> byte c \<le> 90 then char_of (byte c + 32) else c)"

definition sql_key :: "string \<Rightarrow> string" where
  "sql_key s = map sql_lower (rev (dropWhile (\<lambda>c. c = CHR '' '') (rev (dropWhile (\<lambda>c. c = CHR '' '') s))))"

text \<open>Decimal formatting (\<open>strconv.Itoa\<close>, \<open>%d\<close>) and \<open>strconv.Atoi\<close> on 64-bit ints.\<close>

fun dec :: "nat \<Rightarrow> string" where
  "dec n = (if n < 10 then [char_of (48 + n)] else dec (n div 10) @ [char_of (48 + n mod 10)])"

declare dec.simps [simp del]

definition itoa :: "int \<Rightarrow> string" where
  "itoa i = (if i < 0 then ''-'' @ dec (nat (- i)) else dec (nat i))"

definition is_digit :: "char \<Rightarrow> bool" where
  "is_digit c \<longleftrightarrow> 48 \<le> (byte c :: nat) \<and> byte c \<le> (57 :: nat)"

definition digits_val :: "string \<Rightarrow> nat" where
  "digits_val s = foldl (\<lambda>n c. 10 * n + (byte c - 48)) 0 s"

definition atoi :: "string \<Rightarrow> int option" where
  "atoi s = (let neg = has_prefix s ''-'';
                 body = (if neg \<or> has_prefix s ''+'' then tl s else s);
                 v = (if neg then - int (digits_val body) else int (digits_val body))
             in if body \<noteq> [] \<and> list_all is_digit body \<and> - (2 ^ 63) \<le> v \<and> v < 2 ^ 63
                then Some v else None)"

lemma length_encode_ascii [simp]: "r < 128 \<Longrightarrow> encode_rune r = [char_of r]"
  by (simp add: encode_rune_def encode_scalar_def scalar_def)

lemma char_of_digits:
  "char_of (48::nat) = CHR ''0''" "char_of (49::nat) = CHR ''1''" "char_of (50::nat) = CHR ''2''"
  "char_of (51::nat) = CHR ''3''" "char_of (52::nat) = CHR ''4''" "char_of (53::nat) = CHR ''5''"
  "char_of (54::nat) = CHR ''6''" "char_of (55::nat) = CHR ''7''" "char_of (56::nat) = CHR ''8''"
  "char_of (57::nat) = CHR ''9''"
  by code_simp+

lemma digits_val_snoc: "digits_val (s @ [c]) = 10 * digits_val s + (byte c - 48)"
  by (simp add: digits_val_def)

lemma digit_char: "(n::nat) < 10 \<Longrightarrow> is_digit (char_of (48 + n))"
  by (simp add: is_digit_def)

lemma dec_digits: "dec n \<noteq> [] \<and> list_all is_digit (dec n) \<and> digits_val (dec n) = n"
proof (induction n rule: dec.induct)
  case (1 n)
  show ?case
  proof (cases "n < 10")
    case True
    then show ?thesis by (subst (1 2 3) dec.simps) (simp add: digit_char digits_val_def)
  next
    case False
    with "1.IH" show ?thesis
      by (subst (1 2 3) dec.simps) (simp add: digit_char digits_val_snoc)
  qed
qed

text \<open>Formatting then parsing is the identity on 64-bit values.\<close>

lemma atoi_dec: "int n < 2 ^ 63 \<Longrightarrow> atoi (dec n) = Some (int n)"
proof -
  assume n: "int n < 2 ^ 63"
  obtain c cs where d: "dec n = c # cs" using dec_digits [of n] by (cases "dec n") auto
  then have "is_digit c" using dec_digits [of n] by simp
  then have "c \<noteq> CHR ''-''" "c \<noteq> CHR ''+''" by (auto simp: is_digit_def)
  with d n dec_digits [of n] show ?thesis
    by (simp add: atoi_def Let_def has_prefix_def)
qed

section \<open>Runs and invariants\<close>

text \<open>A step that may panic is an option; \<open>run\<close> stops at the first panic.\<close>

fun run :: "('e \<Rightarrow> 's \<Rightarrow> 's option) \<Rightarrow> 'e list \<Rightarrow> 's \<Rightarrow> 's option" where
  "run step [] s = Some s"
| "run step (e # es) s = (case step e s of None \<Rightarrow> None | Some s' \<Rightarrow> run step es s')"

lemma run_append: "run step (es @ fs) s = (case run step es s of None \<Rightarrow> None | Some s' \<Rightarrow> run step fs s')"
  by (induction es arbitrary: s) (auto split: option.split)

text \<open>Operations that share an invariant and never panic under it.\<close>

locale safe_machine =
  fixes step :: "'e \<Rightarrow> 's \<Rightarrow> 's option"
    and inv :: "'s \<Rightarrow> bool"
  assumes step_safe: "inv s \<Longrightarrow> \<exists>s'. step e s = Some s' \<and> inv s'"
begin

lemma run_safe: "inv s \<Longrightarrow> \<exists>s'. run step es s = Some s' \<and> inv s'"
proof (induction es arbitrary: s)
  case Nil
  then show ?case by simp
next
  case (Cons e es)
  then show ?case using step_safe [of s e] by fastforce
qed

lemma run_total: "inv s \<Longrightarrow> run step es s \<noteq> None"
  using run_safe [of s es] by auto

lemma run_inv: "inv s \<Longrightarrow> run step es s = Some s' \<Longrightarrow> inv s'"
  using run_safe [of s es] by auto

end

text \<open>The same contract for operations that cannot panic at all.\<close>

locale machine =
  fixes step :: "'e \<Rightarrow> 's \<Rightarrow> 's"
    and inv :: "'s \<Rightarrow> bool"
  assumes step_inv: "inv s \<Longrightarrow> inv (step e s)"
begin

lemma fold_inv: "inv s \<Longrightarrow> inv (fold step es s)"
  by (induction es arbitrary: s) (auto simp: step_inv)

end

sublocale machine \<subseteq> total: safe_machine "\<lambda>e s. Some (step e s)" inv
  by unfold_locales (auto simp: step_inv)

end
