(* ===== verification/Keypad.thy ===== *)
theory Keypad
  imports Prelude
begin

text \<open>
  The DTMF text editor of \<open>internal/keypad/keypad.go\<close>: a \<open>MultiTap\<close> record, \<open>Press\<close> and its
  helpers. A key press is a byte; \<open>PendingKey\<close> 0 means that nothing is pending. Indexing
  \<open>values[(Presses-1)%len(values)]\<close> panics in Go for \<open>Presses = 0\<close> or an unknown key, so the
  operations return an option (\<open>None\<close> is the panic) and the editor invariant rules it out.
\<close>

section \<open>The editor\<close>

datatype mode = ModeText | ModeEmail

record multitap =
  mt_text :: string
  pending_key :: char
  presses :: nat
  mt_mode :: mode
  max_runes :: nat
  overflowed :: bool
  overflow_prompted :: bool
  star_armed :: bool

abbreviation nokey :: char where
  "nokey \<equiv> CHR 0x00"

definition groups :: "char \<Rightarrow> string option" where
  "groups k =
     (if k = CHR ''1'' then Some (''1@.?&+-_=/:;,$%()!#*'' @ [CHR 0x27, CHR 0x22])
      else if k = CHR ''2'' then Some ''abc2''
      else if k = CHR ''3'' then Some ''def3''
      else if k = CHR ''4'' then Some ''ghi4''
      else if k = CHR ''5'' then Some ''jkl5''
      else if k = CHR ''6'' then Some ''mno6''
      else if k = CHR ''7'' then Some ''pqrs7''
      else if k = CHR ''8'' then Some ''tuv8''
      else if k = CHR ''9'' then Some ''wxyz9''
      else if k = CHR ''0'' then Some ''0 ''
      else None)"

definition new_editor :: "mode \<Rightarrow> multitap" where
  "new_editor m = \<lparr>mt_text = [], pending_key = nokey, presses = 0, mt_mode = m, max_runes = 0,
     overflowed = False, overflow_prompted = False, star_armed = False\<rparr>"

definition new_with_limit :: "mode \<Rightarrow> int \<Rightarrow> multitap" where
  "new_with_limit m limit = (new_editor m)\<lparr>max_runes := nat (if limit < 0 then 0 else limit)\<rparr>"

definition backspace :: "string \<Rightarrow> string" where
  "backspace v = (if v = [] then v else encode_runes (butlast (runes v)))"

definition current :: "multitap \<Rightarrow> string option" where
  "current m = (case groups (pending_key m) of
      None \<Rightarrow> None
    | Some vs \<Rightarrow> if presses m = 0 then None else Some [vs ! ((presses m - 1) mod length vs)])"

definition append_current :: "multitap \<Rightarrow> (multitap \<times> string) option" where
  "append_current m =
     (if pending_key m = nokey then Some (m, [])
      else case current m of
        None \<Rightarrow> None
      | Some c \<Rightarrow>
          if 0 < max_runes m \<and> max_runes m < rune_count (mt_text m) + rune_count c
          then Some (m\<lparr>overflowed := True\<rparr>, [])
          else Some (m\<lparr>mt_text := mt_text m @ c\<rparr>, c))"

abbreviation clear_pending :: "multitap \<Rightarrow> multitap" where
  "clear_pending m \<equiv> m\<lparr>pending_key := nokey, presses := 0\<rparr>"

text \<open>The tail of \<open>Press\<close> for a digit, after a different pending key has been committed.\<close>

definition press_digit :: "multitap \<Rightarrow> multitap \<times> string \<times> bool" where
  "press_digit m =
     (if 0 < max_runes m \<and> max_runes m \<le> rune_count (mt_text m)
      then (clear_pending (m\<lparr>overflowed := True\<rparr>), [], False)
      else (m\<lparr>presses := Suc (presses m)\<rparr>, [], False))"

definition press :: "char \<Rightarrow> multitap \<Rightarrow> (multitap \<times> string \<times> bool) option" where
  "press key m =
     (if key = CHR ''*'' then
        (if star_armed m then
           Some (m\<lparr>star_armed := False, mt_text := backspace (mt_text m), overflowed := False,
                   overflow_prompted := False\<rparr>, [], False)
         else if pending_key m \<noteq> nokey then
           (case append_current m of
              None \<Rightarrow> None
            | Some (m', c) \<Rightarrow> Some ((clear_pending m')\<lparr>star_armed := True\<rparr>, c, False))
         else Some (m\<lparr>star_armed := True\<rparr>, [], False))
      else if key = CHR ''#'' then
        (case (if pending_key m \<noteq> nokey
               then map_option (\<lambda>(m', c). (clear_pending m', c))
                      (append_current (m\<lparr>star_armed := False\<rparr>))
               else Some (m\<lparr>star_armed := False\<rparr>, [])) of
           None \<Rightarrow> None
         | Some (m', c) \<Rightarrow>
             Some (if 0 < max_runes m' \<and> max_runes m' < rune_count (mt_text m')
                   then m'\<lparr>overflowed := True\<rparr> else m', c, True))
      else if groups key = None then Some (m, [], False)
      else
        let m1 = m\<lparr>star_armed := False\<rparr> in
        if pending_key m1 \<noteq> key then
          (if pending_key m1 \<noteq> nokey then
             (case append_current m1 of
                None \<Rightarrow> None
              | Some (m2, c) \<Rightarrow>
                  if c = [] \<and> overflowed m2 then Some (clear_pending m2, [], False)
                  else Some (press_digit (m2\<lparr>pending_key := key, presses := 0\<rparr>)))
           else Some (press_digit (m1\<lparr>pending_key := key, presses := 0\<rparr>)))
        else Some (press_digit m1))"

definition press_state :: "char \<Rightarrow> multitap \<Rightarrow> multitap option" where
  "press_state key m = map_option fst (press key m)"

abbreviation type_keys :: "string \<Rightarrow> multitap \<Rightarrow> multitap option" where
  "type_keys ks m \<equiv> run press_state ks m"

section \<open>The editor invariant\<close>

definition editor_inv :: "multitap \<Rightarrow> bool" where
  "editor_inv m \<longleftrightarrow>
     (pending_key m \<noteq> nokey \<longrightarrow> groups (pending_key m) \<noteq> None \<and> 0 < presses m) \<and>
     (star_armed m \<longrightarrow> pending_key m = nokey)"

definition within_limit :: "multitap \<Rightarrow> bool" where
  "within_limit m \<longleftrightarrow> (0 < max_runes m \<longrightarrow> rune_count (mt_text m) \<le> max_runes m)"

lemma groups_ascii: "groups k = Some g \<Longrightarrow> list_all ascii g \<and> g \<noteq> []"
  by (auto simp: groups_def ascii_def split: if_splits)

lemma groups_nokey [simp]: "groups nokey = None" "groups CHR ''*'' = None" "groups CHR ''#'' = None"
  by (simp_all add: groups_def)

lemma current_ascii:
  assumes "current m = Some c"
  obtains x where "c = [x]" "ascii x"
proof -
  from assms obtain g where g: "groups (pending_key m) = Some g"
    and c: "c = [g ! ((presses m - 1) mod length g)]"
    by (auto simp: current_def split: option.splits if_splits)
  from groups_ascii [OF g] have "list_all ascii g" "(presses m - 1) mod length g < length g" by auto
  then have "ascii (g ! ((presses m - 1) mod length g))" by (simp add: list_all_length)
  with c that show ?thesis by blast
qed

lemma runes_backspace: "runes (backspace v) = butlast (runes v)"
proof (cases "v = []")
  case False
  have "list_all scalar (butlast (runes v))"
    using list_all_scalar_runes [of v] by (auto simp: list_all_iff dest: in_set_butlastD)
  with False show ?thesis by (simp add: backspace_def)
qed (simp add: backspace_def)

lemma rune_count_backspace: "rune_count (backspace v) = rune_count v - 1"
  by (simp add: runes_backspace)

lemma rune_count_append_ascii: "ascii x \<Longrightarrow> rune_count (t @ [x]) = Suc (rune_count t)"
  by (simp add: runes_snoc_ascii)

section \<open>Every key press is safe and keeps the field within its limit\<close>

lemma append_current_safe:
  assumes "editor_inv m" "within_limit m"
  obtains m' c where "append_current m = Some (m', c)" "within_limit m'"
    "pending_key m' = pending_key m" "presses m' = presses m" "max_runes m' = max_runes m"
    "star_armed m' = star_armed m"
proof (cases "pending_key m = nokey")
  case True
  then show ?thesis using assms that by (simp add: append_current_def)
next
  case False
  then obtain c where c: "current m = Some c"
    using assms by (auto simp: editor_inv_def current_def)
  from c obtain x where x: "c = [x]" "ascii x" by (rule current_ascii)
  show ?thesis
  proof (cases "0 < max_runes m \<and> max_runes m < rune_count (mt_text m) + rune_count c")
    case True
    then show ?thesis using False c assms that [of "m\<lparr>overflowed := True\<rparr>" "[]"]
      by (simp add: append_current_def within_limit_def)
  next
    case ok: False
    then have "within_limit (m\<lparr>mt_text := mt_text m @ c\<rparr>)"
      using x by (auto simp: within_limit_def rune_count_append_ascii)
    moreover have "append_current m = Some (m\<lparr>mt_text := mt_text m @ c\<rparr>, c)"
      unfolding append_current_def using False c ok by (simp only: if_False option.case)
    ultimately show ?thesis by (intro that [of "m\<lparr>mt_text := mt_text m @ c\<rparr>" c]) simp_all
  qed
qed

definition editor_ok :: "multitap \<Rightarrow> bool" where
  "editor_ok m \<longleftrightarrow> editor_inv m \<and> within_limit m"

lemma press_digit_ok:
  assumes "within_limit m" "groups (pending_key m) \<noteq> None" "\<not> star_armed m"
  shows "editor_ok (fst (press_digit m))"
  using assms by (auto simp: editor_ok_def press_digit_def editor_inv_def within_limit_def)

lemma press_safe:
  assumes "editor_ok m"
  shows "\<exists>m' c d. press key m = Some (m', c, d) \<and> editor_ok m' \<and> max_runes m' = max_runes m"
proof -
  have inv: "editor_inv m" "within_limit m" using assms by (auto simp: editor_ok_def)
  have inv1: "editor_inv (m\<lparr>star_armed := False\<rparr>)" "within_limit (m\<lparr>star_armed := False\<rparr>)"
    using inv by (auto simp: editor_inv_def within_limit_def)
  obtain m' c where a: "append_current m = Some (m', c)" "within_limit m'" "max_runes m' = max_runes m"
    by (rule append_current_safe [OF inv])
  obtain m1 c1 where b: "append_current (m\<lparr>star_armed := False\<rparr>) = Some (m1, c1)" "within_limit m1"
      "max_runes m1 = max_runes m" "star_armed m1 = False"
    by (rule append_current_safe [OF inv1]) simp
  consider "key = CHR ''*''" | "key = CHR ''#''" | "groups key = None" "key \<noteq> CHR ''*''" "key \<noteq> CHR ''#''"
    | "groups key \<noteq> None" by (cases "groups key") auto
  then show ?thesis
  proof cases
    case 1
    then show ?thesis using a inv
      by (auto simp: press_def editor_ok_def editor_inv_def within_limit_def rune_count_backspace)
  next
    case 2
    then show ?thesis using b inv
      by (auto simp: press_def editor_ok_def editor_inv_def within_limit_def)
  next
    case 3
    then show ?thesis using assms by (auto simp: press_def)
  next
    case 4
    then have k: "key \<noteq> CHR ''*''" "key \<noteq> CHR ''#''" "key \<noteq> nokey" by auto
    show ?thesis
    proof (cases "pending_key m = key")
      case True
      have "editor_ok (fst (press_digit (m\<lparr>star_armed := False\<rparr>)))"
        using 4 True inv1 by (intro press_digit_ok) auto
      then show ?thesis using 4 k True by (auto simp: press_def Let_def press_digit_def)
    next
      case False
      have "editor_ok (fst (press_digit (m1\<lparr>pending_key := key, presses := 0\<rparr>)))"
           "editor_ok (fst (press_digit (m\<lparr>star_armed := False, pending_key := key, presses := 0\<rparr>)))"
        using 4 b inv1 by (auto intro!: press_digit_ok simp: within_limit_def)
      moreover have "editor_ok (clear_pending m1)"
        using b by (simp add: editor_ok_def editor_inv_def within_limit_def)
      ultimately show ?thesis using 4 k False b
        by (auto simp: press_def Let_def press_digit_def split: if_splits)
    qed
  qed
qed

interpretation editor: safe_machine press_state "\<lambda>m. editor_ok m \<and> max_runes m = limit" for limit
  using press_safe by unfold_locales (fastforce simp: press_state_def)

lemma new_with_limit_ok: "editor_ok (new_with_limit md n)"
  by (simp add: new_with_limit_def new_editor_def editor_ok_def editor_inv_def within_limit_def)

section \<open>Typing a text\<close>

text \<open>The keys a caller presses for a character: its key, once per position in the key's
group, then star. A character is typeable when some key's group holds it.\<close>

fun position :: "char \<Rightarrow> string \<Rightarrow> nat option" where
  "position c [] = None"
| "position c (x # xs) = (if x = c then Some 0 else map_option Suc (position c xs))"

fun find_key :: "char \<Rightarrow> string \<Rightarrow> (char \<times> nat) option" where
  "find_key c [] = None"
| "find_key c (k # ks) = (case position c (the (groups k)) of
       None \<Rightarrow> find_key c ks | Some i \<Rightarrow> Some (k, i))"

definition key_of :: "char \<Rightarrow> (char \<times> nat) option" where
  "key_of c = find_key c ''1234567890''"

definition keys_for :: "char \<Rightarrow> string" where
  "keys_for c = (case key_of c of None \<Rightarrow> [] | Some (k, i) \<Rightarrow> replicate (Suc i) k @ ''*'')"

definition keys_for_text :: "string \<Rightarrow> string" where
  "keys_for_text s = concat (map keys_for s)"

definition typeable :: "char \<Rightarrow> bool" where
  "typeable c \<longleftrightarrow> key_of c \<noteq> None"

lemma position_Some: "position c xs = Some i \<Longrightarrow> i < length xs \<and> xs ! i = c"
  by (induction xs arbitrary: i) (auto split: if_splits)

lemma find_key_Some:
  "find_key c ks = Some (k, i) \<Longrightarrow> k \<in> set ks \<and> position c (the (groups k)) = Some i"
  by (induction ks) (auto split: option.splits)

lemma key_of_group:
  assumes "key_of c = Some (k, i)"
  obtains g where "groups k = Some g" "i < length g" "g ! i = c" "k \<noteq> CHR ''*''" "k \<noteq> CHR ''#''" "k \<noteq> nokey"
proof -
  have k: "k \<in> set ''1234567890''" and p: "position c (the (groups k)) = Some i"
    using find_key_Some [of c _ k i] assms unfolding key_of_def by blast+
  from k have "groups k \<noteq> None" by (auto simp: groups_def)
  moreover from k have "k \<noteq> CHR ''*''" "k \<noteq> CHR ''#''" "k \<noteq> nokey" by auto
  ultimately show ?thesis using position_Some [OF p] that by auto
qed

lemma typeable_ascii: "typeable c \<Longrightarrow> ascii c"
  unfolding typeable_def using key_of_group groups_ascii
  by (metis list_all_length not_None_eq surj_pair)

lemma press_first:
  assumes "groups k = Some g" "k \<noteq> CHR ''*''" "k \<noteq> CHR ''#''" "k \<noteq> nokey"
    and "pending_key m = nokey" "max_runes m = 0 \<or> rune_count (mt_text m) < max_runes m"
  shows "press_state k m = Some (m\<lparr>star_armed := False, pending_key := k, presses := 1\<rparr>)"
  using assms by (auto simp: press_state_def press_def press_digit_def Let_def)

lemma press_again:
  assumes "groups k = Some g" "k \<noteq> CHR ''*''" "k \<noteq> CHR ''#''"
    and "pending_key m = k" "\<not> star_armed m" "max_runes m = 0 \<or> rune_count (mt_text m) < max_runes m"
  shows "press_state k m = Some (m\<lparr>presses := Suc (presses m)\<rparr>)"
  using assms by (auto simp: press_state_def press_def press_digit_def Let_def)

lemma press_repeat:
  assumes "groups k = Some g" "k \<noteq> CHR ''*''" "k \<noteq> CHR ''#''"
    and "pending_key m = k" "\<not> star_armed m" "max_runes m = 0 \<or> rune_count (mt_text m) < max_runes m"
  shows "type_keys (replicate n k) m = Some (m\<lparr>presses := presses m + n\<rparr>)"
  using assms
proof (induction n arbitrary: m)
  case (Suc n)
  then show ?case by (simp add: press_again)
qed simp

lemma press_star:
  assumes "groups (pending_key m) = Some g" "presses m = Suc i" "i < length g" "\<not> star_armed m"
    and "ascii (g ! i)" "max_runes m = 0 \<or> rune_count (mt_text m) < max_runes m" "pending_key m \<noteq> nokey"
  shows "press_state CHR ''*'' m =
     Some (m\<lparr>mt_text := mt_text m @ [g ! i], pending_key := nokey, presses := 0, star_armed := True\<rparr>)"
  using assms by (auto simp: press_state_def press_def append_current_def current_def decode_rune_def)

lemma type_char:
  assumes "typeable c" "pending_key m = nokey" "presses m = 0"
    and "max_runes m = 0 \<or> rune_count (mt_text m) < max_runes m"
  shows "type_keys (keys_for c) m = Some (m\<lparr>mt_text := mt_text m @ [c], star_armed := True\<rparr>) \<and> ascii c"
proof -
  obtain k i where ki: "key_of c = Some (k, i)" using assms(1) by (auto simp: typeable_def)
  then obtain g where g: "groups k = Some g" "i < length g" "g ! i = c"
    and k: "k \<noteq> CHR ''*''" "k \<noteq> CHR ''#''" "k \<noteq> nokey" by (rule key_of_group)
  have c: "ascii c" using groups_ascii [OF g(1)] g by (auto simp: list_all_length)
  let ?m1 = "m\<lparr>star_armed := False, pending_key := k, presses := 1\<rparr>"
  let ?m2 = "?m1\<lparr>presses := Suc i\<rparr>"
  have "type_keys (replicate (Suc i) k) m = type_keys (replicate i k) ?m1"
    using press_first [OF g(1) k assms(2,4)] by simp
  also have "\<dots> = Some ?m2"
    using press_repeat [OF g(1) k(1,2), of ?m1 i] assms(4) by simp
  finally have "type_keys (keys_for c) m = press_state CHR ''*'' ?m2"
    by (simp only: keys_for_def ki run_append option.case prod.case) (simp split: option.split)
  also have "\<dots> = Some (m\<lparr>mt_text := mt_text m @ [c], star_armed := True\<rparr>)"
    using press_star [of ?m2 g i] g k c assms by simp
  finally show ?thesis using c by simp
qed

lemma type_text:
  assumes "list_all typeable s" "pending_key m = nokey" "presses m = 0"
    and "max_runes m = 0 \<or> rune_count (mt_text m) + length s \<le> max_runes m"
  shows "type_keys (keys_for_text s) m =
     Some (m\<lparr>mt_text := mt_text m @ s, star_armed := (s \<noteq> [] \<or> star_armed m)\<rparr>)"
  using assms
proof (induction s arbitrary: m)
  case Nil
  then show ?case by (simp add: keys_for_text_def)
next
  case (Cons c s)
  let ?m = "m\<lparr>mt_text := mt_text m @ [c], star_armed := True\<rparr>"
  have h: "max_runes m = 0 \<or> rune_count (mt_text m) < max_runes m" using Cons.prems(4) by auto
  note ch = type_char [OF _ Cons.prems(2,3) h, of c]
  have "max_runes ?m = 0 \<or> rune_count (mt_text ?m) + length s \<le> max_runes ?m"
    using Cons.prems(1,4) ch by (auto simp: rune_count_append_ascii)
  then have "type_keys (keys_for_text s) ?m =
      Some (?m\<lparr>mt_text := mt_text ?m @ s, star_armed := (s \<noteq> [] \<or> star_armed ?m)\<rparr>)"
    using Cons.prems by (intro Cons.IH) simp_all
  then show ?case using Cons.prems(1) ch
    by (simp add: keys_for_text_def run_append)
qed

section \<open>Properties\<close>

text \<open>C24. The editor is safe on every key sequence: from an editor made with a limit, no
sequence of DTMF keys (valid or not) makes \<open>Press\<close> panic, and with a positive limit the
committed text never holds more runes than the limit.\<close>

theorem editor_safe_and_bounded:
  "\<exists>m. type_keys ks (new_with_limit md n) = Some m \<and>
       (0 < n \<longrightarrow> int (rune_count (mt_text m)) \<le> n)"
proof -
  have "editor_ok (new_with_limit md n) \<and> max_runes (new_with_limit md n) = nat n"
    by (simp add: new_with_limit_ok) (simp add: new_with_limit_def new_editor_def)
  from editor.run_safe [OF this] show ?thesis
    by (fastforce simp: editor_ok_def within_limit_def)
qed

theorem editor_safe_and_bounded_witness:
  "\<exists>m. type_keys ''2*3*4*#x'' (new_with_limit ModeText 2) = Some m \<and> int (rune_count (mt_text m)) \<le> 2"
  using editor_safe_and_bounded [of "''2*3*4*#x''" ModeText 2] by auto

text \<open>C25. Multi-tap typing is complete and exact: for every text over the characters on the
keypad that fits the limit, pressing each character's key as often as its position in the
group, star after each character, and pound at the end commits exactly that text, with no
overflow reported.\<close>

theorem typing_roundtrip:
  assumes "list_all typeable s" "int (length s) \<le> n"
  shows "\<exists>m. type_keys (keys_for_text s @ ''#'') (new_with_limit md n) = Some m \<and>
     mt_text m = s \<and> \<not> overflowed m \<and> pending_key m = nokey"
proof -
  let ?m0 = "new_with_limit md n"
  let ?m1 = "?m0\<lparr>mt_text := s, star_armed := s \<noteq> []\<rparr>"
  have m0: "pending_key ?m0 = nokey" "presses ?m0 = 0" "mt_text ?m0 = []" "max_runes ?m0 = nat n"
      "overflowed ?m0 = False" "star_armed ?m0 = False"
    by (simp_all add: new_with_limit_def new_editor_def)
  have len: "length s \<le> nat n" using assms(2) by linarith
  have t: "type_keys (keys_for_text s) ?m0 = Some ?m1"
    using type_text [of s ?m0] assms(1) len m0 by simp
  have "rune_count s \<le> nat n"
    using len assms(1) typeable_ascii by (simp add: list_all_iff)
  then have "press_state CHR ''#'' ?m1 = Some (?m1\<lparr>star_armed := False\<rparr>)"
    using m0 by (auto simp: press_state_def press_def)
  with t m0 show ?thesis by (simp add: run_append)
qed

theorem typing_roundtrip_witness:
  "\<exists>m. type_keys (keys_for_text ''al@b.de'' @ ''#'') (new_with_limit ModeEmail 254) = Some m \<and>
     mt_text m = ''al@b.de'' \<and> \<not> overflowed m \<and> pending_key m = nokey"
proof -
  have "list_all typeable ''al@b.de''"
    by (simp add: typeable_def key_of_def groups_def)
  then show ?thesis by (rule typing_roundtrip) simp
qed

text \<open>Star never deletes on its own: in a well-formed editor a first star appends at most
the pending character and removes nothing, and a star right after it removes exactly the last
rune of the text.\<close>

theorem star_then_backspace:
  assumes "editor_ok m" "\<not> star_armed m"
  shows "\<exists>m1 c m2. press CHR ''*'' m = Some (m1, c, False) \<and> mt_text m1 = mt_text m @ c \<and>
     press CHR ''*'' m1 = Some (m2, [], False) \<and> runes (mt_text m2) = butlast (runes (mt_text m1))"
proof -
  obtain m1 c d where p: "press CHR ''*'' m = Some (m1, c, d)"
    using press_safe [OF assms(1)] by blast
  then have 1: "\<not> d" "star_armed m1" "mt_text m1 = mt_text m @ c"
    using assms(2) by (auto simp: press_def append_current_def split: option.splits if_splits)
  then have "press CHR ''*'' m1 = Some (m1\<lparr>star_armed := False, mt_text := backspace (mt_text m1),
      overflowed := False, overflow_prompted := False\<rparr>, [], False)"
    by (simp add: press_def)
  with p 1 show ?thesis by (simp add: runes_backspace)
qed

theorem star_then_backspace_witness:
  "\<exists>m1 c m2. press CHR ''*'' (new_editor ModeText) = Some (m1, c, False) \<and>
     mt_text m1 = mt_text (new_editor ModeText) @ c \<and>
     press CHR ''*'' m1 = Some (m2, [], False) \<and> runes (mt_text m2) = butlast (runes (mt_text m1))"
  by (rule star_then_backspace)
    (simp_all add: new_editor_def editor_ok_def editor_inv_def within_limit_def)

end
