(* ===== verification/Maps.thy ===== *)
theory Maps
  imports Prelude
begin

text \<open>
  Go maps as association lists: lookup is \<open>map_of\<close>, assignment \<open>AList.update\<close> and
  \<open>delete\<close> is \<open>AList.delete\<close>; a range that deletes the entries failing a test is a
  filter.  The lemmas say how the number of entries, and the number of entries with a
  property, move under each operation; a component keeps \<open>distinct_keys\<close> in its invariant.
\<close>

named_theorems gomap "sizes of association lists under update and delete"

abbreviation distinct_keys :: "('k \<times> 'v) list \<Rightarrow> bool" where
  "distinct_keys m \<equiv> distinct (map fst m)"

abbreviation put :: "'k \<Rightarrow> 'v \<Rightarrow> ('k \<times> 'v) list \<Rightarrow> ('k \<times> 'v) list" where
  "put \<equiv> AList.update"

abbreviation del :: "'k \<Rightarrow> ('k \<times> 'v) list \<Rightarrow> ('k \<times> 'v) list" where
  "del \<equiv> AList.delete"

text \<open>Reading a missing key of a map with a default element value.\<close>

definition get_or :: "'v \<Rightarrow> ('k \<times> 'v) list \<Rightarrow> 'k \<Rightarrow> 'v" where
  "get_or d m k = (case map_of m k of None \<Rightarrow> d | Some v \<Rightarrow> v)"

text \<open>The number of entries of a map with a property.\<close>

definition count_if :: "('k \<Rightarrow> 'v \<Rightarrow> bool) \<Rightarrow> ('k \<times> 'v) list \<Rightarrow> nat" where
  "count_if P m = length (filter (\<lambda>(k, v). P k v) m)"

text \<open>What an entry contributes to such a count.\<close>

definition weight :: "('k \<Rightarrow> 'v \<Rightarrow> bool) \<Rightarrow> 'k \<Rightarrow> 'v option \<Rightarrow> nat" where
  "weight P k x = (case x of None \<Rightarrow> 0 | Some v \<Rightarrow> if P k v then 1 else 0)"

lemma weight_simps [simp]:
  "weight P k None = 0" "weight P k (Some v) = (if P k v then 1 else 0)"
  by (simp_all add: weight_def)

lemma distinct_put [simp, intro]: "distinct_keys m \<Longrightarrow> distinct_keys (put k v m)"
  by (rule distinct_update)

lemma distinct_del [simp, intro]: "distinct_keys m \<Longrightarrow> distinct_keys (del k m)"
  by (rule distinct_delete)

lemma map_of_put: "map_of (put k v m) = (map_of m)(k \<mapsto> v)"
  by (rule ext) (simp add: update_conv)

lemma map_of_del: "map_of (del k m) = (map_of m)(k := None)"
  by (rule ext) (simp add: delete_conv)

lemma lookup_put [simp]: "map_of (put k v m) k' = (if k' = k then Some v else map_of m k')"
  by (simp add: map_of_put)

lemma lookup_del [simp]: "map_of (del k m) k' = (if k' = k then None else map_of m k')"
  by (simp add: map_of_del)

lemma get_or_put [simp]: "get_or d (put k v m) k' = (if k' = k then v else get_or d m k')"
  by (simp add: get_or_def)

lemma get_or_del [simp]: "get_or d (del k m) k' = (if k' = k then d else get_or d m k')"
  by (simp add: get_or_def)

lemma get_or_Nil [simp]: "get_or d [] k = d"
  by (simp add: get_or_def)

lemma count_Nil [simp]: "count_if P [] = 0"
  by (simp add: count_if_def)

lemma count_Cons [simp]: "count_if P ((k, v) # m) = (if P k v then Suc (count_if P m) else count_if P m)"
  by (simp add: count_if_def)

lemma count_true: "count_if (\<lambda>_ _. True) m = length m"
  by (induction m) auto

lemma weight_le: "distinct_keys m \<Longrightarrow> weight P k (map_of m k) \<le> count_if P m"
proof (induction m)
  case (Cons x m)
  then show ?case by (cases x) auto
qed simp

lemma map_of_not_key: "k \<notin> fst ` set m \<Longrightarrow> map_of m k = None"
  by (simp add: map_of_eq_None_iff)

lemma count_put [gomap]:
  "distinct_keys m \<Longrightarrow>
   count_if P (put k v m) + weight P k (map_of m k) = count_if P m + weight P k (Some v)"
proof (induction m)
  case (Cons x m)
  obtain k' v' where x: "x = (k', v')" by (cases x)
  show ?case
  proof (cases "k' = k")
    case True
    with Cons.prems x show ?thesis by (auto simp: map_of_not_key)
  next
    case False
    with Cons.prems Cons.IH x show ?thesis by auto
  qed
qed simp

lemma del_not_key [simp]: "k \<notin> fst ` set m \<Longrightarrow> del k m = m"
  by (induction m) auto

lemma count_del [gomap]:
  "distinct_keys m \<Longrightarrow> count_if P (del k m) + weight P k (map_of m k) = count_if P m"
proof (induction m)
  case (Cons x m)
  obtain k' v' where x: "x = (k', v')" by (cases x)
  show ?case
  proof (cases "k' = k")
    case True
    with Cons.prems x show ?thesis by (auto simp: map_of_not_key)
  next
    case False
    with Cons.prems Cons.IH x show ?thesis by auto
  qed
qed simp

lemma size_put [gomap]:
  "distinct_keys m \<Longrightarrow> length (put k v m) = length m + (if map_of m k = None then 1 else 0)"
  using count_put [of m "\<lambda>_ _. True" k v]
  by (auto simp: count_true weight_def split: option.splits)

lemma size_del [gomap]:
  "distinct_keys m \<Longrightarrow> length (del k m) = length m - (if map_of m k = None then 0 else 1)"
  using count_del [of m "\<lambda>_ _. True" k]
  by (auto simp: count_true weight_def split: option.splits)

lemma size_del_le: "length (del k m) \<le> length m"
  by (rule length_delete_le)

lemma put_nonempty [simp]: "put k v m \<noteq> []"
  by (cases m) auto

lemma count_filter: "count_if P (filter (\<lambda>(k, v). Q k v) m) = count_if (\<lambda>k v. Q k v \<and> P k v) m"
  by (induction m) auto

lemma count_le: "count_if P m \<le> length m"
  by (simp add: count_if_def)

lemma count_zero: "count_if P m = 0 \<longleftrightarrow> (\<forall>(k, v) \<in> set m. \<not> P k v)"
  by (auto simp: count_if_def filter_empty_conv)

lemma count_mono: "(\<And>k v. P k v \<Longrightarrow> Q k v) \<Longrightarrow> count_if P m \<le> count_if Q m"
  by (induction m) auto

lemma distinct_filter_keys [simp]: "distinct_keys m \<Longrightarrow> distinct_keys (filter P m)"
  by (induction m) auto

lemma lookup_filter:
  "distinct_keys m \<Longrightarrow> map_of (filter (\<lambda>(k, v). P k v) m) k =
     (case map_of m k of None \<Rightarrow> None | Some v \<Rightarrow> if P k v then Some v else None)"
proof (induction m)
  case (Cons x m)
  then show ?case by (cases x) (force simp: map_of_not_key split: option.splits)
qed simp

lemma put_fresh: "map_of m k = None \<Longrightarrow> put k v m = m @ [(k, v)]"
  by (induction m) (auto split: if_splits)

lemma put_put_same [simp]: "put k v (put k w m) = put k v m"
  by (induction m) auto

lemma lookup_in: "map_of m k = Some v \<Longrightarrow> (k, v) \<in> set m"
  by (rule map_of_SomeD)

lemma in_lookup: "distinct_keys m \<Longrightarrow> (k, v) \<in> set m \<Longrightarrow> map_of m k = Some v"
  by simp

lemma in_put: "x \<in> set (put k v m) \<Longrightarrow> x = (k, v) \<or> x \<in> set m"
  by (induction m) (auto split: if_splits)

lemma in_del: "x \<in> set (del k m) \<Longrightarrow> x \<in> set m"
  by (auto simp: AList.delete_eq)

end
