(* ===== verification/Sessions.thy ===== *)
theory Sessions
  imports Maps
begin

text \<open>
  The web session store (internal/web/sessions.go, the types in server.go): sessions by
  token, a count per user, a periodic reap, and the grant a sign-in holds between reserving
  a session and disclosing it.  Times are nanoseconds since the zero time; every clock
  reading of an operation is a parameter, because the clock may move between two readings
  of one call.  A range over a map deletes in list order, and the result does not depend
  on that order.
\<close>

section \<open>State\<close>

definition session_max_total :: int where "session_max_total = 4096"
definition session_max_per_user :: int where "session_max_per_user = 16"
definition session_reap_period :: int where "session_reap_period = 60 * 10 ^ 9"
definition session_lifetime :: int where "session_lifetime = 12 * 3600 * 10 ^ 9"

record session =
  user_id :: string
  csrf :: string
  expires :: int

record session_store =
  by_token :: "(string \<times> session) list"
  by_user :: "(string \<times> int) list"
  last_reap :: int

definition new_session_store :: session_store where
  "new_session_store = \<lparr>by_token = [], by_user = [], last_reap = 0\<rparr>"

definition user_count :: "session_store \<Rightarrow> string \<Rightarrow> int" where
  "user_count s u = get_or 0 (by_user s) u"

section \<open>Operations\<close>

definition delete_locked :: "string \<Rightarrow> session_store \<Rightarrow> session_store" where
  "delete_locked token s = (case map_of (by_token s) token of
      None \<Rightarrow> s
    | Some x \<Rightarrow>
       (let n = user_count s (user_id x) - 1;
            s1 = s\<lparr>by_token := del token (by_token s), by_user := put (user_id x) n (by_user s)\<rparr>
        in if n = 0 then s1\<lparr>by_user := del (user_id x) (by_user s1)\<rparr> else s1))"

text \<open>Deleting, one after another, the tokens whose session (as the range saw it) satisfies a test.\<close>

definition delete_where :: "(session \<Rightarrow> bool) \<Rightarrow> session_store \<Rightarrow> session_store" where
  "delete_where P s =
     fold (\<lambda>(token, x) acc. if P x then delete_locked token acc else acc) (by_token s) s"

definition reap_locked :: "int \<Rightarrow> session_store \<Rightarrow> session_store" where
  "reap_locked now s =
     (if now < last_reap s + session_reap_period then s
      else delete_where (\<lambda>x. \<not> now < expires x) (s\<lparr>last_reap := now\<rparr>))"

definition insert_session :: "string \<Rightarrow> session \<Rightarrow> session_store \<Rightarrow> session_store" where
  "insert_session token x s =
     s\<lparr>by_token := put token x (by_token s),
       by_user := put (user_id x) (user_count s (user_id x) + 1) (by_user s)\<rparr>"

definition store_put :: "int \<Rightarrow> string \<Rightarrow> session \<Rightarrow> session_store \<Rightarrow> bool \<times> session_store" where
  "store_put now token x s0 =
     (let s = reap_locked now s0;
          old = map_of (by_token s) token;
          exists = (old \<noteq> None);
          n = user_count s (user_id x);
          n' = (case old of Some q \<Rightarrow> if user_id q = user_id x then n - 1 else n | None \<Rightarrow> n)
      in if (\<not> exists \<and> int (length (by_token s)) \<ge> session_max_total) \<or> n' \<ge> session_max_per_user
         then (False, s)
         else (True, insert_session token x (if exists then delete_locked token s else s)))"

definition store_get :: "int \<Rightarrow> int \<Rightarrow> string \<Rightarrow> session_store \<Rightarrow> session option \<times> session_store" where
  "store_get now now' token s = (case map_of (by_token s) token of
      None \<Rightarrow> (None, delete_locked token s)
    | Some x \<Rightarrow> if \<not> now < expires x then (None, delete_locked token s)
                else (Some x, reap_locked now' s))"

text \<open>\<open>GetRenew\<close> reads the clock up to four times: for the check, for the half-life test,
  for the new expiry and in the reap.\<close>

definition store_get_renew ::
  "int \<Rightarrow> int \<Rightarrow> int \<Rightarrow> int \<Rightarrow> string \<Rightarrow> session_store \<Rightarrow> (session \<times> bool) option \<times> session_store" where
  "store_get_renew n1 n2 n3 n4 token s = (case map_of (by_token s) token of
      None \<Rightarrow> (None, delete_locked token s)
    | Some x \<Rightarrow>
        if \<not> n1 < expires x then (None, delete_locked token s)
        else if expires x < n2 + session_lifetime div 2 then
          (let x' = x\<lparr>expires := n3 + session_lifetime\<rparr>
           in (Some (x', True), reap_locked n4 (s\<lparr>by_token := put token x' (by_token s)\<rparr>)))
        else (Some (x, False), reap_locked n4 s))"

definition store_delete :: "string \<Rightarrow> session_store \<Rightarrow> session_store" where
  "store_delete token s = delete_locked token s"

definition store_delete_user :: "string \<Rightarrow> session_store \<Rightarrow> session_store" where
  "store_delete_user u s = delete_where (\<lambda>x. user_id x = u) s"

definition replace_user :: "int \<Rightarrow> string \<Rightarrow> session \<Rightarrow> session_store \<Rightarrow> bool \<times> session_store" where
  "replace_user now token x s0 =
     (let s = reap_locked now s0
      in if int (length (by_token s)) - user_count s (user_id x) \<ge> session_max_total then (False, s)
         else (True, insert_session token x
                 (delete_locked token (delete_where (\<lambda>q. user_id q = user_id x) s))))"

section \<open>Grants\<close>

text \<open>What the response says: the status of an error, or the cookie and the CSRF header.  The
  random token and CSRF value are parameters.\<close>

datatype web_reply =
    Too_many_sessions
  | Session_revoked
  | Session_cookie (cookie_token: string) (cookie_csrf: string) (cookie_seconds: int)

record session_grant =
  g_token :: string
  g_csrf :: string
  g_issued :: bool

definition reserve_session ::
  "int \<Rightarrow> int \<Rightarrow> string \<Rightarrow> string \<Rightarrow> string \<Rightarrow> session_store \<Rightarrow> (web_reply + session_grant) \<times> session_store" where
  "reserve_session n1 n2 token c u s =
     (case store_put n2 token \<lparr>user_id = u, csrf = c, expires = n1 + session_lifetime\<rparr> s of
        (False, s') \<Rightarrow> (Inl Too_many_sessions, s')
      | (True, s') \<Rightarrow> (Inr \<lparr>g_token = token, g_csrf = c, g_issued = False\<rparr>, s'))"

definition grant_cancel :: "session_grant option \<Rightarrow> session_store \<Rightarrow> session_store" where
  "grant_cancel g s = (case g of None \<Rightarrow> s
     | Some g \<Rightarrow> if g_issued g then s else store_delete (g_token g) s)"

definition grant_commit ::
  "int \<Rightarrow> int \<Rightarrow> session_grant \<Rightarrow> session_store \<Rightarrow> bool \<times> web_reply \<times> session_grant \<times> session_store" where
  "grant_commit n1 n2 g s = (case store_get n1 n2 (g_token g) s of
      (None, s') \<Rightarrow> (False, Session_revoked, g, s')
    | (Some _, s') \<Rightarrow>
        (True, Session_cookie (g_token g) (g_csrf g) (session_lifetime div 10 ^ 9), g\<lparr>g_issued := True\<rparr>, s'))"

definition replace_user_session ::
  "int \<Rightarrow> int \<Rightarrow> int \<Rightarrow> int \<Rightarrow> string \<Rightarrow> string \<Rightarrow> string \<Rightarrow> session_store \<Rightarrow> bool \<times> web_reply \<times> session_store" where
  "replace_user_session n1 n2 n3 n4 token c u s =
     (case replace_user n2 token \<lparr>user_id = u, csrf = c, expires = n1 + session_lifetime\<rparr> s of
        (False, s') \<Rightarrow> (False, Too_many_sessions, s')
      | (True, s') \<Rightarrow>
         (case grant_commit n3 n4 \<lparr>g_token = token, g_csrf = c, g_issued = False\<rparr> s' of
            (ok, reply, _, s'') \<Rightarrow> (ok, reply, s'')))"

section \<open>Deleting sessions\<close>

abbreviation of_user :: "string \<Rightarrow> string \<Rightarrow> session \<Rightarrow> bool" where
  "of_user u \<equiv> \<lambda>_ x. user_id x = u"

text \<open>The index is exact: the count of a user is the number of its tokens, and no count is zero.\<close>

definition indexed :: "session_store \<Rightarrow> bool" where
  "indexed s \<longleftrightarrow> distinct_keys (by_token s) \<and> distinct_keys (by_user s) \<and>
     (\<forall>u. user_count s u = int (count_if (of_user u) (by_token s))) \<and>
     (\<forall>u. map_of (by_user s) u \<noteq> Some 0)"

lemma indexedD:
  assumes "indexed s"
  shows "distinct_keys (by_token s)" "distinct_keys (by_user s)"
    "user_count s u = int (count_if (of_user u) (by_token s))"
    "map_of (by_user s) u \<noteq> Some 0"
  using assms by (simp_all add: indexed_def)

lemma delete_locked_tokens [simp]: "indexed s \<Longrightarrow> by_token (delete_locked t s) = del t (by_token s)"
  by (auto simp: delete_locked_def Let_def map_of_eq_None_iff split: option.split)

lemma delete_locked_reap [simp]: "last_reap (delete_locked t s) = last_reap s"
  by (simp add: delete_locked_def Let_def split: option.split)

lemma delete_locked_count:
  assumes "indexed s"
  shows "user_count (delete_locked t s) u = int (count_if (of_user u) (del t (by_token s)))"
proof -
  note c = count_del [OF indexedD(1) [OF assms], of "of_user u" t]
  show ?thesis
  proof (cases "map_of (by_token s) t")
    case None
    with c assms show ?thesis by (simp add: delete_locked_def indexedD(3))
  next
    case (Some x)
    with c indexedD(3) [OF assms] show ?thesis
      by (auto simp: delete_locked_def Let_def user_count_def)
  qed
qed

lemma delete_locked_indexed [simp, intro]:
  assumes "indexed s" shows "indexed (delete_locked t s)"
proof -
  have "distinct_keys (by_user (delete_locked t s))"
    using assms by (auto simp: delete_locked_def Let_def indexed_def split: option.split)
  moreover have "map_of (by_user (delete_locked t s)) u \<noteq> Some 0" for u
    using indexedD(4) [OF assms] by (auto simp: delete_locked_def Let_def split: option.split)
  ultimately show ?thesis
    using assms delete_locked_count [OF assms] by (simp add: indexed_def)
qed

lemma delete_fold:
  "indexed s \<Longrightarrow> indexed (fold (\<lambda>(t, x) acc. if P x then delete_locked t acc else acc) xs s) \<and>
     by_token (fold (\<lambda>(t, x) acc. if P x then delete_locked t acc else acc) xs s) =
       filter (\<lambda>(t, _). \<not> (\<exists>x. (t, x) \<in> set xs \<and> P x)) (by_token s) \<and>
     last_reap (fold (\<lambda>(t, x) acc. if P x then delete_locked t acc else acc) xs s) = last_reap s"
proof (induction xs arbitrary: s)
  case Nil
  then show ?case by (simp add: case_prod_beta)
next
  case (Cons e xs)
  obtain t x where e: "e = (t, x)" by (cases e)
  show ?case
  proof (cases "P x")
    case True
    with Cons.IH [OF delete_locked_indexed, OF Cons.prems] e Cons.prems show ?thesis
      by (auto simp: AList.delete_eq case_prod_beta intro!: filter_cong)
  next
    case False
    with Cons.IH [OF Cons.prems] e show ?thesis
      by (auto simp: case_prod_beta intro!: filter_cong)
  qed
qed

lemma delete_where_spec:
  assumes "indexed s"
  shows "indexed (delete_where P s)"
    "by_token (delete_where P s) = filter (\<lambda>(_, x). \<not> P x) (by_token s)"
    "last_reap (delete_where P s) = last_reap s"
proof -
  have "filter (\<lambda>(t, _). \<not> (\<exists>x. (t, x) \<in> set (by_token s) \<and> P x)) (by_token s)
      = filter (\<lambda>(_, x). \<not> P x) (by_token s)"
  proof (rule filter_cong [OF refl])
    fix e assume e: "e \<in> set (by_token s)"
    obtain t x where [simp]: "e = (t, x)" by (cases e) (rule that)
    have "x' = x" if "(t, x') \<in> set (by_token s)" for x'
      using eq_key_imp_eq_value [OF indexedD(1) [OF assms] that] e by simp
    with e have "(\<exists>x'. (t, x') \<in> set (by_token s) \<and> P x') = P x" unfolding \<open>e = (t, x)\<close> by blast
    then show "(case e of (t, _) \<Rightarrow> \<not> (\<exists>x. (t, x) \<in> set (by_token s) \<and> P x)) =
        (case e of (_, x) \<Rightarrow> \<not> P x)"
      by auto
  qed
  with delete_fold [OF assms, of P "by_token s"] show "indexed (delete_where P s)"
    "by_token (delete_where P s) = filter (\<lambda>(_, x). \<not> P x) (by_token s)"
    "last_reap (delete_where P s) = last_reap s"
    by (simp_all add: delete_where_def)
qed

text \<open>The reap keeps the live sessions, and only removes entries.\<close>

lemma reap_spec:
  assumes "indexed s"
  shows "indexed (reap_locked now s)"
    "by_token (reap_locked now s) = by_token s \<or>
     by_token (reap_locked now s) = filter (\<lambda>(_, x). now < expires x) (by_token s)"
proof -
  have *: "indexed (s\<lparr>last_reap := now\<rparr>)" using assms by (simp add: indexed_def user_count_def)
  show "indexed (reap_locked now s)" using assms delete_where_spec(1) [OF *] by (simp add: reap_locked_def)
  show "by_token (reap_locked now s) = by_token s \<or>
     by_token (reap_locked now s) = filter (\<lambda>(_, x). now < expires x) (by_token s)"
    using delete_where_spec(2) [OF *] by (simp add: reap_locked_def)
qed

section \<open>Quotas\<close>

lemma insert_indexed:
  assumes "indexed s" "map_of (by_token s) t = None"
  shows "indexed (insert_session t x s)"
    "count_if P (by_token (insert_session t x s)) = count_if P (by_token s) + weight P t (Some x)"
    "length (by_token (insert_session t x s)) = Suc (length (by_token s))"
proof -
  note d = indexedD(1) [OF assms(1)]
  show c: "count_if P (by_token (insert_session t x s)) = count_if P (by_token s) + weight P t (Some x)" for P
    using count_put [OF d, of P t x] assms(2) by (simp add: insert_session_def)
  show "length (by_token (insert_session t x s)) = Suc (length (by_token s))"
    using size_put [OF d, of t x] assms(2) by (simp add: insert_session_def)
  have "user_count (insert_session t x s) u = int (count_if (of_user u) (by_token (insert_session t x s)))" for u
    using c [of "of_user u"] indexedD(3) [OF assms(1)]
    by (simp add: insert_session_def user_count_def)
  moreover have "map_of (by_user (insert_session t x s)) u \<noteq> Some 0" for u
    using indexedD(3) [OF assms(1)] indexedD(4) [OF assms(1)]
    by (auto simp: insert_session_def)
  ultimately show "indexed (insert_session t x s)"
    using d indexedD(2) [OF assms(1)] by (simp add: indexed_def insert_session_def)
qed

definition within_quota :: "session_store \<Rightarrow> bool" where
  "within_quota s \<longleftrightarrow> indexed s \<and> int (length (by_token s)) \<le> session_max_total \<and>
     (\<forall>u. user_count s u \<le> session_max_per_user)"

lemma quotaD:
  assumes "within_quota s"
  shows "indexed s" "int (length (by_token s)) \<le> session_max_total"
    "user_count s u \<le> session_max_per_user" "distinct_keys (by_token s)"
  using assms by (simp_all add: within_quota_def indexedD(1))

lemma quota_same:
  assumes "within_quota s" "by_user s' = by_user s" "distinct_keys (by_token s')"
    "length (by_token s') = length (by_token s)"
    "\<And>u. count_if (of_user u) (by_token s') = count_if (of_user u) (by_token s)"
  shows "within_quota s'"
proof -
  have "user_count s' = user_count s" by (rule ext) (simp add: user_count_def assms(2))
  with assms show ?thesis unfolding within_quota_def indexed_def by metis
qed

lemma quota_shrink:
  assumes "within_quota s" "indexed s'" "by_token s' = filter (\<lambda>(k, v). Q k v) (by_token s)"
  shows "within_quota s'"
proof -
  have "user_count s' u \<le> session_max_per_user" for u
  proof -
    have "user_count s' u \<le> user_count s u"
      using assms count_mono [of "\<lambda>k v. Q k v \<and> of_user u k v" "of_user u" "by_token s"]
      by (simp add: within_quota_def indexedD(3) count_filter)
    with assms(1) show ?thesis by (auto simp: within_quota_def intro: order_trans)
  qed
  moreover have "int (length (by_token s')) \<le> session_max_total"
  proof -
    have "length (by_token s') \<le> length (by_token s)" using assms(3) by simp
    with assms(1) show ?thesis unfolding within_quota_def by linarith
  qed
  ultimately show ?thesis using assms(2) by (simp add: within_quota_def)
qed

lemma quota_delete: "within_quota s \<Longrightarrow> within_quota (delete_locked t s)"
  by (rule quota_shrink [where Q = "\<lambda>k _. t \<noteq> k"])
     (simp_all add: within_quota_def AList.delete_eq case_prod_beta)

lemma quota_delete_where: "within_quota s \<Longrightarrow> within_quota (delete_where P s)"
  by (rule quota_shrink [where Q = "\<lambda>_ x. \<not> P x"]) (auto simp: within_quota_def delete_where_spec)

lemma quota_reap: "within_quota s \<Longrightarrow> within_quota (reap_locked now s)"
proof -
  assume q: "within_quota s"
  moreover have "within_quota (s\<lparr>last_reap := now\<rparr>)"
    by (rule quota_same [OF q]) (simp_all add: quotaD [OF q])
  ultimately show ?thesis using quota_delete_where by (simp add: reap_locked_def)
qed

lemma quota_insert:
  assumes "indexed s" "map_of (by_token s) t = None" "int (length (by_token s)) < session_max_total"
    "user_count s (user_id x) < session_max_per_user" "\<And>u. user_count s u \<le> session_max_per_user"
  shows "within_quota (insert_session t x s)"
proof -
  have "user_count (insert_session t x s) u \<le> session_max_per_user" for u
    using assms(4) assms(5) [of u] by (simp add: insert_session_def user_count_def)
  with insert_indexed [OF assms(1,2)] assms(3) show ?thesis by (simp add: within_quota_def)
qed

lemma put_result:
  assumes "indexed s0"
  obtains (rejected) s where "store_put now t x s0 = (False, s)" "s = reap_locked now s0"
  | (accepted) s where "store_put now t x s0 = (True, insert_session t x (delete_locked t s))"
      "s = reap_locked now s0"
      "int (length (by_token (delete_locked t s))) < session_max_total \<or> map_of (by_token s) t \<noteq> None"
      "user_count (delete_locked t s) (user_id x) < session_max_per_user"
proof (cases "store_put now t x s0")
  case (Pair ok s')
  define s where "s = reap_locked now s0"
  have s: "indexed s" using reap_spec(1) [OF assms] by (simp add: s_def)
  note uc = delete_locked_count [OF s, of t "user_id x"] indexedD(3) [OF s, of "user_id x"]
    count_del [OF indexedD(1) [OF s], of "of_user (user_id x)" t]
  show ?thesis
  proof (cases ok)
    case False
    with Pair have "s' = s" by (simp add: store_put_def Let_def s_def [symmetric] split: if_splits)
    with Pair False show ?thesis using rejected s_def by simp
  next
    case True
    with Pair have "s' = insert_session t x (delete_locked t s)"
        and "int (length (by_token s)) < session_max_total \<or> map_of (by_token s) t \<noteq> None"
        and "user_count (delete_locked t s) (user_id x) < session_max_per_user"
      using uc by (auto simp: store_put_def Let_def s_def [symmetric] delete_locked_def
          split: if_splits option.splits)
    with Pair True show ?thesis
      using accepted [OF _ s_def] s size_del_le [of t "by_token s"] by force
  qed
qed

lemma quota_put:
  assumes "within_quota s" shows "within_quota (snd (store_put now t x s))"
proof -
  have i: "indexed s" using assms by (simp add: within_quota_def)
  show ?thesis
  proof (rule put_result [OF i, of now t x], goal_cases)
    case rejected: (1 s')
    with quota_reap [OF assms] show ?thesis by simp
  next
    case accepted: (2 s')
    let ?d = "delete_locked t s'"
    have q: "within_quota s'" using quota_reap [OF assms] accepted(2) by simp
    then have i': "indexed s'" by (simp add: within_quota_def)
    have "map_of (by_token ?d) t = None" using i' by simp
    moreover have "int (length (by_token ?d)) < session_max_total"
      using accepted(3) q size_del [OF indexedD(1) [OF i'], of t] i'
      by (auto simp: within_quota_def session_max_total_def)
    moreover have "user_count ?d u \<le> session_max_per_user" for u
      using quota_delete [OF q, of t] by (simp add: within_quota_def)
    ultimately have "within_quota (insert_session t x ?d)"
      using quota_insert [OF delete_locked_indexed [OF i']] accepted(4) by blast
    with accepted(1) show ?thesis by simp
  qed
qed

lemma quota_get: "within_quota s \<Longrightarrow> within_quota (snd (store_get n n' t s))"
  by (simp add: store_get_def quota_delete quota_reap split: option.split)

lemma quota_update:
  assumes "within_quota s" "map_of (by_token s) t = Some x" "user_id x' = user_id x"
  shows "within_quota (s\<lparr>by_token := put t x' (by_token s)\<rparr>)"
proof -
  have i: "indexed s" and d: "distinct_keys (by_token s)"
    using assms(1) by (auto simp: within_quota_def indexed_def)
  have c: "count_if (of_user u) (put t x' (by_token s)) = count_if (of_user u) (by_token s)" for u
    using count_put [OF d, of "of_user u" t x'] assms(2,3) by (simp split: if_splits)
  have "length (put t x' (by_token s)) = length (by_token s)"
    using size_put [OF d, of t x'] assms(2) by simp
  note l = this
  show ?thesis
  proof (rule quota_same [OF assms(1)])
    show "by_user (s\<lparr>by_token := put t x' (by_token s)\<rparr>) = by_user s" by simp
    show "distinct_keys (by_token (s\<lparr>by_token := put t x' (by_token s)\<rparr>))" using d by simp
    show "length (by_token (s\<lparr>by_token := put t x' (by_token s)\<rparr>)) = length (by_token s)" using l by simp
    show "count_if (of_user u) (by_token (s\<lparr>by_token := put t x' (by_token s)\<rparr>)) =
        count_if (of_user u) (by_token s)" for u using c [of u] by simp
  qed
qed

lemma quota_get_renew:
  assumes q: "within_quota s" shows "within_quota (snd (store_get_renew n1 n2 n3 n4 t s))"
proof (cases "map_of (by_token s) t")
  case None
  then show ?thesis by (simp add: store_get_renew_def quota_delete [OF q])
next
  case (Some x)
  have "within_quota (s\<lparr>by_token := put t (x\<lparr>expires := n3 + session_lifetime\<rparr>) (by_token s)\<rparr>)"
    by (rule quota_update [OF q Some]) simp
  from quota_reap [OF this, of n4] show ?thesis
    by (simp add: store_get_renew_def Some Let_def quota_delete [OF q] quota_reap [OF q])
qed

lemma quota_replace:
  assumes "within_quota s0" shows "within_quota (snd (replace_user now t x s0))"
proof -
  define s where "s = reap_locked now s0"
  define d where "d = delete_where (\<lambda>q. user_id q = user_id x) s"
  have q: "within_quota s" using quota_reap [OF assms] by (simp add: s_def)
  then have i: "indexed s" by (simp add: within_quota_def)
  note ds = delete_where_spec [OF i, of "\<lambda>q. user_id q = user_id x", folded d_def]
  have len: "int (length (by_token d)) = int (length (by_token s)) - user_count s (user_id x)"
  proof -
    have "length (filter (\<lambda>(_, q). user_id q \<noteq> user_id x) (by_token s))
        + count_if (of_user (user_id x)) (by_token s) = length (by_token s)"
      unfolding count_if_def using sum_length_filter_compl [of "\<lambda>(_, q). user_id q = user_id x" "by_token s"]
      by (simp add: case_prod_beta' del: case_prod_conv)
    with ds(2) indexedD(3) [OF i] show ?thesis by simp
  qed
  have zero: "user_count (delete_locked t d) (user_id x) = 0"
    using indexedD(3) [OF delete_locked_indexed [OF ds(1)], of t] ds(1,2)
    by (auto simp: count_zero dest: in_del)
  have "within_quota (insert_session t x (delete_locked t d))"
    if "int (length (by_token d)) < session_max_total"
  proof (rule quota_insert)
    show "indexed (delete_locked t d)" using ds(1) by simp
    show "map_of (by_token (delete_locked t d)) t = None" using ds(1) by simp
    show "int (length (by_token (delete_locked t d))) < session_max_total"
      using that ds(1) size_del_le [of t "by_token d"] by simp
    show "user_count (delete_locked t d) (user_id x) < session_max_per_user"
      using zero by (simp add: session_max_per_user_def)
    show "user_count (delete_locked t d) u \<le> session_max_per_user" for u
      using quota_delete [OF quota_delete_where [OF q]] by (simp add: d_def within_quota_def)
  qed
  with q len show ?thesis
    by (simp add: replace_user_def Let_def s_def [symmetric] d_def [symmetric])
qed

section \<open>Every sequence of operations\<close>

datatype store_op =
    Put int string session
  | Get int int string
  | Renew int int int int string
  | Delete string
  | Delete_user string
  | Replace int string session

primrec store_step :: "store_op \<Rightarrow> session_store \<Rightarrow> session_store" where
  "store_step (Put now t x) s = snd (store_put now t x s)"
| "store_step (Get n n' t) s = snd (store_get n n' t s)"
| "store_step (Renew n1 n2 n3 n4 t) s = snd (store_get_renew n1 n2 n3 n4 t s)"
| "store_step (Delete t) s = store_delete t s"
| "store_step (Delete_user u) s = store_delete_user u s"
| "store_step (Replace now t x) s = snd (replace_user now t x s)"

lemma quota_step: "within_quota s \<Longrightarrow> within_quota (store_step e s)"
  by (cases e) (simp_all add: quota_put quota_get quota_get_renew quota_delete quota_delete_where
      quota_replace store_delete_def store_delete_user_def)

interpretation store: machine store_step within_quota
  by unfold_locales (rule quota_step)

lemma quota_new: "within_quota new_session_store"
  by (simp add: within_quota_def indexed_def new_session_store_def user_count_def
      session_max_total_def session_max_per_user_def)

lemmas quota_reachable = store.fold_inv [OF quota_new]

text \<open>C26. After any sequence of operations the store holds at most 4096 sessions, at most
  sixteen of any user, and the count it keeps for a user is the number of that user's tokens.\<close>

theorem sessions_within_quota:
  "let s = fold store_step ops new_session_store
   in length (by_token s) \<le> 4096 \<and> user_count s u = int (count_if (of_user u) (by_token s)) \<and>
      user_count s u \<le> 16"
  using quotaD [OF quota_reachable [of ops]] indexedD(3) [OF quotaD(1) [OF quota_reachable [of ops]]]
  by (simp add: Let_def session_max_total_def session_max_per_user_def)

text \<open>C16. Signing a user out of all sessions beats a sign-in in progress: a grant reserved for
  the user before the revocation cannot be committed after it, and the sessions of other users
  are untouched.\<close>

theorem revocation_beats_grant:
  assumes "map_of (by_token (fold store_step ops new_session_store)) (g_token g) = Some x"
  shows "let s = store_delete_user (user_id x) (fold store_step ops new_session_store)
    in fst (grant_commit n1 n2 g s) = False \<and> fst (snd (grant_commit n1 n2 g s)) = Session_revoked \<and>
       (\<forall>t. map_of (by_token s) t =
          (case map_of (by_token (fold store_step ops new_session_store)) t of None \<Rightarrow> None
           | Some y \<Rightarrow> if user_id y = user_id x then None else Some y))"
proof -
  have i: "indexed (fold store_step ops new_session_store)" using quotaD(1) [OF quota_reachable] .
  have l: "map_of (by_token (store_delete_user (user_id x) (fold store_step ops new_session_store))) t =
      (case map_of (by_token (fold store_step ops new_session_store)) t of None \<Rightarrow> None
       | Some y \<Rightarrow> if user_id y \<noteq> user_id x then Some y else None)" for t
    by (simp add: store_delete_user_def delete_where_spec(2) [OF i]
        lookup_filter [OF indexedD(1) [OF i], of "\<lambda>_ y. user_id y \<noteq> user_id x"])
  from l [of "g_token g"] assms show ?thesis
    by (simp add: Let_def grant_commit_def store_get_def l split: option.split)
qed

theorem revocation_beats_grant_witness:
  "fst (grant_commit 5 5 \<lparr>g_token = ''t'', g_csrf = ''c'', g_issued = False\<rparr>
     (store_delete_user ''ann'' (fold store_step [Put 0 ''t'' \<lparr>user_id = ''ann'', csrf = ''c'', expires = 9\<rparr>]
        new_session_store))) = False"
  using revocation_beats_grant [of "[Put 0 ''t'' \<lparr>user_id = ''ann'', csrf = ''c'', expires = 9\<rparr>]"
      "\<lparr>g_token = ''t'', g_csrf = ''c'', g_issued = False\<rparr>"
      "\<lparr>user_id = ''ann'', csrf = ''c'', expires = 9\<rparr>" 5 5]
  by (simp add: new_session_store_def store_put_def reap_locked_def delete_where_def Let_def user_count_def
      session_reap_period_def session_max_total_def session_max_per_user_def insert_session_def)

text \<open>C28. Rotating a user's sessions leaves exactly the new one: when the store accepts, the new
  token is live and no other token of the user is.\<close>

theorem replace_leaves_one:
  assumes "replace_user now t x (fold store_step ops new_session_store) = (True, s)"
  shows "map_of (by_token s) t = Some x \<and>
    (\<forall>t' y. map_of (by_token s) t' = Some y \<and> user_id y = user_id x \<longrightarrow> t' = t)"
proof -
  define r where "r = reap_locked now (fold store_step ops new_session_store)"
  define d where "d = delete_where (\<lambda>q. user_id q = user_id x) r"
  have i: "indexed r" using quotaD(1) [OF quota_reap [OF quota_reachable]] by (simp add: r_def)
  note di = delete_where_spec [OF i, of "\<lambda>q. user_id q = user_id x", folded d_def]
  have s: "s = insert_session t x (delete_locked t d)"
    using assms by (simp add: replace_user_def Let_def r_def [symmetric] d_def [symmetric] split: if_splits)
  have l: "map_of (by_token d) t' = Some y \<Longrightarrow> user_id y \<noteq> user_id x" for t' y
    using di(2) lookup_in [of "by_token d" t' y] by auto
  show ?thesis using di(1) l by (auto simp: s insert_session_def split: if_splits)
qed

theorem replace_leaves_one_witness:
  "by_token (snd (replace_user 0 ''n'' \<lparr>user_id = ''ann'', csrf = ''d'', expires = 9\<rparr>
     (fold store_step [Put 0 ''t'' \<lparr>user_id = ''ann'', csrf = ''c'', expires = 9\<rparr>] new_session_store)))
   = [(''n'', \<lparr>user_id = ''ann'', csrf = ''d'', expires = 9\<rparr>)] \<and>
   map_of [(''n'', \<lparr>user_id = ''ann'', csrf = ''d'', expires = 9\<rparr>)] ''n'' = Some \<lparr>user_id = ''ann'', csrf = ''d'', expires = 9\<rparr>"
proof -
  let ?x = "\<lparr>user_id = ''ann'', csrf = ''d'', expires = 9\<rparr>"
  let ?s = "\<lparr>by_token = [(''n'', ?x)], by_user = [(''ann'', 1)], last_reap = 0\<rparr>"
  have "replace_user 0 ''n'' ?x
      (fold store_step [Put 0 ''t'' \<lparr>user_id = ''ann'', csrf = ''c'', expires = 9\<rparr>] new_session_store) = (True, ?s)"
    by (simp add: new_session_store_def store_put_def replace_user_def reap_locked_def delete_where_def Let_def
        user_count_def session_reap_period_def session_max_total_def session_max_per_user_def
        insert_session_def delete_locked_def get_or_def)
  note this replace_leaves_one [OF this, THEN conjunct1]
  then show ?thesis by (simp only: snd_conv session_store.select_convs simp_thms)
qed

end
