(* ===== verification/Login_Guard.thy ===== *)
theory Login_Guard
  imports Maps
begin

text \<open>
  Sign-in throttling (internal/web/login_guard.go, loginKeysForHost in middleware.go).  The
  per-source and per-pair states are Go pointers: an attempt keeps the pointers it charged,
  and a reap may drop the map entry, so the states live in an explicit heap (the list of all
  states ever allocated) and maps and attempts hold addresses.  Times are nanoseconds; the
  Unicode part of \<open>strings.ToLower\<close> is the parameter \<open>U\<close>.
\<close>

section \<open>State\<close>

definition login_hash_concurrency :: int where "login_hash_concurrency = 4"
definition login_account_concurrency :: int where "login_account_concurrency = 2"
definition login_failure_limit :: int where "login_failure_limit = 5"
definition login_max_states :: int where "login_max_states = 4096"
definition login_global_limit :: int where "login_global_limit = 120"
definition second :: int where "second = 10 ^ 9"
definition login_cooldown :: int where "login_cooldown = 300 * second"
definition login_state_lifetime :: int where "login_state_lifetime = 3600 * second"
definition login_reap_interval :: int where "login_reap_interval = 60 * second"
definition login_global_window :: int where "login_global_window = 60 * second"

record login_state =
  failures :: int
  until :: int
  seen :: int
  pending :: int

record login_attempt =
  states :: "nat list"
  account :: string
  finished :: bool

record login_guard =
  heap :: "login_state list"
  logins :: "(string \<times> nat) list"
  login_accounts :: "(string \<times> int) list"
  login_active :: int
  login_total :: int
  login_window :: int
  login_last_reap :: int

definition new_guard :: login_guard where
  "new_guard = \<lparr>heap = [], logins = [], login_accounts = [], login_active = 0, login_total = 0,
     login_window = 0, login_last_reap = 0\<rparr>"

definition at :: "login_guard \<Rightarrow> nat \<Rightarrow> login_state" where
  "at g r = heap g ! r"

definition modify :: "(login_state \<Rightarrow> login_state) \<Rightarrow> nat \<Rightarrow> login_guard \<Rightarrow> login_guard" where
  "modify f r g = g\<lparr>heap := (heap g)[r := f (at g r)]\<rparr>"

section \<open>Reserving an attempt\<close>

definition login_keys_for_host :: "(rune \<Rightarrow> rune) \<Rightarrow> string \<Rightarrow> string \<Rightarrow> string list" where
  "login_keys_for_host U host username =
     (let host = (if host = [] then ''unknown'' else host);
          name = to_lower U (trim_space username)
      in [''source:'' @ host, ''pair:'' @ host @ ''|'' @ name])"

definition login_reap :: "int \<Rightarrow> login_guard \<Rightarrow> login_guard" where
  "login_reap now g =
     (if now < login_last_reap g + login_reap_interval then g
      else g\<lparr>login_last_reap := now,
             logins := filter (\<lambda>(key, r). \<not> (pending (at g r) = 0 \<and>
                 \<not> now < seen (at g r) + login_state_lifetime \<and> \<not> now < until (at g r))) (logins g)\<rparr>)"

definition login_roll_window :: "int \<Rightarrow> login_guard \<Rightarrow> login_guard" where
  "login_roll_window now g =
     (if now < login_window g + login_global_window then g
      else g\<lparr>login_window := now, login_total := 0\<rparr>)"

text \<open>The admission loop over the keys: the retry delay of the first refusal, or the number of
  keys without a state.\<close>

primrec scan_keys :: "int \<Rightarrow> login_guard \<Rightarrow> string list \<Rightarrow> int \<Rightarrow> int + int" where
  "scan_keys now g [] missing = Inr missing"
| "scan_keys now g (key # keys) missing = (case map_of (logins g) key of
      None \<Rightarrow> scan_keys now g keys (missing + 1)
    | Some r \<Rightarrow>
        if now < until (at g r) then Inl (until (at g r) - now)
        else if failures (at g r) + pending (at g r) \<ge> login_failure_limit then Inl second
        else scan_keys now g keys missing)"

definition login_state_for :: "string \<Rightarrow> login_guard \<Rightarrow> nat \<times> login_guard" where
  "login_state_for key g = (case map_of (logins g) key of
      Some r \<Rightarrow> (r, g)
    | None \<Rightarrow> (length (heap g),
               g\<lparr>heap := heap g @ [\<lparr>failures = 0, until = 0, seen = 0, pending = 0\<rparr>],
                 logins := put key (length (heap g)) (logins g)\<rparr>))"

primrec charge_keys :: "int \<Rightarrow> string list \<Rightarrow> login_guard \<Rightarrow> nat list \<times> login_guard" where
  "charge_keys now [] g = ([], g)"
| "charge_keys now (key # keys) g =
     (let (r, g1) = login_state_for key g;
          g2 = modify (\<lambda>s. s\<lparr>pending := pending s + 1, seen := now\<rparr>) r g1;
          (rs, g3) = charge_keys now keys g2
      in (r # rs, g3))"

definition reserve_login_attempt ::
  "(rune \<Rightarrow> rune) \<Rightarrow> int \<Rightarrow> string \<Rightarrow> string \<Rightarrow> login_guard \<Rightarrow> (int + login_attempt) \<times> login_guard" where
  "reserve_login_attempt U now host username g0 =
     (let g = login_roll_window now (login_reap now g0);
          keys = login_keys_for_host U host username
      in if login_total g \<ge> login_global_limit then (Inl (login_window g + login_global_window - now), g)
         else (case scan_keys now g keys 0 of
            Inl retry \<Rightarrow> (Inl retry, g)
          | Inr missing \<Rightarrow>
              if int (length (logins g)) + missing > login_max_states then (Inl login_reap_interval, g)
              else
                (let acct = to_lower U (trim_space username)
                 in if login_active g \<ge> login_hash_concurrency
                       \<or> get_or 0 (login_accounts g) acct \<ge> login_account_concurrency
                    then (Inl second, g)
                    else
                      (let (rs, g1) = charge_keys now keys g
                       in (Inr \<lparr>states = rs, account = acct, finished = False\<rparr>,
                           g1\<lparr>login_active := login_active g1 + 1,
                              login_accounts := put acct (get_or 0 (login_accounts g1) acct + 1) (login_accounts g1),
                              login_total := login_total g1 + 1\<rparr>)))))"

section \<open>Finishing an attempt\<close>

definition settle :: "int \<Rightarrow> bool \<Rightarrow> nat \<Rightarrow> login_state \<Rightarrow> login_state" where
  "settle now valid index s0 =
     (let s = s0\<lparr>pending := pending s0 - 1, seen := now\<rparr>
      in if valid then (if index = 1 then s\<lparr>failures := 0\<rparr> else s)
         else (let s1 = s\<lparr>failures := failures s + 1\<rparr>
               in if failures s1 \<ge> login_failure_limit
                  then s1\<lparr>until := now + login_cooldown, failures := 0\<rparr> else s1))"

primrec settle_states :: "int \<Rightarrow> bool \<Rightarrow> nat \<Rightarrow> nat list \<Rightarrow> login_guard \<Rightarrow> login_guard" where
  "settle_states now valid index [] g = g"
| "settle_states now valid index (r # rs) g =
     settle_states now valid (index + 1) rs (modify (settle now valid index) r g)"

definition finish_attempt :: "int \<Rightarrow> bool \<Rightarrow> login_attempt \<Rightarrow> login_guard \<Rightarrow> login_attempt \<times> login_guard" where
  "finish_attempt now valid a g =
     (if finished a then (a, g)
      else
        (let g1 = settle_states now valid 0 (states a) g;
             n = get_or 0 (login_accounts g1) (account a) - 1;
             accts = put (account a) n (login_accounts g1)
         in (a\<lparr>finished := True\<rparr>,
             g1\<lparr>login_active := login_active g1 - 1,
                login_accounts := (if n = 0 then del (account a) accts else accts)\<rparr>)))"

text \<open>The delay of a 429 reply in whole seconds, rounded up (\<open>writeLoginRateLimit\<close> and
  \<open>writeSetupRateLimit\<close>).  Go's \<open>/\<close> truncates; a sum that is not positive gives at most 0.\<close>

definition retry_seconds :: "int \<Rightarrow> int" where
  "retry_seconds retry =
     (let n = retry + second - 1;
          s = (if n \<ge> 0 then n div second else - ((- n) div second))
      in if s < 1 then 1 else s)"

section \<open>The states on the heap\<close>

text \<open>A state is good for \<open>n\<close> attempts in flight: failures and attempts in flight together
  never pass the limit.\<close>

definition good :: "login_state \<Rightarrow> nat \<Rightarrow> bool" where
  "good s n \<longleftrightarrow> 0 \<le> failures s \<and> failures s < login_failure_limit \<and> pending s = int n \<and>
     failures s + pending s \<le> login_failure_limit"

definition heap_ok :: "login_guard \<Rightarrow> (nat \<Rightarrow> nat) \<Rightarrow> bool" where
  "heap_ok g cnt \<longleftrightarrow> (\<forall>r < length (heap g). good (at g r) (cnt r))"

definition refs_ok :: "login_guard \<Rightarrow> bool" where
  "refs_ok g \<longleftrightarrow> distinct_keys (logins g) \<and> distinct (map snd (logins g)) \<and>
     (\<forall>(k, r) \<in> set (logins g). r < length (heap g))"

definition room :: "login_guard \<Rightarrow> string list \<Rightarrow> bool" where
  "room g keys \<longleftrightarrow> (\<forall>k \<in> set keys. \<forall>r. map_of (logins g) k = Some r \<longrightarrow>
     failures (at g r) + pending (at g r) < login_failure_limit)"

lemma good_settle: "good s (Suc n) \<Longrightarrow> good (settle now valid i s) n"
  by (auto simp: good_def settle_def Let_def)

lemma good_charge:
  "good s n \<Longrightarrow> failures s + pending s < login_failure_limit \<Longrightarrow>
   good (s\<lparr>pending := pending s + 1, seen := now\<rparr>) (Suc n)"
  by (simp add: good_def)

lemma at_modify: "r < length (heap g) \<Longrightarrow> at (modify f r g) r' = (if r' = r then f (at g r) else at g r')"
  by (simp add: at_def modify_def)

lemma modify_simps [simp]:
  "length (heap (modify f r g)) = length (heap g)" "logins (modify f r g) = logins g"
  "login_accounts (modify f r g) = login_accounts g" "login_active (modify f r g) = login_active g"
  "login_total (modify f r g) = login_total g"
  by (simp_all add: modify_def)

lemma settle_states_ok:
  "heap_ok g (\<lambda>r. cnt r + count_list rs r) \<Longrightarrow> \<forall>r \<in> set rs. r < length (heap g) \<Longrightarrow>
   heap_ok (settle_states now valid i rs g) cnt"
proof (induction rs arbitrary: g i)
  case (Cons r rs)
  have "heap_ok (modify (settle now valid i) r g) (\<lambda>r. cnt r + count_list rs r)"
    using Cons.prems by (auto simp: heap_ok_def at_modify intro!: good_settle split: if_splits)
  with Cons show ?case by simp
qed simp

lemma settle_states_simps [simp]:
  "length (heap (settle_states now v i rs g)) = length (heap g)"
  "logins (settle_states now v i rs g) = logins g"
  "login_accounts (settle_states now v i rs g) = login_accounts g"
  "login_active (settle_states now v i rs g) = login_active g"
  "login_total (settle_states now v i rs g) = login_total g"
  by (induction rs arbitrary: g i) simp_all

lemma refs_inj:
  "refs_ok g \<Longrightarrow> map_of (logins g) k = Some r \<Longrightarrow> map_of (logins g) k' = Some r \<Longrightarrow> k = k'"
proof -
  have "distinct (map snd m) \<Longrightarrow> (k, r) \<in> set m \<Longrightarrow> (k', r) \<in> set m \<Longrightarrow> k = k'" for m :: "(string \<times> nat) list"
    by (induction m) (auto simp: rev_image_eqI)
  then show "refs_ok g \<Longrightarrow> map_of (logins g) k = Some r \<Longrightarrow> map_of (logins g) k' = Some r \<Longrightarrow> k = k'"
    by (auto simp: refs_ok_def dest!: lookup_in)
qed

lemma refs_valid: "refs_ok g \<Longrightarrow> map_of (logins g) k = Some r \<Longrightarrow> r < length (heap g)"
  by (auto simp: refs_ok_def dest!: lookup_in)

text \<open>Charging one key.\<close>

lemma state_for_spec:
  assumes g: "refs_ok g" "heap_ok g cnt" "\<forall>r \<ge> length (heap g). cnt r = 0" "room g (k # ks)" "k \<notin> set ks"
    and s: "login_state_for k g = (r, g1)"
  shows "refs_ok g1 \<and> heap_ok g1 cnt \<and> r < length (heap g1) \<and> map_of (logins g1) k = Some r \<and>
    failures (at g1 r) + pending (at g1 r) < login_failure_limit \<and> room g1 ks \<and>
    (\<forall>r \<ge> length (heap g1). cnt r = 0) \<and> length (heap g) \<le> length (heap g1) \<and>
    length (logins g1) = length (logins g) + (if map_of (logins g) k = None then 1 else 0) \<and>
    (\<forall>k' \<in> set ks. map_of (logins g1) k' = map_of (logins g) k') \<and>
    login_accounts g1 = login_accounts g \<and> login_active g1 = login_active g \<and> login_total g1 = login_total g"
proof (cases "map_of (logins g) k")
  case (Some r')
  with assms refs_valid [OF g(1) Some]
  show ?thesis
    by (simp add: login_state_for_def room_def)
next
  case None
  define st where "st = \<lparr>failures = 0, until = 0, seen = 0, pending = 0\<rparr>"
  have r: "r = length (heap g)" and g1: "g1 = g\<lparr>heap := heap g @ [st], logins := logins g @ [(k, r)]\<rparr>"
    using s None by (auto simp: login_state_for_def st_def put_fresh)
  have at1: "at g1 r' = (if r' < length (heap g) then at g r' else st)" if "r' \<le> length (heap g)" for r'
    using that by (auto simp: at_def g1 nth_append)
  have "refs_ok g1" using g(1) None unfolding refs_ok_def g1 r by (force simp: map_of_eq_None_iff)
  moreover have "heap_ok g1 cnt"
  proof -
    have "good st 0" by (simp add: good_def st_def login_failure_limit_def)
    then have "good (at g1 r') (cnt r')" if "r' \<le> length (heap g)" for r'
      using g(2,3) at1 [OF that] that by (auto simp: heap_ok_def)
    then show ?thesis by (simp add: heap_ok_def g1 less_Suc_eq_le)
  qed
  moreover have "room g1 ks"
    using g(4,5) refs_valid [OF g(1)] None by (auto simp: room_def g1 at1 map_add_def at_def nth_append r split: if_splits option.splits)
  ultimately
  show ?thesis
    using g(3,5) None at1 [of r]
    by (auto simp: r st_def login_failure_limit_def map_add_def g1 split: option.split)
qed

text \<open>Charging all the keys of an attempt.\<close>

lemma charge_keys_ok:
  assumes "refs_ok g" "heap_ok g cnt" "\<forall>r \<ge> length (heap g). cnt r = 0" "room g keys" "distinct keys"
    and "charge_keys now keys g = (rs, g')"
  shows "refs_ok g' \<and> heap_ok g' (\<lambda>r. cnt r + count_list rs r) \<and> (\<forall>r \<in> set rs. r < length (heap g')) \<and>
    length (heap g) \<le> length (heap g') \<and>
    length (logins g') = length (logins g) + length (filter (\<lambda>k. map_of (logins g) k = None) keys) \<and>
    login_accounts g' = login_accounts g \<and> login_active g' = login_active g \<and> login_total g' = login_total g"
  using assms
proof (induction keys arbitrary: g cnt rs)
  case (Cons k ks)
  obtain r g1 where s: "login_state_for k g = (r, g1)" by fastforce
  define g2 where "g2 = modify (\<lambda>s. s\<lparr>pending := pending s + 1, seen := now\<rparr>) r g1"
  obtain rs' where c: "charge_keys now ks g2 = (rs', g')" "rs = r # rs'"
    using Cons.prems(6) by (auto simp: s g2_def Let_def split: prod.splits)
  have "k \<notin> set ks" using Cons.prems(5) by simp
  note S = state_for_spec [OF Cons.prems(1-4) this s]
  have "refs_ok g2" using S by (simp add: refs_ok_def g2_def)
  moreover have "heap_ok g2 (cnt(r := Suc (cnt r)))"
    using S by (auto simp: heap_ok_def g2_def at_modify intro!: good_charge)
  moreover have "\<forall>q \<ge> length (heap g2). (cnt(r := Suc (cnt r))) q = 0" using S by (simp add: g2_def)
  moreover have "room g2 ks"
  proof -
    have "r' \<noteq> r" if "k' \<in> set ks" "map_of (logins g1) k' = Some r'" for k' r'
      using S Cons.prems(5) refs_inj [of g1 k r k'] that by auto
    moreover have "room g1 ks" "r < length (heap g1)" using S by blast+
    ultimately show ?thesis by (simp add: room_def g2_def at_modify)
  qed
  moreover have "distinct ks" using Cons.prems(5) by simp
  ultimately have H: "refs_ok g' \<and> heap_ok g' (\<lambda>q. (cnt(r := Suc (cnt r))) q + count_list rs' q) \<and>
    (\<forall>r \<in> set rs'. r < length (heap g')) \<and> length (heap g2) \<le> length (heap g') \<and>
    length (logins g') = length (logins g2) + length (filter (\<lambda>k. map_of (logins g2) k = None) ks) \<and>
    login_accounts g' = login_accounts g2 \<and> login_active g' = login_active g2 \<and> login_total g' = login_total g2"
    using Cons.IH c(1) by blast
  have "(\<lambda>q. (cnt(r := Suc (cnt r))) q + count_list rs' q) = (\<lambda>q. cnt q + count_list rs q)"
    by (auto simp: c(2))
  moreover have "filter (\<lambda>k. map_of (logins g2) k = None) ks = filter (\<lambda>k. map_of (logins g) k = None) ks"
    using S by (intro filter_cong) (auto simp: g2_def)
  ultimately show ?case using H S by (auto simp: c(2) g2_def)
qed simp

lemma scan_keys_ok:
  "scan_keys now g keys m = Inr n \<Longrightarrow>
   room g keys \<and> n = m + int (length (filter (\<lambda>k. map_of (logins g) k = None) keys)) \<and>
   (\<forall>k \<in> set keys. \<forall>r. map_of (logins g) k = Some r \<longrightarrow> until (at g r) \<le> now)"
proof (induction keys arbitrary: m)
  case (Cons k ks)
  then show ?case
    by (fastforce simp: room_def split: option.splits if_splits)
qed (simp add: room_def)

section \<open>Every sequence of attempts\<close>

text \<open>The guard together with all attempts admitted so far; finishing is by the position of an
  attempt, any number of times and in any order.\<close>

datatype login_op =
    Reserve int string string
  | Finish nat int bool

record login_system =
  guard :: login_guard
  attempts :: "login_attempt list"

definition login_step :: "(rune \<Rightarrow> rune) \<Rightarrow> login_op \<Rightarrow> login_system \<Rightarrow> login_system" where
  "login_step U e s = (case e of
      Reserve now host user \<Rightarrow>
        (case reserve_login_attempt U now host user (guard s) of
           (Inl _, g) \<Rightarrow> s\<lparr>guard := g\<rparr>
         | (Inr a, g) \<Rightarrow> \<lparr>guard = g, attempts = attempts s @ [a]\<rparr>)
    | Finish i now valid \<Rightarrow>
        (if i < length (attempts s) then
           (case finish_attempt now valid (attempts s ! i) (guard s) of
              (a, g) \<Rightarrow> \<lparr>guard = g, attempts = (attempts s)[i := a]\<rparr>)
         else s))"

definition new_login_system :: login_system where
  "new_login_system = \<lparr>guard = new_guard, attempts = []\<rparr>"

definition in_flight :: "login_attempt list \<Rightarrow> int" where
  "in_flight as = int (length (filter (\<lambda>a. \<not> finished a) as))"

definition in_flight_of :: "string \<Rightarrow> login_attempt list \<Rightarrow> int" where
  "in_flight_of u as = int (length (filter (\<lambda>a. \<not> finished a \<and> account a = u) as))"

definition uses :: "login_attempt list \<Rightarrow> nat \<Rightarrow> nat" where
  "uses as r = sum_list (map (\<lambda>a. if finished a then 0 else count_list (states a) r) as)"

definition login_inv :: "login_system \<Rightarrow> bool" where
  "login_inv s \<longleftrightarrow> refs_ok (guard s) \<and> heap_ok (guard s) (uses (attempts s)) \<and>
     (\<forall>a \<in> set (attempts s). \<forall>r \<in> set (states a). r < length (heap (guard s))) \<and>
     login_active (guard s) = in_flight (attempts s) \<and> login_active (guard s) \<le> login_hash_concurrency \<and>
     distinct_keys (login_accounts (guard s)) \<and>
     (\<forall>u. get_or 0 (login_accounts (guard s)) u = in_flight_of u (attempts s)) \<and>
     (\<forall>u. in_flight_of u (attempts s) \<le> login_account_concurrency) \<and>
     login_total (guard s) \<le> login_global_limit \<and> int (length (logins (guard s))) \<le> login_max_states"

lemma login_prepare:
  assumes "refs_ok g"
  shows "refs_ok (login_roll_window now (login_reap now g))"
    "heap (login_roll_window now (login_reap now g)) = heap g"
    "login_accounts (login_roll_window now (login_reap now g)) = login_accounts g"
    "login_active (login_roll_window now (login_reap now g)) = login_active g"
    "login_total g \<le> login_global_limit \<Longrightarrow>
       login_total (login_roll_window now (login_reap now g)) \<le> login_global_limit"
    "length (logins (login_roll_window now (login_reap now g))) \<le> length (logins g)"
  using assms
  by (auto simp: login_roll_window_def login_reap_def refs_ok_def distinct_map_filter login_global_limit_def)

lemma keys_distinct: "distinct (login_keys_for_host U h u)"
  by (simp add: login_keys_for_host_def Let_def)

lemma uses_snoc: "uses (as @ [a]) r = uses as r + (if finished a then 0 else count_list (states a) r)"
  by (simp add: uses_def)

lemma uses_beyond:
  "\<forall>a \<in> set as. \<forall>r \<in> set (states a). r < n \<Longrightarrow> n \<le> r \<Longrightarrow> uses as r = 0"
  by (force simp: uses_def count_list_0_iff)

lemma uses_finish:
  assumes "i < length as" "\<not> finished (as ! i)" "finished a"
  shows "uses as r = uses (as[i := a]) r + count_list (states (as ! i)) r"
    "in_flight as = in_flight (as[i := a]) + 1"
    "in_flight_of u as = in_flight_of u (as[i := a]) + (if account (as ! i) = u then 1 else 0)"
proof -
  have l: "as = take i as @ as ! i # drop (Suc i) as" using assms(1) by (rule id_take_nth_drop)
  have u: "as[i := a] = take i as @ a # drop (Suc i) as" using assms(1) by (rule upd_conv_take_nth_drop)
  show "uses as r = uses (as[i := a]) r + count_list (states (as ! i)) r"
    by (subst l, subst u) (simp add: uses_def assms(2,3))
  show "in_flight as = in_flight (as[i := a]) + 1"
    by (subst l, subst u) (simp add: in_flight_def assms(2,3))
  show "in_flight_of u as = in_flight_of u (as[i := a]) + (if account (as ! i) = u then 1 else 0)"
    by (subst l, subst u) (simp add: in_flight_of_def assms(2,3))
qed

lemma login_reserve_inv:
  assumes I: "login_inv s"
  shows "login_inv (login_step U (Reserve now host user) s)"
proof -
  define g where "g = login_roll_window now (login_reap now (guard s))"
  define keys where "keys = login_keys_for_host U host user"
  define acct where "acct = to_lower U (trim_space user)"
  have R: "refs_ok (guard s)" using I by (simp add: login_inv_def)
  note P = login_prepare [OF R, of now, folded g_def]
  have H: "heap_ok g (uses (attempts s))" using I P by (simp add: login_inv_def heap_ok_def at_def)
  have I': "login_inv (s\<lparr>guard := g\<rparr>)"
    using I P H by (simp add: login_inv_def)
  show ?thesis
  proof (cases "reserve_login_attempt U now host user (guard s)")
    case (Pair res g')
    show ?thesis
    proof (cases res)
      case (Inl retry)
      with Pair have "g' = g"
        by (auto simp: reserve_login_attempt_def Let_def g_def split: if_splits sum.splits prod.splits)
      with I' Pair Inl show ?thesis by (simp add: login_step_def)
    next
      case (Inr a)
      obtain rs g1 where c: "charge_keys now keys g = (rs, g1)" by fastforce
      from Pair Inr obtain missing where sc: "scan_keys now g keys 0 = Inr missing"
        and lim: "int (length (logins g)) + missing \<le> login_max_states"
          "login_active g < login_hash_concurrency" "login_total g < login_global_limit"
          "get_or 0 (login_accounts g) acct < login_account_concurrency"
        and a: "a = \<lparr>states = rs, account = acct, finished = False\<rparr>"
        and g': "g' = g1\<lparr>login_active := login_active g1 + 1,
             login_accounts := put acct (get_or 0 (login_accounts g1) acct + 1) (login_accounts g1),
             login_total := login_total g1 + 1\<rparr>"
        by (auto simp: reserve_login_attempt_def Let_def g_def [symmetric] keys_def [symmetric]
            acct_def [symmetric] c split: if_splits sum.splits)
      have v: "\<forall>a \<in> set (attempts s). \<forall>r \<in> set (states a). r < length (heap g)"
        using I P by (simp add: login_inv_def)
      have b: "\<forall>r \<ge> length (heap g). uses (attempts s) r = 0" using uses_beyond [OF v] by blast
      note S = scan_keys_ok [OF sc]
      note C = charge_keys_ok [OF P(1) H b conjunct1 [OF S] keys_distinct [of U host user, folded keys_def] c]
      let ?as = "attempts s @ [a]"
      have "refs_ok g'" using C by (simp add: g' refs_ok_def)
      moreover have "heap_ok g' (uses ?as)"
        using C by (simp add: heap_ok_def at_def g' uses_snoc a)
      moreover have "\<forall>a \<in> set ?as. \<forall>r \<in> set (states a). r < length (heap g')"
        using C v by (fastforce simp: g' a)
      moreover have "login_active g' = in_flight ?as" "login_active g' \<le> login_hash_concurrency"
        "distinct_keys (login_accounts g')" "login_total g' \<le> login_global_limit"
        "int (length (logins g')) \<le> login_max_states"
        using C I P lim S by (auto simp: login_inv_def g' a in_flight_def)
      moreover have ac: "get_or 0 (login_accounts g) u = in_flight_of u (attempts s)"
        "in_flight_of u (attempts s) \<le> login_account_concurrency" for u
        using I P(3) by (simp_all add: login_inv_def)
      moreover have "get_or 0 (login_accounts g') u = in_flight_of u ?as" for u
        using C ac(1) [of u] by (auto simp: g' a in_flight_of_def)
      moreover have "in_flight_of u ?as \<le> login_account_concurrency" for u
        using ac [of u] lim(4) by (auto simp: a in_flight_of_def)
      ultimately show ?thesis
        using Pair Inr by (simp add: login_step_def login_inv_def)
    qed
  qed
qed

lemma login_finish_inv:
  assumes I: "login_inv s"
  shows "login_inv (login_step U (Finish i now valid) s)"
proof (cases "i < length (attempts s) \<and> \<not> finished (attempts s ! i)")
  case False
  then have "login_step U (Finish i now valid) s = s"
    by (cases s) (auto simp: login_step_def finish_attempt_def)
  with I show ?thesis by simp
next
  case True
  define a where "a = attempts s ! i"
  define a' where "a' = a\<lparr>finished := True\<rparr>"
  define g where "g = settle_states now valid 0 (states a) (guard s)"
  define as where "as = (attempts s)[i := a']"
  have "finished a'" by (simp add: a'_def)
  with True have U: "uses (attempts s) r = uses as r + count_list (states a) r"
    "in_flight (attempts s) = in_flight as + 1"
    "in_flight_of u (attempts s) = in_flight_of u as + (if account a = u then 1 else 0)" for r u
    using uses_finish [of i "attempts s" a'] by (simp_all add: as_def a_def)
  have v: "\<forall>r \<in> set (states a). r < length (heap (guard s))"
  proof -
    have "a \<in> set (attempts s)" using True by (simp add: a_def)
    with I show ?thesis by (simp add: login_inv_def)
  qed
  have "uses (attempts s) = (\<lambda>r. uses as r + count_list (states a) r)" by (rule ext) (rule U(1))
  with I have "heap_ok (guard s) (\<lambda>r. uses as r + count_list (states a) r)" by (simp add: login_inv_def)
  then have h: "heap_ok g (uses as)" unfolding g_def using v by (rule settle_states_ok)
  have v': "\<forall>a \<in> set as. \<forall>r \<in> set (states a). r < length (heap g)"
    using I v set_update_subset_insert [of "attempts s" i a']
    by (auto simp: login_inv_def as_def g_def a'_def)
  have acc: "get_or 0 (login_accounts g) u = in_flight_of u as + (if account a = u then 1 else 0)" for u
    using I U(3) [of u] by (simp add: login_inv_def g_def)
  define accts where "accts = put (account a) (get_or 0 (login_accounts g) (account a) - 1) (login_accounts g)"
  let ?g = "g\<lparr>login_active := login_active g - 1,
     login_accounts := (if get_or 0 (login_accounts g) (account a) - 1 = 0 then del (account a) accts else accts)\<rparr>"
  have "login_step U (Finish i now valid) s = \<lparr>guard = ?g, attempts = as\<rparr>"
    using True by (simp add: login_step_def finish_attempt_def Let_def a_def a'_def g_def as_def accts_def)
  moreover have "refs_ok ?g" "heap_ok ?g (uses as)"
    using I h by (auto simp: login_inv_def refs_ok_def g_def heap_ok_def at_def)
  moreover have "login_active ?g = in_flight as" "login_active ?g \<le> login_hash_concurrency"
    "distinct_keys (login_accounts ?g)" "login_total ?g \<le> login_global_limit"
    "int (length (logins ?g)) \<le> login_max_states"
    using I U(2) by (auto simp: login_inv_def g_def accts_def)
  moreover have "get_or 0 (login_accounts ?g) u = in_flight_of u as" for u
    using acc [of u] acc [of "account a"] by (auto simp: accts_def)
  moreover have "in_flight_of u as \<le> login_account_concurrency" for u
  proof -
    have "in_flight_of u (attempts s) \<le> login_account_concurrency" using I by (simp add: login_inv_def)
    with U(3) [of u] show ?thesis by (simp split: if_splits)
  qed
  ultimately show ?thesis using v' by (simp add: login_inv_def)
qed

lemma login_step_inv: "login_inv s \<Longrightarrow> login_inv (login_step U e s)"
  by (cases e) (simp_all add: login_reserve_inv login_finish_inv)

interpretation login: machine "login_step U" login_inv for U
  by unfold_locales (rule login_step_inv)

lemma login_inv_new: "login_inv new_login_system"
  by (simp add: login_inv_def new_login_system_def new_guard_def refs_ok_def heap_ok_def in_flight_def
      in_flight_of_def login_hash_concurrency_def login_account_concurrency_def
      login_global_limit_def login_max_states_def)

lemmas login_reachable = login.fold_inv [OF login_inv_new]

text \<open>C30. Whatever the order in which attempts arrive and finish, the counters are exact: the
  number of credential checks in flight is what the guard counts and at most four, at most two
  for an account; and for every source, the failures it has on record together with its attempts
  in flight never exceed five, so simultaneous requests cannot outrun the limit.\<close>

theorem login_attempts_bounded:
  "let s = fold (login_step U) ops new_login_system
   in in_flight (attempts s) = login_active (guard s) \<and> in_flight (attempts s) \<le> 4 \<and>
      in_flight_of u (attempts s) = get_or 0 (login_accounts (guard s)) u \<and> in_flight_of u (attempts s) \<le> 2 \<and>
      (\<forall>k r. map_of (logins (guard s)) k = Some r \<longrightarrow>
         pending (at (guard s) r) = int (uses (attempts s) r) \<and>
         failures (at (guard s) r) + int (uses (attempts s) r) \<le> 5) \<and>
      login_total (guard s) \<le> 120 \<and> length (logins (guard s)) \<le> 4096"
proof -
  define s where "s = fold (login_step U) ops new_login_system"
  have I: "login_inv s" using login_reachable by (simp add: s_def)
  have "pending (at (guard s) r) = int (uses (attempts s) r) \<and>
      failures (at (guard s) r) + int (uses (attempts s) r) \<le> 5"
    if "map_of (logins (guard s)) k = Some r" for k r
    using I that refs_valid [of "guard s" k r]
    by (auto simp: login_inv_def heap_ok_def good_def login_failure_limit_def)
  moreover have "in_flight (attempts s) = login_active (guard s)" "login_active (guard s) \<le> 4"
      "in_flight_of u (attempts s) = get_or 0 (login_accounts (guard s)) u" "in_flight_of u (attempts s) \<le> 2"
      "login_total (guard s) \<le> 120" "int (length (logins (guard s))) \<le> 4096"
    using I by (simp_all add: login_inv_def login_hash_concurrency_def
        login_account_concurrency_def login_global_limit_def login_max_states_def)
  ultimately show ?thesis by (simp add: s_def [symmetric] Let_def)
qed

lemma scan_blocked:
  "k \<in> set keys \<Longrightarrow> map_of (logins g) k = Some r \<Longrightarrow> now < until (at g r) \<Longrightarrow> \<exists>x. scan_keys now g keys m = Inl x"
proof (cases "scan_keys now g keys m")
  case (Inr n)
  then show "k \<in> set keys \<Longrightarrow> map_of (logins g) k = Some r \<Longrightarrow> now < until (at g r) \<Longrightarrow> \<exists>x. scan_keys now g keys m = Inl x"
    using scan_keys_ok [OF Inr] by fastforce
qed simp

lemma settle_until:
  "r < length (heap g) \<Longrightarrow> c \<le> until (at g r) \<Longrightarrow> c \<le> now + login_cooldown \<Longrightarrow>
   c \<le> until (at (settle_states now valid i rs g) r)"
proof (induction rs arbitrary: g i)
  case (Cons q rs)
  have "c \<le> until (at (modify (settle now valid i) q g) r)"
    using Cons.prems by (cases "q < length (heap g)")
      (auto simp: at_def modify_def settle_def Let_def nth_list_update)
  with Cons show ?case by simp
qed simp


text \<open>An example run: four failed attempts of one source leave its state one failure short.\<close>

definition example_system :: "nat \<Rightarrow> login_system" where
  "example_system n = \<lparr>guard = \<lparr>heap = [\<lparr>failures = int n, until = 0, seen = 0, pending = 0\<rparr>,
        \<lparr>failures = int n, until = 0, seen = 0, pending = 0\<rparr>],
       logins = [(''source:h'', 0), (''pair:h|'', 1)], login_accounts = [], login_active = 0,
       login_total = int n, login_window = 0, login_last_reap = 0\<rparr>,
     attempts = replicate n \<lparr>states = [0, 1], account = [], finished = True\<rparr>\<rparr>"

lemmas login_eval = login_step_def reserve_login_attempt_def login_reap_def login_roll_window_def
  login_state_for_def modify_def at_def finish_attempt_def settle_def get_or_def login_failure_limit_def
  login_max_states_def login_global_limit_def login_hash_concurrency_def login_account_concurrency_def
  login_reap_interval_def login_global_window_def second_def Let_def

lemma example_keys: "login_keys_for_host id ''h'' [] = [''source:h'', ''pair:h|'']" "to_lower id (trim_space []) = []"
  by (simp_all add: login_keys_for_host_def to_lower_def trim_space_def trim_left.simps trim_right.simps
      encode_runes_def)

lemma example_first:
  "login_step id (Finish 0 0 False) (login_step id (Reserve 0 ''h'' []) new_login_system) = example_system 1"
  by (simp add: login_eval example_keys new_login_system_def new_guard_def example_system_def)

lemma example_reserve:
  "n < 5 \<Longrightarrow> login_step id (Reserve 0 ''h'' []) (example_system n) =
   \<lparr>guard = \<lparr>heap = [\<lparr>failures = int n, until = 0, seen = 0, pending = 1\<rparr>,
        \<lparr>failures = int n, until = 0, seen = 0, pending = 1\<rparr>],
       logins = [(''source:h'', 0), (''pair:h|'', 1)], login_accounts = [([], 1)], login_active = 1,
       login_total = int n + 1, login_window = 0, login_last_reap = 0\<rparr>,
     attempts = replicate n \<lparr>states = [0, 1], account = [], finished = True\<rparr> @
       [\<lparr>states = [0, 1], account = [], finished = False\<rparr>]\<rparr>"
  by (simp add: login_eval example_keys example_system_def)

lemma example_round:
  "n < 4 \<Longrightarrow> login_step id (Finish n 0 False) (login_step id (Reserve 0 ''h'' []) (example_system n)) =
   example_system (Suc n)"
  by (simp add: example_reserve) (simp add: login_eval example_system_def nth_append list_update_append replicate_append_same)



theorem login_attempts_bounded_witness:
  "failures (at (guard (example_system 1)) 0) + int (uses (attempts (example_system 1)) 0) \<le> 5"
  using login_attempts_bounded [of id "[Reserve 0 ''h'' [], Finish 0 0 False]" "[]"] example_first
  by (simp add: Let_def) (simp add: example_system_def split: if_splits)

end
