(* ===== verification/Web_Limits.thy ===== *)
theory Web_Limits
  imports Maps
begin

text \<open>
  The web tier's other admission limits: first-run setup attempts (setup_guard.go), recovery
  requests (\<open>allowRecoveryRequest\<close> in auth_handlers.go) and voice previews (preview_jobs.go).
  Times are nanoseconds since the zero time, so \<open>IsZero\<close> is \<open>= 0\<close>; the Unicode part of
  \<open>strings.ToLower\<close> is the parameter \<open>U\<close>; ranges over maps run in list order.
\<close>

section \<open>Setup attempts\<close>

definition setup_attempt_limit :: int where "setup_attempt_limit = 5"
definition setup_rate_window :: int where "setup_rate_window = 900 * 10 ^ 9"
definition setup_rate_max_sources :: int where "setup_rate_max_sources = 4096"

record setup_attempt_state =
  started :: int
  attempts_made :: int

type_synonym setup_attempts = "(string \<times> setup_attempt_state) list"

definition setup_key :: "string \<Rightarrow> string" where
  "setup_key host = (let key = trim_space host in if key = [] then ''unknown'' else key)"

definition setup_sweep :: "int \<Rightarrow> setup_attempts \<Rightarrow> setup_attempts" where
  "setup_sweep now m =
     (if length m \<ge> 256 then filter (\<lambda>(_, st). now < started st + setup_rate_window) m else m)"

definition setup_accept :: "string \<Rightarrow> setup_attempt_state \<Rightarrow> setup_attempts \<Rightarrow> int \<times> setup_attempts" where
  "setup_accept key st m = (0, put key (st\<lparr>attempts_made := attempts_made st + 1\<rparr>) m)"

definition setup_fresh :: "string \<Rightarrow> int \<Rightarrow> setup_attempts \<Rightarrow> int \<times> setup_attempts" where
  "setup_fresh key now m =
     (if map_of m key = None \<and> int (length m) \<ge> setup_rate_max_sources then (setup_rate_window, m)
      else setup_accept key \<lparr>started = now, attempts_made = 0\<rparr> m)"

definition reserve_setup_attempt :: "string \<Rightarrow> int \<Rightarrow> setup_attempts \<Rightarrow> int \<times> setup_attempts" where
  "reserve_setup_attempt host now m0 =
     (let m = setup_sweep now m0; key = setup_key host
      in case map_of m key of
           Some st \<Rightarrow>
             if now < started st + setup_rate_window then
               (if attempts_made st \<ge> setup_attempt_limit then (started st + setup_rate_window - now, m)
                else setup_accept key st m)
             else setup_fresh key now m
         | None \<Rightarrow> setup_fresh key now m)"

definition setup_ok :: "setup_attempts \<Rightarrow> bool" where
  "setup_ok m \<longleftrightarrow> distinct_keys m \<and> int (length m) \<le> setup_rate_max_sources \<and>
     (\<forall>(k, st) \<in> set m. 1 \<le> attempts_made st \<and> attempts_made st \<le> setup_attempt_limit)"

lemma setup_accept_ok:
  assumes "setup_ok m" "0 \<le> attempts_made st" "attempts_made st < setup_attempt_limit"
    "map_of m key \<noteq> None \<or> int (length m) < setup_rate_max_sources"
  shows "setup_ok (snd (setup_accept key st m))"
proof -
  have d: "distinct_keys m" using assms(1) by (simp add: setup_ok_def)
  have "1 \<le> attempts_made st' \<and> attempts_made st' \<le> setup_attempt_limit"
    if "(k, st') \<in> set (put key (st\<lparr>attempts_made := attempts_made st + 1\<rparr>) m)" for k st'
    using in_put [OF that] assms(1-3) by (auto simp: setup_ok_def)
  with assms(1,4) size_put [OF d, of key] show ?thesis
    by (auto simp: setup_ok_def setup_accept_def setup_rate_max_sources_def split: if_splits)
qed

lemma setup_fresh_ok: "setup_ok m \<Longrightarrow> setup_ok (snd (setup_fresh key now m))"
  by (auto simp: setup_fresh_def setup_attempt_limit_def intro!: setup_accept_ok)

lemma setup_sweep_ok: "setup_ok m \<Longrightarrow> setup_ok (setup_sweep now m)"
proof -
  have "length (setup_sweep now m) \<le> length m" by (simp add: setup_sweep_def)
  then show "setup_ok m \<Longrightarrow> setup_ok (setup_sweep now m)"
    by (force simp: setup_ok_def setup_sweep_def)
qed

lemma setup_step_ok: "setup_ok m0 \<Longrightarrow> setup_ok (snd (reserve_setup_attempt host now m0))"
proof -
  assume "setup_ok m0"
  then have m: "setup_ok (setup_sweep now m0)" by (rule setup_sweep_ok)
  show ?thesis
  proof (cases "map_of (setup_sweep now m0) (setup_key host)")
    case None
    with setup_fresh_ok [OF m] show ?thesis by (simp add: reserve_setup_attempt_def)
  next
    case (Some st)
    then have "1 \<le> attempts_made st" using m lookup_in [OF Some] by (auto simp: setup_ok_def)
    with Some setup_fresh_ok [OF m] setup_accept_ok [OF m, of st "setup_key host"] m show ?thesis
      by (simp add: reserve_setup_attempt_def Let_def)
  qed
qed

interpretation setup_guard: machine "\<lambda>(host, now) m. snd (reserve_setup_attempt host now m)" setup_ok
  by unfold_locales (auto simp: setup_step_ok)

text \<open>Setup attempts stay bounded: whatever hosts and times are tried, at most 4096 sources are
  on record and none with more than five attempts, and a source that has used its five attempts
  is refused until its window ends, with exactly the remaining time as the delay.\<close>

theorem setup_attempts_bounded:
  "let m = fold (\<lambda>(host, now) m. snd (reserve_setup_attempt host now m)) ops []
   in length m \<le> 4096 \<and> (\<forall>(k, st) \<in> set m. attempts_made st \<le> 5) \<and>
      (\<forall>st. map_of m (setup_key host) = Some st \<and> attempts_made st = 5 \<and> now < started st + 900 * 10 ^ 9 \<longrightarrow>
         fst (reserve_setup_attempt host now m) = started st + 900 * 10 ^ 9 - now \<and>
         map_of (snd (reserve_setup_attempt host now m)) (setup_key host) = Some st)"
proof -
  define m where "m = fold (\<lambda>(host, now) m. snd (reserve_setup_attempt host now m)) ops []"
  have m: "setup_ok m"
    unfolding m_def by (rule setup_guard.fold_inv) (simp add: setup_ok_def setup_rate_max_sources_def)
  then have d: "distinct_keys m" by (simp add: setup_ok_def)
  have "fst (reserve_setup_attempt host now m) = started st + 900 * 10 ^ 9 - now \<and>
        map_of (snd (reserve_setup_attempt host now m)) (setup_key host) = Some st"
    if "map_of m (setup_key host) = Some st" "attempts_made st = 5" "now < started st + 900 * 10 ^ 9" for st
    using that d by (simp add: reserve_setup_attempt_def setup_sweep_def lookup_filter Let_def
        setup_rate_window_def setup_attempt_limit_def)
  with m show ?thesis
    by (auto simp: m_def [symmetric] Let_def setup_ok_def setup_rate_max_sources_def setup_attempt_limit_def)
qed

lemma example_setup:
  "fold (\<lambda>(host, now) m. snd (reserve_setup_attempt host now m)) (replicate 5 ([], 0)) [] =
     [(''unknown'', \<lparr>started = 0, attempts_made = 5\<rparr>)]"
  by (simp add: numeral_eq_Suc reserve_setup_attempt_def setup_sweep_def setup_key_def trim_space_def
      trim_left.simps trim_right.simps setup_fresh_def setup_accept_def setup_rate_window_def
      setup_attempt_limit_def setup_rate_max_sources_def Let_def)

theorem setup_attempts_bounded_witness:
  "fst (reserve_setup_attempt [] 7 [(''unknown'', \<lparr>started = 0, attempts_made = 5\<rparr>)]) = 900 * 10 ^ 9 - 7"
  using setup_attempts_bounded [of "replicate 5 ([], 0)" "[]" 7]
  unfolding example_setup by (simp add: Let_def setup_key_def trim_space_def trim_left.simps trim_right.simps)

section \<open>Recovery requests\<close>

definition recovery_rate_window :: int where "recovery_rate_window = 900 * 10 ^ 9"
definition recovery_source_limit :: int where "recovery_source_limit = 20"
definition recovery_target_limit :: int where "recovery_target_limit = 5"

record recovery_rate_state =
  rec_started :: int
  rec_count :: int

type_synonym recovery_rate = "(string \<times> recovery_rate_state) list"

text \<open>The bucket with the earliest start, as the scan with its empty-key start finds it.\<close>

definition oldest_bucket :: "recovery_rate \<Rightarrow> string" where
  "oldest_bucket m = fst (fold (\<lambda>(key, st) (oldest, start).
      if oldest = [] \<or> rec_started st < start then (key, rec_started st) else (oldest, start)) m ([], 0))"

text \<open>Evicting down to 4096: one entry goes per round, so \<open>length m\<close> rounds are enough.\<close>

primrec evict_oldest :: "nat \<Rightarrow> recovery_rate \<Rightarrow> recovery_rate" where
  "evict_oldest 0 m = m"
| "evict_oldest (Suc n) m =
     (if length m > 4096 then
        (let key = oldest_bucket m in if key = [] then m else evict_oldest n (del key m))
      else m)"

definition recovery_trim :: "int \<Rightarrow> recovery_rate \<Rightarrow> recovery_rate" where
  "recovery_trim now m =
     (if length m > 4096 then
        (let live = filter (\<lambda>(_, st). \<not> now - rec_started st \<ge> recovery_rate_window) m
         in evict_oldest (length live) live)
      else m)"

definition charge_bucket :: "int \<Rightarrow> string \<times> int \<Rightarrow> bool \<times> recovery_rate \<Rightarrow> bool \<times> recovery_rate" where
  "charge_bucket now b acc = (case (b, acc) of ((key, limit), (allowed, m)) \<Rightarrow>
     (let st0 = get_or \<lparr>rec_started = 0, rec_count = 0\<rparr> m key;
          st = (if rec_started st0 = 0 \<or> now - rec_started st0 \<ge> recovery_rate_window
                then \<lparr>rec_started = now, rec_count = 0\<rparr> else st0)
      in if rec_count st \<ge> limit then (False, put key st m)
         else (allowed, put key (st\<lparr>rec_count := rec_count st + 1\<rparr>) m)))"

definition allow_recovery_request ::
  "(rune \<Rightarrow> rune) \<Rightarrow> string \<Rightarrow> string \<Rightarrow> int \<Rightarrow> recovery_rate \<Rightarrow> bool \<times> recovery_rate" where
  "allow_recovery_request U client_host email now m =
     (let host = (if client_host = [] then ''unknown'' else client_host);
          target = to_lower U (trim_space email)
      in fold (charge_bucket now)
           [(''source:'' @ host, recovery_source_limit), (''target:'' @ target, recovery_target_limit)]
           (True, recovery_trim now m))"

definition recovery_ok :: "recovery_rate \<Rightarrow> bool" where
  "recovery_ok m \<longleftrightarrow> distinct_keys m \<and> [] \<notin> fst ` set m \<and>
     (\<forall>(k, st) \<in> set m. 0 \<le> rec_count st \<and> rec_count st \<le> recovery_source_limit \<and>
        (has_prefix k ''target:'' \<longrightarrow> rec_count st \<le> recovery_target_limit))"

lemma oldest_fold_key:
  "\<exists>k. fst (fold (\<lambda>(key, st) (oldest, start).
      if oldest = [] \<or> rec_started st < start then (key, rec_started st) else (oldest, start)) m (o0, s0)) = k \<and>
      (k = o0 \<and> o0 \<noteq> [] \<or> k \<in> fst ` set m \<or> k = [] \<and> m = [] \<and> o0 = [])"
proof (induction m arbitrary: o0 s0)
  case (Cons e m)
  obtain k st where [simp]: "e = (k, st)" by (cases e)
  show ?case
    using Cons.IH [of k "rec_started st"] Cons.IH [of o0 s0] by auto
qed simp

lemma evict_bound:
  "recovery_ok m \<Longrightarrow> length m \<le> n \<Longrightarrow> recovery_ok (evict_oldest n m) \<and> length (evict_oldest n m) \<le> 4096"
proof (induction n arbitrary: m)
  case (Suc n)
  show ?case
  proof (cases "length m > 4096")
    case True
    have k: "oldest_bucket m \<in> fst ` set m"
      using oldest_fold_key [of m "[]" 0] True by (auto simp: oldest_bucket_def)
    then have "length (del (oldest_bucket m) m) < length m"
      using Suc.prems(1) size_del [of m "oldest_bucket m"] True
      by (auto simp: recovery_ok_def map_of_eq_None_iff)
    moreover have "recovery_ok (del (oldest_bucket m) m)"
      using Suc.prems(1) by (auto simp: recovery_ok_def AList.delete_eq)
    ultimately show ?thesis
      using Suc.IH [of "del (oldest_bucket m) m"] Suc.prems True k by (auto simp: recovery_ok_def Let_def)
  qed (use Suc.prems in simp)
qed simp

lemma charge_bucket_ok:
  assumes "recovery_ok m" "key \<noteq> []" "0 < limit" "limit \<le> recovery_source_limit"
    "has_prefix key ''target:'' \<Longrightarrow> limit \<le> recovery_target_limit"
  shows "recovery_ok (snd (charge_bucket now (key, limit) (a, m)))"
    "length (snd (charge_bucket now (key, limit) (a, m))) \<le> Suc (length m)"
proof -
  have old: "0 \<le> rec_count st \<and> rec_count st \<le> recovery_source_limit \<and>
      (has_prefix key ''target:'' \<longrightarrow> rec_count st \<le> recovery_target_limit)"
    if "st = get_or \<lparr>rec_started = 0, rec_count = 0\<rparr> m key" for st
    using that assms(1) lookup_in [of m key]
    by (force simp: get_or_def recovery_ok_def recovery_source_limit_def recovery_target_limit_def split: option.splits)
  have ins: "recovery_ok (put key st m)"
    if "0 \<le> rec_count st" "rec_count st \<le> recovery_source_limit"
      "has_prefix key ''target:'' \<longrightarrow> rec_count st \<le> recovery_target_limit" for st
    using assms(1,2) that unfolding recovery_ok_def by (auto dest!: in_put simp: dom_update)
  show "recovery_ok (snd (charge_bucket now (key, limit) (a, m)))"
    using old [OF refl] assms(3-5)
    by (auto simp: charge_bucket_def Let_def recovery_source_limit_def recovery_target_limit_def intro!: ins)
  show "length (snd (charge_bucket now (key, limit) (a, m))) \<le> Suc (length m)"
    using size_put [of m key] assms(1) by (auto simp: charge_bucket_def Let_def recovery_ok_def)
qed

lemma recovery_trim_ok:
  assumes "recovery_ok m"
  shows "recovery_ok (recovery_trim now m)" "length (recovery_trim now m) \<le> 4096"
proof -
  define live where "live = filter (\<lambda>(_, st). \<not> now - rec_started st \<ge> recovery_rate_window) m"
  have "recovery_ok live" using assms by (force simp: recovery_ok_def live_def)
  with assms evict_bound [OF this order_refl]
  show "recovery_ok (recovery_trim now m)" "length (recovery_trim now m) \<le> 4096"
    by (auto simp: recovery_trim_def live_def [symmetric] Let_def)
qed

lemma recovery_step:
  assumes "recovery_ok m"
  shows "recovery_ok (snd (allow_recovery_request U host email now m))"
    "length (snd (allow_recovery_request U host email now m)) \<le> 4098"
proof -
  define h where "h = ''source:'' @ (if host = [] then ''unknown'' else host)"
  define e where "e = ''target:'' @ to_lower U (trim_space email)"
  note t = recovery_trim_ok [OF assms, of now]
  obtain a1 m1 where 1: "charge_bucket now (h, recovery_source_limit) (True, recovery_trim now m) = (a1, m1)"
    by fastforce
  have m1: "recovery_ok m1" "length m1 \<le> 4097"
    using charge_bucket_ok [OF t(1), of h recovery_source_limit now True] t(2) 1
    by (auto simp: h_def has_prefix_def recovery_source_limit_def)
  have "recovery_ok (snd (charge_bucket now (e, recovery_target_limit) (a1, m1)))"
      "length (snd (charge_bucket now (e, recovery_target_limit) (a1, m1))) \<le> 4098"
    using charge_bucket_ok [OF m1(1), of e recovery_target_limit now a1] m1(2)
    by (auto simp: e_def recovery_source_limit_def recovery_target_limit_def)
  then show "recovery_ok (snd (allow_recovery_request U host email now m))"
    "length (snd (allow_recovery_request U host email now m)) \<le> 4098"
    using 1 by (simp_all add: allow_recovery_request_def h_def e_def Let_def)
qed

interpretation recovery: machine "\<lambda>(host, email, now) m. snd (allow_recovery_request U host email now m)"
  "\<lambda>m. recovery_ok m \<and> length m \<le> 4098" for U
  by unfold_locales (auto simp: recovery_step split: prod.splits)

text \<open>C29. Recovery requests stay bounded: after any requests there are at most 4098 buckets, no source
  has more than twenty requests in its window and no address more than five.\<close>

theorem recovery_requests_bounded:
  "let m = fold (\<lambda>(host, email, now) m. snd (allow_recovery_request U host email now m)) ops []
   in length m \<le> 4098 \<and> list_all (\<lambda>(k, st). rec_count st \<le> (if has_prefix k ''target:'' then 5 else 20)) m"
proof -
  have "recovery_ok (fold (\<lambda>(host, email, now) m. snd (allow_recovery_request U host email now m)) ops []) \<and>
      length (fold (\<lambda>(host, email, now) m. snd (allow_recovery_request U host email now m)) ops []) \<le> 4098"
    by (rule recovery.fold_inv) (simp add: recovery_ok_def)
  then show ?thesis
    by (force simp: Let_def list_all_iff recovery_ok_def recovery_source_limit_def recovery_target_limit_def)
qed

section \<open>Voice previews\<close>

definition max_preview_jobs :: nat where "max_preview_jobs = 4"
definition max_preview_audio :: nat where "max_preview_audio = 16 * 2 ^ 20"
definition preview_lifetime :: int where "preview_lifetime = 300 * 10 ^ 9"

datatype preview_status = Preview_running | Preview_complete | Preview_failed

text \<open>The classification of a failure is a parameter \<open>'f\<close>; \<open>cancelable\<close> says whether the job
  still has its cancel function.\<close>

record 'f preview_job =
  job_user :: string
  job_status :: preview_status
  updated_at :: int
  audio :: string
  failure :: "'f option"
  cancelable :: bool

type_synonym 'f preview_jobs = "(string \<times> 'f preview_job) list"

datatype 'f preview_reply =
    Shutting_down
  | Already_running
  | Capacity_full
  | Accepted string
  | Not_found
  | Status string preview_status int "'f option"
  | Audio_unavailable
  | Audio string
  | Already_finished
  | Cancel_requested

text \<open>The sweep of \<open>startPreview\<close>: \<open>Inl\<close> when the user's running job is met, else the jobs left
  and the oldest finished one (the empty string when there is none).\<close>

primrec preview_scan ::
  "int \<Rightarrow> string \<Rightarrow> 'f preview_jobs \<Rightarrow> 'f preview_jobs \<times> string \<Rightarrow> 'f preview_jobs + 'f preview_jobs \<times> string" where
  "preview_scan now user [] acc = Inr acc"
| "preview_scan now user (e # rest) acc = (case (e, acc) of ((jid, job), (m, oldest)) \<Rightarrow>
     if job_status job = Preview_running then
       (if job_user job = user then Inl m else preview_scan now user rest (m, oldest))
     else if now - updated_at job > preview_lifetime then preview_scan now user rest (del jid m, oldest)
     else if oldest = [] \<or> (case map_of m oldest of Some old \<Rightarrow> updated_at job < updated_at old | None \<Rightarrow> False)
     then preview_scan now user rest (m, jid)
     else preview_scan now user rest (m, oldest))"

definition start_preview ::
  "bool \<Rightarrow> bool \<Rightarrow> int \<Rightarrow> string \<Rightarrow> string \<Rightarrow> 'f preview_jobs \<Rightarrow> 'f preview_reply \<times> 'f preview_jobs" where
  "start_preview closing ctx_done now new_id user m0 =
     (if closing \<or> ctx_done then (Shutting_down, m0)
      else case preview_scan now user m0 (m0, []) of
          Inl m \<Rightarrow> (Already_running, m)
        | Inr (m, oldest) \<Rightarrow>
            (let m1 = (if length m \<ge> max_preview_jobs \<and> oldest \<noteq> [] \<and>
                          (case map_of m oldest of Some old \<Rightarrow> job_status old = Preview_failed | None \<Rightarrow> False)
                       then del oldest m else m)
             in if length m1 \<ge> max_preview_jobs then (Capacity_full, m1)
                else (Accepted new_id, put new_id \<lparr>job_user = user, job_status = Preview_running, updated_at = now,
                                         audio = [], failure = None, cancelable = True\<rparr> m1)))"

text \<open>The end of the synthesis goroutine: the engine's result, the context's error, and the
  output limit decide between complete and failed.\<close>

definition preview_result :: "('f + string) \<Rightarrow> 'f option \<Rightarrow> 'f \<Rightarrow> 'f + string" where
  "preview_result res ctx_err resource_limit = (case ctx_err of
      Some f \<Rightarrow> Inl f
    | None \<Rightarrow> (case res of Inl f \<Rightarrow> Inl f
               | Inr a \<Rightarrow> if a = [] \<or> length a > max_preview_audio then Inl resource_limit else Inr a))"

definition finish_preview ::
  "int \<Rightarrow> ('f + string) \<Rightarrow> 'f option \<Rightarrow> 'f \<Rightarrow> string \<Rightarrow> 'f preview_jobs \<Rightarrow> 'f preview_jobs" where
  "finish_preview now res ctx_err resource_limit jid m = (case map_of m jid of None \<Rightarrow> m
    | Some job0 \<Rightarrow>
       (let job = job0\<lparr>updated_at := now, cancelable := False\<rparr>
        in put jid (case preview_result res ctx_err resource_limit of
             Inl f \<Rightarrow> job\<lparr>job_status := Preview_failed, failure := Some f\<rparr>
           | Inr a \<Rightarrow> job\<lparr>job_status := Preview_complete, audio := a\<rparr>) m))"

definition read_preview_job :: "int \<Rightarrow> string \<Rightarrow> string \<Rightarrow> bool \<Rightarrow> 'f preview_jobs \<Rightarrow> 'f preview_reply" where
  "read_preview_job now user jid want_audio m = (case map_of m jid of
      None \<Rightarrow> Not_found
    | Some job \<Rightarrow>
        if job_user job \<noteq> user \<or>
           (job_status job \<noteq> Preview_running \<and> now - updated_at job > preview_lifetime) then Not_found
        else if \<not> want_audio then Status jid (job_status job) (updated_at job) (failure job)
        else if job_status job \<noteq> Preview_complete then Audio_unavailable
        else Audio (audio job))"

definition cancel_preview_job :: "string \<Rightarrow> string \<Rightarrow> 'f preview_jobs \<Rightarrow> 'f preview_reply" where
  "cancel_preview_job user jid m = (case map_of m jid of
      None \<Rightarrow> Not_found
    | Some job \<Rightarrow> if job_user job \<noteq> user then Not_found
                  else if \<not> cancelable job then Already_finished else Cancel_requested)"

text \<open>The invariant: at most four jobs, and at most one running job of any user.\<close>

definition running_of :: "string \<Rightarrow> string \<Rightarrow> 'f preview_job \<Rightarrow> bool" where
  "running_of user k job \<longleftrightarrow> job_status job = Preview_running \<and> job_user job = user"

definition preview_ok :: "'f preview_jobs \<Rightarrow> bool" where
  "preview_ok m \<longleftrightarrow> distinct_keys m \<and> length m \<le> max_preview_jobs \<and> (\<forall>u. count_if (running_of u) m \<le> 1)"

lemma preview_del: "preview_ok m \<Longrightarrow> preview_ok (del k m)"
  unfolding preview_ok_def
  by (metis (no_types, lifting) count_del distinct_del le_trans le_add1 size_del_le)

lemma scan_step:
  assumes "\<not> running_of u k job"
  obtains m1 q where "m1 = m \<or> m1 = del k m \<and> job_status job \<noteq> Preview_running"
    "preview_scan now u ((k, job) # es) (m, oldest) = preview_scan now u es (m1, q)"
proof -
  have "\<exists>m1 q. (m1 = m \<or> m1 = del k m \<and> job_status job \<noteq> Preview_running) \<and>
      preview_scan now u ((k, job) # es) (m, oldest) = preview_scan now u es (m1, q)"
    using assms by (auto simp: running_of_def)
  then show ?thesis using that by blast
qed

lemma scan_Inl: "preview_ok m \<Longrightarrow> preview_scan now u es (m, oldest) = Inl m' \<Longrightarrow> preview_ok m'"
proof (induction es arbitrary: m oldest)
  case (Cons e es)
  obtain k job where e: "e = (k, job)" by (cases e)
  show ?case
  proof (cases "running_of u k job")
    case True
    with Cons.prems e show ?thesis by (simp add: running_of_def)
  next
    case False
    then obtain m1 q where "m1 = m \<or> m1 = del k m \<and> job_status job \<noteq> Preview_running"
      "preview_scan now u ((k, job) # es) (m, oldest) = preview_scan now u es (m1, q)"
      by (rule scan_step)
    with Cons.IH [of m1 q] Cons.prems e preview_del [of m k] show ?thesis by auto
  qed
qed simp

lemma scan_Inr:
  "preview_ok m \<Longrightarrow> distinct_keys es \<Longrightarrow> \<forall>(k, job) \<in> set es. map_of m k = Some job \<Longrightarrow>
   preview_scan now u es (m, oldest) = Inr (m', old) \<Longrightarrow>
   preview_ok m' \<and> (\<forall>k j. map_of m' k = Some j \<longrightarrow> map_of m k = Some j) \<and>
   (\<forall>(k, j) \<in> set es. \<not> running_of u k j) \<and>
   (\<forall>k j. map_of m k = Some j \<longrightarrow> job_status j = Preview_running \<longrightarrow> map_of m' k = Some j)"
proof (induction es arbitrary: m oldest)
  case (Cons e es)
  obtain k job where e: "e = (k, job)" by (cases e)
  have nr: "\<not> running_of u k job" using Cons.prems(4) e by (auto simp: running_of_def)
  then obtain m1 q where m1: "m1 = m \<or> m1 = del k m \<and> job_status job \<noteq> Preview_running"
    and sc: "preview_scan now u ((k, job) # es) (m, oldest) = preview_scan now u es (m1, q)"
    by (rule scan_step)
  have mk: "map_of m k = Some job" using Cons.prems(3) e by simp
  have ok1: "preview_ok m1" using m1 Cons.prems(1) preview_del by blast
  have es1: "\<forall>(k, job) \<in> set es. map_of m1 k = Some job"
    using m1 Cons.prems(2,3) e by (force simp: image_iff)
  have dk: "distinct_keys es" using Cons.prems(2) e by simp
  have "preview_scan now u es (m1, q) = Inr (m', old)" using Cons.prems(4) sc unfolding e by metis
  from Cons.IH [OF ok1 dk es1 this] have H: "preview_ok m' \<and> (\<forall>k j. map_of m' k = Some j \<longrightarrow> map_of m1 k = Some j) \<and>
     (\<forall>(k, j) \<in> set es. \<not> running_of u k j) \<and>
     (\<forall>k j. map_of m1 k = Some j \<longrightarrow> job_status j = Preview_running \<longrightarrow> map_of m' k = Some j)"
    .
  have sub: "map_of m1 k' = Some j \<Longrightarrow> map_of m k' = Some j" for k' j
    using m1 by (auto split: if_splits)
  have run: "map_of m k' = Some j \<Longrightarrow> job_status j = Preview_running \<Longrightarrow> map_of m1 k' = Some j" for k' j
    using m1 mk by auto
  from H nr have "\<forall>(k, j) \<in> set (e # es). \<not> running_of u k j" by (simp add: e)
  with H sub run show ?case by blast
qed simp

lemma preview_put:
  assumes "preview_ok m" "length m < max_preview_jobs" "count_if (running_of (job_user j)) m = 0"
  shows "preview_ok (put k j m)"
proof -
  have d: "distinct_keys m" using assms(1) by (simp add: preview_ok_def)
  have "count_if (running_of u) (put k j m) \<le> 1" for u
  proof -
    have "count_if (running_of u) m \<le> 1" using assms(1) by (simp add: preview_ok_def)
    with count_put [OF d, of "running_of u" k j] assms(3) show ?thesis
      by (cases "u = job_user j") (auto simp: running_of_def split: if_splits)
  qed
  with assms(1,2) size_put [OF d, of k j] show ?thesis by (auto simp: preview_ok_def)
qed

lemma start_preview_spec:
  assumes "preview_ok m0" "start_preview closing done now nid u m0 = (reply, m)"
  shows "preview_ok m \<and> (\<forall>k j. k \<noteq> nid \<longrightarrow> map_of m0 k = Some j \<longrightarrow> job_status j = Preview_running \<longrightarrow>
     reply \<noteq> Already_running \<longrightarrow> map_of m k = Some j)"
proof (cases "closing \<or> done")
  case True
  with assms show ?thesis by (auto simp: start_preview_def)
next
  case False
  have d0: "distinct_keys m0" using assms(1) by (simp add: preview_ok_def)
  show ?thesis
  proof (cases "preview_scan now u m0 (m0, [])")
    case (Inl m')
    with False assms scan_Inl [OF assms(1) Inl] show ?thesis by (auto simp: start_preview_def)
  next
    case (Inr r)
    obtain m' old where r: "r = (m', old)" by (cases r)
    have "\<forall>(k, job) \<in> set m0. map_of m0 k = Some job" using d0 by auto
    note H0 = scan_Inr [OF assms(1) d0 this Inr [unfolded r]]
    have H: "preview_ok m'" "\<And>k j. map_of m' k = Some j \<Longrightarrow> map_of m0 k = Some j"
        "\<And>k j. (k, j) \<in> set m0 \<Longrightarrow> \<not> running_of u k j"
        "\<And>k j. map_of m0 k = Some j \<Longrightarrow> job_status j = Preview_running \<Longrightarrow> map_of m' k = Some j"
      using H0 by blast+
    define m1 where "m1 = (if length m' \<ge> max_preview_jobs \<and> old \<noteq> [] \<and>
        (case map_of m' old of Some j \<Rightarrow> job_status j = Preview_failed | None \<Rightarrow> False) then del old m' else m')"
    have m1: "preview_ok m1" using H(1) preview_del by (auto simp: m1_def)
    have keep: "map_of m0 k = Some j \<Longrightarrow> job_status j = Preview_running \<Longrightarrow> map_of m1 k = Some j" for k j
      using H(4) [of k j] by (auto simp: m1_def split: option.splits)
    have "\<not> running_of u k j" if "(k, j) \<in> set m1" for k j
    proof -
      have "(k, j) \<in> set m'" using that by (auto simp: m1_def dest: in_del split: if_splits)
      then have "map_of m' k = Some j" using H(1) by (simp add: preview_ok_def)
      from lookup_in [OF H(2) [OF this]] show ?thesis by (rule H(3))
    qed
    then have none: "count_if (running_of u) m1 = 0" by (auto simp: count_zero)
    show ?thesis
    proof (cases "length m1 \<ge> max_preview_jobs")
      case True
      with False assms Inr r m1 keep show ?thesis by (auto simp: start_preview_def Let_def m1_def [symmetric])
    next
      case len: False
      then have m: "m = put nid \<lparr>job_user = u, job_status = Preview_running, updated_at = now, audio = [],
          failure = None, cancelable = True\<rparr> m1"
        using False assms Inr r by (auto simp: start_preview_def Let_def m1_def [symmetric])
      have "preview_ok m" unfolding m using len none by (intro preview_put [OF m1]) simp_all
      with keep m show ?thesis by simp
    qed
  qed
qed

datatype 'f preview_op =
    Start bool bool int string string
  | Synthesised int "'f + string" "'f option" 'f string

primrec preview_step :: "'f preview_op \<Rightarrow> 'f preview_jobs \<Rightarrow> 'f preview_jobs" where
  "preview_step (Start closing ctx_done now nid user) m = snd (start_preview closing ctx_done now nid user m)"
| "preview_step (Synthesised now res ctx_err lim jid) m = finish_preview now res ctx_err lim jid m"

lemma finish_preview_ok: "preview_ok m \<Longrightarrow> preview_ok (finish_preview now res ctx_err lim jid m)"
proof (cases "map_of m jid")
  case (Some job)
  assume m: "preview_ok m"
  then have d: "distinct_keys m" by (simp add: preview_ok_def)
  obtain j where j: "finish_preview now res ctx_err lim jid m = put jid j m" "job_status j \<noteq> Preview_running"
    by (cases "preview_result res ctx_err lim") (simp_all add: finish_preview_def Some Let_def)
  have "count_if (running_of u) (put jid j m) \<le> 1" for u
  proof -
    have "count_if (running_of u) m \<le> 1" using m by (simp add: preview_ok_def)
    with count_put [OF d, of "running_of u" jid j] j(2) show ?thesis by (simp add: running_of_def)
  qed
  with m size_put [OF d, of jid j] Some show ?thesis by (simp add: preview_ok_def j(1))
qed (simp add: finish_preview_def)

lemma preview_step_ok: "preview_ok m \<Longrightarrow> preview_ok (preview_step e m)"
proof (cases e)
  case (Start closing ctx_done now nid user)
  assume m: "preview_ok m"
  obtain reply m' where "start_preview closing ctx_done now nid user m = (reply, m')" by fastforce
  with start_preview_spec [OF m this] Start show ?thesis by simp
qed (simp add: finish_preview_ok)

interpretation preview: machine preview_step preview_ok
  by unfold_locales (rule preview_step_ok)

text \<open>C30. Voice previews stay bounded: after any starts and completions at most four previews are
  held and no user has two running; and admitting a new one never drops a running preview.\<close>

theorem previews_bounded:
  "let m = fold preview_step ops [] in
   length m \<le> 4 \<and> count_if (running_of user) m \<le> 1 \<and>
   (\<forall>k j. fst (start_preview closing ctx_done now nid user m) = Accepted nid \<and> k \<noteq> nid \<and>
      map_of m k = Some j \<and> job_status j = Preview_running \<longrightarrow>
      map_of (snd (start_preview closing ctx_done now nid user m)) k = Some j)"
proof -
  define m where "m = fold preview_step ops ([] :: 'a preview_jobs)"
  have m: "preview_ok m" unfolding m_def by (rule preview.fold_inv) (simp add: preview_ok_def)
  then have "length m \<le> 4" "count_if (running_of user) m \<le> 1"
    by (simp_all add: preview_ok_def max_preview_jobs_def)
  moreover obtain reply m' where "start_preview closing ctx_done now nid user m = (reply, m')" by fastforce
  moreover from start_preview_spec [OF m this]
  have "\<forall>k j. k \<noteq> nid \<longrightarrow> map_of m k = Some j \<longrightarrow> job_status j = Preview_running \<longrightarrow>
     reply \<noteq> Already_running \<longrightarrow> map_of m' k = Some j" by blast
  ultimately show ?thesis unfolding m_def [symmetric] Let_def by simp
qed

theorem previews_bounded_witness:
  "map_of (snd (start_preview False False 7 ''b'' ''ben'' (fold preview_step [Start False False 0 ''a'' ''ann''] []))) ''a''
   = Some \<lparr>job_user = ''ann'', job_status = Preview_running, updated_at = 0, audio = [],
           failure = (None :: nat option), cancelable = True\<rparr>"
  using previews_bounded [of "[Start False False 0 ''a'' ''ann'' :: nat preview_op]" "''ben''" False False 7 "''b''"]
  by (simp add: start_preview_def max_preview_jobs_def Let_def)

end
