(* ===== verification/Ivr.thy ===== *)
theory Ivr
  imports Ivr_Texts
begin

text \<open>
  The formal IVR contract of \<open>internal/ivr\<close>: the call states, the \<open>specs\<close> table with the help
  pages registered by \<open>init\<close> (\<open>spec.go\<close>, \<open>help.go\<close>), and the navigation session of \<open>flow.go\<close>
  (\<open>Enter\<close>, \<open>Back\<close>, \<open>FailPIN\<close>, \<open>Close\<close>). The Go type \<open>State\<close> is a string; the model enumerates
  the states the program uses and \<open>state_name\<close> gives each its string (\<open>St_none\<close> is the zero value).
\<close>

section \<open>States\<close>

datatype (plugins only: code size) topic =
    H_basics | H_reading | H_browsing | H_read_controls | H_message_actions | H_writing
  | H_recipients | H_compose_body | H_drafts | H_replies | H_typing | H_letters
  | H_symbols | H_symbols_more | H_editing | H_typing_example | H_attachments | H_attachment_listen
  | H_attachment_record | H_settings | H_contacts | H_voice | H_alerts | H_accounts
  | H_troubleshooting

datatype (plugins only: code size) state =
    St_none | St_welcome | St_unread | St_message | St_announce
  | St_outgoing | St_closed | St_pin | St_account_choice | St_verification
  | St_main | St_accounts | St_account_menu | St_draft_menu | St_draft_list
  | St_draft_edit | St_recipient_edit | St_attachment_edit | St_account_settings | St_account_alert_folders
  | St_folders | St_folder_action | St_list | St_read | St_attachment_menu
  | St_attachment_playback | St_move_menu | St_more_options | St_contact_name | St_contact_confirm
  | St_field_confirm | St_confirm_delete | St_compose | St_recipient_pick | St_contact_pick
  | St_recipient_menu | St_recipient_input | St_subject_method | St_subject | St_body_method
  | St_body | St_review | St_forward_options | St_audio_recording | St_recording
  | St_recording_subject | St_settings | St_contacts | St_info
  | St_help topic

primrec topic_name :: "topic \<Rightarrow> string" where
  "topic_name H_basics = ''help_basics''"
| "topic_name H_reading = ''help_reading''"
| "topic_name H_browsing = ''help_browsing''"
| "topic_name H_read_controls = ''help_read_controls''"
| "topic_name H_message_actions = ''help_message_actions''"
| "topic_name H_writing = ''help_writing''"
| "topic_name H_recipients = ''help_recipients''"
| "topic_name H_compose_body = ''help_compose_body''"
| "topic_name H_drafts = ''help_drafts''"
| "topic_name H_replies = ''help_replies''"
| "topic_name H_typing = ''help_typing''"
| "topic_name H_letters = ''help_letters''"
| "topic_name H_symbols = ''help_symbols''"
| "topic_name H_symbols_more = ''help_symbols_more''"
| "topic_name H_editing = ''help_editing''"
| "topic_name H_typing_example = ''help_typing_example''"
| "topic_name H_attachments = ''help_attachments''"
| "topic_name H_attachment_listen = ''help_attachment_listen''"
| "topic_name H_attachment_record = ''help_attachment_record''"
| "topic_name H_settings = ''help_settings''"
| "topic_name H_contacts = ''help_contacts''"
| "topic_name H_voice = ''help_voice''"
| "topic_name H_alerts = ''help_alerts''"
| "topic_name H_accounts = ''help_accounts''"
| "topic_name H_troubleshooting = ''help_troubleshooting''"

primrec state_name :: "state \<Rightarrow> string" where
  "state_name St_none = []"
| "state_name St_welcome = ''welcome''"
| "state_name St_unread = ''unread''"
| "state_name St_message = ''message''"
| "state_name St_announce = ''announce''"
| "state_name St_outgoing = ''outgoing''"
| "state_name St_closed = ''closed''"
| "state_name St_pin = ''pin''"
| "state_name St_account_choice = ''account_choice''"
| "state_name St_verification = ''verification''"
| "state_name St_main = ''main''"
| "state_name St_accounts = ''accounts''"
| "state_name St_account_menu = ''account_menu''"
| "state_name St_draft_menu = ''draft_menu''"
| "state_name St_draft_list = ''draft_list''"
| "state_name St_draft_edit = ''draft_edit''"
| "state_name St_recipient_edit = ''recipient_edit''"
| "state_name St_attachment_edit = ''attachment_edit''"
| "state_name St_account_settings = ''account_settings''"
| "state_name St_account_alert_folders = ''account_alert_folders''"
| "state_name St_folders = ''folders''"
| "state_name St_folder_action = ''folder_action''"
| "state_name St_list = ''list''"
| "state_name St_read = ''read''"
| "state_name St_attachment_menu = ''attachment_menu''"
| "state_name St_attachment_playback = ''attachment_playback''"
| "state_name St_move_menu = ''move_menu''"
| "state_name St_more_options = ''more_options''"
| "state_name St_contact_name = ''contact_name''"
| "state_name St_contact_confirm = ''contact_confirm''"
| "state_name St_field_confirm = ''field_confirm''"
| "state_name St_confirm_delete = ''confirm_delete''"
| "state_name St_compose = ''compose''"
| "state_name St_recipient_pick = ''recipient_pick''"
| "state_name St_contact_pick = ''contact_pick''"
| "state_name St_recipient_menu = ''recipient_menu''"
| "state_name St_recipient_input = ''recipient_input''"
| "state_name St_subject_method = ''subject_method''"
| "state_name St_subject = ''subject''"
| "state_name St_body_method = ''body_method''"
| "state_name St_body = ''body''"
| "state_name St_review = ''review''"
| "state_name St_forward_options = ''forward_options''"
| "state_name St_audio_recording = ''audio_recording''"
| "state_name St_recording = ''recording''"
| "state_name St_recording_subject = ''recording_subject''"
| "state_name St_settings = ''settings''"
| "state_name St_contacts = ''contacts''"
| "state_name St_info = ''info''"
| "state_name (St_help t) = topic_name t"

section \<open>The contract table\<close>

text \<open>A nil \<open>Valid\<close> function is \<open>None\<close>.\<close>

record state_spec =
  sp_state :: state
  sp_prompt :: string
  sp_valid :: "(string \<Rightarrow> bool) option"
  sp_back :: state
  sp_timeout :: state
  sp_barge_in :: bool
  sp_repeatable :: bool

definition mk_spec ::
  "state \<Rightarrow> string \<Rightarrow> (string \<Rightarrow> bool) option \<Rightarrow> state \<Rightarrow> state \<Rightarrow> bool \<Rightarrow> bool \<Rightarrow> state_spec" where
  "mk_spec st p v b t bi r = \<lparr>sp_state = st, sp_prompt = p, sp_valid = v, sp_back = b,
     sp_timeout = t, sp_barge_in = bi, sp_repeatable = r\<rparr>"

lemma mk_spec_sel [simp]:
  "sp_state (mk_spec st p v b t bi r) = st" "sp_prompt (mk_spec st p v b t bi r) = p"
  "sp_valid (mk_spec st p v b t bi r) = v" "sp_back (mk_spec st p v b t bi r) = b"
  "sp_timeout (mk_spec st p v b t bi r) = t"
  by (simp_all add: mk_spec_def)

definition fixed :: "string list \<Rightarrow> string \<Rightarrow> bool" where
  "fixed keys key \<longleftrightarrow> key \<in> set keys"

definition digits :: "nat \<Rightarrow> nat \<Rightarrow> string \<Rightarrow> bool" where
  "digits lo hi key = (case key of
      [c] \<Rightarrow> is_digit c \<and> lo \<le> byte c - 48 \<and> byte c - 48 \<le> hi
    | _ \<Rightarrow> False)"

text \<open>The literal \<open>specs\<close> map of \<open>spec.go\<close>, in source order.\<close>

definition spec_table :: "(state \<times> state_spec) list" where
  "spec_table = [
     (St_closed, mk_spec St_closed prompt_closed (Some (fixed [])) St_none St_closed False True),
     (St_pin, mk_spec St_pin prompt_pin None St_closed St_closed False True),
     (St_account_choice, mk_spec St_account_choice prompt_account_choice (Some (digits 1 9)) St_closed St_closed False True),
     (St_verification, mk_spec St_verification prompt_verification None St_closed St_closed False True),
     (St_main, mk_spec St_main prompt_main (Some (fixed [''1'', ''2'', ''3''])) St_none St_none False True),
     (St_accounts, mk_spec St_accounts prompt_accounts (Some (digits 0 9)) St_main St_none False True),
     (St_account_menu, mk_spec St_account_menu prompt_account_menu (Some (fixed [''1'', ''2'', ''3'', ''4'', ''5''])) St_accounts St_none False True),
     (St_draft_menu, mk_spec St_draft_menu prompt_draft_menu (Some (fixed [''1'', ''2''])) St_account_menu St_none False True),
     (St_draft_list, mk_spec St_draft_list prompt_draft_list (Some (digits 1 9)) St_draft_menu St_none False True),
     (St_draft_edit, mk_spec St_draft_edit prompt_draft_edit (Some (fixed [''1'', ''2'', ''3'', ''4''])) St_review St_none False True),
     (St_recipient_edit, mk_spec St_recipient_edit prompt_recipient_edit (Some (fixed [''1'', ''2'', ''3'', ''4''])) St_draft_edit St_none False True),
     (St_attachment_edit, mk_spec St_attachment_edit prompt_attachment_edit (Some (fixed [''1'', ''2'', ''3''])) St_draft_edit St_none False True),
     (St_account_settings, mk_spec St_account_settings prompt_account_settings (Some (fixed [''1'', ''2''])) St_account_menu St_none False True),
     (St_account_alert_folders, mk_spec St_account_alert_folders prompt_account_alert_folders (Some (digits 1 9)) St_account_settings St_none False True),
     (St_folders, mk_spec St_folders prompt_folders (Some (digits 1 9)) St_account_menu St_none False True),
     (St_folder_action, mk_spec St_folder_action prompt_folder_action (Some (fixed [''1'', ''2''])) St_folders St_none False True),
     (St_list, mk_spec St_list prompt_list (Some (fixed [''1'', ''2'', ''3'', ''4'', ''5'', ''6''])) St_none St_none False True),
     (St_read, mk_spec St_read prompt_read (Some (fixed [''0'', ''1'', ''2'', ''3'', ''4'', ''5'', ''6'', ''7'', ''8'', ''9''])) St_list St_none True True),
     (St_attachment_menu, mk_spec St_attachment_menu prompt_attachment_menu (Some (digits 0 9)) St_read St_none True True),
     (St_attachment_playback, mk_spec St_attachment_playback prompt_attachment_playback (Some (digits 0 9)) St_read St_none True True),
     (St_move_menu, mk_spec St_move_menu prompt_move_menu (Some (digits 0 9)) St_read St_none False True),
     (St_more_options, mk_spec St_more_options prompt_more_options (Some (fixed [''1'', ''2'', ''3'', ''4''])) St_read St_none False True),
     (St_contact_name, mk_spec St_contact_name prompt_contact_name None St_more_options St_none False True),
     (St_contact_confirm, mk_spec St_contact_confirm prompt_contact_confirm (Some (fixed [''1'', ''2''])) St_more_options St_none False True),
     (St_field_confirm, mk_spec St_field_confirm prompt_field_confirm (Some (fixed [''1'', ''2'', ''3''])) St_compose St_none False True),
     (St_confirm_delete, mk_spec St_confirm_delete prompt_confirm_delete (Some (fixed [''1'', ''2''])) St_list St_none False True),
     (St_compose, mk_spec St_compose prompt_compose None St_main St_none False True),
     (St_recipient_pick, mk_spec St_recipient_pick prompt_recipient_pick (Some (fixed [''1'', ''2''])) St_main St_none False True),
     (St_contact_pick, mk_spec St_contact_pick prompt_contact_pick (Some (digits 1 9)) St_recipient_pick St_none False True),
     (St_recipient_menu, mk_spec St_recipient_menu prompt_recipient_menu (Some (fixed [''1'', ''2'', ''3'', ''4''])) St_compose St_none False True),
     (St_recipient_input, mk_spec St_recipient_input prompt_recipient_input None St_recipient_menu St_none False True),
     (St_subject_method, mk_spec St_subject_method prompt_subject_method (Some (fixed [''1'', ''2''])) St_recipient_menu St_none False True),
     (St_subject, mk_spec St_subject prompt_subject None St_compose St_none False True),
     (St_body_method, mk_spec St_body_method prompt_body_method (Some (fixed [''1'', ''2''])) St_subject St_none False True),
     (St_body, mk_spec St_body prompt_body None St_subject St_none False True),
     (St_review, mk_spec St_review prompt_review (Some (fixed [''1'', ''2'', ''3'', ''4'', ''5'', ''6''])) St_body St_none False True),
     (St_forward_options, mk_spec St_forward_options prompt_forward_options (Some (fixed [''1'', ''2''])) St_read St_none False True),
     (St_audio_recording, mk_spec St_audio_recording prompt_audio_recording (Some (fixed [''0''])) St_review St_none True True),
     (St_recording, mk_spec St_recording prompt_recording (Some (fixed [''0''])) St_body_method St_none False True),
     (St_recording_subject, mk_spec St_recording_subject prompt_recording_subject (Some (fixed [''0''])) St_subject_method St_none False True),
     (St_settings, mk_spec St_settings prompt_settings (Some (fixed [''1'', ''2'', ''3''])) St_main St_none False True),
     (St_contacts, mk_spec St_contacts prompt_contacts (Some (digits 1 9)) St_settings St_none False True)]"

section \<open>Help pages\<close>

record help_page =
  hp_text :: string
  hp_back :: state
  hp_children :: "state list"

definition help_pages :: "(state \<times> help_page) list" where
  "help_pages = [
     (St_info, \<lparr>hp_text = text_info, hp_back = St_main, hp_children = [St_help H_basics, St_help H_reading, St_help H_writing, St_help H_typing, St_help H_attachments, St_help H_settings, St_help H_accounts, St_help H_troubleshooting]\<rparr>),
     (St_help H_basics, \<lparr>hp_text = text_help_basics, hp_back = St_info, hp_children = []\<rparr>),
     (St_help H_reading, \<lparr>hp_text = text_help_reading, hp_back = St_info, hp_children = [St_help H_browsing, St_help H_read_controls, St_help H_message_actions]\<rparr>),
     (St_help H_browsing, \<lparr>hp_text = text_help_browsing, hp_back = St_help H_reading, hp_children = []\<rparr>),
     (St_help H_read_controls, \<lparr>hp_text = text_help_read_controls, hp_back = St_help H_reading, hp_children = []\<rparr>),
     (St_help H_message_actions, \<lparr>hp_text = text_help_message_actions, hp_back = St_help H_reading, hp_children = []\<rparr>),
     (St_help H_writing, \<lparr>hp_text = text_help_writing, hp_back = St_info, hp_children = [St_help H_recipients, St_help H_compose_body, St_help H_drafts, St_help H_replies]\<rparr>),
     (St_help H_recipients, \<lparr>hp_text = text_help_recipients, hp_back = St_help H_writing, hp_children = []\<rparr>),
     (St_help H_compose_body, \<lparr>hp_text = text_help_compose_body, hp_back = St_help H_writing, hp_children = []\<rparr>),
     (St_help H_drafts, \<lparr>hp_text = text_help_drafts, hp_back = St_help H_writing, hp_children = []\<rparr>),
     (St_help H_replies, \<lparr>hp_text = text_help_replies, hp_back = St_help H_writing, hp_children = []\<rparr>),
     (St_help H_typing, \<lparr>hp_text = text_help_typing, hp_back = St_info, hp_children = [St_help H_letters, St_help H_symbols, St_help H_editing, St_help H_typing_example]\<rparr>),
     (St_help H_letters, \<lparr>hp_text = text_help_letters, hp_back = St_help H_typing, hp_children = []\<rparr>),
     (St_help H_symbols, \<lparr>hp_text = text_help_symbols, hp_back = St_help H_typing, hp_children = [St_help H_symbols, St_help H_symbols_more]\<rparr>),
     (St_help H_symbols_more, \<lparr>hp_text = text_help_symbols_more, hp_back = St_help H_symbols, hp_children = []\<rparr>),
     (St_help H_editing, \<lparr>hp_text = text_help_editing, hp_back = St_help H_typing, hp_children = []\<rparr>),
     (St_help H_typing_example, \<lparr>hp_text = text_help_typing_example, hp_back = St_help H_typing, hp_children = []\<rparr>),
     (St_help H_attachments, \<lparr>hp_text = text_help_attachments, hp_back = St_info, hp_children = [St_help H_attachment_listen, St_help H_attachment_record]\<rparr>),
     (St_help H_attachment_listen, \<lparr>hp_text = text_help_attachment_listen, hp_back = St_help H_attachments, hp_children = []\<rparr>),
     (St_help H_attachment_record, \<lparr>hp_text = text_help_attachment_record, hp_back = St_help H_attachments, hp_children = []\<rparr>),
     (St_help H_settings, \<lparr>hp_text = text_help_settings, hp_back = St_info, hp_children = [St_help H_contacts, St_help H_voice, St_help H_alerts]\<rparr>),
     (St_help H_contacts, \<lparr>hp_text = text_help_contacts, hp_back = St_help H_settings, hp_children = []\<rparr>),
     (St_help H_voice, \<lparr>hp_text = text_help_voice, hp_back = St_help H_settings, hp_children = []\<rparr>),
     (St_help H_alerts, \<lparr>hp_text = text_help_alerts, hp_back = St_help H_settings, hp_children = []\<rparr>),
     (St_help H_accounts, \<lparr>hp_text = text_help_accounts, hp_back = St_info, hp_children = []\<rparr>),
     (St_help H_troubleshooting, \<lparr>hp_text = text_help_troubleshooting, hp_back = St_info, hp_children = []\<rparr>)]"

text \<open>\<open>registerHelpPages\<close>: a leaf repeats on 1, an inner page has one key per child.\<close>

definition help_keys :: "help_page \<Rightarrow> string list" where
  "help_keys p = (if hp_children p = [] then [''1'']
     else map (\<lambda>i. encode_rune (49 + i)) [0..<length (hp_children p)])"

definition help_spec :: "state \<Rightarrow> help_page \<Rightarrow> state_spec" where
  "help_spec st p = mk_spec st
     (hp_text p @ (if hp_children p = []
        then '' Press 1 or star to repeat, or pound to go back.''
        else '' Star repeats these choices. Pound goes back.''))
     (Some (fixed (help_keys p))) (hp_back p) St_closed False True"

definition specs :: "state \<Rightarrow> state_spec option" where
  "specs st = map_option
     (\<lambda>sp. if sp_timeout sp = St_none then sp\<lparr>sp_timeout := St_closed\<rparr> else sp)
     (case map_of help_pages st of Some p \<Rightarrow> Some (help_spec st p) | None \<Rightarrow> map_of spec_table st)"

definition accepts :: "state \<Rightarrow> string \<Rightarrow> bool" where
  "accepts st key = (case specs st of
      None \<Rightarrow> False
    | Some sp \<Rightarrow> (case sp_valid sp of None \<Rightarrow> True | Some v \<Rightarrow> v key))"

definition ivr_back :: "state \<Rightarrow> state option" where
  "ivr_back st = (case specs st of
      None \<Rightarrow> None
    | Some sp \<Rightarrow> if sp_back sp = St_none then None else Some (sp_back sp))"

definition ivr_prompt :: "state \<Rightarrow> string option" where
  "ivr_prompt st = (case specs st of
      None \<Rightarrow> None
    | Some sp \<Rightarrow> if sp_prompt sp = [] then None else Some (sp_prompt sp))"

definition is_help_state :: "state \<Rightarrow> bool" where
  "is_help_state st \<longleftrightarrow> map_of help_pages st \<noteq> None"

text \<open>\<open>HelpDestination\<close>; the outer \<open>None\<close> is an index panic on \<open>page.children\<close>.\<close>

definition help_destination :: "state \<Rightarrow> string \<Rightarrow> state option option" where
  "help_destination st key = (case map_of help_pages st of
      None \<Rightarrow> Some None
    | Some p \<Rightarrow>
        if \<not> accepts st key then Some None
        else if hp_children p = [] then Some (Some st)
        else (case key of
            [] \<Rightarrow> None
          | c # _ \<Rightarrow> if 49 \<le> (byte c :: nat) \<and> byte c - 49 < length (hp_children p)
                     then Some (Some (hp_children p ! (byte c - 49))) else None))"

section \<open>The navigation session\<close>

definition default_history_limit :: nat where
  "default_history_limit = 64"

record flow =
  fl_call_id :: string
  fl_state :: state
  fl_previous :: "state list"
  fl_pin_failures :: nat
  fl_max_pin_tries :: nat
  fl_authenticated :: bool
  fl_history_limit :: int

definition new_session :: "string \<Rightarrow> flow" where
  "new_session call = \<lparr>fl_call_id = call, fl_state = St_welcome, fl_previous = [],
     fl_pin_failures = 0, fl_max_pin_tries = 3, fl_authenticated = False,
     fl_history_limit = int default_history_limit\<rparr>"

definition enter :: "state \<Rightarrow> flow \<Rightarrow> flow" where
  "enter next s =
     (if fl_state s \<noteq> next then
        let prev = fl_previous s @ [fl_state s];
            limit = (if fl_history_limit s \<le> 0 then int default_history_limit else fl_history_limit s)
        in s\<lparr>fl_previous := (if int (length prev) > limit then drop (length prev - nat limit) prev else prev),
             fl_history_limit := limit,
             fl_state := next\<rparr>
      else s)"

text \<open>\<open>Back\<close>; \<open>None\<close> is the error "already at root state".\<close>

definition go_back :: "flow \<Rightarrow> flow option" where
  "go_back s = (if fl_previous s = [] then None
     else Some (s\<lparr>fl_state := last (fl_previous s), fl_previous := butlast (fl_previous s)\<rparr>))"

definition fail_pin :: "flow \<Rightarrow> flow \<times> bool" where
  "fail_pin s = (let s1 = s\<lparr>fl_pin_failures := Suc (fl_pin_failures s)\<rparr> in
     if fl_max_pin_tries s1 \<le> fl_pin_failures s1 then (s1\<lparr>fl_state := St_closed\<rparr>, True)
     else (s1, False))"

definition close_flow :: "flow \<Rightarrow> flow" where
  "close_flow s = s\<lparr>fl_state := St_closed, fl_authenticated := False, fl_previous := []\<rparr>"

section \<open>Consistency of the contract\<close>

lemma map_of_list_all: "map_of xs k = Some v \<Longrightarrow> list_all P xs \<Longrightarrow> P (k, v)"
  by (auto dest!: map_of_SomeD simp: list_all_iff)

lemma specs_cases:
  assumes "specs st = Some sp"
  obtains (page) p where "(st, p) \<in> set help_pages" "sp = help_spec st p"
  | (menu) sp0 where "(st, sp0) \<in> set spec_table"
      "sp = (if sp_timeout sp0 = St_none then sp0\<lparr>sp_timeout := St_closed\<rparr> else sp0)"
  using assms by (auto simp: specs_def help_spec_def dest!: map_of_SomeD split: option.splits)

definition states_with_spec :: "state list" where
  "states_with_spec = map fst help_pages @ map fst spec_table"

lemma dom_specs: "specs st \<noteq> None \<longleftrightarrow> st \<in> set states_with_spec"
proof -
  have "specs st \<noteq> None \<longleftrightarrow> map_of help_pages st \<noteq> None \<or> map_of spec_table st \<noteq> None"
    by (auto simp: specs_def split: option.splits)
  then show ?thesis unfolding map_of_eq_None_iff states_with_spec_def by simp
qed

lemma spec_table_ok:
  "list_all (\<lambda>(st, sp). sp_state sp = st \<and> sp_timeout sp \<in> {St_none, St_closed} \<and>
      sp_back sp \<in> insert St_none (set states_with_spec)) spec_table"
  by (simp add: spec_table_def states_with_spec_def help_pages_def)

lemma help_pages_ok:
  "list_all (\<lambda>(st, p). hp_back p \<in> set states_with_spec \<and> length (hp_children p) \<le> 9 \<and>
      list_all (\<lambda>c. map_of help_pages c \<noteq> None) (hp_children p)) help_pages"
  by (simp add: help_pages_def states_with_spec_def spec_table_def)

lemma specs_wf:
  assumes "specs st = Some sp"
  shows "sp_state sp = st \<and> sp_timeout sp = St_closed \<and>
    (sp_back sp = St_none \<or> specs (sp_back sp) \<noteq> None)"
  using assms
proof (cases rule: specs_cases)
  case (page p)
  then have "hp_back p \<in> set states_with_spec"
    using help_pages_ok by (auto simp: list_all_iff)
  with page show ?thesis by (simp add: help_spec_def dom_specs [symmetric] del: not_None_eq)
next
  case (menu sp0)
  then have "sp_state sp0 = st \<and> sp_timeout sp0 \<in> {St_none, St_closed} \<and>
      sp_back sp0 \<in> insert St_none (set states_with_spec)"
    using spec_table_ok by (auto simp: list_all_iff)
  with menu show ?thesis by (auto simp: dom_specs [symmetric] simp del: not_None_eq)
qed

text \<open>Climbing by the contract's Back: \<open>n\<close> presses of pound.\<close>

fun climb :: "nat \<Rightarrow> state \<Rightarrow> state" where
  "climb 0 st = st"
| "climb (Suc n) st = (case ivr_back st of None \<Rightarrow> st | Some b \<Rightarrow> climb n b)"

text \<open>The depth of every state below its root: Back strictly decreases it.\<close>

primrec topic_depth :: "topic \<Rightarrow> nat" where
  "topic_depth H_basics = 2"
| "topic_depth H_reading = 2"
| "topic_depth H_browsing = 3"
| "topic_depth H_read_controls = 3"
| "topic_depth H_message_actions = 3"
| "topic_depth H_writing = 2"
| "topic_depth H_recipients = 3"
| "topic_depth H_compose_body = 3"
| "topic_depth H_drafts = 3"
| "topic_depth H_replies = 3"
| "topic_depth H_typing = 2"
| "topic_depth H_letters = 3"
| "topic_depth H_symbols = 3"
| "topic_depth H_symbols_more = 4"
| "topic_depth H_editing = 3"
| "topic_depth H_typing_example = 3"
| "topic_depth H_attachments = 2"
| "topic_depth H_attachment_listen = 3"
| "topic_depth H_attachment_record = 3"
| "topic_depth H_settings = 2"
| "topic_depth H_contacts = 3"
| "topic_depth H_voice = 3"
| "topic_depth H_alerts = 3"
| "topic_depth H_accounts = 2"
| "topic_depth H_troubleshooting = 2"

primrec state_depth :: "state \<Rightarrow> nat" where
  "state_depth St_none = 0"
| "state_depth St_welcome = 0"
| "state_depth St_unread = 0"
| "state_depth St_message = 0"
| "state_depth St_announce = 0"
| "state_depth St_outgoing = 0"
| "state_depth St_closed = 0"
| "state_depth St_pin = 1"
| "state_depth St_account_choice = 1"
| "state_depth St_verification = 1"
| "state_depth St_main = 0"
| "state_depth St_accounts = 1"
| "state_depth St_account_menu = 2"
| "state_depth St_draft_menu = 3"
| "state_depth St_draft_list = 4"
| "state_depth St_draft_edit = 5"
| "state_depth St_recipient_edit = 6"
| "state_depth St_attachment_edit = 6"
| "state_depth St_account_settings = 3"
| "state_depth St_account_alert_folders = 4"
| "state_depth St_folders = 3"
| "state_depth St_folder_action = 4"
| "state_depth St_list = 0"
| "state_depth St_read = 1"
| "state_depth St_attachment_menu = 2"
| "state_depth St_attachment_playback = 2"
| "state_depth St_move_menu = 2"
| "state_depth St_more_options = 2"
| "state_depth St_contact_name = 3"
| "state_depth St_contact_confirm = 3"
| "state_depth St_field_confirm = 2"
| "state_depth St_confirm_delete = 1"
| "state_depth St_compose = 1"
| "state_depth St_recipient_pick = 1"
| "state_depth St_contact_pick = 2"
| "state_depth St_recipient_menu = 2"
| "state_depth St_recipient_input = 3"
| "state_depth St_subject_method = 3"
| "state_depth St_subject = 2"
| "state_depth St_body_method = 3"
| "state_depth St_body = 3"
| "state_depth St_review = 4"
| "state_depth St_forward_options = 2"
| "state_depth St_audio_recording = 5"
| "state_depth St_recording = 4"
| "state_depth St_recording_subject = 4"
| "state_depth St_settings = 1"
| "state_depth St_contacts = 2"
| "state_depth St_info = 1"
| "state_depth (St_help t) = topic_depth t"


lemma depth_tables:
  "list_all (\<lambda>(st, sp). sp_back sp = St_none \<or> state_depth (sp_back sp) < state_depth st) spec_table"
  "list_all (\<lambda>(st, p). state_depth (hp_back p) < state_depth st) help_pages"
  by (simp_all add: spec_table_def help_pages_def)

lemma ivr_back_depth: "ivr_back st = Some b \<Longrightarrow> state_depth b < state_depth st"
proof -
  assume "ivr_back st = Some b"
  then obtain sp where sp: "specs st = Some sp" "sp_back sp = b" "b \<noteq> St_none"
    by (auto simp: ivr_back_def split: option.splits if_splits)
  from sp(1) show ?thesis
  proof (cases rule: specs_cases)
    case (page p)
    with sp depth_tables(2) show ?thesis by (auto simp: list_all_iff help_spec_def)
  next
    case (menu sp0)
    with sp depth_tables(1) show ?thesis by (fastforce simp: list_all_iff split: if_splits)
  qed
qed

lemma state_depth_le: "state_depth st \<le> 8"
  by (cases st) (simp_all, case_tac x50, simp_all)

lemma climb_root: "state_depth st \<le> n \<Longrightarrow> ivr_back (climb n st) = None"
proof (induction n arbitrary: st)
  case 0
  then show ?case using ivr_back_depth [of st] by (cases "ivr_back st") auto
next
  case (Suc n)
  then show ?case using ivr_back_depth [of st] by (auto split: option.split)
qed

lemma climb_spec: "specs st \<noteq> None \<Longrightarrow> specs (climb n st) \<noteq> None"
proof (induction n arbitrary: st)
  case (Suc n)
  show ?case
  proof (cases "ivr_back st")
    case (Some b)
    then have "specs b \<noteq> None" using specs_wf by (fastforce simp: ivr_back_def split: option.splits if_splits)
    with Suc.IH Some show ?thesis by simp
  qed (use Suc.prems in simp)
qed simp

lemma roots:
  "list_all (\<lambda>(st, sp). sp_back sp = St_none \<longrightarrow> st \<in> {St_closed, St_main, St_list}) spec_table"
  "list_all (\<lambda>(st, p). hp_back p \<noteq> St_none) help_pages"
  by (simp_all add: spec_table_def help_pages_def)

lemma root_states:
  assumes "specs st \<noteq> None" "ivr_back st = None"
  shows "st \<in> {St_closed, St_main, St_list}"
proof -
  from assms obtain sp where sp: "specs st = Some sp" "sp_back sp = St_none"
    by (auto simp: ivr_back_def split: if_splits)
  from sp(1) show ?thesis
  proof (cases rule: specs_cases)
    case (page p)
    with sp roots(2) show ?thesis by (auto simp: list_all_iff help_spec_def)
  next
    case (menu sp0)
    with sp roots(1) show ?thesis by (fastforce simp: list_all_iff split: if_splits)
  qed
qed

section \<open>Help navigation\<close>

lemma help_keys_index:
  assumes "accepts st key" "map_of help_pages st = Some p" "hp_children p \<noteq> []"
  obtains i where "i < length (hp_children p)" "key = [char_of (49 + i)]" "i < 9"
proof -
  have "key \<in> set (help_keys p)"
    using assms by (simp add: accepts_def specs_def help_spec_def fixed_def)
  then obtain i where "i < length (hp_children p)" "key = encode_rune (49 + i)"
    using assms(3) by (auto simp: help_keys_def)
  moreover have "length (hp_children p) \<le> 9"
    using assms(2) help_pages_ok by (auto simp: list_all_iff dest!: map_of_SomeD)
  ultimately show ?thesis using that by simp
qed

lemma help_destination_safe:
  assumes "map_of help_pages st = Some p" "accepts st key"
  obtains d where "help_destination st key = Some (Some d)" "is_help_state d"
    "d = st \<or> d \<in> set (hp_children p)"
proof (cases "hp_children p = []")
  case True
  then show ?thesis using assms that [of st] by (simp add: help_destination_def is_help_state_def)
next
  case False
  obtain i where i: "i < length (hp_children p)" "key = [char_of (49 + i)]" "i < 9"
    using help_keys_index [OF assms(2,1) False] .
  have "is_help_state (hp_children p ! i)"
    using assms(1) i(1) help_pages_ok
    by (auto simp: list_all_iff is_help_state_def dest!: map_of_SomeD)
  with i False assms show ?thesis
    using that [of "hp_children p ! i"] by (simp add: help_destination_def)
qed

lemma help_destination_total: "help_destination st key \<noteq> None"
proof (cases "map_of help_pages st")
  case (Some p)
  show ?thesis
  proof (cases "accepts st key")
    case True
    then show ?thesis by (rule help_destination_safe [OF Some]) simp
  qed (use Some in \<open>simp add: help_destination_def\<close>)
qed (simp add: help_destination_def)

section \<open>Session history\<close>

definition flow_inv :: "flow \<Rightarrow> bool" where
  "flow_inv s \<longleftrightarrow> int (length (fl_previous s)) \<le>
     (if fl_history_limit s \<le> 0 then int default_history_limit else fl_history_limit s)"

lemma flow_inv_new: "flow_inv (new_session call)"
  by (simp add: flow_inv_def new_session_def)

lemma flow_inv_enter: "flow_inv (enter st s)" if "flow_inv s"
  using that by (auto simp: flow_inv_def enter_def Let_def default_history_limit_def)

lemma flow_inv_back: "flow_inv s \<Longrightarrow> go_back s = Some s' \<Longrightarrow> flow_inv s'"
  by (auto simp: flow_inv_def go_back_def split: if_splits)

lemma flow_inv_fail_pin: "flow_inv s \<Longrightarrow> flow_inv (fst (fail_pin s))"
  by (auto simp: flow_inv_def fail_pin_def Let_def)

lemma flow_inv_close: "flow_inv (close_flow s)"
  by (auto simp: flow_inv_def close_flow_def default_history_limit_def)

lemma back_enter:
  assumes "st \<noteq> fl_state s"
  shows "\<exists>s'. go_back (enter st s) = Some s' \<and> fl_state s' = fl_state s"
  using assms by (auto simp: go_back_def enter_def Let_def default_history_limit_def last_drop)

datatype flow_op = Enter state | Back | Fail_pin | Close

definition flow_step :: "flow_op \<Rightarrow> flow \<Rightarrow> flow" where
  "flow_step e s = (case e of
      Enter st \<Rightarrow> enter st s
    | Back \<Rightarrow> (case go_back s of None \<Rightarrow> s | Some s' \<Rightarrow> s')
    | Fail_pin \<Rightarrow> fst (fail_pin s)
    | Close \<Rightarrow> close_flow s)"

interpretation flow: machine flow_step flow_inv
  by unfold_locales
    (auto simp: flow_step_def flow_inv_enter flow_inv_fail_pin flow_inv_close
          split: flow_op.split option.split intro: flow_inv_back)

section \<open>Properties\<close>

text \<open>C25. Every state with a contract keeps the safety policy: its entry is filed under its own
state, its inactivity timeout leads to the closed state, and its Back destination, where it has
one, has a contract of its own.\<close>

theorem contract_closed:
  assumes "specs st = Some sp"
  shows "sp_state sp = st \<and> sp_timeout sp = St_closed \<and>
    (sp_back sp = St_none \<or> specs (sp_back sp) \<noteq> None)"
  using assms by (rule specs_wf)

theorem contract_closed_witness:
  "specs St_main \<noteq> None \<and> sp_timeout (the (specs St_main)) = St_closed"
proof -
  obtain sp where "specs St_main = Some sp"
    by (auto simp: specs_def help_pages_def spec_table_def)
  with contract_closed [OF this] show ?thesis by simp
qed

text \<open>C24. Pressing pound repeatedly always leaves a menu: from every state with a contract,
at most eight Back steps of the contract reach the main menu, the message list (whose way
back depends on the call) or the closed state. The Back relation has no cycle.\<close>

theorem pound_reaches_root:
  assumes "specs st \<noteq> None"
  shows "climb 8 st \<in> {St_closed, St_main, St_list}"
  using root_states [OF climb_spec [OF assms] climb_root [OF state_depth_le]] .

theorem pound_reaches_root_witness: "climb 8 St_attachment_edit \<in> {St_closed, St_main, St_list}"
proof -
  have "specs St_attachment_edit \<noteq> None"
    by (simp add: specs_def help_pages_def spec_table_def)
  from pound_reaches_root [OF this] show ?thesis .
qed

text \<open>Help navigation cannot index out of range: whatever state and key the dispatcher
asks about, \<open>HelpDestination\<close> returns, and an accepted key on a help page leads to a help
page (the page itself on a leaf, one of its children otherwise).\<close>

theorem help_navigation_safe:
  "help_destination st key \<noteq> None \<and>
   (\<forall>d. help_destination st key = Some (Some d) \<longrightarrow>
     is_help_state st \<and> is_help_state d \<and> specs d \<noteq> None)"
proof -
  have "is_help_state st \<and> is_help_state d \<and> specs d \<noteq> None"
    if d: "help_destination st key = Some (Some d)" for d
  proof -
    obtain p where p: "map_of help_pages st = Some p" "accepts st key"
      using d by (auto simp: help_destination_def split: option.splits if_splits)
    have "is_help_state d" by (rule help_destination_safe [OF p]) (use d in simp)
    then show ?thesis using p by (auto simp: is_help_state_def specs_def)
  qed
  then show ?thesis using help_destination_total by blast
qed

theorem help_navigation_safe_witness:
  "help_destination St_info ''3'' = Some (Some (St_help H_writing)) \<and> is_help_state (St_help H_writing)"
proof -
  have d: "help_destination St_info ''3'' = Some (Some (St_help H_writing))"
    by (simp add: help_destination_def accepts_def specs_def help_spec_def help_keys_def fixed_def
        help_pages_def char_of_digits)
  with help_navigation_safe [of St_info "''3''"] show ?thesis by blast
qed

text \<open>C26. The navigation history of a call is bounded: after any sequence of Enter, Back,
failed-PIN and Close operations on a new session, at most 64 previous states are kept.\<close>

theorem history_bounded:
  "length (fl_previous (fold flow_step ops (new_session call))) \<le> 64"
proof -
  let ?f = "fold flow_step ops (new_session call)"
  have lim: "fl_history_limit (fold flow_step ops s) = 64" if "fl_history_limit s = 64" for s
    using that
  proof (induction ops arbitrary: s)
    case (Cons e es)
    have "fl_history_limit (flow_step e s) = 64" using Cons.prems
      by (auto simp: flow_step_def enter_def go_back_def fail_pin_def close_flow_def Let_def
          split: flow_op.split)
    then show ?case using Cons.IH by simp
  qed simp
  have "flow_inv ?f" by (rule flow.fold_inv [OF flow_inv_new])
  moreover have "fl_history_limit ?f = 64"
    by (rule lim) (simp add: new_session_def default_history_limit_def)
  ultimately show ?thesis by (simp add: flow_inv_def)
qed

text \<open>C27. Back undoes Enter: after entering a different state, Back succeeds and returns to
the state the session was in, even when the history was full and its oldest entry was dropped.\<close>

theorem back_undoes_enter:
  assumes "next \<noteq> fl_state s"
  shows "\<exists>s'. go_back (enter next s) = Some s' \<and> fl_state s' = fl_state s"
  using assms by (rule back_enter)

theorem back_undoes_enter_witness:
  "\<exists>s'. go_back (enter St_main (new_session [])) = Some s' \<and> fl_state s' = St_welcome"
  using back_undoes_enter [of St_main "new_session []"] by (simp add: new_session_def)

end
