(* ===== verification/Speech_Text.thy ===== *)
theory Speech_Text
  imports Prelude
begin

text \<open>
  What the call layer does to text before it is spoken: truncation and chunking
  (internal/calls/body_speech.go), the replacement of scripts the voice cannot speak
  (\<open>SanitizeNonLatin\<close> in internal/speech/naturalize.go) and character spelling
  (\<open>SpellCharacters\<close> in internal/speech/tokens.go).  The Unicode tables of the standard
  library are the record \<open>unicode\<close>.
\<close>

section \<open>Unicode tables\<close>

record unicode =
  u_letter :: "rune \<Rightarrow> bool"
  u_latin :: "rune \<Rightarrow> bool"
  u_script :: "string \<Rightarrow> rune \<Rightarrow> bool"
  u_upper :: "rune \<Rightarrow> rune"
  u_lower :: "rune \<Rightarrow> rune"
  u_fold :: "rune \<Rightarrow> rune"

text \<open>\<open>strings.EqualFold\<close>: \<open>u_fold\<close> picks one rune of each orbit of simple case folding.\<close>

definition equal_fold :: "unicode \<Rightarrow> string \<Rightarrow> string \<Rightarrow> bool" where
  "equal_fold U s t \<longleftrightarrow> map (u_fold U) (runes s) = map (u_fold U) (runes t)"

section \<open>Sentences and chunks\<close>

definition is_terminator :: "rune \<Rightarrow> bool" where
  "is_terminator r \<longleftrightarrow> r = byte CHR ''.'' \<or> r = byte CHR ''!'' \<or> r = byte CHR ''?''"

definition is_closer :: "rune \<Rightarrow> bool" where
  "is_closer r \<longleftrightarrow> r \<in> {0x22, 0x27, 0xBB, 0x300D, byte CHR '')'', byte CHR '']''}"

definition flush :: "rune list \<Rightarrow> string list \<Rightarrow> string list" where
  "flush current sentences =
     (let t = trim_space (encode_runes current) in if t \<noteq> [] then sentences @ [t] else sentences)"

text \<open>The scan over the runes: what is left of the text, the sentence so far and the sentences
  found.  At a terminator the closers behind it are written too; when white space or the end
  follows, the sentence is flushed and the scan goes on behind the closers, and otherwise it
  goes on directly behind the terminator, so the closers are met (and written) again.\<close>

function split_runes :: "rune list \<Rightarrow> rune list \<Rightarrow> string list \<Rightarrow> string list" where
  "split_runes [] current out = flush current out"
| "split_runes (r # rs) current out =
     (if r = 10 then split_runes rs [] (flush (current @ [r]) out)
      else if \<not> is_terminator r then split_runes rs (current @ [r]) out
      else
        (let closers = takeWhile is_closer rs;
             rest = dropWhile is_closer rs;
             current' = current @ [r] @ closers
         in if rest = [] \<or> hd rest = 32 \<or> hd rest = 9 \<or> hd rest = 10
            then split_runes rest [] (flush current' out)
            else split_runes rs current' out))"

  by pat_completeness auto

termination
  by (relation "measure (\<lambda>(rs, _). length rs)") (auto simp: le_imp_less_Suc length_dropWhile_le)

definition split_sentences :: "string \<Rightarrow> string list" where
  "split_sentences text = split_runes (runes text) [] []"

text \<open>The cut of the first \<open>n\<close> runes after their last space, or at \<open>n\<close> when there is none.\<close>

definition last_space_cut :: "nat \<Rightarrow> rune list \<Rightarrow> nat" where
  "last_space_cut n rs =
     (let cut = length (dropWhile (\<lambda>r. r \<noteq> 32) (rev (take n rs))) in if cut = 0 then n else cut)"

text \<open>Splitting a long sentence; each round takes at least one rune, so the number of runes is
  enough fuel.\<close>

fun split_long :: "nat \<Rightarrow> nat \<Rightarrow> string \<Rightarrow> string list \<Rightarrow> string \<times> string list" where
  "split_long 0 n sentence out = (sentence, out)"
| "split_long (Suc fuel) n sentence out =
     (if rune_count sentence > n then
        (let limit = runes sentence; cut = last_space_cut n limit
         in split_long fuel n (trim_space (encode_runes (drop cut limit)))
              (out @ [trim_space (encode_runes (take cut limit))]))
      else (sentence, out))"

fun group_sentences :: "nat \<Rightarrow> string list \<Rightarrow> string \<Rightarrow> string list \<Rightarrow> string list" where
  "group_sentences n [] current out = (if current \<noteq> [] then out @ [current] else out)"
| "group_sentences n (s # ss) current out =
     (if current \<noteq> [] \<and> rune_count current + 1 + rune_count s \<le> n
      then group_sentences n ss (current @ '' '' @ s) out
      else
        (let out1 = (if current \<noteq> [] then out @ [current] else out);
             (rest, out2) = split_long (rune_count s) n s out1
         in group_sentences n ss rest out2))"

definition speech_chunk_runes :: int where "speech_chunk_runes = 350"
definition max_spoken_body_runes :: int where "max_spoken_body_runes = 2800"
definition single_prompt_body_runes :: nat where "single_prompt_body_runes = 600"

definition split_speech_chunks :: "string \<Rightarrow> int \<Rightarrow> string list" where
  "split_speech_chunks text0 max_runes =
     (let text = trim_space text0;
          n = (if max_runes \<le> 0 then speech_chunk_runes else max_runes)
      in if text = [] then [] else group_sentences (nat n) (split_sentences text) [] [])"

section \<open>Truncation\<close>

definition trim_right_blank :: "string \<Rightarrow> string" where
  "trim_right_blank s = rev (dropWhile (\<lambda>c. c \<in> {CHR '' '', CHR 0x09, CHR 0x0A}) (rev s))"

text \<open>The position behind the last terminator of a text, 0 when there is none.\<close>

definition last_stop :: "rune list \<Rightarrow> nat" where
  "last_stop rs = length (dropWhile (\<lambda>r. \<not> is_terminator r) (rev rs))"

definition truncate_for_speech :: "string \<Rightarrow> int \<Rightarrow> string \<times> bool" where
  "truncate_for_speech text max_runes =
     (let rs = runes text; n = nat max_runes
      in if max_runes \<le> 0 \<or> length rs \<le> n then (text, False)
         else
           (let limit = take n rs; stop = last_stop limit
            in if stop > 0 \<and> stop - 1 > n div 2 then (encode_runes (take stop limit), True)
               else (trim_right_blank (encode_runes (take (last_space_cut n limit) limit)), True)))"

section \<open>Text the voice cannot speak\<close>

definition spoken_scripts :: "string list" where
  "spoken_scripts = [''Hebrew'', ''Arabic'', ''Cyrillic'', ''Greek'', ''Devanagari'', ''Chinese'', ''Japanese'', ''Japanese'', ''Korean'', ''Thai'', ''Armenian'']"

definition spoken_script_name :: "unicode \<Rightarrow> rune \<Rightarrow> string" where
  "spoken_script_name U r = (case filter (\<lambda>s. u_script U s r) spoken_scripts of [] \<Rightarrow> [] | s # _ \<Rightarrow> s)"

text \<open>The end of a run: the runes it takes (up to the last letter of the script) and the rest.\<close>

definition ends_run :: "unicode \<Rightarrow> string \<Rightarrow> rune \<Rightarrow> bool" where
  "ends_run U name next =
     (let next_name = spoken_script_name U next; letter = u_letter U next; latin = letter \<and> u_latin U next
      in latin \<or> (next_name \<noteq> [] \<and> next_name \<noteq> name) \<or>
         (letter \<and> \<not> latin \<and> next_name = [] \<and> name \<noteq> ''another language''))"

definition run_rest :: "unicode \<Rightarrow> string \<Rightarrow> rune list \<Rightarrow> rune list" where
  "run_rest U name rs =
     (let run = takeWhile (\<lambda>r. \<not> ends_run U name r) rs;
          kept = length (dropWhile (\<lambda>r. \<not> u_letter U r) (rev run))
      in drop kept rs)"

function sanitize_runes :: "unicode \<Rightarrow> rune list \<Rightarrow> string" where
  "sanitize_runes U [] = []"
| "sanitize_runes U (r # rs) =
     (if \<not> u_letter U r \<or> u_latin U r then encode_rune r @ sanitize_runes U rs
      else
        (let name = (if spoken_script_name U r = [] then ''another language'' else spoken_script_name U r)
         in name @ '' text'' @ sanitize_runes U (run_rest U name rs)))"
  by pat_completeness auto

termination
  by (relation "measure (\<lambda>(_, rs). length rs)") (auto simp: run_rest_def Let_def)

definition sanitize_non_latin :: "unicode \<Rightarrow> string \<Rightarrow> string" where
  "sanitize_non_latin U text = sanitize_runes U (runes text)"

definition character_names :: "(rune \<times> string) list" where
  "character_names = [(64, ''at''), (46, ''dot''), (45, ''dash''), (95, ''underscore''), (43, ''plus''), (47, ''slash''), (92, ''backslash''), (58, ''colon''), (59, ''semicolon''), (44, ''comma''), (36, ''dollar sign''), (37, ''percent''), (38, ''ampersand''), (61, ''equals''), (63, ''question mark''), (33, ''exclamation mark''), (40, ''open parenthesis''), (41, ''close parenthesis''), (35, ''hash''), (42, ''asterisk''), (39, ''apostrophe''), (34, ''quotation mark''), (32, ''space''), (126, ''tilde''), (94, ''caret''), (124, ''vertical bar''), (123, ''open brace''), (125, ''close brace'')]"

definition number_small :: "string list" where
  "number_small = [''zero'', ''one'', ''two'', ''three'', ''four'', ''five'', ''six'', ''seven'', ''eight'', ''nine'']"

definition spell_characters :: "unicode \<Rightarrow> string \<Rightarrow> string" where
  "spell_characters U value =
     join (map (\<lambda>r. if 48 \<le> r \<and> r \<le> 57 then number_small ! (r - 48)
                 else (case map_of character_names r of Some n \<Rightarrow> n | None \<Rightarrow> encode_rune (u_upper U r)))
            (runes value)) '', ''"

end
