(* ===== verification/Call_State.thy ===== *)
theory Call_State
  imports Ivr Keypad Speech_Text Maps
begin

text \<open>
  The data of one call (internal/calls): the records of the store the handlers use, the call
  session with its navigation (navigation_state.go), and the handlers' form.  A handler is a
  \<open>step\<close>: it maps a session to \<open>None\<close> (a Go panic) or to the new session with the
  events it caused, in order.  Replies of the database, the mail server, the file system and the
  speech engines are the \<open>world\<close> a key press is handled in: every handler is defined, and every
  property proved, for all worlds, so each call may fail at any time.  A handler holds the service
  lock while it touches the session, and is one atomic step here; asynchronous work it starts
  (\<open>startTask\<close>) ends in a step of its own.  The remaining values: identifiers and texts are byte
  strings; cursors, pages and indices, which the code never makes negative, are naturals; a
  cancel function or stop channel is a boolean saying that one is held; a list of decoded JSON is
  the value it decodes to (\<open>None\<close> for text that does not parse).
\<close>

section \<open>Records of the store\<close>

record account =
  acc_id :: string
  canonical_name :: string
  acc_email :: string
  sender_name :: string
  smtp_password :: string
  folder_map :: "(string \<times> string) list option"
  acc_alert_folders :: "string list option"
  call_alert_enabled :: bool

record mail =
  mail_id :: int
  mail_account :: string
  mail_folder :: string
  mail_path :: string
  mail_sender :: string
  mail_recipients :: string
  mail_cc :: string
  mail_subject :: string
  mail_date :: string
  mail_read :: bool

record contact =
  contact_name :: string
  contact_email :: string

record caller_route =
  route_user :: string
  route_username :: string
  route_account :: string
  route_account_name :: string

record mailbox =
  mb_key :: string
  mb_name :: string
  mb_members :: "string list"

record in_attachment =
  ia_name :: string
  ia_type :: string
  ia_playable :: bool
  ia_data :: string

record out_attachment =
  oa_filename :: string
  oa_type :: string
  oa_data :: string

record draft =
  draft_id :: string
  draft_to :: string
  additional_to :: "string list"
  draft_cc :: "string list"
  draft_bcc :: "string list"
  draft_subject :: string
  draft_body :: string
  draft_attachments :: "out_attachment list"
  forward_original :: bool
  original_message :: "int option"

definition empty_draft :: draft where
  "empty_draft = \<lparr>draft_id = [], draft_to = [], additional_to = [], draft_cc = [], draft_bcc = [],
     draft_subject = [], draft_body = [], draft_attachments = [], forward_original = False,
     original_message = None\<rparr>"

text \<open>A saved draft; of an attachment, the file it is saved in.\<close>

record draft_record =
  dr_id :: string
  dr_user :: string
  dr_account :: string
  dr_subject :: string
  dr_body :: string
  dr_forward_mode :: string
  dr_original :: "int option"
  dr_to :: "string list"
  dr_cc :: "string list"
  dr_bcc :: "string list"
  dr_attachments :: "(string \<times> string \<times> string) list"

record user =
  u_id :: string
  u_username :: string
  u_pin_hash :: string
  u_enabled :: bool

section \<open>The call session\<close>

record call =
  call_id :: string
  call_user :: string
  phone :: string
  pin :: string
  pin_failures :: int
  authenticated :: bool
  call_state :: state
  call_flow :: "flow option"
  nav_generation :: nat
  closed :: bool
  established :: bool
  messages :: "mail list"
  cursor :: nat
  accounts :: "account list"
  account_page :: nat
  active_account :: string
  contacts :: "contact list"
  contact_page :: nat
  folders :: "string list"
  folder_page :: nat
  folder_prefix :: string
  folder_roles :: "(string \<times> string) list"
  folder_labels :: "(string \<times> string) list"
  selected_folder :: string
  move_folders :: "string list"
  move_labels :: "(string \<times> string) list"
  move_page :: nat
  alert_folders :: "string list"
  alert_selection :: "(string \<times> bool) list option"
  alert_page :: nat
  attachments :: "in_attachment list"
  attachment_page :: nat
  attachment_cancel :: bool
  attachment_sequence :: nat
  record_cancel :: bool
  record_stop :: bool
  record_generation :: nat
  choices :: "caller_route list"
  verification_code :: string
  editor :: "multitap option"
  draft :: draft
  drafts :: "draft_record list"
  draft_page :: nat
  recipient_kind :: string
  pending_name :: string
  pending_email :: string
  confirm_value :: string
  confirm_state :: state
  confirm_kind :: string
  editing_draft :: bool
  send_in_flight :: bool
  pending_attachment_remove :: bool
  pending_cancel_confirm :: bool
  greet_attempts :: nat
  alert_text :: string

section \<open>Events\<close>

text \<open>What a handler does to the outside, in order: spoken prompts (\<open>Say_menu\<close> at the menu
  voice), bridge messages, store writes, and the tasks it starts.\<close>

datatype event =
    Say string
  | Say_menu string
  | Speak_chunks "string list"
  | Hangup int string
  | Answer string
  | Lock_pin string
  | Unlock_pin string
  | Set_alerts bool
  | Set_account_alert string bool
  | Set_alert_folders string "string list"
  | Add_contact string string
  | Mark_read int bool
  | Move_remote int string
  | Rollback_remote int string string
  | Rename string string
  | Move_index int string string
  | Delete_index int
  | Journal string int string
  | Journal_submission string
  | Submit "string list" string
  | Settle_submission string string
  | Delete_draft string
  | Save_draft draft_record
  | Append_remote string
  | Refresh string
  | Record_body nat
  | Record_subject nat
  | Record_audio nat
  | Play_attachment nat
  | Play_greeting
  | Hangup_later

type_synonym step = "call \<Rightarrow> (call \<times> event list) option"

definition upd :: "(call \<Rightarrow> call) \<Rightarrow> step" where
  "upd f c = Some (f c, [])"

definition emit :: "event \<Rightarrow> step" where
  "emit e c = Some (c, [e])"

definition skip :: step where
  "skip c = Some (c, [])"

definition panic :: step where
  "panic c = None"

abbreviation say :: "string \<Rightarrow> step" where
  "say text \<equiv> emit (Say text)"

text \<open>A step that depends on the session it starts in.\<close>

definition with_call :: "(call \<Rightarrow> step) \<Rightarrow> step" where
  "with_call f c = f c c"

definition sayf :: "(call \<Rightarrow> string) \<Rightarrow> step" where
  "sayf f = with_call (\<lambda>c. say (f c))"

definition next_step :: "step \<Rightarrow> step \<Rightarrow> step" where
  "next_step f g c = (case f c of None \<Rightarrow> None
     | Some (c1, e1) \<Rightarrow> (case g c1 of None \<Rightarrow> None | Some (c2, e2) \<Rightarrow> Some (c2, e1 @ e2)))"

definition steps :: "step list \<Rightarrow> step" where
  "steps fs = foldr next_step fs skip"

text \<open>An index expression of Go: out of range it panics.\<close>

definition at_index :: "'a list \<Rightarrow> nat \<Rightarrow> ('a \<Rightarrow> step) \<Rightarrow> step" where
  "at_index xs i f = (if i < length xs then f (xs ! i) else panic)"

section \<open>Navigation\<close>

definition ensure_flow :: "call \<Rightarrow> call" where
  "ensure_flow c =
     (let f = (case call_flow c of
          Some f \<Rightarrow> f
        | None \<Rightarrow> (let f = new_session (call_id c)
                  in if call_state c \<noteq> St_none then f\<lparr>fl_state := call_state c\<rparr> else f))
      in c\<lparr>call_flow := Some f, call_state := fl_state f\<rparr>)"

text \<open>\<open>stateLocked\<close> returns the state of the flow it ensures; as a reader here.\<close>

definition state_of :: "call \<Rightarrow> state" where
  "state_of c = call_state (ensure_flow c)"

definition enter_flow :: "state \<Rightarrow> call \<Rightarrow> call" where
  "enter_flow next c = c\<lparr>call_flow := map_option (enter next) (call_flow c), call_state := next,
     nav_generation := nav_generation c + 1\<rparr>"

definition transition :: "state \<Rightarrow> call \<Rightarrow> call" where
  "transition next c =
     (let c1 = ensure_flow c in if call_state c1 = next then c1 else enter_flow next c1)"

definition set_flow_state :: "state \<Rightarrow> call \<Rightarrow> call" where
  "set_flow_state st c = c\<lparr>call_flow := map_option (\<lambda>f. f\<lparr>fl_state := st\<rparr>) (call_flow c), call_state := st,
     nav_generation := nav_generation c + 1\<rparr>"

definition back_by_contract :: "state \<Rightarrow> call \<Rightarrow> call" where
  "back_by_contract fallback c =
     (let c1 = ensure_flow c
      in case ivr_back (call_state c1) of
           Some b \<Rightarrow> set_flow_state b c1
         | None \<Rightarrow> set_flow_state fallback c1)"

definition back_using_flow :: "state \<Rightarrow> call \<Rightarrow> call" where
  "back_using_flow fallback c =
     (let c1 = ensure_flow c
      in case map_option go_back (call_flow c1) of
           Some (Some f) \<Rightarrow> c1\<lparr>call_flow := Some f, call_state := fl_state f, nav_generation := nav_generation c1 + 1\<rparr>
         | _ \<Rightarrow> back_by_contract fallback c1)"

end
