(* ===== verification/Call_Prompts.thy ===== *)
theory Call_Prompts
  imports Call_State "HOL-Library.List_Lexorder" "HOL-Library.Char_ord"
begin

text \<open>
  The world a key press is handled in, and the texts of the dynamic prompts: the builders at the
  end of navigation_handlers.go, \<open>listPrompt\<close>, \<open>promptForState\<close> and \<open>settingsPrompt\<close> of
  service.go, \<open>fieldConfirmPrompt\<close> and \<open>speakable\<close> of composition.go, \<open>accountChoicePrompt\<close> of
  verification.go and prompt_review.go.  \<open>sort.Strings\<close> is \<open>sort\<close> in the byte order of
  strings; \<open>sort.Slice\<close> by label is taken to be stable.
\<close>

section \<open>The world\<close>

datatype role_reply =
    Role_found string string
  | No_role
  | Invalid_role
  | Role_error

datatype remote_reply = Remote_ok | Remote_failed | Remote_uncertain

datatype submit_reply = Submit_accepted | Submit_rejected | Submit_uncertain

record parsed_mail =
  p_from :: string
  p_subject :: string
  p_text :: string
  p_attachments :: "in_attachment list"

record world =
  uni :: unicode
  w_accounts :: "string \<Rightarrow> account list option"
  w_mail :: "string \<Rightarrow> bool \<Rightarrow> mail list option"
  w_account_mail :: "string \<Rightarrow> string \<Rightarrow> string \<Rightarrow> mail list option"
  w_unread :: "string \<Rightarrow> string \<Rightarrow> nat option"
  w_drafts :: "string \<Rightarrow> string \<Rightarrow> draft_record list option"
  w_contacts :: "string \<Rightarrow> contact list option"
  w_alerts_available :: "bool option"
  w_alerts_enabled :: "string \<Rightarrow> bool option"
  w_write_ok :: bool
  w_mail_folders :: "string \<Rightarrow> string \<Rightarrow> string list option"
  w_mailboxes :: "string \<Rightarrow> string \<Rightarrow> mailbox list option"
  w_inbox :: "account \<Rightarrow> string option"
  w_folder_roles :: "string \<Rightarrow> string \<Rightarrow> string list option"
  w_folder_role :: "account \<Rightarrow> string \<Rightarrow> role_reply"
  w_group_destination :: "string \<Rightarrow> string \<Rightarrow> string \<Rightarrow> string option"
  w_user_by_id :: "string \<Rightarrow> user option"
  w_check :: "string \<Rightarrow> string \<Rightarrow> bool"
  w_parse_address :: "string \<Rightarrow> string option"
  w_parse_list :: "string \<Rightarrow> string list option"
  w_read_file :: "string \<Rightarrow> string option"
  w_parse_mail :: "string \<Rightarrow> parsed_mail option"
  w_candidates :: "string \<Rightarrow> int \<Rightarrow> string list option"
  w_queue_read :: "mail \<Rightarrow> bool \<Rightarrow> string option"
  w_interrupted :: "nat \<Rightarrow> bool"
  w_recorder :: bool
  w_rx_ready :: "nat \<Rightarrow> bool"
  w_speech_seconds :: nat
  w_audio_seconds :: nat
  w_media :: bool
  w_refresher :: bool
  w_move_remote :: "int \<Rightarrow> string \<Rightarrow> remote_reply"
  w_file_ok :: "string \<Rightarrow> bool"
  w_rename_ok :: "string \<Rightarrow> string \<Rightarrow> bool"
  w_index_ok :: bool
  w_open_secret :: "string \<Rightarrow> string option"
  w_secrets :: bool
  w_message_id :: "string \<Rightarrow> string option"
  w_build_ok :: bool
  w_journal_ok :: bool
  w_submit :: submit_reply
  w_data_root :: string

section \<open>Text helpers\<close>

definition menu_prompt :: "state \<Rightarrow> string" where
  "menu_prompt st = (case ivr_prompt st of Some p \<Rightarrow> p | None \<Rightarrow> ''Press pound to go back or star to repeat.'')"

definition speakable :: "world \<Rightarrow> string \<Rightarrow> int \<Rightarrow> string" where
  "speakable w value limit =
     (let (t, truncated) = truncate_for_speech value limit
      in sanitize_non_latin (uni w) (if truncated then t @ '', and more'' else t))"

definition spoken_header :: "world \<Rightarrow> string \<Rightarrow> string \<Rightarrow> int \<Rightarrow> string" where
  "spoken_header w value blank limit =
     (if trim_space value = [] then blank else speakable w value limit)"

definition list_prompt :: "world \<Rightarrow> mail \<Rightarrow> nat \<Rightarrow> nat \<Rightarrow> string" where
  "list_prompt w m cur n =
     ''Message '' @ dec (cur + 1) @ '' of '' @ dec n @ ''. From '' @
     spoken_header w (mail_sender m) ''unknown sender'' 240 @ ''. Subject '' @
     spoken_header w (mail_subject m) ''no subject'' 300 @ ''. '' @ menu_prompt St_list"

definition press_for :: "nat \<Rightarrow> string \<Rightarrow> string" where
  "press_for k label = ''Press '' @ dec k @ '' for '' @ label"

text \<open>Labels under consecutive keys, from a first key.\<close>

definition numbered :: "nat \<Rightarrow> string list \<Rightarrow> string list" where
  "numbered k labels = map (\<lambda>(i, l). press_for i l) (zip [k ..< k + length labels] labels)"

definition page_of :: "nat \<Rightarrow> nat \<Rightarrow> 'a list \<Rightarrow> 'a list" where
  "page_of n page xs = take n (drop (page * n) xs)"

definition more_key :: "bool \<Rightarrow> string" where
  "more_key further = (if further then '' Press 9 for more.'' else [])"

section \<open>Account, contact and recipient prompts\<close>

definition account_prompt :: "account list \<Rightarrow> nat \<Rightarrow> string" where
  "account_prompt accs page =
     ''Accounts. '' @ join (numbered 1 (map canonical_name (page_of 8 page accs))) ''. '' @ ''.'' @
     more_key (page * 8 + 8 < length accs) @ '' Press pound to go back.''"

definition alerts_available :: "world \<Rightarrow> bool" where
  "alerts_available w = (w_alerts_available w = Some True)"

definition account_menu_prompt :: "world \<Rightarrow> account \<Rightarrow> string" where
  "account_menu_prompt w a =
     canonical_name a @
     (if \<not> alerts_available w
      then ''. Press 1 to listen to mail, 2 to send an email, 3 to refresh, or 5 for the unread count. Press pound to go back.''
      else ''. Press 1 to listen to mail, 2 to send an email, 3 to refresh, 4 for account settings, or 5 for the unread count. Press pound to go back.'')"

definition settings_prompt :: "world \<Rightarrow> string" where
  "settings_prompt w =
     (if alerts_available w
      then ''Press 1 for voice settings, 2 to toggle call alerts, 3 for contacts, or pound to go back.''
      else ''Press 1 for voice settings, 3 for contacts, or pound to go back.'')"

definition contact_prompt :: "contact list \<Rightarrow> nat \<Rightarrow> string" where
  "contact_prompt cs page =
     ''Contacts. '' @ join (numbered 1 (map contact_name (page_of 8 page cs))) ''. '' @ ''.'' @
     more_key (page * 8 + 8 < length cs) @ '' Press pound to go back.''"

definition contact_pick_prompt :: "contact list \<Rightarrow> nat \<Rightarrow> string" where
  "contact_pick_prompt cs page =
     ''Choose a contact. '' @
     join (numbered 1 (map (\<lambda>c. contact_name c @ '', '' @ contact_email c) (page_of 8 page cs))) ''. '' @ ''.'' @
     more_key (page * 8 + 8 < length cs) @ '' Press pound to go back.''"

definition recipient_prompt :: "draft \<Rightarrow> string" where
  "recipient_prompt d =
     (let to_count = (if trim_space (draft_to d) \<noteq> [] then 1 + length (additional_to d) else 0)
      in ''Recipients: '' @ dec to_count @ '' main, '' @ dec (length (draft_cc d)) @ '' copy, and '' @
         dec (length (draft_bcc d)) @ '' hidden copy. '' @ menu_prompt St_recipient_menu)"

definition field_label :: "state \<Rightarrow> string" where
  "field_label st =
     (if st = St_compose \<or> st = St_recipient_input then ''Email address''
      else if st = St_subject then ''Subject''
      else if st = St_body then ''Message''
      else if st = St_contact_name then ''Contact name'' else ''Entry'')"

definition field_confirm_prompt :: "world \<Rightarrow> state \<Rightarrow> string \<Rightarrow> string" where
  "field_confirm_prompt w st value =
     (let spoken = (if st = St_compose \<or> st = St_recipient_input then spell_characters (uni w) value
                    else speakable w value 1200);
          spoken' = (if trim_space value = [] then ''blank'' else spoken)
      in field_label st @ '': '' @ spoken' @
         ''. Press 1 to accept, 2 to edit, or 3 to start this entry over.'')"

section \<open>Folders\<close>

definition mapped_folder :: "account option \<Rightarrow> string \<Rightarrow> string" where
  "mapped_folder a folder = (case a of None \<Rightarrow> folder
     | Some a \<Rightarrow> (case folder_map a of None \<Rightarrow> folder
        | Some m \<Rightarrow> (let local = get_or [] m folder in if local \<noteq> [] then local else folder)))"

definition folder_label :: "account option \<Rightarrow> string \<Rightarrow> (string \<times> string) list \<Rightarrow> string" where
  "folder_label a folder labels =
     (let l = get_or [] labels folder in if l \<noteq> [] then l else mapped_folder a folder)"

definition normalize_folder_path :: "string \<Rightarrow> string" where
  "normalize_folder_path folder =
     (if has_prefix folder ''/groups/'' then folder
      else trim_slashes (map (\<lambda>c. if c = CHR 0x5C then CHR ''/'' else c) (trim_space folder)))"

definition trim_prefix :: "string \<Rightarrow> string \<Rightarrow> string" where
  "trim_prefix s p = (if has_prefix s p then drop (length p) s else s)"

definition trim_slash_suffix :: "string \<Rightarrow> string" where
  "trim_slash_suffix s = (if s \<noteq> [] \<and> last s = CHR ''/'' then butlast s else s)"

text \<open>The entry one folder gives at a prefix: nothing, itself, or the child on the way to it.\<close>

definition folder_entry :: "string \<Rightarrow> string \<Rightarrow> string option" where
  "folder_entry prefix raw =
     (let folder = normalize_folder_path raw
      in if has_prefix folder ''/groups/'' then (if prefix = [] then Some folder else None)
         else if folder = [] \<or> folder = prefix \<or> (prefix \<noteq> [] \<and> \<not> has_prefix folder (prefix @ ''/'')) then None
         else
           (let rest = trim_prefix (trim_prefix folder prefix) ''/''
            in Some (case index_byte rest (CHR ''/'') of
                  Some slash \<Rightarrow> trim_slash_suffix (take (length folder - length rest + slash) folder)
                | None \<Rightarrow> folder)))"

definition folder_children :: "string list \<Rightarrow> string \<Rightarrow> string list" where
  "folder_children fs prefix0 =
     (let prefix = normalize_folder_path prefix0
      in sort (remdups (List.map_filter (folder_entry prefix) fs)))"

definition folder_menu_children ::
  "string list \<Rightarrow> (string \<times> string) list \<Rightarrow> string \<Rightarrow> (string \<times> string) list \<Rightarrow> string list" where
  "folder_menu_children fs roles prefix labels =
     (let children = sort_key (\<lambda>f. folder_label None f labels) (folder_children fs prefix)
      in if prefix \<noteq> [] then children
         else
           (let standard = filter (\<lambda>f. f \<noteq> [])
                  (map (\<lambda>r. normalize_folder_path (get_or [] roles r)) [''inbox'', ''drafts'', ''sent'', ''trash''])
            in filter (\<lambda>f. normalize_folder_path f \<notin> set standard) children))"

definition folder_page_has_more :: "nat \<Rightarrow> bool \<Rightarrow> nat \<Rightarrow> bool" where
  "folder_page_has_more count root page =
     (if root then (if page = 0 then 4 < count else 4 + (page - 1) * 8 + 8 < count)
      else page * 8 + 8 < count)"

definition account_label :: "account option \<Rightarrow> string" where
  "account_label a = (case a of None \<Rightarrow> [] | Some a \<Rightarrow> canonical_name a)"

text \<open>The folders a page offers: the index of the first, the key of the first, and how many.\<close>

definition folder_window :: "bool \<Rightarrow> nat \<Rightarrow> nat \<times> nat \<times> nat" where
  "folder_window root page =
     (if \<not> root then (page * 8, 1, 8)
      else if page = 0 then (0, 5, 4) else (4 + (page - 1) * 8, 1, 8))"

definition folder_prompt_for ::
  "account option \<Rightarrow> string list \<Rightarrow> (string \<times> string) list \<Rightarrow> string \<Rightarrow> nat \<Rightarrow> (string \<times> string) list \<Rightarrow> string" where
  "folder_prompt_for a fs roles prefix page labels =
     (let children = folder_menu_children fs roles prefix labels;
          (start, key, n) = folder_window (prefix = []) page;
          offered = numbered key (map (\<lambda>f. folder_label a f labels) (take n (drop start children)));
          further = (min (start + n) (length children) < length children)
      in if prefix \<noteq> [] then
           (let parts = offered @ (if further then [''Press 9 for more''] else []);
                parts' = (if parts = [] then [''There are no nested folders''] else parts)
            in ''Folders in '' @ folder_label a prefix labels @ '' for '' @ account_label a @ ''. '' @
               join parts' ''. '' @ ''. Press pound to go back.'')
         else
           (let head = (if page > 0 then [''More folders'']
                        else [''Press 1 for Inbox'', ''Press 2 for Drafts'', ''Press 3 for Sent'', ''Press 4 for Trash'']);
                tail = (if further then [''Press 9 for more folders'']
                        else if children = [] then [''There are no other folders''] else [])
            in ''Folders for '' @ account_label a @ ''. '' @ join (head @ offered @ tail) ''. '' @
               ''. Press pound to go back.''))"

definition standard_folder_role :: "char \<Rightarrow> string \<times> string" where
  "standard_folder_role key =
     (if key = CHR ''1'' then (''inbox'', ''Inbox'')
      else if key = CHR ''2'' then (''drafts'', ''Drafts'')
      else if key = CHR ''3'' then (''sent'', ''Sent'')
      else if key = CHR ''4'' then (''trash'', ''Trash'')
      else ([], []))"

section \<open>Prompts of the state\<close>

definition find_account :: "account list \<Rightarrow> string \<Rightarrow> account option" where
  "find_account accs aid = List.find (\<lambda>a. acc_id a = aid) accs"

text \<open>The account selected on the call.  The zero account Go falls back to has an empty
  identifier and reads like a missing one.\<close>

definition selected_account :: "call \<Rightarrow> account option" where
  "selected_account c = (case find_account (accounts c) (active_account c) of
      Some a \<Rightarrow> if acc_id a = [] then None else Some a | None \<Rightarrow> None)"

definition contextual_prompt :: "world \<Rightarrow> call \<Rightarrow> string" where
  "contextual_prompt w c =
     (let st = state_of c in
      if st = St_accounts then ''Email. Press 0 for all unread mail. '' @ account_prompt (accounts c) (account_page c)
      else if st = St_contacts then contact_prompt (contacts c) (contact_page c)
      else if st = St_folders then
        folder_prompt_for (find_account (accounts c) (active_account c)) (folders c) (folder_roles c)
          (folder_prefix c) (folder_page c) (folder_labels c)
      else if st = St_list then
        (if cursor c < length (messages c)
         then list_prompt w (messages c ! cursor c) (cursor c) (length (messages c))
         else ''There are no messages here. Press pound to go back.'')
      else if st = St_recipient_menu then recipient_prompt (draft c)
      else if st = St_field_confirm then field_confirm_prompt w (confirm_state c) (confirm_value c)
      else if st = St_review then
        (if pending_cancel_confirm c
         then ''Press 3 again to cancel this email, or pound to keep editing.'' else [])
      else if st = St_attachment_edit then
        (if pending_attachment_remove c
         then ''Press 2 again to remove the last attachment, or pound to keep it.'' else [])
      else [])"

definition prompt_for_state :: "world \<Rightarrow> call \<Rightarrow> string" where
  "prompt_for_state w c =
     (let contextual = contextual_prompt w c; st = state_of c
      in if contextual \<noteq> [] then contextual
         else if st = St_settings then settings_prompt w
         else (case (st = St_account_menu, selected_account c) of
             (True, Some a) \<Rightarrow> account_menu_prompt w a
           | _ \<Rightarrow> menu_prompt st))"

definition unread_count_prompt :: "nat \<Rightarrow> string" where
  "unread_count_prompt n =
     (if n = 1 then ''You have 1 unread message.'' else ''You have '' @ dec n @ '' unread messages.'')"

definition all_one_user :: "caller_route list \<Rightarrow> bool" where
  "all_one_user cs = list_all (\<lambda>r. route_username r = route_username (hd cs)) cs"

definition account_choice_prompt :: "caller_route list \<Rightarrow> string" where
  "account_choice_prompt cs =
     ''Welcome to VOXMail. Please choose the VOXMail account for '' @ route_username (hd cs) @ '': '' @
     join (map (\<lambda>(k, r). (if all_one_user cs then [] else ''for '' @ route_username r @ '', '') @
                ''press '' @ dec k @ '' for '' @ route_account_name r) (zip [1 ..< length cs + 1] cs)) '', '' @ ''.''"

definition draft_review_prompt :: "world \<Rightarrow> call \<Rightarrow> string" where
  "draft_review_prompt w c =
     (let d = draft c;
          copy = (\<lambda>label xs. if xs \<noteq> [] then [label @ speakable w (join xs '', '') 600 @ ''.''] else []);
          text_or_blank = (\<lambda>s. let t = trim_space s in if t = [] then ''blank'' else t)
      in join ([''Message preview. To: '' @ speakable w (join (draft_to d # additional_to d) '', '') 600 @ ''.''] @
           copy ''Copy to: '' (draft_cc d) @ copy ''Hidden copy to: '' (draft_bcc d) @
           [''Subject: '' @ speakable w (text_or_blank (draft_subject d)) 998 @ ''.'',
            ''Message: '' @ speakable w (text_or_blank (draft_body d)) max_spoken_body_runes @ ''.''] @
           (if draft_attachments d \<noteq> [] then [''Attachments: '' @ dec (length (draft_attachments d)) @ ''.''] else []) @
           [menu_prompt St_review]) '' '')"

end
