(* ===== verification/Call_Compose.thy ===== *)
theory Call_Compose
  imports Call_Prompts
begin

text \<open>
  Composition on a call (internal/calls/composition.go): starting a draft, the multi-tap fields
  and their confirmation, voice recordings, and the details of a message.  A recording ends in a
  step of its own (\<open>recording_done\<close>, \<open>subject_done\<close>, \<open>audio_done\<close>), which gets the
  generation the recording was started with and the recorder's result: an error (\<open>Inl True\<close> for a
  cancelled context), or the data.  Prompts that \<open>startTask\<close> speaks later are events of the
  same step.
\<close>

section \<open>Editors\<close>

definition max_ivr_recipient_runes :: int where "max_ivr_recipient_runes = 254"
definition max_ivr_subject_runes :: int where "max_ivr_subject_runes = 998"
definition max_ivr_body_runes :: int where "max_ivr_body_runes = 12000"
definition max_ivr_contact_name_runes :: int where "max_ivr_contact_name_runes = 128"

definition new_ivr_editor :: "state \<Rightarrow> multitap" where
  "new_ivr_editor st =
     (if st = St_compose \<or> st = St_recipient_input then new_with_limit ModeEmail max_ivr_recipient_runes
      else if st = St_subject then new_with_limit ModeText max_ivr_subject_runes
      else if st = St_contact_name then new_with_limit ModeText max_ivr_contact_name_runes
      else new_with_limit ModeText max_ivr_body_runes)"

section \<open>Starting a draft\<close>

datatype compose_mode = New_mail | Reply | Reply_all | Forward

definition start_draft :: "call \<Rightarrow> call" where
  "start_draft c = c\<lparr>draft := empty_draft, editing_draft := False, recipient_kind := []\<rparr>"

definition open_typing :: "call \<Rightarrow> call" where
  "open_typing c = (transition St_compose c)\<lparr>editor := Some (new_ivr_editor St_compose)\<rparr>"

definition own_addresses :: "world \<Rightarrow> call \<Rightarrow> string list" where
  "own_addresses w c = (case w_accounts w (call_user c) of None \<Rightarrow> []
     | Some accs \<Rightarrow> List.map_filter (\<lambda>a. map_option (to_lower (u_lower (uni w))) (w_parse_address w (acc_email a))) accs)"

definition all_recipients :: "mail \<Rightarrow> string" where
  "all_recipients m =
     (let r = trim_space (mail_recipients m)
      in if trim_space (mail_cc m) \<noteq> [] then (if r \<noteq> [] then r @ '', '' else r) @ mail_cc m else r)"

text \<open>The copy recipients of a reply to all: everyone but the main recipient, the user's own
  addresses and repeats, compared in lower case.\<close>

fun reply_copies :: "world \<Rightarrow> string \<Rightarrow> string list \<Rightarrow> string list \<Rightarrow> string list \<Rightarrow> string list" where
  "reply_copies w main own seen [] = []"
| "reply_copies w main own seen (r # rs) =
     (let address = to_lower (u_lower (uni w)) r
      in if equal_fold (uni w) r main \<or> address = [] \<or> address \<in> set own \<or> address \<in> set seen
         then reply_copies w main own seen rs
         else r # reply_copies w main own (address # seen) rs)"

definition seed_draft :: "world \<Rightarrow> compose_mode \<Rightarrow> mail \<Rightarrow> call \<Rightarrow> draft" where
  "seed_draft w mode m c =
     (let d0 = draft c;
          d1 = (if mode \<noteq> Forward
                then d0\<lparr>draft_to := (case w_parse_address w (mail_sender m) of Some a \<Rightarrow> a | None \<Rightarrow> mail_sender m)\<rparr>
                else d0);
          d2 = (if mode = Reply_all
                then (case w_parse_list w (all_recipients m) of
                        None \<Rightarrow> d1
                      | Some rs \<Rightarrow> d1\<lparr>draft_cc := reply_copies w (draft_to d1) (own_addresses w c) [] rs\<rparr>)
                else d1);
          d3 = (if mode = Forward
                then (let f = d2\<lparr>draft_body := ''Forwarded message from '' @ mail_sender m @ ''. Subject: '' @ mail_subject m @ ''.'',
                               forward_original := True, original_message := Some (mail_id m)\<rparr>
                      in case w_read_file w (mail_path m) of
                           Some raw \<Rightarrow> if length raw \<le> 25 * 2 ^ 20
                             then f\<lparr>draft_attachments := [\<lparr>oa_filename = ''forwarded-message.eml'',
                                    oa_type = ''message/rfc822'', oa_data = raw\<rparr>]\<rparr> else f
                         | None \<Rightarrow> f)
                else d2)
      in d3\<lparr>draft_subject := (if mode = Forward then ''Fwd: '' else ''Re: '') @ mail_subject m\<rparr>)"

definition start_compose :: "world \<Rightarrow> compose_mode \<Rightarrow> call \<Rightarrow> call" where
  "start_compose w mode c0 =
     (let c = start_draft c0
      in if mode = New_mail then
           (case w_contacts w (call_user c) of
              Some (x # xs) \<Rightarrow> (transition St_recipient_pick c)\<lparr>editor := None\<rparr>
            | _ \<Rightarrow> open_typing c)
         else
           (let c1 = (if cursor c < length (messages c)
                      then c\<lparr>draft := seed_draft w mode (messages c ! cursor c) c\<rparr> else c)
            in if mode = Forward then open_typing c1
               else (transition St_subject_method c1)\<lparr>editor := None\<rparr>))"

definition start_compose_to :: "string \<Rightarrow> call \<Rightarrow> call" where
  "start_compose_to recipient c =
     (transition St_subject_method (c\<lparr>draft := empty_draft\<lparr>draft_to := recipient\<rparr>, editing_draft := False,
        recipient_kind := []\<rparr>))\<lparr>editor := None\<rparr>"

section \<open>Typing a field\<close>

definition too_long :: string where
  "too_long = ''That entry is too long. Press star twice to delete a character, then try again.''"

definition bad_address :: string where
  "bad_address = ''That address could not be accepted. Your entry is still here. Press star twice to delete the last character. For at, press 1 twice, then star; for dot, press 1 three times, then star. Press pound to check it again.''"

definition confirm_field :: "world \<Rightarrow> state \<Rightarrow> string \<Rightarrow> string \<Rightarrow> step" where
  "confirm_field w st kind value = steps
     [upd (\<lambda>c. (transition St_field_confirm
         (c\<lparr>confirm_value := value, confirm_state := st, confirm_kind := kind\<rparr>))\<lparr>editor := None\<rparr>),
      say (field_confirm_prompt w st value)]"

definition submit_field :: "world \<Rightarrow> string \<Rightarrow> step" where
  "submit_field w value = with_call (\<lambda>c.
     let st = state_of c
     in if st = St_compose \<or> st = St_recipient_input then
          (if w_parse_address w value = None then say bad_address
           else confirm_field w st (if st = St_compose then [] else recipient_kind c) value)
        else if st = St_subject \<or> st = St_body then confirm_field w st [] value
        else if st = St_contact_name then
          (if value = [] then say ''Enter a contact name, then press pound.''
           else confirm_field w st [] value)
        else skip)"

definition handle_compose :: "world \<Rightarrow> char \<Rightarrow> step" where
  "handle_compose w key = with_call (\<lambda>c.
     case press key (case editor c of None \<Rightarrow> new_ivr_editor (state_of c) | Some e \<Rightarrow> e) of
       None \<Rightarrow> panic
     | Some (e, _, finished) \<Rightarrow> steps
         [upd (\<lambda>c. c\<lparr>editor := Some e\<rparr>),
          (if \<not> finished then
             (if overflowed e \<and> \<not> overflow_prompted e
              then steps [upd (\<lambda>c. c\<lparr>editor := Some (e\<lparr>overflow_prompted := True\<rparr>)\<rparr>), say too_long]
              else skip)
           else if overflowed e then say too_long
           else submit_field w (trim_space (mt_text e)))])"

section \<open>Confirming a field\<close>

definition clear_confirm :: "call \<Rightarrow> call" where
  "clear_confirm c = c\<lparr>confirm_value := [], confirm_state := St_none, confirm_kind := []\<rparr>"

definition append_recipient :: "string \<Rightarrow> string \<Rightarrow> draft \<Rightarrow> draft" where
  "append_recipient kind value d =
     (if kind = ''to'' then d\<lparr>additional_to := additional_to d @ [value]\<rparr>
      else if kind = ''cc'' then d\<lparr>draft_cc := draft_cc d @ [value]\<rparr>
      else if kind = ''bcc'' then d\<lparr>draft_bcc := draft_bcc d @ [value]\<rparr>
      else d)"

definition accept_field :: "state \<Rightarrow> string \<Rightarrow> string \<Rightarrow> call \<Rightarrow> call" where
  "accept_field st kind value c =
     (if st = St_compose then
        (transition St_recipient_menu (c\<lparr>draft := (draft c)\<lparr>draft_to := value\<rparr>\<rparr>))\<lparr>editor := None\<rparr>
      else if st = St_recipient_input then
        (transition St_recipient_menu (c\<lparr>draft := append_recipient kind value (draft c)\<rparr>))\<lparr>editor := None\<rparr>
      else if st = St_subject then
        (let c1 = c\<lparr>draft := (draft c)\<lparr>draft_subject := value\<rparr>\<rparr>
         in (if editing_draft c1 then (transition St_review c1)\<lparr>editing_draft := False\<rparr>
             else transition St_body_method c1)\<lparr>editor := None\<rparr>)
      else if st = St_body then
        (transition St_review (c\<lparr>draft := (draft c)\<lparr>draft_body := value\<rparr>\<rparr>))\<lparr>editing_draft := False, editor := None\<rparr>
      else if st = St_contact_name then
        (transition St_contact_confirm (c\<lparr>pending_name := value\<rparr>))\<lparr>editor := None\<rparr>
      else c)"

text \<open>\<open>repeat_prompt\<close> is the handler of service.go that repeats the current page; it is
  defined with the pages, so it is an argument here.\<close>

definition handle_field_confirmation :: "step \<Rightarrow> char \<Rightarrow> step" where
  "handle_field_confirmation repeat_prompt key = with_call (\<lambda>c.
     let value = confirm_value c; st = confirm_state c; kind = confirm_kind c
      in if value = [] \<or> st = St_none then repeat_prompt
         else if key = CHR ''2'' \<or> key = CHR ''3'' then
           steps [upd (\<lambda>c. clear_confirm ((transition st c)\<lparr>editor := Some
                    (if key = CHR ''2'' then (new_ivr_editor st)\<lparr>mt_text := value\<rparr> else new_ivr_editor st)\<rparr>)),
                  say ((if key = CHR ''3'' then ''Entry cleared. ''
                        else ''Editing your previous entry. Press star twice to delete the last character. '')
                       @ menu_prompt st)]
         else if key \<noteq> CHR ''1'' then skip
         else
           steps [upd (\<lambda>c. clear_confirm (accept_field st kind value c)),
                  sayf (\<lambda>c. if state_of c = St_contact_confirm
                    then ''Save '' @ value @ '' as a contact for '' @ pending_email c @ ''? Press 1 to confirm or 2 to cancel.''
                    else menu_prompt (state_of c))])"

definition handle_more_options :: "world \<Rightarrow> char \<Rightarrow> step" where
  "handle_more_options w key = with_call (\<lambda>c.
     if \<not> cursor c < length (messages c)
      then say ''That message is no longer available. Press pound to return.''
      else
        (let m = messages c ! cursor c
         in if key = CHR ''1'' then
              (case w_parse_address w (mail_sender m) of
                 None \<Rightarrow> say ''The sender address could not be added.''
               | Some a \<Rightarrow>
                   if a = [] then say ''The sender address could not be added.''
                   else steps [upd (\<lambda>c. (transition St_contact_name (c\<lparr>pending_email := a, pending_name := []\<rparr>))
                                 \<lparr>editor := Some (new_ivr_editor St_contact_name)\<rparr>),
                               say (menu_prompt St_contact_name)])
            else if key = CHR ''2'' then
              say (''The message date is '' @ speakable w (mail_date m) 80 @ ''. Press pound to return.'')
            else if key = CHR ''3'' then
              say (''The recipients are '' @ speakable w (mail_recipients m) 400 @ ''. Press pound to return.'')
            else if key = CHR ''4'' then
              say (''The subject is '' @ speakable w (mail_subject m) 300 @ ''. Press pound to return.'')
            else skip))"

section \<open>Voice recordings\<close>

definition begin_recording :: "state \<Rightarrow> call \<Rightarrow> call" where
  "begin_recording st c = (transition st c)\<lparr>record_generation := record_generation c + 1,
     record_stop := True, record_cancel := True\<rparr>"

definition end_recording :: "call \<Rightarrow> call" where
  "end_recording c = c\<lparr>record_stop := False, record_cancel := False\<rparr>"

text \<open>\<open>w_rx_ready\<close> answers the \<open>Stat\<close> calls on the receive file in their order; the start tone
  (\<open>playRecordingTone\<close>) is audio only and left out.\<close>

definition start_voice_recording :: "world \<Rightarrow> step" where
  "start_voice_recording w =
     (if \<not> w_recorder w
      then say ''Voice composition is not available on this call. Press 1 to type your message, or pound to go back.''
      else steps
        [upd (begin_recording St_recording),
         say (''You have up to '' @ dec (w_speech_seconds w) @ '' seconds. After the tone, speak your message. Press 0 to finish, or pound to cancel and return to the message choices.''),
         (if w_rx_ready w 0 then with_call (\<lambda>c. emit (Record_body (record_generation c)))
          else steps [upd (\<lambda>c. transition St_body_method (end_recording c)),
                      say ''Voice composition is not ready yet.''])])"

definition start_subject_voice :: "world \<Rightarrow> step" where
  "start_subject_voice w =
     (if \<not> w_recorder w
      then say ''Voice entry is not available on this call. Press 1 to type the subject, or pound to go back.''
      else if \<not> w_rx_ready w 0
      then steps [upd (transition St_subject_method), say ''Voice recording is not ready yet.'']
      else steps
        [upd (begin_recording St_recording_subject),
         say (''You have up to '' @ dec (w_speech_seconds w) @ '' seconds. After the tone, say the email subject. Press 0 to finish, or pound to cancel and return to the subject choices.''),
         (if w_rx_ready w 1 then with_call (\<lambda>c. emit (Record_subject (record_generation c)))
          else steps [upd (\<lambda>c. transition St_subject_method (end_recording c)),
                      say (''The recording could not start. '' @ menu_prompt St_subject_method)])])"

definition start_audio_attachment :: "world \<Rightarrow> step" where
  "start_audio_attachment w =
     (if \<not> w_recorder w then say ''Audio attachment recording is not available on this call.''
      else if \<not> w_rx_ready w 0 then say ''Audio recording is not ready yet.''
      else steps
        [upd (begin_recording St_audio_recording),
         say (''You have up to '' @ dec (w_audio_seconds w) @ '' seconds for this audio attachment. Press 0 to finish or pound to cancel. Start speaking after these instructions.''),
         (if w_rx_ready w 1 then with_call (\<lambda>c. emit (Record_audio (record_generation c)))
          else steps [upd (\<lambda>c. transition St_review (end_recording c)),
                      say (''The recording could not start. '' @ menu_prompt St_review)])])"

text \<open>A recording counts only when it is the newest, the call is still in its state and open.\<close>

definition recording_active :: "nat \<Rightarrow> state \<Rightarrow> call \<Rightarrow> bool" where
  "recording_active generation st c \<longleftrightarrow>
     record_generation c = generation \<and> state_of c = st \<and> \<not> closed c"

definition forget_recorder :: "nat \<Rightarrow> call \<Rightarrow> call" where
  "forget_recorder generation c = (if record_generation c = generation then end_recording c else c)"

definition recording_done :: "nat \<Rightarrow> (bool + string) \<Rightarrow> step" where
  "recording_done generation res = with_call (\<lambda>c.
     if \<not> recording_active generation St_recording c then upd (forget_recorder generation)
      else steps [upd (forget_recorder generation),
        (case res of
              Inl cancelled \<Rightarrow>
                steps [upd (\<lambda>c. (transition St_body_method c)\<lparr>editor := None\<rparr>),
                  (if cancelled then skip
                   else say ''The recording could not be transcribed. Press 1 to type, 2 to record again, or pound to go back.'')]
            | Inr text_heard \<Rightarrow>
                if trim_space text_heard \<noteq> [] then
                  steps [upd (\<lambda>c. (transition St_review (c\<lparr>draft := (draft c)\<lparr>draft_body := trim_space text_heard\<rparr>\<rparr>))
                               \<lparr>editing_draft := False\<rparr>),
                         say (''Your message was transcribed. Press 6 at review to hear it before sending. '' @ menu_prompt St_review)]
                else
                  steps [upd (\<lambda>c. (transition St_body_method c)\<lparr>editor := None\<rparr>),
                         say ''I did not hear anything in that recording. Press 1 to type, 2 to record again, or pound to go back.''])])"

definition subject_done :: "world \<Rightarrow> nat \<Rightarrow> (bool + string) \<Rightarrow> step" where
  "subject_done w generation res = with_call (\<lambda>c.
     if \<not> recording_active generation St_recording_subject c then upd (forget_recorder generation)
      else steps [upd (forget_recorder generation),
        (case res of
              Inl cancelled \<Rightarrow>
                steps [upd (transition St_subject_method),
                  (if cancelled then skip
                   else say ''The subject recording could not be transcribed. Press 1 to type, 2 to record again, or pound to go back.'')]
            | Inr text_heard \<Rightarrow>
                if trim_space text_heard \<noteq> [] then
                  steps [upd (\<lambda>c. let c2 = c\<lparr>draft := (draft c)\<lparr>draft_subject := trim_space text_heard\<rparr>\<rparr>
                               in if editing_draft c2 then (transition St_review c2)\<lparr>editing_draft := False\<rparr>
                                  else transition St_body_method c2),
                         sayf (\<lambda>c. ''Subject: '' @ speakable w text_heard max_ivr_subject_runes @ ''. '' @ menu_prompt (state_of c))]
                else
                  steps [upd (transition St_subject_method),
                         say ''I did not hear anything in that recording. Press 1 to type, 2 to record again, or pound to go back.''])])"

definition audio_done :: "string \<Rightarrow> nat \<Rightarrow> (bool + string) \<Rightarrow> step" where
  "audio_done filename generation res = with_call (\<lambda>c.
     if \<not> recording_active generation St_audio_recording c then upd (forget_recorder generation)
      else steps [upd (forget_recorder generation),
        (case res of
              Inl cancelled \<Rightarrow>
                steps [upd (transition St_review),
                  (if cancelled then skip else say ''The audio attachment could not be recorded. Returning to review.'')]
            | Inr data \<Rightarrow>
                if data \<noteq> [] then
                  steps [upd (\<lambda>c. transition St_review (c\<lparr>draft := (draft c)\<lparr>draft_attachments :=
                               draft_attachments (draft c) @ [\<lparr>oa_filename = filename, oa_type = ''audio/wav'', oa_data = data\<rparr>]\<rparr>\<rparr>)),
                         say (''Audio attachment added. '' @ menu_prompt St_review)]
                else
                  steps [upd (transition St_review),
                         say ''I did not hear anything in that recording. Returning to review.''])])"

end
