(* ===== verification/Call_Browse.thy ===== *)
theory Call_Browse
  imports Call_Compose
begin

text \<open>
  Browsing on a call (internal/calls/navigation_handlers.go): accounts, folders, drafts, alert
  folders, contacts and settings.  A key is the digit character; Go's \<open>key[0]-'1'\<close> is
  \<open>digit_of\<close>.  Repeating the current page belongs to these pages and is defined here.
\<close>

definition digit_of :: "char \<Rightarrow> nat" where
  "digit_of key = byte key - byte CHR ''1''"

definition key_between :: "char \<Rightarrow> char \<Rightarrow> char \<Rightarrow> bool" where
  "key_between lo hi key \<longleftrightarrow> (byte lo :: nat) \<le> byte key \<and> (byte key :: nat) \<le> byte hi"

definition not_here :: string where
  "not_here = ''That key is not available here. Press pound to go back.''"

section \<open>Accounts\<close>

definition email_menu :: "account list \<Rightarrow> nat \<Rightarrow> string" where
  "email_menu accs page = ''Email. Press 0 for all unread mail. '' @ account_prompt accs page"

definition open_accounts :: "world \<Rightarrow> step" where
  "open_accounts w = with_call (\<lambda>c. case w_accounts w (call_user c) of
      None \<Rightarrow> say ''Your mail accounts are temporarily unavailable. Please try again in a moment.''
    | Some accs \<Rightarrow>
        if accs = [] then
          say (''No mail accounts are configured. Add an account in the web console, or ask your administrator. '' @ menu_prompt St_main)
        else steps [upd (\<lambda>c. (transition St_accounts (c\<lparr>accounts := accs, account_page := 0\<rparr>))\<lparr>active_account := []\<rparr>),
                    say (email_menu accs 0)])"

definition open_messages :: "world \<Rightarrow> bool \<Rightarrow> string \<Rightarrow> step" where
  "open_messages w unread_only description = with_call (\<lambda>c. case w_mail w (call_user c) unread_only of
      None \<Rightarrow> say ''Mail is temporarily unavailable.''
    | Some mails \<Rightarrow> steps
        [upd (\<lambda>c. transition St_list (c\<lparr>messages := mails, cursor := 0\<rparr>)),
         (case mails of
            [] \<Rightarrow> say (if unread_only then ''You have no unread messages. Press pound to go back.''
                       else ''No messages in '' @ description @ ''. Press pound to go back.'')
          | m # _ \<Rightarrow> say ((if unread_only then unread_count_prompt (length mails) @ '' '' else []) @
                          list_prompt w m 0 (length mails)))])"

definition announce_unread_count :: "world \<Rightarrow> account \<Rightarrow> step" where
  "announce_unread_count w a = with_call (\<lambda>c. case w_unread w (call_user c) (acc_id a) of
      None \<Rightarrow> say (''The unread count is temporarily unavailable. '' @ account_menu_prompt w a)
    | Some n \<Rightarrow>
        if n = 0 then say (canonical_name a @ '' has no unread messages. '' @ account_menu_prompt w a)
        else say ((if n = 1 then canonical_name a @ '' has 1 unread message.''
                   else canonical_name a @ '' has '' @ dec n @ '' unread messages.'') @ '' '' @ account_menu_prompt w a))"

definition handle_account_menu :: "world \<Rightarrow> char \<Rightarrow> step" where
  "handle_account_menu w key = with_call (\<lambda>c.
     if \<not> key_between CHR ''1'' CHR ''9'' key then say (not_here @ '' '' @ prompt_for_state w c)
     else if key = CHR ''9'' then
       (if length (accounts c) > (account_page c + 1) * 8 then steps
          [upd (\<lambda>c. c\<lparr>account_page := account_page c + 1\<rparr>),
           sayf (\<lambda>c. email_menu (accounts c) (account_page c))]
        else say (''There are no more accounts. Press pound to go back. '' @ prompt_for_state w c))
     else
       (let index = account_page c * 8 + digit_of key
        in if index \<ge> length (accounts c)
           then say (''There is no account for that key. Press pound to go back. '' @ prompt_for_state w c)
           else at_index (accounts c) index (\<lambda>a. steps
             [upd (\<lambda>c. transition St_account_menu (c\<lparr>active_account := acc_id a\<rparr>)),
              say (account_menu_prompt w a)])))"

section \<open>Messages of a folder\<close>

definition listen_folder :: "world \<Rightarrow> string \<Rightarrow> string \<Rightarrow> step" where
  "listen_folder w aid folder = with_call (\<lambda>c. case w_account_mail w (call_user c) aid folder of
      None \<Rightarrow> say ''Mail is temporarily unavailable.''
    | Some mails \<Rightarrow> steps
        [upd (\<lambda>c. transition St_list (c\<lparr>messages := mails, cursor := 0\<rparr>)),
         (case mails of [] \<Rightarrow> say ''There are no messages in that folder. Press pound to choose another folder.''
          | m # _ \<Rightarrow> say (list_prompt w m 0 (length mails)))])"

text \<open>The mailbox a member folder belongs to: later mailboxes win, as in the map the code fills.\<close>

definition physical_keys :: "mailbox list \<Rightarrow> (string \<times> string) list" where
  "physical_keys mbs = fold (\<lambda>mb m. fold (\<lambda>member m. put member (mb_key mb) m) (mb_members mb) m) mbs []"

text \<open>Go returns from the middle of the two role loops on a database error; \<open>None\<close> here.\<close>

fun assigned_role_paths ::
  "world \<Rightarrow> account \<Rightarrow> (string \<times> string) list \<Rightarrow> string list \<Rightarrow> (string \<times> string) list \<Rightarrow> (string \<times> string) list option" where
  "assigned_role_paths w a keys [] paths = Some paths"
| "assigned_role_paths w a keys (role # roles) paths =
     (let name = to_lower (u_lower (uni w)) (trim_space role)
      in case w_folder_role w a name of
           No_role \<Rightarrow> assigned_role_paths w a keys roles (put name [] paths)
         | Role_found local remote \<Rightarrow>
             assigned_role_paths w a keys roles (put name (get_or [] keys (normalize_folder_path local)) paths)
         | _ \<Rightarrow> None)"

fun conventional_role_paths ::
  "world \<Rightarrow> account \<Rightarrow> (string \<times> string) list \<Rightarrow> string list \<Rightarrow> string list \<Rightarrow> (string \<times> string) list \<Rightarrow> (string \<times> string) list option" where
  "conventional_role_paths w a keys assigned [] paths = Some paths"
| "conventional_role_paths w a keys assigned (role # roles) paths =
     (if get_or [] paths role \<noteq> [] \<or> role \<in> set assigned
      then conventional_role_paths w a keys assigned roles paths
      else case w_folder_role w a role of
             Role_found local remote \<Rightarrow>
               conventional_role_paths w a keys assigned roles (put role (get_or [] keys (normalize_folder_path local)) paths)
           | Invalid_role \<Rightarrow> conventional_role_paths w a keys assigned roles paths
           | Role_error \<Rightarrow> None
           | No_role \<Rightarrow>
               (case filter (\<lambda>(folder, _). equal_fold (uni w) folder role) keys of
                  [(_, key)] \<Rightarrow> conventional_role_paths w a keys assigned roles (put role key paths)
                | _ \<Rightarrow> conventional_role_paths w a keys assigned roles paths))"

definition open_account_folders :: "world \<Rightarrow> account \<Rightarrow> step" where
  "open_account_folders w a = with_call (\<lambda>c. case w_mailboxes w (call_user c) (acc_id a) of
      None \<Rightarrow> say ''Folders are temporarily unavailable.''
    | Some mbs \<Rightarrow>
       (let keys = physical_keys mbs; fs = map mb_key mbs;
            labels = fold (\<lambda>mb m. put (mb_key mb) (mb_name mb) m) mbs []
        in case w_inbox w a of
             None \<Rightarrow> say ''Folders are temporarily unavailable.''
           | Some inbox \<Rightarrow>
               (case w_folder_roles w (call_user c) (acc_id a) of
                  None \<Rightarrow> say ''Folder settings are temporarily unavailable.''
                | Some roles \<Rightarrow>
                    (let start = [(''inbox'', get_or [] keys (normalize_folder_path inbox))];
                         names = map (\<lambda>r. to_lower (u_lower (uni w)) (trim_space r)) roles
                     in case Option.bind (assigned_role_paths w a keys roles start)
                               (conventional_role_paths w a keys names [''drafts'', ''sent'', ''trash'']) of
                          None \<Rightarrow> say ''Folder settings are temporarily unavailable.''
                        | Some paths \<Rightarrow> steps
                            [upd (\<lambda>c. transition St_folders (c\<lparr>folders := fs, folder_roles := paths, folder_labels := labels,
                                   folder_page := 0, folder_prefix := [], selected_folder := []\<rparr>)),
                             say (folder_prompt_for (Some a) fs paths [] 0 labels)]))))"

text \<open>The folder a digit selects on a page, \<open>None\<close> for a digit below 5 on the first root page.\<close>

definition folder_index :: "bool \<Rightarrow> nat \<Rightarrow> char \<Rightarrow> nat option" where
  "folder_index root page key =
     (if \<not> root then Some (page * 8 + digit_of key)
      else if page = 0 then
        (if byte key < (byte CHR ''5'' :: nat) then None else Some (byte key - byte CHR ''5''))
      else Some (4 + (page - 1) * 8 + digit_of key))"

definition handle_folder_menu :: "world \<Rightarrow> char \<Rightarrow> step" where
  "handle_folder_menu w key = with_call (\<lambda>c.
     let prefix = folder_prefix c; page = folder_page c; roles = folder_roles c; labels = folder_labels c;
         account = find_account (accounts c) (active_account c);
         children = folder_menu_children (folders c) roles prefix labels
     in if key = CHR ''9'' then
          (if folder_page_has_more (length children) (prefix = []) page then steps
             [upd (\<lambda>c. c\<lparr>folder_page := folder_page c + 1\<rparr>),
              sayf (\<lambda>c. folder_prompt_for account (folders c) roles prefix (folder_page c) labels)]
           else say (''There are no more folders. Press pound to go back. '' @ prompt_for_state w c))
        else if prefix = [] \<and> page = 0 \<and> key_between CHR ''1'' CHR ''4'' key then
          (let (role, label) = standard_folder_role key; folder = get_or [] roles role
           in if folder = [] then
                say (label @ '' is not configured for this account. '' @
                     folder_prompt_for account (folders c) roles prefix page labels)
              else steps [upd (\<lambda>c. c\<lparr>selected_folder := folder\<rparr>), listen_folder w (active_account c) folder])
        else if \<not> key_between CHR ''1'' CHR ''8'' key then say (not_here @ '' '' @ prompt_for_state w c)
        else case folder_index (prefix = []) page key of
            None \<Rightarrow> skip
          | Some index \<Rightarrow>
              if index \<ge> length children
              then say (''There is no folder for that key. Press pound to go back. '' @ prompt_for_state w c)
              else at_index children index (\<lambda>f. steps
                [upd (\<lambda>c. transition St_folder_action (c\<lparr>selected_folder := f\<rparr>)),
                 say (''Folder '' @ folder_label account f labels @
                      ''. Press 1 to listen to messages here, or 2 to open nested folders. Press pound to return.'')]))"

definition handle_folder_action :: "world \<Rightarrow> char \<Rightarrow> step" where
  "handle_folder_action w key = with_call (\<lambda>c.
     let folder = selected_folder c
     in if folder = [] then say ''No folder is selected. Press pound to go back.''
        else if key = CHR ''1'' then listen_folder w (active_account c) folder
        else if key = CHR ''2'' then steps
          [upd (\<lambda>c. transition St_folders (c\<lparr>folder_prefix := folder, folder_page := 0\<rparr>)),
           (if folder_children (folders c) folder = []
            then say ''There are no nested folders here. Press 1 to listen to this folder, or pound to return.''
            else say (folder_prompt_for (find_account (accounts c) (active_account c)) (folders c) (folder_roles c)
                        folder 0 (folder_labels c)))]
        else skip)"

section \<open>Drafts\<close>

definition prompt_draft_list :: step where
  "prompt_draft_list = with_call (\<lambda>c.
     let start = draft_page c * 8; shown = page_of 8 (draft_page c) (drafts c);
         describe = (\<lambda>d. let s = trim_space (dr_subject d) in if s = [] then ''no subject'' else s)
     in if start \<ge> length (drafts c) then say ''There are no more saved drafts. Press pound to go back.''
        else say (''Saved drafts. '' @ join (numbered 1 (map describe shown)) ''. '' @ ''.'' @
                  more_key (start + 8 < length (drafts c)) @ '' Press pound to go back.''))"

definition open_drafts :: "world \<Rightarrow> step" where
  "open_drafts w = with_call (\<lambda>c. case w_drafts w (call_user c) (active_account c) of
      None \<Rightarrow> say ''Saved drafts are temporarily unavailable.''
    | Some ds \<Rightarrow>
        if ds = [] then say ''There are no saved drafts. Press 1 for a new email, or pound to go back.''
        else steps [upd (\<lambda>c. transition St_draft_list (c\<lparr>drafts := ds, draft_page := 0\<rparr>)), prompt_draft_list])"

definition max_resume_attachment :: nat where "max_resume_attachment = 25 * 2 ^ 20"
definition max_resume_total :: nat where "max_resume_total = 50 * 2 ^ 20"

text \<open>Loading the attachments of a saved draft: what was loaded, how many bytes, and how many
  were left out.  \<open>w_read_file\<close> answers for a path under the drafts directory
  (\<open>safeDraftAttachmentPath\<close>) that names a readable regular file.\<close>

fun load_attachments ::
  "world \<Rightarrow> (string \<times> string \<times> string) list \<Rightarrow> out_attachment list \<Rightarrow> nat \<Rightarrow> nat \<Rightarrow> out_attachment list \<times> nat" where
  "load_attachments w [] loaded bytes skipped = (loaded, skipped)"
| "load_attachments w ((name, kind, path) # rest) loaded bytes skipped =
     (case w_read_file w path of
        None \<Rightarrow> load_attachments w rest loaded bytes (skipped + 1)
      | Some data \<Rightarrow>
          if length data > max_resume_attachment \<or> bytes + length data > max_resume_total
          then load_attachments w rest loaded bytes (skipped + 1)
          else load_attachments w rest
                 (loaded @ [\<lparr>oa_filename = name, oa_type = kind, oa_data = data\<rparr>]) (bytes + length data) skipped)"

definition resumed_draft :: "draft_record \<Rightarrow> out_attachment list \<Rightarrow> draft" where
  "resumed_draft r atts = \<lparr>draft_id = dr_id r,
     draft_to = (case dr_to r of [] \<Rightarrow> [] | t # _ \<Rightarrow> t), additional_to = (case dr_to r of [] \<Rightarrow> [] | _ # ts \<Rightarrow> ts),
     draft_cc = dr_cc r, draft_bcc = dr_bcc r, draft_subject = dr_subject r, draft_body = dr_body r,
     draft_attachments = atts, forward_original = (dr_forward_mode r = ''forward''), original_message = dr_original r\<rparr>"

definition resume_at :: "draft \<Rightarrow> call \<Rightarrow> call" where
  "resume_at d c =
     (if trim_space (draft_to d) = [] then open_typing c
      else if trim_space (draft_subject d) = [] then transition St_subject_method c
      else if trim_space (draft_body d) = [] then transition St_body_method c
      else transition St_review c)"

definition resume_draft :: "world \<Rightarrow> draft_record \<Rightarrow> step" where
  "resume_draft w r = with_call (\<lambda>c.
     if dr_user r \<noteq> call_user c then say ''That draft is unavailable.''
     else
       (let (atts, skipped) = load_attachments w (dr_attachments r) [] 0 0; d = resumed_draft r atts
        in steps
          [upd (\<lambda>c. resume_at d (c\<lparr>draft := d, active_account := dr_account r, recipient_kind := [], editor := None\<rparr>)),
           sayf (\<lambda>c. (if skipped > 0
              then ''Draft resumed, but '' @ dec skipped @ '' of its attachments could not be loaded and were left out. ''
              else ''Draft resumed. '') @ menu_prompt (state_of c))]))"

definition handle_draft_list :: "world \<Rightarrow> char \<Rightarrow> step" where
  "handle_draft_list w key = with_call (\<lambda>c.
     let again = (if drafts c \<noteq> [] then prompt_draft_list else skip)
     in if key = CHR ''9'' then
          (if (draft_page c + 1) * 8 < length (drafts c)
           then steps [upd (\<lambda>c. c\<lparr>draft_page := draft_page c + 1\<rparr>), prompt_draft_list]
           else say ''There are no more saved drafts. Press pound to go back.'')
        else if \<not> key_between CHR ''1'' CHR ''8'' key then steps [say not_here, again]
        else
          (let index = draft_page c * 8 + digit_of key
           in if index \<ge> length (drafts c)
              then steps [say ''There is no saved draft for that key. Press pound to go back.'', again]
              else at_index (drafts c) index (resume_draft w)))"

definition handle_draft_menu :: "world \<Rightarrow> char \<Rightarrow> step" where
  "handle_draft_menu w key =
     (if key = CHR ''1'' then steps [upd (start_compose w New_mail), sayf (\<lambda>c. menu_prompt (state_of c))]
      else if key = CHR ''2'' then open_drafts w else skip)"

definition handle_draft_edit :: "char \<Rightarrow> step" where
  "handle_draft_edit key =
     (if key = CHR ''1'' then steps [upd (transition St_recipient_edit), say (menu_prompt St_recipient_edit)]
      else if key = CHR ''2'' then steps
        [upd (\<lambda>c. transition St_subject_method (c\<lparr>editing_draft := True, draft := (draft c)\<lparr>draft_subject := []\<rparr>\<rparr>)),
         say (menu_prompt St_subject_method)]
      else if key = CHR ''3'' then steps
        [upd (\<lambda>c. transition St_body_method (c\<lparr>editing_draft := True, draft := (draft c)\<lparr>draft_body := []\<rparr>\<rparr>)),
         say (menu_prompt St_body_method)]
      else if key = CHR ''4'' then steps
        [upd (\<lambda>c. transition St_attachment_edit (c\<lparr>pending_attachment_remove := False\<rparr>)),
         say (menu_prompt St_attachment_edit)]
      else say not_here)"

definition handle_recipient_edit :: "char \<Rightarrow> step" where
  "handle_recipient_edit key =
     (if key = CHR ''1'' then steps
        [upd (\<lambda>c. open_typing (c\<lparr>draft := (draft c)\<lparr>draft_to := [], additional_to := []\<rparr>, editing_draft := True\<rparr>)),
         say (''Replace the main recipient. '' @ menu_prompt St_compose)]
      else if key = CHR ''2'' then steps
        [upd (\<lambda>c. transition St_draft_edit (c\<lparr>draft := (draft c)\<lparr>draft_cc := []\<rparr>\<rparr>)),
         say (''Recipient changes applied. '' @ menu_prompt St_draft_edit)]
      else if key = CHR ''3'' then steps
        [upd (\<lambda>c. transition St_draft_edit (c\<lparr>draft := (draft c)\<lparr>draft_bcc := []\<rparr>\<rparr>)),
         say (''Recipient changes applied. '' @ menu_prompt St_draft_edit)]
      else if key = CHR ''4'' then steps
        [upd (\<lambda>c. transition St_recipient_menu (c\<lparr>editing_draft := True\<rparr>)),
         sayf (\<lambda>c. recipient_prompt (draft c))]
      else say not_here)"

definition handle_attachment_edit :: "world \<Rightarrow> char \<Rightarrow> step" where
  "handle_attachment_edit w key =
     (if key = CHR ''1'' then steps [upd (\<lambda>c. c\<lparr>pending_attachment_remove := False\<rparr>), start_audio_attachment w]
      else if key = CHR ''2'' \<or> key = CHR ''3'' then with_call (\<lambda>c.
        let atts = draft_attachments (draft c)
        in if atts = [] then steps
             [upd (\<lambda>c. c\<lparr>pending_attachment_remove := False\<rparr>),
              say ''There is no attachment to change. Press 1 to add one, or pound to return.'']
           else if key = CHR ''3'' then steps
             [upd (\<lambda>c. c\<lparr>pending_attachment_remove := False\<rparr>), start_audio_attachment w]
           else if \<not> pending_attachment_remove c then steps
             [upd (\<lambda>c. c\<lparr>pending_attachment_remove := True\<rparr>),
              say (''Press 2 again to remove the last attachment, or pound to keep it. You have '' @ dec (length atts) @ ''.'')]
           else steps
             [upd (\<lambda>c. c\<lparr>draft := (draft c)\<lparr>draft_attachments := butlast atts\<rparr>, pending_attachment_remove := False\<rparr>),
              say (''The last attachment was removed. '' @ dec (length atts - 1) @
                   '' attachments remain. Press 1 to add one, or pound to return. '' @ menu_prompt St_attachment_edit)])
      else skip)"

section \<open>Account settings and alert folders\<close>

definition replace_account :: "string \<Rightarrow> (account \<Rightarrow> account) \<Rightarrow> call \<Rightarrow> call" where
  "replace_account aid f c = c\<lparr>accounts := map (\<lambda>a. if acc_id a = aid then f a else a) (accounts c)\<rparr>"

definition prompt_account_alert_folders :: step where
  "prompt_account_alert_folders = with_call (\<lambda>c.
     let start = alert_page c * 8; shown = page_of 8 (alert_page c) (alert_folders c);
         on = (\<lambda>f. case alert_selection c of None \<Rightarrow> False | Some m \<Rightarrow> get_or False m f);
         describe = (\<lambda>f. f @ '', currently '' @ (if on f then ''on'' else ''off''))
     in if start \<ge> length (alert_folders c) then say ''There are no synchronized folders. Press pound to return.''
        else say (''Choose alert folders. '' @ join (numbered 1 (map describe shown)) ''. '' @ ''.'' @
                  more_key (start + 8 < length (alert_folders c)) @ '' Press pound when finished.''))"

text \<open>The folders of the alert menu: the synchronized ones, then the local and remote names of the
  folder map that are not among them, sorted.\<close>

definition alert_folder_list :: "string list \<Rightarrow> (string \<times> string) list option \<Rightarrow> string list" where
  "alert_folder_list fs fmap = sort (fold (\<lambda>(remote, local) acc.
      let acc1 = (if local \<noteq> [] \<and> local \<notin> set acc then acc @ [local] else acc)
      in if remote \<noteq> [] \<and> remote \<notin> set acc1 then acc1 @ [remote] else acc1)
      (case fmap of None \<Rightarrow> [] | Some m \<Rightarrow> m) fs)"

definition open_account_alert_folders :: "world \<Rightarrow> account \<Rightarrow> step" where
  "open_account_alert_folders w a = with_call (\<lambda>c. case w_mail_folders w (call_user c) (acc_id a) of
      None \<Rightarrow> say ''Alert folders are temporarily unavailable.''
    | Some fs0 \<Rightarrow>
       (let fs = alert_folder_list fs0 (folder_map a);
            configured = (case acc_alert_folders a of None \<Rightarrow> [] | Some xs \<Rightarrow> xs);
            chosen = filter (\<lambda>f. list_ex (\<lambda>v. equal_fold (uni w) (trim_space v) (trim_space f)) configured) fs
        in steps
          [upd (\<lambda>c. transition St_account_alert_folders (c\<lparr>alert_folders := fs,
                  alert_selection := Some (fold (\<lambda>f m. put f True m) chosen []), alert_page := 0\<rparr>)),
           prompt_account_alert_folders]))"

fun unique_folders :: "(rune \<Rightarrow> rune) \<Rightarrow> string list \<Rightarrow> string list \<Rightarrow> string list" where
  "unique_folders U seen [] = []"
| "unique_folders U seen (f0 # fs) =
     (let f = trim_space f0; key = to_lower U f
      in if f = [] \<or> key \<in> set seen then unique_folders U seen fs
         else f # unique_folders U (key # seen) fs)"

definition selected_alert_folders :: "world \<Rightarrow> account option \<Rightarrow> (string \<times> bool) list \<Rightarrow> string list" where
  "selected_alert_folders w a m =
     sort (unique_folders (u_lower (uni w)) [] (map (\<lambda>(f, _). mapped_folder a f) (filter snd m)))"

definition handle_account_alert_folders :: "world \<Rightarrow> char \<Rightarrow> step" where
  "handle_account_alert_folders w key = with_call (\<lambda>c.
     if key = CHR ''9'' then
       (if (alert_page c + 1) * 8 < length (alert_folders c)
        then steps [upd (\<lambda>c. c\<lparr>alert_page := alert_page c + 1\<rparr>), prompt_account_alert_folders]
        else steps [say ''There are no more folders. Press pound when finished.'', prompt_account_alert_folders])
     else if \<not> key_between CHR ''1'' CHR ''8'' key then steps
       [say ''That key is not available here. Press pound when finished.'', prompt_account_alert_folders]
     else
       (let index = alert_page c * 8 + digit_of key; aid = active_account c
        in if index \<ge> length (alert_folders c) then steps
             [say ''There is no folder for that key. Press pound when finished.'', prompt_account_alert_folders]
           else at_index (alert_folders c) index (\<lambda>f. case alert_selection c of
               None \<Rightarrow> panic
             | Some m0 \<Rightarrow>
                 (let m = put f (\<not> get_or False m0 f) m0;
                      chosen = selected_alert_folders w (find_account (accounts c) aid) m
                  in steps
                    [upd (\<lambda>c. c\<lparr>alert_selection := Some m\<rparr>),
                     emit (Set_alert_folders aid chosen),
                     (if \<not> w_write_ok w then say ''The alert folders could not be changed.''
                      else steps [upd (replace_account aid (\<lambda>a. a\<lparr>acc_alert_folders := Some chosen\<rparr>)),
                                  prompt_account_alert_folders])]))))"

definition handle_account_settings :: "world \<Rightarrow> char \<Rightarrow> step" where
  "handle_account_settings w key = with_call (\<lambda>c. case selected_account c of
      None \<Rightarrow> say ''That account is unavailable.''
    | Some a \<Rightarrow>
        if key = CHR ''1'' then
          (let on = \<not> call_alert_enabled a
           in steps [emit (Set_account_alert (acc_id a) on),
                (if \<not> w_write_ok w then say ''The account alert setting could not be changed.''
                 else steps
                   [upd (replace_account (acc_id a) (\<lambda>a. a\<lparr>call_alert_enabled := on\<rparr>)),
                    say (''Call alerts were '' @ (if on then ''on'' else ''off'') @ '' for this account. They are now '' @
                         (if on then ''off'' else ''on'') @ ''. '' @ menu_prompt St_account_settings)])])
        else if key = CHR ''2'' then open_account_alert_folders w a
        else skip)"

definition refresh_account :: "world \<Rightarrow> string \<Rightarrow> step" where
  "refresh_account w aid =
     (if \<not> w_refresher w then say ''Manual refresh is unavailable. Press pound to return.''
      else steps [say ''Refreshing this account now. Please wait.'', emit (Refresh aid)])"

text \<open>The end of the refresh task.\<close>

definition refresh_done :: "world \<Rightarrow> string \<Rightarrow> bool \<Rightarrow> step" where
  "refresh_done w aid ok = with_call (\<lambda>c.
     if \<not> ok then say ''The account refresh failed. Please try again later.''
     else case (state_of c = St_account_menu, find_account (accounts c) aid) of
         (True, Some a) \<Rightarrow> if acc_id a \<noteq> [] then say (''The account refresh finished. '' @ account_menu_prompt w a)
                           else say (''The account refresh finished. '' @ prompt_for_state w c)
       | _ \<Rightarrow> say (''The account refresh finished. '' @ prompt_for_state w c))"

definition handle_selected_account_menu :: "world \<Rightarrow> char \<Rightarrow> step" where
  "handle_selected_account_menu w key = with_call (\<lambda>c. case selected_account c of
      None \<Rightarrow> say ''That account is unavailable.''
    | Some a \<Rightarrow>
        if key = CHR ''1'' then open_account_folders w a
        else if key = CHR ''5'' then announce_unread_count w a
        else if key = CHR ''2'' then steps
          [upd (transition St_draft_menu),
           say ''Press 1 for a new email, 2 to resume a saved draft, or pound to go back.'']
        else if key = CHR ''3'' then refresh_account w (acc_id a)
        else if key = CHR ''4'' then
          (if \<not> alerts_available w
           then say ''Alert settings are disabled by the administrator. Press pound to return.''
           else steps [upd (transition St_account_settings), say (menu_prompt St_account_settings)])
        else skip)"

section \<open>Contacts and recipients\<close>

definition open_contacts :: "world \<Rightarrow> step" where
  "open_contacts w = with_call (\<lambda>c. case w_contacts w (call_user c) of
      None \<Rightarrow> say ''Your contacts are temporarily unavailable. Please try again in a moment.''
    | Some cs \<Rightarrow>
        if cs = [] then
          say ''You have no contacts yet. To save a sender, open their message, press 9, then 1. You can also add contacts in the web console. Press pound to go back.''
        else steps [upd (\<lambda>c. transition St_contacts (c\<lparr>contacts := cs, contact_page := 0\<rparr>)), say (contact_prompt cs 0)])"

definition handle_contact_menu :: "world \<Rightarrow> char \<Rightarrow> step" where
  "handle_contact_menu w key = with_call (\<lambda>c.
     if \<not> key_between CHR ''1'' CHR ''9'' key then say (not_here @ '' '' @ prompt_for_state w c)
     else if key = CHR ''9'' then
       (if length (contacts c) > (contact_page c + 1) * 8 then steps
          [upd (\<lambda>c. c\<lparr>contact_page := contact_page c + 1\<rparr>), sayf (\<lambda>c. contact_prompt (contacts c) (contact_page c))]
        else say (''There are no more contacts. Press pound to go back. '' @ prompt_for_state w c))
     else
       (let index = contact_page c * 8 + digit_of key
        in if index \<ge> length (contacts c)
           then say (''There is no contact for that key. Press pound to go back. '' @ prompt_for_state w c)
           else at_index (contacts c) index (\<lambda>x. steps
             [upd (start_compose_to (contact_email x)),
              say (''Composing to '' @ contact_name x @ ''. '' @ menu_prompt St_subject_method)])))"

definition handle_recipient_menu :: "char \<Rightarrow> step" where
  "handle_recipient_menu key =
     (if key_between CHR ''1'' CHR ''3'' key then steps
        [upd (\<lambda>c. (transition St_recipient_input c)\<lparr>
           recipient_kind := (if key = CHR ''1'' then ''to'' else if key = CHR ''2'' then ''cc'' else ''bcc''),
           editor := Some (new_ivr_editor St_recipient_input)\<rparr>),
         say (menu_prompt St_recipient_input)]
      else if key = CHR ''4'' then steps
        [upd (\<lambda>c. (transition St_subject_method c)\<lparr>recipient_kind := [], editor := None\<rparr>),
         say (menu_prompt St_subject_method)]
      else skip)"

definition handle_field_method :: "world \<Rightarrow> bool \<Rightarrow> char \<Rightarrow> step" where
  "handle_field_method w is_subject key =
     (let field = (if is_subject then St_subject else St_body)
      in if key = CHR ''1'' then steps
           [upd (\<lambda>c. (transition field c)\<lparr>editor := Some ((new_ivr_editor field)\<lparr>mt_text :=
               (if is_subject then draft_subject (draft c) else draft_body (draft c))\<rparr>)\<rparr>),
            say (menu_prompt field)]
         else if key = CHR ''2'' then (if is_subject then start_subject_voice w else start_voice_recording w)
         else skip)"

definition handle_settings_menu :: "world \<Rightarrow> char \<Rightarrow> step" where
  "handle_settings_menu w key =
     (if key = CHR ''1'' then say (''Change your voice and speech speed in the web console. '' @ settings_prompt w)
      else if key = CHR ''2'' then
        (if \<not> alerts_available w then say ''Call alerts are disabled by the administrator.''
         else with_call (\<lambda>c. case w_alerts_enabled w (call_user c) of
             None \<Rightarrow> say ''Alert settings are unavailable.''
           | Some on \<Rightarrow> steps [emit (Set_alerts (\<not> on)),
               (if \<not> w_write_ok w then say ''Alert settings could not be changed.''
                else if \<not> on then say ''Call alerts are now enabled.''
                else say ''Call alerts are now disabled.'')]))
      else if key = CHR ''3'' then open_contacts w
      else skip)"

definition handle_recipient_pick :: "world \<Rightarrow> char \<Rightarrow> step" where
  "handle_recipient_pick w key =
     (if key = CHR ''1'' then steps [upd open_typing, say (menu_prompt St_compose)]
      else if key = CHR ''2'' then with_call (\<lambda>c. case w_contacts w (call_user c) of
          Some (x # xs) \<Rightarrow> steps [upd (\<lambda>c. transition St_contact_pick (c\<lparr>contacts := x # xs, contact_page := 0\<rparr>)),
                                  say (contact_pick_prompt (x # xs) 0)]
        | _ \<Rightarrow> say (''Contacts are unavailable. '' @ menu_prompt St_recipient_pick))
      else skip)"

definition handle_contact_pick :: "world \<Rightarrow> char \<Rightarrow> step" where
  "handle_contact_pick w key = with_call (\<lambda>c.
     if key = CHR ''9'' then
       (if length (contacts c) > (contact_page c + 1) * 8 then steps
          [upd (\<lambda>c. c\<lparr>contact_page := contact_page c + 1\<rparr>), sayf (\<lambda>c. contact_pick_prompt (contacts c) (contact_page c))]
        else say (''There are no more contacts. '' @ contact_pick_prompt (contacts c) (contact_page c)))
     else if \<not> key_between CHR ''1'' CHR ''8'' key then say (not_here @ '' '' @ menu_prompt St_recipient_pick)
     else
       (let index = contact_page c * 8 + digit_of key
        in if index \<ge> length (contacts c)
           then say (''There is no contact for that key. '' @ contact_pick_prompt (contacts c) (contact_page c))
           else at_index (contacts c) index (\<lambda>x. steps
             [upd (\<lambda>c. transition St_recipient_menu (c\<lparr>draft := (draft c)\<lparr>draft_to := contact_email x\<rparr>,
                     recipient_kind := [], editor := None\<rparr>)),
              sayf (prompt_for_state w)])))"

end
