(* ===== verification/Call_Mail.thy ===== *)
theory Call_Mail
  imports Call_Browse
begin

text \<open>
  Messages on a call (internal/calls/mail_handlers.go): reading, attachments, moving, deleting,
  the read flag, sending and contacts.  The read flag's path is \<open>MaildirReadPath\<close> of
  internal/mailparse/read_state.go.  Paths under the account's root and the Trash folder, the
  IMAP mutation with its reconciliation, the Maildir rename with its rollback
  (\<open>queueLocalReadState\<close>) and the SMTP submission answer through the world.
\<close>

section \<open>Finding a message's file\<close>

text \<open>The index of the last occurrence of the flag marker.\<close>

fun last_marker :: "string \<Rightarrow> nat option" where
  "last_marker s = (case s of [] \<Rightarrow> None
     | c # cs \<Rightarrow> (case last_marker cs of Some i \<Rightarrow> Some (Suc i)
                  | None \<Rightarrow> if has_prefix s '':2,'' then Some 0 else None))"

definition keep_flags :: "string \<Rightarrow> string" where
  "keep_flags flags = encode_runes (filter (\<lambda>r. r \<noteq> byte CHR ''S'' \<and> r \<noteq> byte CHR ''s'') (runes flags))"

definition maildir_read_path :: "string \<Rightarrow> bool \<Rightarrow> string" where
  "maildir_read_path path read =
     (if trim_space path = [] then path
      else
        (let (base, flags) = (case last_marker path of
               Some i \<Rightarrow> (take i path, drop (i + 3) path) | None \<Rightarrow> (path, []))
         in base @ '':2,'' @ keep_flags flags @ (if read then ''S'' else [])))"

text \<open>The first of some paths whose file can be read.\<close>

definition first_readable :: "world \<Rightarrow> string list \<Rightarrow> (string \<times> string) option" where
  "first_readable w paths =
     (case List.map_filter (\<lambda>p. map_option (\<lambda>d. (p, d)) (w_read_file w p)) paths of [] \<Rightarrow> None | x # _ \<Rightarrow> Some x)"

text \<open>\<open>openMessageFile\<close>: the listed path, then its renamed forms; the caller keeps the listed path.\<close>

definition open_message_file :: "world \<Rightarrow> string \<Rightarrow> string option" where
  "open_message_file w path =
     map_option snd (first_readable w (path # filter (\<lambda>p. p \<noteq> path)
       [maildir_read_path path True, maildir_read_path path False]))"

definition open_session_message :: "world \<Rightarrow> call \<Rightarrow> mail \<Rightarrow> (string \<times> string) option" where
  "open_session_message w c m = (case open_message_file w (mail_path m) of
      Some data \<Rightarrow> Some (data, mail_path m)
    | None \<Rightarrow> (case w_candidates w (call_user c) (mail_id m) of
         None \<Rightarrow> None
       | Some paths \<Rightarrow>
           (case List.map_filter (\<lambda>p. map_option (\<lambda>d. (d, p)) (open_message_file w p))
                   (filter (\<lambda>p. p \<noteq> [] \<and> p \<noteq> mail_path m) paths) of
              [] \<Rightarrow> None | x # _ \<Rightarrow> Some x)))"

section \<open>The read flag\<close>

definition map_messages :: "int \<Rightarrow> (mail \<Rightarrow> mail) \<Rightarrow> call \<Rightarrow> call" where
  "map_messages mid f c = c\<lparr>messages := map (\<lambda>m. if mail_id m = mid then f m else m) (messages c)\<rparr>"

definition update_session_message_path :: "int \<Rightarrow> string \<Rightarrow> call \<Rightarrow> call" where
  "update_session_message_path mid path c =
     (if path = [] then c else map_messages mid (\<lambda>m. m\<lparr>mail_path := path\<rparr>) c)"

text \<open>The success of the change is the new path; the session's copies follow it.\<close>

definition queue_local_read_state :: "world \<Rightarrow> mail \<Rightarrow> bool \<Rightarrow> step \<Rightarrow> (string \<Rightarrow> step) \<Rightarrow> step" where
  "queue_local_read_state w m read failed ok = (case w_queue_read w m read of
      None \<Rightarrow> failed
    | Some path \<Rightarrow> steps [emit (Mark_read (mail_id m) read),
                          upd (map_messages (mail_id m) (\<lambda>m. m\<lparr>mail_read := read, mail_path := path\<rparr>)), ok path])"

definition not_saved :: string where
  "not_saved = ''I couldn't save that change just now. Try again in a moment.''"

definition toggle_read :: "world \<Rightarrow> mail \<Rightarrow> step" where
  "toggle_read w m =
     (let read = \<not> mail_read m
      in queue_local_read_state w m read (say not_saved)
           (\<lambda>path. steps [
              (if path \<noteq> mail_path m then upd (update_session_message_path (mail_id m) path) else skip),
              sayf (\<lambda>c. (if read then ''The message is marked read. '' else ''The message is marked unread. '')
                        @ prompt_for_state w c)]))"

section \<open>Reading\<close>

definition attachment_description :: "string \<Rightarrow> string" where
  "attachment_description kind =
     (if kind = ''application/pdf'' then ''PDF document''
      else if has_prefix kind ''audio/'' then ''audio file''
      else if has_prefix kind ''video/'' then ''video''
      else if has_prefix kind ''image/'' then ''picture''
      else if has_prefix kind ''text/'' then ''text document''
      else if kind = ''message/rfc822'' then ''attached email''
      else ''file'')"

definition spoken_body :: "world \<Rightarrow> parsed_mail \<Rightarrow> string" where
  "spoken_body w p =
     (let body = trim_space (p_text p); cleaned = sanitize_non_latin (uni w) body
      in if body = [] then ''There is no readable email body.''
         else if cleaned \<noteq> body
         then ''Parts of this message are written in a language I cannot read aloud. Here is what I can read. '' @ cleaned
         else body)"

definition attachment_summary :: "world \<Rightarrow> in_attachment list \<Rightarrow> string" where
  "attachment_summary w atts =
     (if atts = [] then []
      else
        (let describe = (\<lambda>a. sanitize_non_latin (uni w) (ia_name a) @ '', '' @ attachment_description (ia_type a) @ '', '' @
               (if ia_playable a then ''can play here'' else ''open in your email app''));
             shown = take 3 atts; further = length atts - length shown;
             summary = join (map describe shown) ''. '' @ (if further > 0 then ''. And '' @ dec further @ '' more.'' else [])
         in '' There are '' @ dec (length atts) @ '' attachments: '' @ summary @ ''.'' @
            (if list_ex ia_playable atts then '' Press 8 to listen to playable attachments.''
             else '' There are no playable attachments.'')))"

definition message_header :: "world \<Rightarrow> bool \<Rightarrow> parsed_mail \<Rightarrow> string" where
  "message_header w seen p =
     (if seen then ''Email from'' else ''New unread email from'') @ '' '' @
     spoken_header w (p_from p) ''unknown sender'' 240 @ ''. Subject '' @
     spoken_header w (p_subject p) ''no subject'' 300 @ ''.''"

definition mark_heard :: "world \<Rightarrow> mail \<Rightarrow> step" where
  "mark_heard w m = queue_local_read_state w m True (say not_saved)
     (\<lambda>path. if path \<noteq> mail_path m then upd (update_session_message_path (mail_id m) path) else skip)"

text \<open>\<open>w_interrupted\<close> answers the two \<open>wasInterrupted\<close> checks.\<close>

definition read_message :: "world \<Rightarrow> mail \<Rightarrow> step" where
  "read_message w m0 = with_call (\<lambda>c. case open_session_message w c m0 of
      None \<Rightarrow> steps [say ''That message is no longer available.'', say (menu_prompt St_read)]
    | Some (data, path) \<Rightarrow>
       (case w_parse_mail w data of
          None \<Rightarrow> say ''I could not read that message. Press 0 for the next message, or pound to go back.''
        | Some p \<Rightarrow>
            (let m = m0\<lparr>mail_path := path\<rparr>;
                 header = message_header w (mail_read m) p;
                 body = spoken_body w p @ attachment_summary w (p_attachments p);
                 (spoken, truncated) = truncate_for_speech body max_spoken_body_runes;
                 chunks = split_speech_chunks (if truncated
                   then spoken @ '' This is a long message. Open it in your email app to read the rest.'' else spoken)
                   speech_chunk_runes
             in steps
               [(if path \<noteq> mail_path m0 then upd (update_session_message_path (mail_id m0) path) else skip),
                upd (\<lambda>c. c\<lparr>attachments := p_attachments p, attachment_page := 0\<rparr>),
                (if rune_count body \<le> single_prompt_body_runes then
                   steps [say (header @ '' '' @ body @ '' '' @ menu_prompt St_read), mark_heard w m]
                 else
                   steps [say (case chunks of [] \<Rightarrow> header | x # _ \<Rightarrow> header @ '' '' @ x),
                     (if w_interrupted w 0 then skip
                      else steps [mark_heard w m,
                        (if tl chunks \<noteq> [] then emit (Speak_chunks (tl chunks)) else skip),
                        (if w_interrupted w 1 then skip else emit (Say_menu (menu_prompt St_read)))])])])))"

text \<open>Advancing to the next message that opens, in at most nine attempts; an empty list panics.\<close>

definition skipped_notice :: "nat \<Rightarrow> step" where
  "skipped_notice n =
     (if n = 1 then say ''Skipping a message that is no longer available.''
      else if n > 1 then say (''Skipping '' @ dec n @ '' messages that are no longer available.'')
      else skip)"

fun advance_attempts :: "world \<Rightarrow> nat \<Rightarrow> nat \<Rightarrow> step" where
  "advance_attempts w 0 skipped = skipped_notice skipped"
| "advance_attempts w (Suc n) skipped = with_call (\<lambda>c.
     if messages c = [] then panic
     else
       (let i = (cursor c + 1) mod length (messages c)
        in steps [upd (\<lambda>c. c\<lparr>cursor := i\<rparr>),
             (case open_session_message w c (messages c ! i) of
                Some _ \<Rightarrow> skipped_notice skipped
              | None \<Rightarrow> advance_attempts w n (skipped + 1))]))"

definition advance_to_playable :: "world \<Rightarrow> step" where
  "advance_to_playable w = advance_attempts w 9 0"

section \<open>Attachments\<close>

definition playable_attachments :: "in_attachment list \<Rightarrow> in_attachment list" where
  "playable_attachments atts = filter (\<lambda>a. ia_playable a \<and> ia_data a \<noteq> []) atts"

definition attachment_menu :: "world \<Rightarrow> step" where
  "attachment_menu w = with_call (\<lambda>c.
     let playable = playable_attachments (attachments c)
     in if playable = [] then steps [upd (transition St_read), say ''There are no playable attachments.'']
        else
          (let page = (if attachment_page c * 9 \<ge> length playable then 0 else attachment_page c);
               describe = (\<lambda>a. ia_name a @ '', '' @
                 (if has_prefix (to_lower (u_lower (uni w)) (ia_type a)) ''video/'' then ''video audio'' else ''audio''))
           in steps
             [upd (\<lambda>c. (transition St_attachment_menu c)\<lparr>attachment_page := page\<rparr>),
              say (''There are '' @ dec (length playable) @ '' playable attachments. '' @
                   join (numbered 1 (map describe (page_of 9 page playable))) ''. '' @ ''.'' @
                   (if page * 9 + 9 < length playable then '' Press 0 for more.'' else []) @
                   '' Press pound to return.'')]))"

text \<open>\<open>playAttachment\<close>, the task, up to the start of the playback, and its end.  \<open>w_file_ok\<close>
  tells whether the temporary file could be prepared.\<close>

definition play_attachment :: "world \<Rightarrow> nat \<Rightarrow> step" where
  "play_attachment w index = with_call (\<lambda>c.
     let playable = playable_attachments (attachments c); position = attachment_page c * 9 + index
     in if position \<ge> length playable \<or> length (ia_data (playable ! position)) > 50 * 2 ^ 20
        then say ''That attachment cannot be played.''
        else if \<not> w_media w then say ''Audio playback is unavailable.''
        else if \<not> w_file_ok w ''attachment'' then say ''I could not prepare that attachment.''
        else if closed c \<or> state_of c \<noteq> St_attachment_playback then skip
        else upd (\<lambda>c. c\<lparr>attachment_sequence := attachment_sequence c + 1, attachment_cancel := True\<rparr>))"

definition attachment_done :: "nat \<Rightarrow> bool \<Rightarrow> step" where
  "attachment_done sequence failed = with_call (\<lambda>c.
     let was_playing = (\<not> closed c \<and> attachment_sequence c = sequence \<and> state_of c = St_attachment_playback)
     in steps
       [upd (\<lambda>c. if attachment_sequence c = sequence then c\<lparr>attachment_cancel := False\<rparr> else c),
        (if was_playing then steps
           [upd (transition St_read),
            say (if failed then ''Attachment playback failed.''
                 else ''Attachment playback finished. Press 8 to listen again, or pound to return.'')]
         else skip)])"

section \<open>File names\<close>

text \<open>\<open>filepath.Dir\<close> and \<open>filepath.Base\<close> on the clean absolute paths of the index.\<close>

definition dir_of :: "string \<Rightarrow> string" where
  "dir_of p = (case last_index_byte p (CHR ''/'') of Some i \<Rightarrow> take i p | None \<Rightarrow> ''.'')"

definition base_of :: "string \<Rightarrow> string" where
  "base_of p = (case last_index_byte p (CHR ''/'') of Some i \<Rightarrow> drop (i + 1) p | None \<Rightarrow> p)"

text \<open>Removing every UID component \<open>,U=\<close> with its digits.\<close>

function strip_uid :: "string \<Rightarrow> string" where
  "strip_uid [] = []"
| "strip_uid (c # cs) =
     (if has_prefix (c # cs) '',U='' \<and> takeWhile is_digit (drop 2 cs) \<noteq> []
      then strip_uid (dropWhile is_digit (drop 2 cs))
      else c # strip_uid cs)"
  by pat_completeness auto

termination
  by (relation "measure length") (auto intro: le_less_trans [OF length_dropWhile_le])

definition trash_file_name :: "string \<Rightarrow> string" where
  "trash_file_name source =
     (let base = strip_uid (base_of source) in if last_marker base = None then base @ '':2,S'' else base)"

section \<open>Moving\<close>

definition prompt_move_menu :: step where
  "prompt_move_menu = with_call (\<lambda>c.
     let start = move_page c * 9; shown = page_of 9 (move_page c) (move_folders c)
     in if start \<ge> length (move_folders c) then skip
        else emit (Say_menu (''Move message. '' @
               join (numbered 1 (map (\<lambda>f. folder_label None f (move_labels c)) shown)) ''. '' @ ''.'' @
               (if start + 9 < length (move_folders c) then '' Press 0 for more folders.'' else []) @
               '' Press pound to return.'')))"

definition open_move_menu :: "world \<Rightarrow> mail \<Rightarrow> step" where
  "open_move_menu w m = with_call (\<lambda>c. case w_accounts w (call_user c) of
      None \<Rightarrow> say ''Folders are temporarily unavailable.''
    | Some accs \<Rightarrow>
       (case find_account accs (mail_account m) of
          None \<Rightarrow> say ''The message account is unavailable.''
        | Some a \<Rightarrow>
            if acc_id a = [] then say ''The message account is unavailable.''
            else case w_mailboxes w (call_user c) (acc_id a) of
              None \<Rightarrow> say ''Folders are temporarily unavailable.''
            | Some mbs \<Rightarrow>
                if mbs = [] then say ''There are no destination folders.''
                else steps
                  [upd (\<lambda>c. transition St_move_menu (c\<lparr>move_folders := map mb_key mbs,
                     move_labels := fold (\<lambda>mb m. put (mb_key mb) (mb_name mb) m) mbs [], move_page := 0\<rparr>)),
                   prompt_move_menu]))"

text \<open>The lexical check of a destination; \<open>w_file_ok\<close> stands for the test that its cleaned path
  stays relative and inside, and names the file operations by what they act on.\<close>

definition local_move_failed :: "mail \<Rightarrow> string \<Rightarrow> step" where
  "local_move_failed m dest = steps
     [emit (Journal ''move'' (mail_id m) ''partial''),
      emit (Rollback_remote (mail_id m) dest (mail_folder m)),
      say ''I couldn't move that message just now. Try again in a moment.'']"

definition move_target :: "mail \<Rightarrow> string \<Rightarrow> string" where
  "move_target m dest = dir_of (dir_of (dir_of (mail_path m))) @ ''/'' @ dest @ ''/cur/'' @ base_of (mail_path m)"

definition set_current :: "(mail \<Rightarrow> mail) \<Rightarrow> step" where
  "set_current f = with_call (\<lambda>c. at_index (messages c) (cursor c)
     (\<lambda>m. upd (\<lambda>c. c\<lparr>messages := (messages c)[cursor c := f m]\<rparr>)))"

definition move_current :: "world \<Rightarrow> string \<Rightarrow> step" where
  "move_current w destination = with_call (\<lambda>c.
     if \<not> cursor c < length (messages c)
     then say ''That message is no longer available. Press pound to return.''
     else
       (let m = messages c ! cursor c;
            resolved = (if has_prefix destination ''/groups/''
                        then w_group_destination w (call_user c) (mail_account m) destination else Some destination)
        in case resolved of
             None \<Rightarrow> say ''That destination is no longer available. Reopen the folder list.''
           | Some dest \<Rightarrow>
               if \<not> w_file_ok w (''destination '' @ dest) then say ''That destination is not allowed.''
               else steps
                 [say ''Working on the mail server. One moment.'',
                  emit (Move_remote (mail_id m) dest),
                  (case w_move_remote w (mail_id m) dest of
                     Remote_failed \<Rightarrow> steps [emit (Journal ''move'' (mail_id m) ''failed''),
                       say ''I could not move that message on the mail server.'']
                   | Remote_uncertain \<Rightarrow> steps [emit (Journal ''move'' (mail_id m) ''uncertain''),
                       say ''The mail server did not confirm the move. The next sync will reconcile it.'']
                   | Remote_ok \<Rightarrow>
                       (let target = move_target m dest
                        in if \<not> w_file_ok w (''mkdir '' @ dest) then local_move_failed m dest
                           else if \<not> w_rename_ok w (mail_path m) target then local_move_failed m dest
                           else if \<not> w_index_ok w then steps
                             [emit (Rename (mail_path m) target), emit (Rename target (mail_path m)), local_move_failed m dest]
                           else steps
                             [emit (Rename (mail_path m) target), emit (Move_index (mail_id m) dest target),
                              emit (Journal ''move'' (mail_id m) ''success''),
                              set_current (\<lambda>m. m\<lparr>mail_folder := dest, mail_path := target\<rparr>),
                              upd (transition St_read),
                              sayf (\<lambda>c. ''Message moved. '' @ prompt_for_state w c)]))]))"

section \<open>Deleting\<close>

text \<open>The Trash role of the message's account, as its local and remote name.\<close>

definition trash_role :: "world \<Rightarrow> call \<Rightarrow> mail \<Rightarrow> string \<times> string" where
  "trash_role w c m = (case w_accounts w (call_user c) of None \<Rightarrow> ([], [])
     | Some accs \<Rightarrow> (case find_account accs (mail_account m) of None \<Rightarrow> ([], [])
        | Some a \<Rightarrow> (case w_folder_role w a ''trash'' of Role_found local remote \<Rightarrow> (local, remote) | _ \<Rightarrow> ([], []))))"

text \<open>Dropping the message at the cursor and pointing the cursor at its neighbour.\<close>

definition drop_current :: "int \<Rightarrow> call \<Rightarrow> call" where
  "drop_current mid c =
     (if cursor c < length (messages c) \<and> mail_id (messages c ! cursor c) = mid then
        (let ms = take (cursor c) (messages c) @ drop (cursor c + 1) (messages c)
         in c\<lparr>messages := ms,
              cursor := (if cursor c \<ge> length ms then (if ms \<noteq> [] then length ms - 1 else 0) else cursor c)\<rparr>)
      else c)"

definition account_root :: "world \<Rightarrow> mail \<Rightarrow> string" where
  "account_root w m = (if w_data_root w \<noteq> [] then w_data_root w @ ''/mail/'' @ mail_account m
     else dir_of (dir_of (dir_of (mail_path m))))"

text \<open>The file to move: the listed one, or its renamed form when an earlier flag change moved it.\<close>

definition delete_source :: "world \<Rightarrow> mail \<Rightarrow> string" where
  "delete_source w m = (case first_readable w [mail_path m, maildir_read_path (mail_path m) True,
       maildir_read_path (mail_path m) False] of Some (p, _) \<Rightarrow> p | None \<Rightarrow> mail_path m)"

definition delete_failed :: "mail \<Rightarrow> string \<Rightarrow> step" where
  "delete_failed m trash = steps
     [emit (Journal ''delete'' (mail_id m) ''partial''),
      emit (Rollback_remote (mail_id m) trash (mail_folder m)),
      say ''I could not delete that message.'']"

definition delete_current :: "world \<Rightarrow> step" where
  "delete_current w = with_call (\<lambda>c.
     if messages c = [] then say ''There are no messages here. Press pound to go back.''
     else at_index (messages c) (cursor c) (\<lambda>m.
       let (trash, trash_remote) = trash_role w c m; source = delete_source w m;
           target = account_root w m @ ''/'' @ trash @ ''/cur/'' @ trash_file_name source
       in if \<not> w_file_ok w (''inside '' @ mail_path m) then say ''I could not delete that message.''
          else if trash_remote = [] \<or> trash = [] then
            say ''A Trash folder has not been mapped for this account. Map it in the web console to delete mail over the phone.''
          else steps
            [say ''Working on the mail server. One moment.'',
             emit (Move_remote (mail_id m) trash),
             (case w_move_remote w (mail_id m) trash of
                Remote_failed \<Rightarrow> steps [emit (Journal ''delete'' (mail_id m) ''failed''),
                  say ''I could not move that message to the remote Trash folder.'']
              | Remote_uncertain \<Rightarrow> steps [emit (Journal ''delete'' (mail_id m) ''uncertain''),
                  say ''The mail server did not confirm the Trash move. The next sync will reconcile it.'']
              | Remote_ok \<Rightarrow>
                  if \<not> w_file_ok w (''trash '' @ trash) then delete_failed m trash
                  else if \<not> w_file_ok w (''mkdir '' @ trash) then delete_failed m trash
                  else if w_rename_ok w source target then steps
                    [emit (Rename source target),
                     emit (Journal ''delete'' (mail_id m) ''success''),
                     emit (Delete_index (mail_id m)),
                     upd (\<lambda>c. transition St_list (drop_current (mail_id m) c)),
                     sayf (\<lambda>c. ''Moved to trash. '' @ prompt_for_state w c)]
                  else steps
                    [(if w_rename_ok w target source then emit (Rename target source) else skip),
                     emit (Rollback_remote (mail_id m) trash (mail_folder m)),
                     emit (Journal ''delete'' (mail_id m) ''partial''),
                     upd (transition St_list),
                     say ''I could not delete that message.''])]))"

section \<open>Contacts and sending\<close>

definition save_pending_contact :: "world \<Rightarrow> step" where
  "save_pending_contact w = steps
     [with_call (\<lambda>c. emit (Add_contact (pending_name c) (pending_email c))),
      (if \<not> w_write_ok w then say ''That contact could not be saved. It may already exist.''
       else steps
         [upd (\<lambda>c. (transition St_more_options c)\<lparr>pending_name := [], pending_email := []\<rparr>),
          say (''Contact saved. '' @ menu_prompt St_more_options)])]"

definition parse_recipients :: "world \<Rightarrow> string list \<Rightarrow> string list option" where
  "parse_recipients w values = those (map (w_parse_address w) values)"

definition sending_account :: "call \<Rightarrow> account list \<Rightarrow> account" where
  "sending_account c accs =
     (case (active_account c \<noteq> [], find_account accs (active_account c)) of
        (True, Some a) \<Rightarrow> a | _ \<Rightarrow> hd accs)"

text \<open>The part of \<open>sendDraft\<close> behind the in-flight flag.  The submission is journalled before
  the message is handed to the server, and settled afterwards.\<close>

definition submit_draft :: "world \<Rightarrow> step" where
  "submit_draft w = with_call (\<lambda>c.
     let d = draft c in
     case parse_recipients w (draft_to d # additional_to d) of
       None \<Rightarrow> say ''That recipient is not valid.''
     | Some rto \<Rightarrow>
     (case parse_recipients w (draft_cc d) of
       None \<Rightarrow> say ''A Cc recipient is not valid.''
     | Some rcc \<Rightarrow>
     (case parse_recipients w (draft_bcc d) of
       None \<Rightarrow> say ''A Bcc recipient is not valid.''
     | Some rbcc \<Rightarrow>
     (case w_accounts w (call_user c) of
       None \<Rightarrow> say ''No sending account is configured.''
     | Some accs \<Rightarrow>
       if accs = [] \<or> \<not> w_secrets w then say ''No sending account is configured.''
       else
         (let a = sending_account c accs in
          case w_open_secret w (smtp_password a) of
            None \<Rightarrow> say ''The sending account is unavailable.''
          | Some password \<Rightarrow>
          (case w_message_id w (acc_email a) of
            None \<Rightarrow> say ''The message could not be constructed.''
          | Some message_id \<Rightarrow>
            if \<not> w_build_ok w then say ''The message could not be constructed.''
            else if \<not> w_journal_ok w then say ''The send attempt could not be recorded. Please try again.''
            else steps
              [emit (Journal_submission message_id),
               emit (Submit (rto @ rcc @ rbcc) message_id),
               (case w_submit w of
                  Submit_uncertain \<Rightarrow> steps [emit (Settle_submission message_id ''uncertain''),
                    say ''The mail server's result is uncertain. Do not retry yet; check the account before sending again.'']
                | Submit_rejected \<Rightarrow> steps [emit (Settle_submission message_id ''rejected''),
                    say ''Sending failed. Check the account settings.'']
                | Submit_accepted \<Rightarrow> steps
                    [emit (Settle_submission message_id ''accepted''),
                     (if draft_id d \<noteq> [] then emit (Delete_draft (draft_id d)) else skip),
                     upd (transition St_main),
                     sayf (\<lambda>c. ''Message sent. '' @ prompt_for_state w c)])]))))))"

definition send_draft :: "world \<Rightarrow> step" where
  "send_draft w = with_call (\<lambda>c.
     if send_in_flight c then say ''Sending is already in progress. Please wait for its result.''
     else steps [upd (\<lambda>c. c\<lparr>send_in_flight := True\<rparr>), submit_draft w, upd (\<lambda>c. c\<lparr>send_in_flight := False\<rparr>)])"

text \<open>\<open>saveDraft\<close>: the record that is saved, and the initial copy appended to the remote Drafts
  folder.  The steps of staging the attachment files answer through \<open>w_file_ok\<close>; the new
  identifier and the paths of the attachments are parameters.  The removal of the files of earlier
  saves is left out.\<close>

definition saved_record :: "call \<Rightarrow> string \<Rightarrow> string \<Rightarrow> (string \<Rightarrow> nat \<Rightarrow> string) \<Rightarrow> draft_record" where
  "saved_record c did aid path_of =
     (let d = draft c
      in \<lparr>dr_id = did, dr_user = call_user c, dr_account = aid, dr_subject = draft_subject d, dr_body = draft_body d,
          dr_forward_mode = (if forward_original d then ''forward'' else []), dr_original = original_message d,
          dr_to = draft_to d # additional_to d, dr_cc = draft_cc d, dr_bcc = draft_bcc d,
          dr_attachments = map (\<lambda>(i, a). (oa_filename a, oa_type a, path_of did i))
            (filter (\<lambda>(_, a). oa_data a \<noteq> []) (enumerate 0 (draft_attachments d)))\<rparr>)"

definition save_draft :: "world \<Rightarrow> string \<Rightarrow> (string \<Rightarrow> nat \<Rightarrow> string) \<Rightarrow> bool \<Rightarrow> step" where
  "save_draft w new_id path_of appended = with_call (\<lambda>c. case w_accounts w (call_user c) of
      None \<Rightarrow> say ''No mail account is available for this draft.''
    | Some accs \<Rightarrow>
        if accs = [] then say ''No mail account is available for this draft.''
        else if \<not> w_file_ok w ''drafts'' then say ''Draft storage is unavailable.''
        else if \<not> w_file_ok w ''draft stage'' then say ''Draft attachment storage is unavailable.''
        else if \<not> w_file_ok w ''draft files'' then say ''Draft attachment storage failed.''
        else if \<not> w_file_ok w ''draft generation'' then say ''Draft attachment storage is unavailable.''
        else if \<not> w_file_ok w ''draft rename'' then say ''Draft attachment storage failed.''
        else
          (let d = draft c;
               aid = (if active_account c = [] then acc_id (hd accs) else active_account c);
               did = (if draft_id d = [] then new_id else draft_id d);
               record = saved_record c did aid path_of;
               remote = (case find_account accs aid of None \<Rightarrow> []
                 | Some a \<Rightarrow> (case w_folder_role w a ''drafts'' of Role_found _ r \<Rightarrow> r | _ \<Rightarrow> []));
               append = (draft_id d = [] \<and> remote \<noteq> [] \<and> w_secrets w)
           in if \<not> w_write_ok w then say ''The draft could not be saved.''
              else steps
                [emit (Save_draft record),
                 (if append then emit (Append_remote remote) else skip),
                 upd (\<lambda>c. transition St_main (c\<lparr>draft := (draft c)\<lparr>draft_id := did\<rparr>\<rparr>)),
                 sayf (\<lambda>c. (if append \<and> appended then ''Draft saved to the remote Drafts folder. ''
                   else if draft_id d \<noteq> [] then ''Draft saved locally. Its remote Drafts copy is an initial snapshot; later edits remain local. ''
                   else ''Draft saved locally. Map a Drafts folder and check the account connection to upload it remotely. '')
                   @ prompt_for_state w c)]))"

end
