(* ===== verification/Call_Menu.thy ===== *)
theory Call_Menu
  imports Call_Mail
begin

text \<open>
  Keys on a call (internal/calls/dispatch.go and the prompt repetition of service.go): the PIN
  entry of \<open>handleDTMF\<close>, the account choice of verification.go, and \<open>handleMenu\<close> with the star
  and pound keys and the menus it serves itself.
\<close>

section \<open>Repeating and going back\<close>

definition repeat_current_prompt :: "world \<Rightarrow> step" where
  "repeat_current_prompt w = with_call (\<lambda>c.
     let st = state_of c
     in if st = St_draft_list then prompt_draft_list
        else if st = St_move_menu then prompt_move_menu
        else if st = St_attachment_menu then attachment_menu w
        else if st = St_account_alert_folders then prompt_account_alert_folders
        else say (prompt_for_state w c))"

definition stop_recording :: "call \<Rightarrow> call" where
  "stop_recording c = c\<lparr>record_generation := record_generation c + 1, record_cancel := False, record_stop := False\<rparr>"

definition stop_attachment :: "call \<Rightarrow> call" where
  "stop_attachment c = c\<lparr>attachment_cancel := False\<rparr>"

definition handle_star :: "world \<Rightarrow> step" where
  "handle_star w = with_call (\<lambda>c.
     let st = state_of c
     in if st = St_attachment_playback then steps
          [upd (\<lambda>c. transition St_read (stop_attachment c)), repeat_current_prompt w]
        else if st = St_audio_recording then steps
          [upd (\<lambda>c. back_using_flow St_review (stop_recording c)),
           sayf (\<lambda>c. ''Audio recording canceled. '' @ prompt_for_state w c)]
        else if st = St_recording \<or> st = St_recording_subject then steps
          [upd (\<lambda>c. back_using_flow (if st = St_recording_subject then St_subject_method else St_body_method) (stop_recording c)),
           sayf (\<lambda>c. ''Recording canceled. '' @ prompt_for_state w c)]
        else repeat_current_prompt w)"

definition leave_field :: "call \<Rightarrow> call" where
  "leave_field c =
     (let st = confirm_state c; value = confirm_value c
      in (transition st c)\<lparr>editor := Some ((new_ivr_editor st)\<lparr>mt_text := value\<rparr>),
            confirm_value := [], confirm_state := St_none, confirm_kind := []\<rparr>)"

text \<open>States whose pound key goes back in the history, with the state to go to when there is
  none.\<close>

definition back_fallback :: "(state \<times> state) list" where
  "back_fallback =
     [(St_accounts, St_main), (St_contacts, St_main), (St_settings, St_main), (St_info, St_main),
      (St_account_menu, St_accounts), (St_draft_menu, St_account_menu), (St_draft_list, St_draft_menu),
      (St_recipient_edit, St_draft_edit), (St_attachment_edit, St_draft_edit),
      (St_folder_action, St_folders), (St_read, St_list), (St_confirm_delete, St_list),
      (St_move_menu, St_read), (St_account_settings, St_account_menu),
      (St_account_alert_folders, St_account_settings), (St_review, St_body), (St_forward_options, St_read),
      (St_more_options, St_read), (St_contact_name, St_more_options), (St_contact_confirm, St_more_options)]"

text \<open>States of composition whose pound key leads to a fixed state, another one while an existing
  draft is edited.\<close>

definition compose_back :: "(state \<times> state) list" where
  "compose_back = [(St_subject, St_compose), (St_subject_method, St_recipient_menu), (St_body, St_subject),
     (St_body_method, St_subject), (St_recipient_menu, St_compose)]"

definition pound_back :: "call \<Rightarrow> call" where
  "pound_back c =
     (let st = state_of c
      in case map_of back_fallback st of
           Some fallback \<Rightarrow> back_using_flow fallback c
         | None \<Rightarrow>
       (case map_of compose_back st of
           Some target \<Rightarrow> transition (if editing_draft c then St_draft_edit else target) c
         | None \<Rightarrow>
             if st = St_draft_edit then back_using_flow St_review (c\<lparr>editing_draft := False\<rparr>)
             else if st = St_list then
               back_using_flow (if active_account c \<noteq> [] then St_folders else St_main) c
             else if st = St_folders then
               (if folder_prefix c \<noteq> [] then c\<lparr>folder_prefix := [], folder_page := 0\<rparr>
                else back_using_flow St_account_menu c)
             else if st = St_attachment_menu \<or> st = St_attachment_playback then
               back_using_flow St_read (stop_attachment c)
             else if st = St_recipient_input then transition St_recipient_menu c
             else if st = St_field_confirm then leave_field c
             else if st = St_audio_recording then
               back_using_flow St_review (c\<lparr>record_generation := record_generation c + 1, record_cancel := False\<rparr>)
             else if st = St_recording then back_using_flow St_body_method (stop_recording c)
             else if st = St_recording_subject then back_using_flow St_subject_method (stop_recording c)
             else c))"

definition handle_pound :: "world \<Rightarrow> step" where
  "handle_pound w = with_call (\<lambda>c.
     if state_of c = St_review \<and> pending_cancel_confirm c then steps
       [upd (\<lambda>c. c\<lparr>pending_cancel_confirm := False\<rparr>), say (''Your message is kept. '' @ menu_prompt St_review)]
     else if is_help_state (state_of c) then steps
       [upd (back_by_contract St_info), repeat_current_prompt w]
     else steps [upd pound_back, repeat_current_prompt w])"

section \<open>The menus of \<open>handleMenu\<close>\<close>

definition no_messages :: string where
  "no_messages = ''There are no messages here. Press pound to go back.''"

definition menu_main :: "world \<Rightarrow> char \<Rightarrow> step" where
  "menu_main w key =
     (if key = CHR ''1'' then open_accounts w
      else if key = CHR ''2'' then steps [upd (transition St_settings), say (settings_prompt w)]
      else if key = CHR ''3'' then steps [upd (transition St_info), say (menu_prompt St_info)]
      else skip)"

text \<open>The list: where a key moves the cursor to, and what is announced when it wraps.\<close>

definition list_move :: "char \<Rightarrow> nat \<Rightarrow> nat \<Rightarrow> nat \<times> string" where
  "list_move key cur n =
     (if key = CHR ''2'' then
        ((cur + 1) mod n, if cur = n - 1 then ''That was the last message. Starting over from the first.'' else [])
      else if key = CHR ''3'' then
        ((cur + n - 1) mod n, if cur = 0 then ''That was the first message. Going back to the last one.'' else [])
      else (cur, []))"

definition list_enter :: "world \<Rightarrow> char \<Rightarrow> call \<Rightarrow> call" where
  "list_enter w key c =
     (if key = CHR ''1'' then transition St_read c
      else if key = CHR ''4'' then transition St_confirm_delete c
      else if key = CHR ''5'' then start_compose w Reply c
      else if key = CHR ''6'' then start_compose w Forward c
      else c)"

definition menu_list :: "world \<Rightarrow> char \<Rightarrow> step" where
  "menu_list w key = with_call (\<lambda>c.
     if messages c = [] then say no_messages
     else at_index (messages c) (cursor c) (\<lambda>_.
       let (cur, wrapped) = list_move key (cursor c) (length (messages c))
       in at_index (messages c) cur (\<lambda>m. steps
         [upd (\<lambda>c. list_enter w key (c\<lparr>cursor := cur\<rparr>)),
          (if wrapped \<noteq> [] then say wrapped else skip),
          with_call (\<lambda>c. let st = state_of c in
            if st = St_read then read_message w m
            else if st = St_confirm_delete then say ''Delete this message? Press 1 to confirm or 2 to cancel.''
            else if st = St_compose then say ''Enter the recipient using multi tap, then press pound.''
            else if st = St_subject then say ''Enter the subject using multi tap, then press pound.''
            else if st = St_subject_method then say (menu_prompt St_subject_method)
            else if st = St_body then say ''Enter the message using multi tap, then press pound.''
            else say (list_prompt w m (cursor c) (length (messages c))))])))"

definition menu_read :: "world \<Rightarrow> char \<Rightarrow> step" where
  "menu_read w key = with_call (\<lambda>c.
     if messages c = [] then say no_messages
     else steps [upd (\<lambda>c. if cursor c \<ge> length (messages c) then c\<lparr>cursor := 0\<rparr> else c),
       with_call (\<lambda>c. at_index (messages c) (cursor c) (\<lambda>m.
         if key = CHR ''1'' then read_message w m
         else if key = CHR ''2'' then toggle_read w m
         else if key = CHR ''3'' then steps
           [upd (start_compose w Reply), say (''Replying. '' @ menu_prompt St_subject_method)]
         else if key = CHR ''4'' then steps
           [upd (start_compose w Reply_all), say (''Reply all. '' @ menu_prompt St_subject_method)]
         else if key = CHR ''5'' then steps
           [upd (transition St_forward_options),
            say ''Forward the original message with its attachments? Press 1 for yes or 2 for no.'']
         else if key = CHR ''6'' then steps
           [upd (transition St_confirm_delete), say ''Delete this message? Press 1 to confirm or 2 to cancel.'']
         else if key = CHR ''8'' then attachment_menu w
         else if key = CHR ''7'' then open_move_menu w m
         else if key = CHR ''9'' then steps [upd (transition St_more_options), say (menu_prompt St_more_options)]
         else if key = CHR ''0'' then steps
           [advance_to_playable w,
            with_call (\<lambda>c. at_index (messages c) (cursor c) (\<lambda>m. steps
              [upd (transition St_list), say (list_prompt w m (cursor c) (length (messages c)))]))]
         else skip))])"

definition menu_attachments :: "world \<Rightarrow> char \<Rightarrow> step" where
  "menu_attachments w key = with_call (\<lambda>c.
     if key = CHR ''0'' then
       (if (attachment_page c + 1) * 9 < length (playable_attachments (attachments c))
        then steps [upd (\<lambda>c. c\<lparr>attachment_page := attachment_page c + 1\<rparr>), attachment_menu w]
        else steps [say ''There are no more attachments. Press pound to return.'', attachment_menu w])
     else if \<not> key_between CHR ''1'' CHR ''9'' key then skip
     else steps [upd (transition St_attachment_playback), say ''Playing attachment.'',
                 emit (Play_attachment (digit_of key))])"

definition menu_move :: "world \<Rightarrow> char \<Rightarrow> step" where
  "menu_move w key = with_call (\<lambda>c.
     if key = CHR ''0'' then
       (if (move_page c + 1) * 9 < length (move_folders c)
        then steps [upd (\<lambda>c. c\<lparr>move_page := move_page c + 1\<rparr>), prompt_move_menu]
        else steps [say ''There are no more folders. Press pound to return.'', prompt_move_menu])
     else if \<not> key_between CHR ''1'' CHR ''9'' key then skip
     else
       (let index = move_page c * 9 + digit_of key
        in if index \<ge> length (move_folders c)
           then steps [say ''There is no folder for that key. Press pound to return.'', prompt_move_menu]
           else at_index (move_folders c) index (move_current w)))"

definition menu_confirm_delete :: "world \<Rightarrow> char \<Rightarrow> step" where
  "menu_confirm_delete w key =
     (if key = CHR ''1'' then delete_current w
      else if key = CHR ''2'' then steps
        [upd (transition St_list),
         upd (\<lambda>c. if messages c \<noteq> [] \<and> cursor c \<ge> length (messages c) then c\<lparr>cursor := 0\<rparr> else c),
         with_call (\<lambda>c. if messages c = [] then say (menu_prompt St_list)
           else at_index (messages c) (cursor c) (\<lambda>m. say (list_prompt w m (cursor c) (length (messages c)))))]
      else skip)"

definition handle_review_cancel :: "world \<Rightarrow> step" where
  "handle_review_cancel w = with_call (\<lambda>c.
     if pending_cancel_confirm c then steps
       [upd (\<lambda>c. transition St_main (c\<lparr>pending_cancel_confirm := False\<rparr>)),
        sayf (\<lambda>c. ''Composition cancelled. '' @ prompt_for_state w c)]
     else steps
       [upd (\<lambda>c. c\<lparr>pending_cancel_confirm := True\<rparr>),
        say ''Press 3 again to cancel this email, or pound to go back.''])"

definition menu_review :: "world \<Rightarrow> (call \<Rightarrow> step) \<Rightarrow> char \<Rightarrow> step" where
  "menu_review w save key = steps
     [(if key \<noteq> CHR ''3'' then upd (\<lambda>c. c\<lparr>pending_cancel_confirm := False\<rparr>) else skip),
      (if key = CHR ''1'' then send_draft w
       else if key = CHR ''2'' then with_call save
       else if key = CHR ''3'' then handle_review_cancel w
       else if key = CHR ''4'' then steps [upd (transition St_draft_edit), say (menu_prompt St_draft_edit)]
       else if key = CHR ''5'' then start_audio_attachment w
       else if key = CHR ''6'' then sayf (draft_review_prompt w)
       else skip)]"

definition menu_forward :: "world \<Rightarrow> char \<Rightarrow> step" where
  "menu_forward w key =
     (if key = CHR ''1'' \<or> key = CHR ''2'' then steps
        [upd (start_compose w Forward),
         (if key = CHR ''2'' then upd (\<lambda>c. c\<lparr>draft := (draft c)\<lparr>draft_attachments := [], forward_original := False\<rparr>\<rparr>)
          else skip),
         say (''Forwarding. '' @ menu_prompt St_compose)]
      else skip)"

definition menu_recording :: "char \<Rightarrow> step" where
  "menu_recording key = (if key = CHR ''0'' then upd (\<lambda>c. c\<lparr>record_stop := False\<rparr>) else skip)"

definition menu_contact_confirm :: "world \<Rightarrow> char \<Rightarrow> step" where
  "menu_contact_confirm w key =
     (if key = CHR ''1'' then save_pending_contact w
      else if key = CHR ''2'' then steps [upd (transition St_more_options), say (menu_prompt St_more_options)]
      else skip)"

text \<open>The dispatch on the state.  \<open>save\<close> is \<open>saveDraft\<close> with its new identifier, file paths and
  the outcome of the remote append.\<close>

definition menu_of :: "world \<Rightarrow> (call \<Rightarrow> step) \<Rightarrow> char \<Rightarrow> (state \<times> step) list" where
  "menu_of w save key =
     [(St_main, menu_main w key),
      (St_accounts, if key = CHR ''0'' then open_messages w True ''all unread mail'' else handle_account_menu w key),
      (St_account_menu, handle_selected_account_menu w key),
      (St_draft_menu, handle_draft_menu w key),
      (St_draft_list, handle_draft_list w key),
      (St_draft_edit, handle_draft_edit key),
      (St_recipient_edit, handle_recipient_edit key),
      (St_attachment_edit, handle_attachment_edit w key),
      (St_account_settings, handle_account_settings w key),
      (St_account_alert_folders, handle_account_alert_folders w key),
      (St_folders, handle_folder_menu w key),
      (St_folder_action, handle_folder_action w key),
      (St_contacts, handle_contact_menu w key),
      (St_recipient_pick, handle_recipient_pick w key),
      (St_contact_pick, handle_contact_pick w key),
      (St_recipient_menu, handle_recipient_menu key),
      (St_field_confirm, handle_field_confirmation (repeat_current_prompt w) key),
      (St_subject_method, handle_field_method w True key),
      (St_body_method, handle_field_method w False key),
      (St_settings, handle_settings_menu w key),
      (St_list, menu_list w key),
      (St_read, menu_read w key),
      (St_attachment_menu, menu_attachments w key),
      (St_attachment_playback, steps [upd (\<lambda>c. transition St_read (stop_attachment c)),
         say ''Playback stopped. Press 8 for attachments, or pound to return.'']),
      (St_move_menu, menu_move w key),
      (St_more_options, handle_more_options w key),
      (St_contact_confirm, menu_contact_confirm w key),
      (St_confirm_delete, menu_confirm_delete w key),
      (St_review, menu_review w save key),
      (St_forward_options, menu_forward w key),
      (St_audio_recording, menu_recording key),
      (St_recording, menu_recording key),
      (St_recording_subject, menu_recording key)]"

definition is_editing :: "state \<Rightarrow> bool" where
  "is_editing st \<longleftrightarrow> st = St_compose \<or> st = St_recipient_input \<or> st = St_subject \<or> st = St_body \<or> st = St_contact_name"

text \<open>\<open>HelpDestination\<close> panics when it indexes a help page out of range (the outer option).\<close>

definition handle_menu :: "world \<Rightarrow> (call \<Rightarrow> step) \<Rightarrow> char \<Rightarrow> step" where
  "handle_menu w save key = with_call (\<lambda>c0.
     if closed c0 \<or> \<not> authenticated c0 then skip
     else steps [upd ensure_flow, with_call (\<lambda>c.
       let st = state_of c
       in if is_editing st then handle_compose w key
          else if key = CHR ''*'' then handle_star w
          else if key = CHR ''#'' then handle_pound w
          else if \<not> accepts st [key] then say (''That key is not available here. '' @ prompt_for_state w c)
          else (case help_destination st [key] of
              None \<Rightarrow> panic
            | Some (Some next) \<Rightarrow> steps [upd (transition next), say (menu_prompt next)]
            | Some None \<Rightarrow>
                (case map_of (menu_of w save key) st of Some f \<Rightarrow> f | None \<Rightarrow> skip)))])"

section \<open>PIN entry and account choice\<close>

definition pin_failure_notice :: "int \<Rightarrow> string" where
  "pin_failure_notice remaining =
     (if remaining = 1
      then ''That PIN was not accepted. One attempt remains before this number is locked out. Try again, or press star to clear.''
      else ''That PIN was not accepted. '' @ itoa remaining @ '' attempts remain before lockout. Try again, or press star to clear.'')"

definition signed_in_prompt :: "world \<Rightarrow> call \<Rightarrow> string" where
  "signed_in_prompt w c = (case w_accounts w (call_user c) of
      None \<Rightarrow> ''You are signed in. '' @ menu_prompt St_main
    | Some accs \<Rightarrow>
       (let counts = map (\<lambda>a. (canonical_name a, w_unread w (call_user c) (acc_id a))) accs;
            n = sum_list (List.map_filter snd counts);
            unchecked = length (filter (\<lambda>(_, x). x = None) counts);
            parts = List.map_filter (\<lambda>(name, x). case x of Some k \<Rightarrow> if k > 0 then Some (dec k @ '' in '' @ name) else None
                                                         | None \<Rightarrow> None) counts
        in if parts = [] \<and> unchecked = 0 then ''You have no unread email. '' @ menu_prompt St_main
           else
             (let summary = (if unchecked > 0 then
                    (if n = 1 then ''You have at least 1 unread email''
                     else if n > 1 then ''You have at least '' @ dec n @ '' unread emails''
                     else ''Some accounts could not be checked for unread email'')
                  else if n = 1 then ''You have 1 unread email''
                  else ''You have '' @ dec n @ '' unread emails'')
              in summary @ (if parts \<noteq> [] then '', '' @ join parts '', '' else []) @ ''. '' @ menu_prompt St_main)))"

definition speak_account_choice :: step where
  "speak_account_choice = with_call (\<lambda>c.
     if choices c = [] then steps
       [upd (\<lambda>c. (transition St_closed c)\<lparr>closed := True\<rparr>), emit (Hangup 0 [])]
     else steps [upd (transition St_account_choice), say (account_choice_prompt (choices c))])"

text \<open>The digit is matched against the accounts of the number; anything else repeats the menu.
  Switching the speech runtime to the chosen user is left out.\<close>

definition choose_caller_account :: "string \<Rightarrow> step" where
  "choose_caller_account digit = with_call (\<lambda>c. case atoi (trim_space digit) of
      None \<Rightarrow> speak_account_choice
    | Some n \<Rightarrow>
        if 1 \<le> n \<and> n \<le> int (length (choices c)) then
          at_index (choices c) (nat n - 1) (\<lambda>r. steps
            [upd (\<lambda>c. transition St_pin (c\<lparr>call_user := route_user r, choices := []\<rparr>)),
             say (route_username r @ ''. Enter your PIN, then press pound.'')])
        else speak_account_choice)"

definition check_pin :: "world \<Rightarrow> step" where
  "check_pin w = with_call (\<lambda>c. case w_user_by_id w (call_user c) of
      None \<Rightarrow> steps [upd (\<lambda>c. c\<lparr>pin := []\<rparr>),
                     say ''I couldn't check that just now. Please try again in a moment.'']
    | Some u \<Rightarrow>
        if \<not> w_check w (u_pin_hash u) (pin c) then steps
          [upd (\<lambda>c. c\<lparr>pin := [], pin_failures := pin_failures c + 1\<rparr>),
           with_call (\<lambda>c. if pin_failures c \<ge> 3
             then steps [(if phone c \<noteq> [] then emit (Lock_pin (phone c)) else skip),
                         emit (Hangup 603 ''PIN verification failed'')]
             else say (pin_failure_notice (3 - pin_failures c)))]
        else steps
          [upd (\<lambda>c. transition St_main (c\<lparr>authenticated := True, pin_failures := 0\<rparr>)),
           with_call (\<lambda>c. if phone c \<noteq> [] then emit (Unlock_pin (phone c)) else skip),
           sayf (signed_in_prompt w)])"

definition handle_dtmf :: "world \<Rightarrow> (call \<Rightarrow> step) \<Rightarrow> char \<Rightarrow> step" where
  "handle_dtmf w save key = with_call (\<lambda>c.
     if closed c then skip
     else if authenticated c then handle_menu w save key
     else if call_state c = St_verification then skip
     else if call_state c = St_account_choice then choose_caller_account [key]
     else if key = CHR ''*'' then upd (\<lambda>c. c\<lparr>pin := []\<rparr>)
     else if key \<noteq> CHR ''#'' then
       upd (\<lambda>c. if length (pin c) < 12 \<and> key_between CHR ''0'' CHR ''9'' key then c\<lparr>pin := pin c @ [key]\<rparr> else c)
     else check_pin w)"

end
