(* ===== verification/Call_Contract.thy ===== *)
theory Call_Contract
  imports Call_Menu
begin

text \<open>
  Contracts of the handlers of a call.  A contract \<open>C\<close> is a property of steps that the combinators
  keep, where a step that depends on the session may rely on an invariant \<open>I\<close> of it; the rules
  for the branches of a handler follow once for every contract.  The two contracts of the
  development are \<open>safe I\<close> (no panic, and \<open>I\<close> is kept) and \<open>quiet P\<close> (every event satisfies
  \<open>P\<close>).
\<close>

section \<open>The interface\<close>

locale step_contract =
  fixes C :: "step \<Rightarrow> bool" and I :: "call \<Rightarrow> bool"
  assumes contract_skip: "C skip"
    and contract_next: "C f \<Longrightarrow> C g \<Longrightarrow> C (next_step f g)"
    and contract_with: "(\<And>c. I c \<Longrightarrow> C (h c)) \<Longrightarrow> C (with_call h)"
begin

lemma contract_Nil: "C (steps [])"
  by (simp add: steps_def contract_skip)

lemma contract_Cons: "C f \<Longrightarrow> C (steps fs) \<Longrightarrow> C (steps (f # fs))"
  by (simp add: steps_def contract_next)

lemma contract_if: "(b \<Longrightarrow> C f) \<Longrightarrow> (\<not> b \<Longrightarrow> C g) \<Longrightarrow> C (if b then f else g)"
  by simp

lemma contract_option:
  "(x = None \<Longrightarrow> C f) \<Longrightarrow> (\<And>y. x = Some y \<Longrightarrow> C (k y)) \<Longrightarrow> C (case x of None \<Rightarrow> f | Some y \<Rightarrow> k y)"
  by (cases x) simp_all

lemma contract_list:
  "(x = [] \<Longrightarrow> C f) \<Longrightarrow> (\<And>y ys. x = y # ys \<Longrightarrow> C (k y ys)) \<Longrightarrow> C (case x of [] \<Rightarrow> f | y # ys \<Rightarrow> k y ys)"
  by (cases x) simp_all

lemma contract_prod: "(\<And>a b. x = (a, b) \<Longrightarrow> C (k a b)) \<Longrightarrow> C (case x of (a, b) \<Rightarrow> k a b)"
  by (cases x) simp

lemma contract_sum:
  "(\<And>a. x = Inl a \<Longrightarrow> C (f a)) \<Longrightarrow> (\<And>b. x = Inr b \<Longrightarrow> C (g b)) \<Longrightarrow> C (case x of Inl a \<Rightarrow> f a | Inr b \<Rightarrow> g b)"
  by (cases x) simp_all

lemma contract_bool: "(x \<Longrightarrow> C f) \<Longrightarrow> (\<not> x \<Longrightarrow> C g) \<Longrightarrow> C (case x of True \<Rightarrow> f | False \<Rightarrow> g)"
  by (cases x) simp_all

lemma contract_remote:
  "C a \<Longrightarrow> C b \<Longrightarrow> C d \<Longrightarrow> C (case x of Remote_ok \<Rightarrow> a | Remote_failed \<Rightarrow> b | Remote_uncertain \<Rightarrow> d)"
  by (cases x) simp_all

lemma contract_submit:
  "C a \<Longrightarrow> C b \<Longrightarrow> C d \<Longrightarrow> C (case x of Submit_accepted \<Rightarrow> a | Submit_rejected \<Rightarrow> b | Submit_uncertain \<Rightarrow> d)"
  by (cases x) simp_all

lemmas contract_rules = contract_skip contract_with contract_Nil contract_Cons contract_if contract_option
  contract_list contract_prod contract_sum contract_bool contract_remote contract_submit

end

section \<open>No panic, and an invariant is kept\<close>

definition safe_at :: "(call \<Rightarrow> bool) \<Rightarrow> call \<Rightarrow> step \<Rightarrow> bool" where
  "safe_at I c f \<longleftrightarrow> (\<exists>c' es. f c = Some (c', es) \<and> I c')"

definition safe :: "(call \<Rightarrow> bool) \<Rightarrow> step \<Rightarrow> bool" where
  "safe I f \<longleftrightarrow> (\<forall>c. I c \<longrightarrow> safe_at I c f)"

lemma safe_with_at: "(\<And>c. I c \<Longrightarrow> safe_at I c (f c)) \<Longrightarrow> safe I (with_call f)"
  by (simp add: safe_def safe_at_def with_call_def)

interpretation safe: step_contract "safe I" I for I
proof unfold_locales
  show "safe I skip" by (simp add: safe_def safe_at_def skip_def)
  show "safe I (next_step f g)" if "safe I f" "safe I g" for f g
    using that unfolding safe_def safe_at_def next_step_def by fastforce
  show "safe I (with_call h)" if "\<And>c. I c \<Longrightarrow> safe I (h c)" for h
    by (rule safe_with_at) (use that in \<open>simp add: safe_def\<close>)
qed

named_theorems safe_rules "contracts of the combinators and of the handlers"

lemmas [safe_rules] = safe.contract_rules

lemma safe_emit [safe_rules]: "safe I (emit e)"
  by (simp add: safe_def safe_at_def emit_def)

lemma safe_upd [safe_rules]: "(\<And>c. I c \<Longrightarrow> I (g c)) \<Longrightarrow> safe I (upd g)"
  by (simp add: safe_def safe_at_def upd_def)

lemma safe_sayf [safe_rules]: "safe I (sayf f)"
  unfolding sayf_def by (intro safe_rules)

lemma at_index_less: "i < length xs \<Longrightarrow> at_index xs i f = f (xs ! i)"
  by (simp add: at_index_def)

lemma safe_at_index: "i < length xs \<Longrightarrow> safe I (f (xs ! i)) \<Longrightarrow> safe I (at_index xs i f)"
  by (simp add: at_index_def)

section \<open>Every event satisfies a predicate\<close>

definition quiet :: "(event \<Rightarrow> bool) \<Rightarrow> step \<Rightarrow> bool" where
  "quiet P f \<longleftrightarrow> (\<forall>c c' es. f c = Some (c', es) \<longrightarrow> list_all P es)"

lemma quietD: "quiet P f \<Longrightarrow> f c = Some (c', es) \<Longrightarrow> e \<in> set es \<Longrightarrow> P e"
  unfolding quiet_def list_all_iff by blast

interpretation quiet: step_contract "quiet P" "\<lambda>_. True" for P
proof unfold_locales
  show "quiet P skip" by (simp add: quiet_def skip_def)
  show "quiet P (next_step f g)" if "quiet P f" "quiet P g" for f g
    using that unfolding quiet_def next_step_def by (fastforce split: option.splits)
  show "quiet P (with_call h)" if "\<And>c. True \<Longrightarrow> quiet P (h c)" for h
    using that by (simp add: quiet_def with_call_def)
qed

named_theorems quiet_rules "events of the combinators and of the handlers"

lemmas [quiet_rules] = quiet.contract_rules

lemma quiet_emit [quiet_rules]: "P e \<Longrightarrow> quiet P (emit e)"
  by (simp add: quiet_def emit_def)

lemma quiet_upd [quiet_rules]: "quiet P (upd g)"
  by (simp add: quiet_def upd_def)

lemma quiet_panic [quiet_rules]: "quiet P panic"
  by (simp add: quiet_def panic_def)

lemma quiet_sayf [quiet_rules]: "(\<And>t. P (Say t)) \<Longrightarrow> quiet P (sayf f)"
  unfolding sayf_def by (intro quiet_rules)

lemma quiet_at_index [quiet_rules]: "(\<And>x. quiet P (f x)) \<Longrightarrow> quiet P (at_index xs i f)"
  by (simp add: at_index_def quiet_panic)

lemma quiet_mono: "quiet P f \<Longrightarrow> (\<And>e. P e \<Longrightarrow> Q e) \<Longrightarrow> quiet Q f"
  unfolding quiet_def by (metis list.pred_mono_strong)

end
