(* ===== verification/Call_Safety.thy ===== *)
theory Call_Safety
  imports Call_Contract
begin

text \<open>
  What every key press keeps of a call, in every world: no Go panic, the mirror of the
  navigation state, the cursor inside the message list, a well-formed editor; and no menu signs a
  caller in or out or changes the user.  The rules of \<open>safe\<close> follow the combinators of a handler, so
  a handler's lemma is its definition and these rules.
\<close>

section \<open>Navigation keeps the mirror\<close>

definition mirrored :: "flow option \<Rightarrow> state \<Rightarrow> bool" where
  "mirrored f st \<longleftrightarrow> (case f of None \<Rightarrow> True | Some f \<Rightarrow> fl_state f = st)"

text \<open>A change of navigation state leaves the rest of the session alone.\<close>

definition navigated :: "call \<Rightarrow> flow \<Rightarrow> nat \<Rightarrow> call" where
  "navigated c f n = c\<lparr>call_flow := Some f, call_state := fl_state f, nav_generation := n\<rparr>"

definition nav_step :: "(call \<Rightarrow> call) \<Rightarrow> bool" where
  "nav_step g \<longleftrightarrow> (\<forall>c. \<exists>f n. g c = navigated c f n)"

lemma navigated_navigated [simp]: "navigated (navigated c f n) f' n' = navigated c f' n'"
  by (simp add: navigated_def)

lemma ensure_flow_navigated: "\<exists>f. ensure_flow c = navigated c f (nav_generation c)"
  by (rule exI [of _ "case call_flow c of Some f \<Rightarrow> f | None \<Rightarrow>
        (let f = new_session (call_id c) in if call_state c \<noteq> St_none then f\<lparr>fl_state := call_state c\<rparr> else f)"])
     (cases c, simp add: ensure_flow_def navigated_def Let_def split: option.split)

lemma ensure_flow_step: "nav_step ensure_flow"
  using ensure_flow_navigated unfolding nav_step_def by blast

lemma enter_state [simp]: "fl_state (enter st f) = st"
  by (simp add: enter_def Let_def)

lemma transition_step: "nav_step (transition st)"
proof -
  have "\<exists>f n. transition st c = navigated c f n" for c
  proof -
    obtain f where f: "ensure_flow c = navigated c f (nav_generation c)" using ensure_flow_navigated by blast
    then have "enter_flow st (ensure_flow c) = navigated c (enter st f) (nav_generation c + 1)"
      by (simp add: enter_flow_def navigated_def)
    with f show ?thesis unfolding transition_def Let_def by metis
  qed
  then show ?thesis by (simp add: nav_step_def)
qed

lemma set_flow_navigated:
  "call_flow c = Some f \<Longrightarrow> set_flow_state st c = navigated c (f\<lparr>fl_state := st\<rparr>) (nav_generation c + 1)"
  by (simp add: set_flow_state_def navigated_def)

lemma back_contract_navigated:
  "ensure_flow c = navigated c f n \<Longrightarrow> \<exists>f' n'. back_by_contract fb c = navigated c f' n'"
proof -
  assume e: "ensure_flow c = navigated c f n"
  have "set_flow_state st (navigated c f n) = navigated c (f\<lparr>fl_state := st\<rparr>) (Suc n)" for st
    by (simp add: set_flow_state_def navigated_def)
  with e show ?thesis by (auto simp: back_by_contract_def Let_def split: option.split)
qed

lemma back_contract_step: "nav_step (back_by_contract fb)"
  using ensure_flow_navigated back_contract_navigated unfolding nav_step_def by blast

lemma ensure_flow_idem: "ensure_flow (navigated c f n) = navigated c f n"
  by (simp add: ensure_flow_def navigated_def Let_def)

lemma back_flow_step: "nav_step (back_using_flow fb)"
proof -
  have "\<exists>f n. back_using_flow fb c = navigated c f n" for c
  proof -
    obtain f where f: "ensure_flow c = navigated c f (nav_generation c)" using ensure_flow_navigated by blast
    show ?thesis
    proof (cases "go_back f")
      case None
      obtain f' n' where "back_by_contract fb (navigated c f (nav_generation c)) = navigated c f' n'"
        using back_contract_navigated [of "navigated c f (nav_generation c)" f "nav_generation c" fb]
        by (auto simp: ensure_flow_idem)
      with None f show ?thesis by (auto simp: back_using_flow_def navigated_def)
    next
      case (Some f')
      have "back_using_flow fb c = navigated c f' (nav_generation c + 1)"
        using Some f by (simp add: back_using_flow_def navigated_def)
      then show ?thesis by blast
    qed
  qed
  then show ?thesis by (simp add: nav_step_def)
qed

lemma transition_messages [simp]: "messages (transition st c) = messages c"
proof -
  obtain f n where "transition st c = navigated c f n" using transition_step unfolding nav_step_def by blast
  then show ?thesis by (simp add: navigated_def)
qed

section \<open>The invariant of a call\<close>

definition alerts_ready :: "string list \<Rightarrow> (string \<times> bool) list option \<Rightarrow> bool" where
  "alerts_ready fs sel \<longleftrightarrow> (fs \<noteq> [] \<longrightarrow> sel \<noteq> None)"

definition cursor_ok :: "nat \<Rightarrow> mail list \<Rightarrow> bool" where
  "cursor_ok cur ms \<longleftrightarrow> ms = [] \<or> cur < length ms"

definition typing_ok :: "multitap option \<Rightarrow> bool" where
  "typing_ok e \<longleftrightarrow> (case e of None \<Rightarrow> True | Some e \<Rightarrow> editor_inv e)"

text \<open>Who is on the call: whether signed in, as which user, and whether the call has ended.\<close>

definition gate :: "call \<Rightarrow> bool \<times> string \<times> bool" where
  "gate c = (authenticated c, call_user c, closed c)"

definition call_inv :: "bool \<times> string \<times> bool \<Rightarrow> call \<Rightarrow> bool" where
  "call_inv u c \<longleftrightarrow> gate c = u \<and> mirrored (call_flow c) (call_state c) \<and>
     cursor_ok (cursor c) (messages c) \<and> typing_ok (editor c) \<and> alerts_ready (alert_folders c) (alert_selection c)"

lemma inv_navigated: "call_inv u c \<Longrightarrow> call_inv u (navigated c f n)"
  by (simp add: call_inv_def gate_def navigated_def mirrored_def)

lemma inv_nav_step: "nav_step g \<Longrightarrow> call_inv u c \<Longrightarrow> call_inv u (g c)"
  unfolding nav_step_def using inv_navigated by metis

lemmas inv_nav = inv_nav_step [OF transition_step] inv_nav_step [OF back_flow_step]
  inv_nav_step [OF back_contract_step] inv_nav_step [OF ensure_flow_step]

lemma typing_simps [simp]: "typing_ok None" "typing_ok (Some (new_ivr_editor st))"
    "typing_ok (Some ((new_ivr_editor st)\<lparr>mt_text := t\<rparr>))"
  by (simp_all add: typing_ok_def editor_inv_def new_ivr_editor_def new_with_limit_def new_editor_def)


text \<open>Fields the invariant does not look at.\<close>

lemma inv_other_fields [simp]:
  "call_inv u (c\<lparr>pin := x_pin\<rparr>) = call_inv u c"
  "call_inv u (c\<lparr>pin_failures := x_pin_failures\<rparr>) = call_inv u c"
  "call_inv u (c\<lparr>phone := x_phone\<rparr>) = call_inv u c"
  "call_inv u (c\<lparr>established := x_established\<rparr>) = call_inv u c"
  "call_inv u (c\<lparr>accounts := x_accounts\<rparr>) = call_inv u c"
  "call_inv u (c\<lparr>account_page := x_account_page\<rparr>) = call_inv u c"
  "call_inv u (c\<lparr>active_account := x_active_account\<rparr>) = call_inv u c"
  "call_inv u (c\<lparr>contacts := x_contacts\<rparr>) = call_inv u c"
  "call_inv u (c\<lparr>contact_page := x_contact_page\<rparr>) = call_inv u c"
  "call_inv u (c\<lparr>folders := x_folders\<rparr>) = call_inv u c"
  "call_inv u (c\<lparr>folder_page := x_folder_page\<rparr>) = call_inv u c"
  "call_inv u (c\<lparr>folder_prefix := x_folder_prefix\<rparr>) = call_inv u c"
  "call_inv u (c\<lparr>folder_roles := x_folder_roles\<rparr>) = call_inv u c"
  "call_inv u (c\<lparr>folder_labels := x_folder_labels\<rparr>) = call_inv u c"
  "call_inv u (c\<lparr>selected_folder := x_selected_folder\<rparr>) = call_inv u c"
  "call_inv u (c\<lparr>move_folders := x_move_folders\<rparr>) = call_inv u c"
  "call_inv u (c\<lparr>move_labels := x_move_labels\<rparr>) = call_inv u c"
  "call_inv u (c\<lparr>move_page := x_move_page\<rparr>) = call_inv u c"
  "call_inv u (c\<lparr>alert_page := x_alert_page\<rparr>) = call_inv u c"
  "call_inv u (c\<lparr>attachments := x_attachments\<rparr>) = call_inv u c"
  "call_inv u (c\<lparr>attachment_page := x_attachment_page\<rparr>) = call_inv u c"
  "call_inv u (c\<lparr>attachment_cancel := x_attachment_cancel\<rparr>) = call_inv u c"
  "call_inv u (c\<lparr>attachment_sequence := x_attachment_sequence\<rparr>) = call_inv u c"
  "call_inv u (c\<lparr>record_cancel := x_record_cancel\<rparr>) = call_inv u c"
  "call_inv u (c\<lparr>record_stop := x_record_stop\<rparr>) = call_inv u c"
  "call_inv u (c\<lparr>record_generation := x_record_generation\<rparr>) = call_inv u c"
  "call_inv u (c\<lparr>choices := x_choices\<rparr>) = call_inv u c"
  "call_inv u (c\<lparr>draft := x_draft\<rparr>) = call_inv u c"
  "call_inv u (c\<lparr>drafts := x_drafts\<rparr>) = call_inv u c"
  "call_inv u (c\<lparr>draft_page := x_draft_page\<rparr>) = call_inv u c"
  "call_inv u (c\<lparr>recipient_kind := x_recipient_kind\<rparr>) = call_inv u c"
  "call_inv u (c\<lparr>pending_name := x_pending_name\<rparr>) = call_inv u c"
  "call_inv u (c\<lparr>pending_email := x_pending_email\<rparr>) = call_inv u c"
  "call_inv u (c\<lparr>confirm_value := x_confirm_value\<rparr>) = call_inv u c"
  "call_inv u (c\<lparr>confirm_state := x_confirm_state\<rparr>) = call_inv u c"
  "call_inv u (c\<lparr>confirm_kind := x_confirm_kind\<rparr>) = call_inv u c"
  "call_inv u (c\<lparr>editing_draft := x_editing_draft\<rparr>) = call_inv u c"
  "call_inv u (c\<lparr>send_in_flight := x_send_in_flight\<rparr>) = call_inv u c"
  "call_inv u (c\<lparr>pending_attachment_remove := x_pending_attachment_remove\<rparr>) = call_inv u c"
  "call_inv u (c\<lparr>pending_cancel_confirm := x_pending_cancel_confirm\<rparr>) = call_inv u c"
  by (simp_all add: call_inv_def gate_def)

lemma inv_editor: "call_inv u c \<Longrightarrow> typing_ok e \<Longrightarrow> call_inv u (c\<lparr>editor := e\<rparr>)"
  by (simp add: call_inv_def gate_def)

lemma inv_cursor: "call_inv u c \<Longrightarrow> cursor_ok i (messages c) \<Longrightarrow> call_inv u (c\<lparr>cursor := i\<rparr>)"
  by (simp add: call_inv_def gate_def)

lemma inv_messages: "call_inv u c \<Longrightarrow> cursor_ok i ms \<Longrightarrow> call_inv u (c\<lparr>messages := ms, cursor := i\<rparr>)"
  by (simp add: call_inv_def gate_def)

lemma inv_alerts: "call_inv u c \<Longrightarrow> alerts_ready fs sel \<Longrightarrow> call_inv u (c\<lparr>alert_folders := fs, alert_selection := sel\<rparr>)"
  by (simp add: call_inv_def gate_def)

lemma inv_selection: "call_inv u c \<Longrightarrow> call_inv u (c\<lparr>alert_selection := Some m\<rparr>)"
  by (simp add: call_inv_def gate_def alerts_ready_def)

lemma inv_map_messages: "call_inv u c \<Longrightarrow> call_inv u (map_messages mid f c)"
  by (simp add: call_inv_def gate_def map_messages_def cursor_ok_def)

lemma inv_message_path: "call_inv u c \<Longrightarrow> call_inv u (update_session_message_path mid p c)"
  by (simp add: update_session_message_path_def inv_map_messages)

lemma cursor_ok_0 [simp]: "cursor_ok 0 ms"
  by (cases ms) (simp_all add: cursor_ok_def)

lemma alerts_ready_Some [simp]: "alerts_ready fs (Some m)"
  by (simp add: alerts_ready_def)

lemmas inv_intros = inv_nav inv_editor inv_messages inv_alerts inv_map_messages
  inv_message_path

section \<open>Composition\<close>

lemma inv_compose:
  "call_inv u c \<Longrightarrow> call_inv u (open_typing c)"
  "call_inv u c \<Longrightarrow> call_inv u (start_compose w mode c)"
  "call_inv u c \<Longrightarrow> call_inv u (start_compose_to r c)"
  "call_inv u c \<Longrightarrow> call_inv u (clear_confirm c)"
  "call_inv u c \<Longrightarrow> call_inv u (begin_recording st c)"
  "call_inv u c \<Longrightarrow> call_inv u (end_recording c)"
  "call_inv u c \<Longrightarrow> call_inv u (forget_recorder g c)"
  by (auto simp: open_typing_def start_compose_def start_draft_def start_compose_to_def clear_confirm_def
      begin_recording_def end_recording_def forget_recorder_def Let_def split: list.split option.split
      intro!: inv_intros)

lemma inv_accept: "call_inv u c \<Longrightarrow> call_inv u (accept_field st kind v c)"
  by (auto simp: accept_field_def Let_def intro!: inv_intros)

lemmas inv_intros_compose = inv_intros inv_compose inv_accept

lemma safe_confirm_field [safe_rules]: "safe (call_inv u) (confirm_field w st kind v)"
  unfolding confirm_field_def by (intro safe_rules) (auto intro!: inv_intros)

lemma safe_submit_field [safe_rules]: "safe (call_inv u) (submit_field w v)"
  unfolding submit_field_def Let_def by (intro safe_rules)

lemma append_current_total:
  assumes "editor_inv m"
  obtains m' t where "append_current m = Some (m', t)" "pending_key m' = pending_key m"
    "presses m' = presses m" "star_armed m' = star_armed m"
proof (cases "pending_key m = nokey")
  case True
  with that [of m "[]"] show ?thesis by (simp add: append_current_def)
next
  case False
  then obtain t where "current m = Some t" using assms by (auto simp: editor_inv_def current_def)
  with False have "append_current m = Some (m\<lparr>overflowed := True\<rparr>, []) \<or>
      append_current m = Some (m\<lparr>mt_text := mt_text m @ t\<rparr>, t)"
    by (simp add: append_current_def)
  then show ?thesis
    using that [of "m\<lparr>overflowed := True\<rparr>" "[]"] that [of "m\<lparr>mt_text := mt_text m @ t\<rparr>" t] by (elim disjE) simp_all
qed

lemma press_inv:
  assumes "editor_inv m"
  shows "\<exists>m' t d. press key m = Some (m', t, d) \<and> editor_inv m'"
proof -
  have "editor_inv (m\<lparr>star_armed := False\<rparr>)" using assms by (simp add: editor_inv_def)
  then obtain m1 t1 where b: "append_current (m\<lparr>star_armed := False\<rparr>) = Some (m1, t1)"
      "pending_key m1 = pending_key m" "presses m1 = presses m" "star_armed m1 = False"
    by (rule append_current_total) simp
  obtain m2 t2 where a: "append_current m = Some (m2, t2)" by (rule append_current_total [OF assms])
  consider "key = CHR ''*''" | "key = CHR ''#''" | "groups key = None" "key \<noteq> CHR ''*''" "key \<noteq> CHR ''#''"
    | "groups key \<noteq> None" by (cases "groups key") auto
  then show ?thesis
  proof cases
    case 1
    then show ?thesis using a assms by (auto simp: press_def editor_inv_def)
  next
    case 2
    then show ?thesis using b assms by (auto simp: press_def editor_inv_def)
  next
    case 3
    then show ?thesis using assms by (auto simp: press_def)
  next
    case 4
    then have k: "key \<noteq> CHR ''*''" "key \<noteq> CHR ''#''" "key \<noteq> nokey" by auto
    have pd: "editor_inv (fst (press_digit x))" if "groups (pending_key x) \<noteq> None" "\<not> star_armed x" for x
      using that by (simp add: press_digit_def editor_inv_def)
    show ?thesis
    proof (cases "pending_key m = key")
      case True
      have "editor_inv (fst (press_digit (m\<lparr>star_armed := False\<rparr>)))"
        using 4 True by (intro pd) auto
      with 4 k True show ?thesis by (auto simp: press_def Let_def press_digit_def)
    next
      case False
      have "editor_inv (fst (press_digit (m1\<lparr>pending_key := key, presses := 0\<rparr>)))"
           "editor_inv (fst (press_digit (m\<lparr>star_armed := False, pending_key := key, presses := 0\<rparr>)))"
        using 4 b by (auto intro!: pd)
      moreover have "editor_inv (clear_pending m1)" using b by (simp add: editor_inv_def)
      ultimately show ?thesis using 4 k False b
        by (auto simp: press_def Let_def press_digit_def split: if_splits)
    qed
  qed
qed

lemma safe_compose [safe_rules]: "safe (call_inv u) (handle_compose w key)"
proof -
  have *: "\<exists>e' t d. press key (case editor c of None \<Rightarrow> new_ivr_editor (state_of c) | Some e \<Rightarrow> e) = Some (e', t, d)
      \<and> editor_inv e'" if "call_inv u c" for c
    using that typing_simps(2) by (intro press_inv) (auto simp: call_inv_def typing_ok_def split: option.splits)
  have "safe (call_inv u) (steps
         [upd (\<lambda>c. c\<lparr>editor := Some e\<rparr>),
          (if \<not> d then
             (if overflowed e \<and> \<not> overflow_prompted e
              then steps [upd (\<lambda>c. c\<lparr>editor := Some (e\<lparr>overflow_prompted := True\<rparr>)\<rparr>), say too_long]
              else skip)
           else if overflowed e then say too_long
           else submit_field w (trim_space (mt_text e)))])" if "editor_inv e" for e d
  proof -
    have t: "typing_ok (Some e)" "typing_ok (Some (e\<lparr>overflow_prompted := True\<rparr>))"
      using that by (simp_all add: typing_ok_def editor_inv_def)
    show ?thesis by (intro safe_rules; rule inv_editor; (assumption | rule t))
  qed
  note tail = this
  show ?thesis unfolding handle_compose_def
  proof (rule safe.contract_with)
    fix c assume "call_inv u c"
    from * [OF this] obtain e t d
      where e: "press key (case editor c of None \<Rightarrow> new_ivr_editor (state_of c) | Some e \<Rightarrow> e) = Some (e, t, d)"
        "editor_inv e" by blast
    show "safe (call_inv u) (case press key (case editor c of None \<Rightarrow> new_ivr_editor (state_of c) | Some e \<Rightarrow> e) of
       None \<Rightarrow> panic
     | Some (e, _, finished) \<Rightarrow> steps
         [upd (\<lambda>c. c\<lparr>editor := Some e\<rparr>),
          (if \<not> finished then
             (if overflowed e \<and> \<not> overflow_prompted e
              then steps [upd (\<lambda>c. c\<lparr>editor := Some (e\<lparr>overflow_prompted := True\<rparr>)\<rparr>), say too_long]
              else skip)
           else if overflowed e then say too_long
           else submit_field w (trim_space (mt_text e)))])"
      unfolding e(1) option.case prod.case by (rule tail [OF e(2)])
  qed
qed

lemma safe_field_confirmation [safe_rules]:
  "safe (call_inv u) r \<Longrightarrow> safe (call_inv u) (handle_field_confirmation r key)"
  unfolding handle_field_confirmation_def Let_def
  by (intro safe_rules) (auto intro!: inv_intros_compose)

lemma safe_more_options [safe_rules]: "safe (call_inv u) (handle_more_options w key)"
  unfolding handle_more_options_def Let_def by (intro safe_rules) (auto intro!: inv_intros_compose)

lemma safe_recordings [safe_rules]:
  "safe (call_inv u) (start_voice_recording w)" "safe (call_inv u) (start_subject_voice w)"
  "safe (call_inv u) (start_audio_attachment w)"
  unfolding start_voice_recording_def start_subject_voice_def start_audio_attachment_def
  by (intro safe_rules; auto intro!: inv_intros_compose)+

section \<open>Steps of a fixed session\<close>

text \<open>Where a handler indexes by the cursor, the session it started in matters: these rules follow
  one session through a list of steps.\<close>

lemma safe_at_of: "safe I f \<Longrightarrow> I c \<Longrightarrow> safe_at I c f"
  by (simp add: safe_def)

lemma safe_at_steps_Nil: "I c \<Longrightarrow> safe_at I c (steps [])"
  by (simp add: safe_at_of safe.contract_Nil)

lemma safe_at_say: "safe_at I c (steps fs) \<Longrightarrow> safe_at I c (steps (emit e # fs))"
  by (auto simp: safe_at_def steps_def next_step_def emit_def)

lemma safe_at_upd: "safe_at I (g c) (steps fs) \<Longrightarrow> safe_at I c (steps (upd g # fs))"
  by (auto simp: safe_at_def steps_def next_step_def upd_def)

lemma safe_at_with: "safe_at I c (steps (f c # fs)) \<Longrightarrow> safe_at I c (steps (with_call f # fs))"
  by (simp add: safe_at_def steps_def next_step_def with_call_def)

lemma safe_at_last: "safe_at I c f \<Longrightarrow> safe_at I c (steps [f])"
  by (auto simp: safe_at_def steps_def next_step_def skip_def)

lemma safe_at_single: "safe_at I c (steps [f]) \<Longrightarrow> safe_at I c f"
  by (auto simp: safe_at_def steps_def next_step_def skip_def split: option.splits prod.splits)

lemma safe_at_if: "(b \<Longrightarrow> safe_at I c f) \<Longrightarrow> (\<not> b \<Longrightarrow> safe_at I c g) \<Longrightarrow> safe_at I c (if b then f else g)"
  by simp

lemma safe_at_mono: "safe_at J c f \<Longrightarrow> (\<And>c. J c \<Longrightarrow> I c) \<Longrightarrow> safe_at I c f"
  by (auto simp: safe_at_def)

lemmas safe_at_rules = safe_at_say safe_at_upd safe_at_with

section \<open>Browsing\<close>

named_theorems call_safe "contracts of the handlers of a call"

lemmas [call_safe] = safe_compose safe_field_confirmation safe_more_options safe_recordings

lemma safe_browse1 [safe_rules]:
  "safe (call_inv u) (open_accounts w)"
  "safe (call_inv u) (open_messages w un d)"
  "safe (call_inv u) (announce_unread_count w a)"
  "safe (call_inv u) (listen_folder w aid f)"
  "safe (call_inv u) (open_account_folders w a)"
  "safe (call_inv u) prompt_draft_list"
  "safe (call_inv u) prompt_account_alert_folders"
  "safe (call_inv u) (open_contacts w)"
  "safe (call_inv u) (refresh_account w aid)"
  unfolding open_accounts_def open_messages_def announce_unread_count_def listen_folder_def
    open_account_folders_def prompt_draft_list_def prompt_account_alert_folders_def open_contacts_def
    refresh_account_def Let_def
  by (intro safe_rules; auto intro!: inv_intros_compose)+

lemma safe_account_menu [safe_rules]: "safe (call_inv u) (handle_account_menu w key)"
  unfolding handle_account_menu_def Let_def
  by (intro safe_rules safe_at_index; auto intro!: inv_intros_compose)

lemma safe_folder_menu [safe_rules]: "safe (call_inv u) (handle_folder_menu w key)"
  unfolding handle_folder_menu_def Let_def
  by (intro safe_rules safe_at_index; auto intro!: inv_intros_compose)

lemma safe_folder_action [safe_rules]: "safe (call_inv u) (handle_folder_action w key)"
  unfolding handle_folder_action_def Let_def
  by (intro safe_rules; auto intro!: inv_intros_compose)

lemma safe_open_drafts [safe_rules]: "safe (call_inv u) (open_drafts w)"
  unfolding open_drafts_def by (intro safe_rules; auto intro!: inv_intros_compose)

lemma inv_resume_at: "call_inv u c \<Longrightarrow> call_inv u (resume_at d c)"
  by (auto simp: resume_at_def intro!: inv_intros_compose)

lemma safe_resume_draft [safe_rules]: "safe (call_inv u) (resume_draft w r)"
  unfolding resume_draft_def Let_def
  by (intro safe_rules; auto intro!: inv_resume_at inv_intros_compose)

lemma safe_draft_list [safe_rules]: "safe (call_inv u) (handle_draft_list w key)"
  unfolding handle_draft_list_def Let_def
  by (intro safe_rules safe_at_index; auto intro!: inv_intros_compose)

lemma safe_draft_menus [safe_rules]:
  "safe (call_inv u) (handle_draft_menu w key)"
  "safe (call_inv u) (handle_draft_edit key)"
  "safe (call_inv u) (handle_recipient_edit key)"
  "safe (call_inv u) (handle_attachment_edit w key)"
  unfolding handle_draft_menu_def handle_draft_edit_def handle_recipient_edit_def handle_attachment_edit_def Let_def
  by (intro safe_rules; auto intro!: inv_intros_compose)+

lemma inv_replace_account: "call_inv u c \<Longrightarrow> call_inv u (replace_account aid f c)"
  by (simp add: replace_account_def)

lemma safe_alert_folders [safe_rules]: "safe (call_inv u) (open_account_alert_folders w a)"
  unfolding open_account_alert_folders_def Let_def
  by (intro safe_rules; auto intro!: inv_intros_compose)

lemma safe_alert_menu [safe_rules]: "safe (call_inv u) (handle_account_alert_folders w key)"
proof -
  have *: "call_inv u c \<Longrightarrow> alert_folders c \<noteq> [] \<Longrightarrow> alert_selection c \<noteq> None" for c
    by (simp add: call_inv_def gate_def alerts_ready_def)
  show ?thesis unfolding handle_account_alert_folders_def Let_def
    by (intro safe_rules safe_at_index; auto dest: * intro!: inv_replace_account inv_selection inv_intros_compose)
qed

lemma safe_account_settings [safe_rules]:
  "safe (call_inv u) (handle_account_settings w key)"
  "safe (call_inv u) (handle_selected_account_menu w key)"
  unfolding handle_account_settings_def handle_selected_account_menu_def Let_def
  by (intro safe_rules; auto intro!: inv_replace_account inv_intros_compose)+

lemma safe_contact_menus [safe_rules]:
  "safe (call_inv u) (handle_contact_menu w key)"
  "safe (call_inv u) (handle_recipient_menu key)"
  "safe (call_inv u) (handle_field_method w is_subject key)"
  "safe (call_inv u) (handle_settings_menu w key)"
  "safe (call_inv u) (handle_recipient_pick w key)"
  "safe (call_inv u) (handle_contact_pick w key)"
  unfolding handle_contact_menu_def handle_recipient_menu_def handle_field_method_def handle_settings_menu_def
    handle_recipient_pick_def handle_contact_pick_def Let_def
  by (intro safe_rules safe_at_index; auto intro!: inv_intros_compose)+

section \<open>Messages\<close>

definition call_inv_ne :: "bool \<times> string \<times> bool \<Rightarrow> call \<Rightarrow> bool" where
  "call_inv_ne u c \<longleftrightarrow> call_inv u c \<and> messages c \<noteq> []"

lemma inv_cursor_less: "call_inv u c \<Longrightarrow> messages c \<noteq> [] \<Longrightarrow> cursor c < length (messages c)"
  by (simp add: call_inv_def gate_def cursor_ok_def)

lemma inv_set_message: "call_inv u c \<Longrightarrow> call_inv u (c\<lparr>messages := (messages c)[i := m]\<rparr>)"
  by (simp add: call_inv_def gate_def cursor_ok_def)

lemma safe_read_state [safe_rules]:
  assumes "safe (call_inv u) failed" "\<And>path. safe (call_inv u) (ok path)"
  shows "safe (call_inv u) (queue_local_read_state w m read failed ok)"
  unfolding queue_local_read_state_def using assms by (intro safe_rules) (auto intro!: inv_map_messages)

lemma safe_toggle_read [safe_rules]: "safe (call_inv u) (toggle_read w m)" "safe (call_inv u) (mark_heard w m)"
  unfolding toggle_read_def mark_heard_def Let_def by (intro safe_rules; auto intro!: inv_intros)+

lemma safe_read_message [safe_rules]: "safe (call_inv u) (read_message w m)"
  unfolding read_message_def Let_def by (intro safe_rules; auto intro!: inv_intros)

lemma safe_skipped_notice [safe_rules]: "safe I (skipped_notice n)"
  unfolding skipped_notice_def by (intro safe_rules)

lemma safe_advance: "safe (call_inv_ne u) (advance_attempts w n k)"
proof (induction n arbitrary: k)
  case 0
  show ?case by (simp add: safe_skipped_notice)
next
  case (Suc n)
  have "safe_at (call_inv_ne u) c (steps [upd (\<lambda>c. c\<lparr>cursor := i\<rparr>),
      (case x of Some _ \<Rightarrow> skipped_notice k | None \<Rightarrow> advance_attempts w n (k + 1))])"
    if "call_inv_ne u c" "i < length (messages c)" for c i and x :: "(string \<times> string) option"
    using that
    by (intro safe_at_upd safe_at_last safe_at_of [where I = "call_inv_ne u"] safe_rules Suc.IH)
       (auto simp: call_inv_ne_def cursor_ok_def intro!: inv_cursor)
  note step = this
  show ?case unfolding advance_attempts.simps Let_def
  proof (intro safe_with_at safe_at_if)
    fix c assume c: "call_inv_ne u c" "messages c = []"
    then show "safe_at (call_inv_ne u) c panic" by (simp add: call_inv_ne_def)
  next
    fix c assume c: "call_inv_ne u c" "messages c \<noteq> []"
    then have "(cursor c + 1) mod length (messages c) < length (messages c)" by simp
    then show "safe_at (call_inv_ne u) c (steps [upd (\<lambda>d. d\<lparr>cursor := (cursor c + 1) mod length (messages c)\<rparr>),
        (case open_session_message w c (messages c ! ((cursor c + 1) mod length (messages c))) of
           Some _ \<Rightarrow> skipped_notice k | None \<Rightarrow> advance_attempts w n (k + 1))])"
      by (rule step [OF c(1)])
  qed
qed

lemma safe_attachment_menu [safe_rules]: "safe (call_inv u) (attachment_menu w)"
  unfolding attachment_menu_def Let_def by (intro safe_rules; auto intro!: inv_intros)

lemma safe_prompt_move [safe_rules]: "safe I prompt_move_menu"
  unfolding prompt_move_menu_def Let_def by (intro safe_rules)

lemma safe_open_move [safe_rules]: "safe (call_inv u) (open_move_menu w m)"
  unfolding open_move_menu_def Let_def by (intro safe_rules; auto intro!: inv_intros)

lemma safe_local_move [safe_rules]: "safe I (local_move_failed m d)"
  unfolding local_move_failed_def by (intro safe_rules)

lemma safe_set_current:
  assumes "call_inv u c" "cursor c < length (messages c)"
    and "\<And>c. call_inv u c \<Longrightarrow> safe_at (call_inv u) c (steps fs)"
  shows "safe_at (call_inv u) c (steps (set_current f # fs))"
  unfolding set_current_def using assms
  by (auto simp: at_index_def intro!: safe_at_with safe_at_upd assms(3) inv_set_message)

lemma safe_move_done:
  assumes "call_inv u c" "cursor c < length (messages c)"
  shows "safe_at (call_inv u) c (steps [emit e1, emit e2, emit e3, set_current f, upd (transition st), sayf g])"
  by (intro safe_at_say safe_set_current assms safe_at_of [where I = "call_inv u"])
     (intro safe_rules; auto intro!: inv_intros)

lemma safe_at_remote:
  "safe_at I c a \<Longrightarrow> safe_at I c b \<Longrightarrow> safe_at I c d \<Longrightarrow>
   safe_at I c (case x of Remote_ok \<Rightarrow> a | Remote_failed \<Rightarrow> b | Remote_uncertain \<Rightarrow> d)"
  by (cases x) simp_all

lemma safe_at_option:
  "(x = None \<Longrightarrow> safe_at I c f) \<Longrightarrow> (\<And>y. x = Some y \<Longrightarrow> safe_at I c (g y)) \<Longrightarrow>
   safe_at I c (case x of None \<Rightarrow> f | Some y \<Rightarrow> g y)"
  by (cases x) simp_all

lemma safe_move_current [safe_rules]: "safe (call_inv u) (move_current w d)"
  unfolding move_current_def Let_def
proof (rule safe_with_at, goal_cases)
  case (1 c)
  have fin: "safe_at (call_inv u) c
      (steps [emit e1, emit e2, emit e3, set_current f, upd (transition st), sayf g])" if "cursor c < length (messages c)"
      for e1 e2 e3 f g st
    using 1 that by (rule safe_move_done)
  have other: "safe (call_inv u) f \<Longrightarrow> safe_at (call_inv u) c f" for f
    using 1 by (simp add: safe_at_of)
  show ?case
    by (intro safe_at_if safe_at_option safe_at_say safe_at_last safe_at_remote fin;
        (simp; fail)?; (rule other; intro safe_rules)?)
qed

lemma inv_drop_current: "call_inv u c \<Longrightarrow> call_inv u (drop_current mid c)"
  by (auto simp: drop_current_def Let_def call_inv_def gate_def cursor_ok_def)

lemma safe_delete_failed [safe_rules]: "safe I (delete_failed m t)"
  unfolding delete_failed_def by (intro safe_rules)

lemma safe_delete_current [safe_rules]: "safe (call_inv u) (delete_current w)"
  unfolding delete_current_def Let_def
  by (intro safe_rules safe_at_index; auto dest: inv_cursor_less intro!: inv_drop_current inv_intros)

lemma safe_save_contact [safe_rules]: "safe (call_inv u) (save_pending_contact w)"
  unfolding save_pending_contact_def by (intro safe_rules; auto intro!: inv_intros)

lemma safe_submit_draft [safe_rules]: "safe (call_inv u) (submit_draft w)"
  unfolding submit_draft_def Let_def by (intro safe_rules; auto intro!: inv_intros)

lemma safe_send_draft [safe_rules]: "safe (call_inv u) (send_draft w)"
  unfolding send_draft_def by (intro safe_rules; auto intro!: inv_intros)

lemma safe_save_draft [safe_rules]: "safe (call_inv u) (save_draft w did path_of ok)"
  unfolding save_draft_def Let_def by (intro safe_rules; auto intro!: inv_intros)

section \<open>Keys\<close>

lemma safe_repeat [safe_rules]: "safe (call_inv u) (repeat_current_prompt w)"
  unfolding repeat_current_prompt_def Let_def by (intro safe_rules)

lemma inv_stop:
  "call_inv u c \<Longrightarrow> call_inv u (stop_recording c)"
  "call_inv u c \<Longrightarrow> call_inv u (stop_attachment c)"
  by (simp_all add: stop_recording_def stop_attachment_def)

lemma inv_leave_field: "call_inv u c \<Longrightarrow> call_inv u (leave_field c)"
  by (auto simp: leave_field_def Let_def intro!: inv_intros)

lemma safe_star [safe_rules]: "safe (call_inv u) (handle_star w)"
  unfolding handle_star_def Let_def by (intro safe_rules; auto intro!: inv_stop inv_intros)

lemma inv_if: "(b \<Longrightarrow> call_inv u c) \<Longrightarrow> (\<not> b \<Longrightarrow> call_inv u d) \<Longrightarrow> call_inv u (if b then c else d)"
  by simp

lemma inv_option:
  "(x = None \<Longrightarrow> call_inv u c) \<Longrightarrow> (\<And>y. x = Some y \<Longrightarrow> call_inv u (d y)) \<Longrightarrow>
   call_inv u (case x of None \<Rightarrow> c | Some y \<Rightarrow> d y)"
  by (cases x) simp_all

lemma inv_pound_back: "call_inv u c \<Longrightarrow> call_inv u (pound_back c)"
  unfolding pound_back_def Let_def
  by (intro inv_option inv_if inv_stop inv_leave_field inv_intros; (assumption | simp))

lemma safe_pound [safe_rules]: "safe (call_inv u) (handle_pound w)"
  unfolding handle_pound_def by (intro safe_rules; auto intro!: inv_pound_back inv_intros)

lemma list_move_less: "cur < n \<Longrightarrow> fst (list_move key cur n) < n"
  by (auto simp: list_move_def)

lemma inv_list_enter: "call_inv u c \<Longrightarrow> call_inv u (list_enter w key c)"
  by (auto simp: list_enter_def intro!: inv_intros_compose)

lemma safe_menu_list [safe_rules]: "safe (call_inv u) (menu_list w key)"
  unfolding menu_list_def
proof (intro safe_with_at safe_at_if, goal_cases)
  case (1 c)
  then show ?case by (intro safe_at_of [OF safe_emit])
next
  case (2 c)
  from inv_cursor_less [OF 2] have cur: "cursor c < length (messages c)" .
  obtain i t where m: "list_move key (cursor c) (length (messages c)) = (i, t)" by fastforce
  with list_move_less [OF cur, of key] have i: "i < length (messages c)" by simp
  with 2 have "call_inv u (list_enter w key (c\<lparr>cursor := i\<rparr>))"
    by (intro inv_list_enter inv_cursor) (simp_all add: cursor_ok_def)
  then show ?case unfolding at_index_def m Let_def prod.case if_P [OF cur] if_P [OF i]
    by (intro safe_at_upd safe_at_of [where I = "call_inv u"]) (intro safe_rules)
qed

lemma safe_next_message: "safe (call_inv_ne u) (steps [advance_to_playable w,
    with_call (\<lambda>c. at_index (messages c) (cursor c) (\<lambda>m. steps
      [upd (transition st), say (f m (cursor c) (length (messages c)))]))])"
  unfolding advance_to_playable_def
proof (intro safe_rules safe_advance safe_at_index)
  show "cursor c < length (messages c)" if "call_inv_ne u c" for c
    using that inv_cursor_less unfolding call_inv_ne_def by blast
  show "call_inv_ne u (transition st c)" if "call_inv_ne u c" for c
    using that unfolding call_inv_ne_def by (simp add: inv_nav)
qed

lemma safe_menu_read [safe_rules]: "safe (call_inv u) (menu_read w key)"
  unfolding menu_read_def
proof (intro safe_with_at safe_at_if, goal_cases)
  case (1 c)
  then show ?case by (intro safe_at_of [OF safe_emit])
next
  case (2 c)
  then have cur: "cursor c < length (messages c)" by (rule inv_cursor_less)
  then have same: "(if cursor c \<ge> length (messages c) then c\<lparr>cursor := 0\<rparr> else c) = c" by simp
  have next_message: "safe_at (call_inv u) c (steps [advance_to_playable w,
      with_call (\<lambda>c. at_index (messages c) (cursor c) (\<lambda>m. steps
        [upd (transition St_list), say (list_prompt w m (cursor c) (length (messages c)))]))])"
    using 2 by (intro safe_at_mono [OF safe_at_of [OF safe_next_message]]) (auto simp: call_inv_ne_def)
  have other: "safe (call_inv u) f \<Longrightarrow> safe_at (call_inv u) c f" for f
    using 2 by (simp add: safe_at_of)
  show ?case
    apply (intro safe_at_upd, unfold same, intro safe_at_with safe_at_last)
    unfolding at_index_less [OF cur]
    by (intro safe_at_if next_message; rule other; intro safe_rules; auto intro!: inv_intros_compose)
qed

lemma safe_menus [safe_rules]:
  "safe (call_inv u) (menu_main w key)"
  "safe (call_inv u) (menu_attachments w key)"
  "safe (call_inv u) (handle_review_cancel w)"
  "safe (call_inv u) (menu_forward w key)"
  "safe (call_inv u) (menu_recording key)"
  "safe (call_inv u) (menu_contact_confirm w key)"
  unfolding menu_main_def menu_attachments_def handle_review_cancel_def menu_forward_def menu_recording_def
    menu_contact_confirm_def
  by (intro safe_rules; auto intro!: inv_intros_compose)+

lemma safe_menu_review [safe_rules]:
  "(\<And>c. call_inv u c \<Longrightarrow> safe (call_inv u) (save c)) \<Longrightarrow> safe (call_inv u) (menu_review w save key)"
  unfolding menu_review_def by (intro safe_rules; auto intro!: inv_intros_compose)

lemma safe_menu_index [safe_rules]:
  "safe (call_inv u) (menu_move w key)" "safe (call_inv u) (menu_confirm_delete w key)"
  unfolding menu_move_def menu_confirm_delete_def Let_def
  by (intro safe_rules safe_at_index; auto simp: cursor_ok_def dest: inv_cursor_less intro!: inv_intros inv_cursor)+

lemma safe_menu_of: 
  assumes "\<And>c. call_inv u c \<Longrightarrow> safe (call_inv u) (save c)"
  shows "list_all (\<lambda>(_, f). safe (call_inv u) f) (menu_of w save key)"
  unfolding menu_of_def list.pred_inject prod.case
  by (intro conjI safe_rules assms; auto intro!: inv_stop inv_intros)

lemma safe_handle_menu:
  assumes "\<And>c. call_inv u c \<Longrightarrow> safe (call_inv u) (save c)"
  shows "safe (call_inv u) (handle_menu w save key)"
proof -
  have f: "safe (call_inv u) f" if "map_of (menu_of w save key) st = Some f" for f st
    using map_of_list_all [OF that safe_menu_of] assms by blast
  have to_page: "safe (call_inv u) (case help_destination st [key] of
      None \<Rightarrow> panic
    | Some (Some n) \<Rightarrow> steps [upd (transition n), say (menu_prompt n)]
    | Some None \<Rightarrow> (case map_of (menu_of w save key) st of Some f \<Rightarrow> f | None \<Rightarrow> skip))" for st
    by (insert help_destination_total [of st "[key]"], intro safe_rules; (rule f; assumption)?; auto intro!: inv_intros)
  show ?thesis unfolding handle_menu_def Let_def
    by (intro safe_rules to_page; auto intro!: inv_intros)
qed

section \<open>Sign-in\<close>

definition session_ok :: "call \<Rightarrow> bool" where
  "session_ok c \<longleftrightarrow> call_inv (gate c) c"

lemma session_ok_of: "safe (call_inv u) f \<Longrightarrow> call_inv u c \<Longrightarrow> safe_at session_ok c f"
  by (rule safe_at_mono [where J = "call_inv u"]) (auto simp: safe_at_of session_ok_def call_inv_def gate_def)

lemma safe_session: "(\<And>u. safe (call_inv u) f) \<Longrightarrow> safe session_ok f"
  unfolding safe_def [of session_ok] by (metis session_ok_def session_ok_of)

lemma session_navigated: "session_ok c \<Longrightarrow> session_ok (navigated c f n)"
  by (simp add: session_ok_def call_inv_def navigated_def mirrored_def)

lemma session_transition: "session_ok c \<Longrightarrow> session_ok (transition st c)"
  using transition_step session_navigated unfolding nav_step_def by metis

lemma session_fields [simp]:
  "session_ok (c\<lparr>pin := x_pin\<rparr>) = session_ok c"
  "session_ok (c\<lparr>pin_failures := n\<rparr>) = session_ok c"
  "session_ok (c\<lparr>choices := rs\<rparr>) = session_ok c"
  "session_ok (c\<lparr>authenticated := b\<rparr>) = session_ok c"
  "session_ok (c\<lparr>call_user := u\<rparr>) = session_ok c"
  "session_ok (c\<lparr>closed := b\<rparr>) = session_ok c"
  by (simp_all add: session_ok_def call_inv_def)

lemma safe_account_choice [safe_rules]: "safe session_ok speak_account_choice"
  unfolding speak_account_choice_def by (intro safe_rules; auto intro!: session_transition)

lemma safe_choose_account: "safe session_ok (choose_caller_account d)"
  unfolding choose_caller_account_def
  by (intro safe_rules safe_at_index; auto intro!: session_transition)

lemma safe_check_pin: "safe session_ok (check_pin w)"
  unfolding check_pin_def by (intro safe_rules; auto intro!: session_transition)

lemma safe_dtmf: "(\<And>u c. safe (call_inv u) (save c)) \<Longrightarrow> safe session_ok (handle_dtmf w save key)"
  unfolding handle_dtmf_def
  by (intro safe_rules safe_check_pin safe_choose_account safe_session safe_handle_menu; auto)

section \<open>Tasks that end\<close>

lemma safe_tasks [safe_rules]:
  "safe (call_inv u) (recording_done g res)"
  "safe (call_inv u) (subject_done w g res)"
  "safe (call_inv u) (audio_done name g data)"
  "safe (call_inv u) (play_attachment w i)"
  "safe (call_inv u) (attachment_done n failed)"
  "safe (call_inv u) (refresh_done w aid ok)"
  unfolding recording_done_def subject_done_def audio_done_def play_attachment_def attachment_done_def
    refresh_done_def Let_def
  by (intro safe_rules; auto split: sum.split bool.split option.split intro!: safe_rules inv_intros_compose)+

end
