(* ===== verification/Call_Effects.thy ===== *)
theory Call_Effects
  imports Call_Contract
begin

text \<open>
  Which keys can change mail: an event that sends, moves or deletes mail comes only from the
  confirmation key of its own menu.  Every other handler is \<open>quiet\<close>.
\<close>

section \<open>Events that change mail\<close>

fun sends_mail :: "event \<Rightarrow> bool" where
  "sends_mail (Submit _ _) = True"
| "sends_mail (Journal_submission _) = True"
| "sends_mail (Settle_submission _ _) = True"
| "sends_mail (Delete_draft _) = True"
| "sends_mail _ = False"

fun moves_mail :: "event \<Rightarrow> bool" where
  "moves_mail (Move_remote _ _) = True"
| "moves_mail (Rollback_remote _ _ _) = True"
| "moves_mail (Rename _ _) = True"
| "moves_mail (Move_index _ _ _) = True"
| "moves_mail (Delete_index _) = True"
| "moves_mail (Journal _ _ _) = True"
| "moves_mail _ = False"

definition mild :: "event \<Rightarrow> bool" where
  "mild e \<longleftrightarrow> \<not> sends_mail e \<and> \<not> moves_mail e"

lemma mild_simps [simp]:
  "mild (Say t)" "mild (Say_menu t)" "mild (Speak_chunks ts)" "mild (Hangup k t)" "mild (Lock_pin t)"
  "mild (Unlock_pin t)" "mild (Set_alerts b)" "mild (Set_account_alert t b)" "mild (Set_alert_folders t ts)"
  "mild (Add_contact t t')" "mild (Mark_read k' b)" "mild (Save_draft r)" "mild (Append_remote t)" "mild (Refresh t)"
  "mild (Record_body n)" "mild (Record_subject n)" "mild (Record_audio n)" "mild (Play_attachment n)"
  by (simp_all add: mild_def)

section \<open>Handlers that change no mail\<close>

lemma mild_compose [quiet_rules]:
  "quiet mild (handle_compose w key)"
  "quiet mild (start_voice_recording w)"
  "quiet mild (start_subject_voice w)"
  "quiet mild (start_audio_attachment w)"
  "quiet mild (handle_more_options w key)"
  unfolding handle_compose_def submit_field_def confirm_field_def start_voice_recording_def
    start_subject_voice_def start_audio_attachment_def handle_more_options_def Let_def
  by (intro quiet_rules; simp)+

lemma mild_confirmation [quiet_rules]: "quiet mild r \<Longrightarrow> quiet mild (handle_field_confirmation r key)"
  unfolding handle_field_confirmation_def Let_def by (intro quiet_rules) simp_all

lemma mild_browse [quiet_rules]:
  "quiet mild (open_accounts w)"
  "quiet mild (open_messages w un d)"
  "quiet mild (announce_unread_count w a)"
  "quiet mild (listen_folder w aid f)"
  "quiet mild (open_account_folders w a)"
  "quiet mild prompt_draft_list"
  "quiet mild prompt_account_alert_folders"
  "quiet mild (open_contacts w)"
  "quiet mild (refresh_account w aid)"
  unfolding open_accounts_def open_messages_def announce_unread_count_def listen_folder_def
    open_account_folders_def prompt_draft_list_def prompt_account_alert_folders_def open_contacts_def
    refresh_account_def Let_def
  by (intro quiet_rules; simp)+

lemma mild_drafts [quiet_rules]:
  "quiet mild (open_drafts w)"
  "quiet mild (resume_draft w r)"
  "quiet mild (open_account_alert_folders w a)"
  "quiet mild (handle_account_alert_folders w key)"
  unfolding open_drafts_def resume_draft_def open_account_alert_folders_def handle_account_alert_folders_def Let_def
  by (intro quiet_rules; simp)+

lemma mild_menus [quiet_rules]:
  "quiet mild (handle_account_menu w key)"
  "quiet mild (handle_folder_menu w key)"
  "quiet mild (handle_folder_action w key)"
  "quiet mild (handle_draft_list w key)"
  "quiet mild (handle_draft_menu w key)"
  "quiet mild (handle_draft_edit key)"
  "quiet mild (handle_recipient_edit key)"
  "quiet mild (handle_attachment_edit w key)"
  "quiet mild (handle_account_settings w key)"
  "quiet mild (handle_selected_account_menu w key)"
  "quiet mild (handle_contact_menu w key)"
  "quiet mild (handle_recipient_menu key)"
  "quiet mild (handle_field_method w is_subject key)"
  "quiet mild (handle_settings_menu w key)"
  "quiet mild (handle_recipient_pick w key)"
  "quiet mild (handle_contact_pick w key)"
  unfolding handle_account_menu_def handle_folder_menu_def handle_folder_action_def handle_draft_list_def
    handle_draft_menu_def handle_draft_edit_def handle_recipient_edit_def handle_attachment_edit_def
    handle_account_settings_def handle_selected_account_menu_def handle_contact_menu_def
    handle_recipient_menu_def handle_field_method_def handle_settings_menu_def handle_recipient_pick_def
    handle_contact_pick_def Let_def
  by (intro quiet_rules; simp)+

lemma mild_read_state [quiet_rules]:
  "quiet mild failed \<Longrightarrow> (\<And>p. quiet mild (ok p)) \<Longrightarrow> quiet mild (queue_local_read_state w m read failed ok)"
  unfolding queue_local_read_state_def by (intro quiet_rules) simp_all

lemma mild_skipped [quiet_rules]: "quiet mild (skipped_notice n)"
  unfolding skipped_notice_def by (intro quiet_rules) simp_all

lemma mild_advance [quiet_rules]: "quiet mild (advance_attempts w n k)"
  by (induction n arbitrary: k) (auto simp: Let_def intro!: quiet_rules)

lemma mild_reading [quiet_rules]:
  "quiet mild (toggle_read w m)"
  "quiet mild (mark_heard w m)"
  "quiet mild (attachment_menu w)"
  "quiet mild prompt_move_menu"
  "quiet mild (open_move_menu w m)"
  unfolding toggle_read_def mark_heard_def attachment_menu_def prompt_move_menu_def open_move_menu_def Let_def
  by (intro quiet_rules; simp)+

lemma mild_read_message [quiet_rules]: "quiet mild (read_message w m)"
  unfolding read_message_def Let_def by (intro quiet_rules; simp)

lemma mild_keys [quiet_rules]:
  "quiet mild (repeat_current_prompt w)"
  "quiet mild (handle_star w)"
  "quiet mild (handle_pound w)"
  "quiet mild (menu_main w key)"
  "quiet mild (menu_list w key)"
  "quiet mild (menu_read w key)"
  "quiet mild (menu_attachments w key)"
  "quiet mild (handle_review_cancel w)"
  "quiet mild (menu_forward w key)"
  "quiet mild (menu_recording key)"
  "quiet mild (menu_contact_confirm w key)"
  "quiet mild (save_draft w did paths ok)"
  unfolding repeat_current_prompt_def handle_star_def handle_pound_def menu_main_def menu_list_def
    menu_read_def menu_attachments_def handle_review_cancel_def menu_forward_def menu_recording_def
    menu_contact_confirm_def save_pending_contact_def save_draft_def advance_to_playable_def Let_def
  by (intro quiet_rules; simp)+

section \<open>What each menu may do\<close>

definition allowed :: "state \<Rightarrow> char \<Rightarrow> event \<Rightarrow> bool" where
  "allowed st key e \<longleftrightarrow> mild e \<or>
     (sends_mail e \<and> st = St_review \<and> key = CHR ''1'') \<or>
     (moves_mail e \<and> (st = St_confirm_delete \<and> key = CHR ''1'' \<or>
        st = St_move_menu \<and> key_between CHR ''1'' CHR ''9'' key))"

lemma allowed_mild: "mild e \<Longrightarrow> allowed st key e"
  by (simp add: allowed_def)

lemma send_draft_effects: "quiet (allowed St_review CHR ''1'') (send_draft w)"
  unfolding send_draft_def submit_draft_def Let_def by (intro quiet_rules; simp add: allowed_def)

lemma delete_effects: "quiet (allowed St_confirm_delete CHR ''1'') (delete_current w)"
  unfolding delete_current_def delete_failed_def Let_def by (intro quiet_rules; simp add: allowed_def)

lemma move_effects: "key_between CHR ''1'' CHR ''9'' key \<Longrightarrow> quiet (allowed St_move_menu key) (move_current w d)"
  unfolding move_current_def local_move_failed_def set_current_def Let_def
  by (intro quiet_rules; simp add: allowed_def)

lemma menu_review_effects:
  "quiet (allowed St_review key) (menu_review w (\<lambda>_. save_draft w did paths ok) key)"
proof (cases "key = CHR ''1''")
  case True
  then show ?thesis unfolding menu_review_def by (auto intro!: quiet_rules send_draft_effects)
next
  case False
  then have "quiet mild (menu_review w (\<lambda>_. save_draft w did paths ok) key)"
    unfolding menu_review_def by (intro quiet_rules; simp)
  then show ?thesis by (rule quiet_mono) (rule allowed_mild)
qed

lemma menu_delete_effects: "quiet (allowed St_confirm_delete key) (menu_confirm_delete w key)"
proof (cases "key = CHR ''1''")
  case True
  then show ?thesis unfolding menu_confirm_delete_def by (simp add: delete_effects)
next
  case False
  then have "quiet mild (menu_confirm_delete w key)"
    unfolding menu_confirm_delete_def by (intro quiet_rules; simp)
  then show ?thesis by (rule quiet_mono) (rule allowed_mild)
qed

lemma menu_move_effects: "quiet (allowed St_move_menu key) (menu_move w key)"
  unfolding menu_move_def Let_def
  by (intro quiet_rules move_effects quiet_mono [where P = mild]; (rule mild_reading)?; simp add: allowed_mild)

lemma menu_of_effects:
  "list_all (\<lambda>(st, f). quiet (allowed st key) f) (menu_of w (\<lambda>_. save_draft w did paths ok) key)"
  unfolding menu_of_def list.pred_inject prod.case
  by (intro conjI list.pred_inject(1) menu_review_effects menu_delete_effects menu_move_effects;
      (rule quiet_mono [where P = mild], intro quiet_rules; simp add: allowed_mild))

lemma state_of_ensure [simp]: "state_of (ensure_flow c) = state_of c"
  by (auto simp: state_of_def ensure_flow_def Let_def split: option.split)

lemma quiet_entered:
  assumes "quiet P (F (g c))" "steps [upd g, with_call F] c = Some (c', es)"
  shows "list_all P es"
  using assms
  by (auto simp: steps_def next_step_def upd_def with_call_def skip_def quiet_def split: option.splits)

lemma handle_menu_effects:
  assumes "handle_menu w (\<lambda>_. save_draft w did paths ok) key c = Some (c', es)"
  shows "list_all (allowed (state_of c) key) es"
proof (cases "closed c \<or> \<not> authenticated c")
  case True
  with assms show ?thesis by (simp add: handle_menu_def with_call_def skip_def)
next
  case False
  let ?st = "state_of c"
  have m: "quiet (allowed ?st key) f" if "quiet mild f" for f
    using that allowed_mild by (rule quiet_mono)
  have table: "quiet (allowed ?st key) f" if "map_of (menu_of w (\<lambda>_. save_draft w did paths ok) key) ?st = Some f" for f
    using map_of_list_all [OF that menu_of_effects] by simp
  show ?thesis
    using False assms unfolding handle_menu_def Let_def with_call_def [of _ c]
    apply (simp only: if_False)
    apply (erule quiet_entered [rotated])
    apply (unfold state_of_ensure)
    apply (intro quiet.contract_if quiet.contract_option)
    by ((rule table, assumption) | (rule m, intro quiet_rules; simp))+
qed

end
