(* ===== verification/Call_Demo.thy ===== *)
theory Call_Demo
  imports Call_Menu
begin

text \<open>
  The zero session of Go, and a concrete world and call for the witnesses: one account, two
  messages, an ASCII Unicode table and a mail server that accepts everything.
\<close>

definition blank_call :: "string \<Rightarrow> string \<Rightarrow> string \<Rightarrow> state \<Rightarrow> call" where
  "blank_call cid uid number st = \<lparr>
     call_id = cid, call_user = uid, phone = number, pin = [], pin_failures = 0, authenticated = False,
     call_state = st, call_flow = None, nav_generation = 0, closed = False, established = False,
     messages = [], cursor = 0, accounts = [], account_page = 0, active_account = [],
     contacts = [], contact_page = 0, folders = [], folder_page = 0, folder_prefix = [],
     folder_roles = [], folder_labels = [], selected_folder = [], move_folders = [], move_labels = [],
     move_page = 0, alert_folders = [], alert_selection = None, alert_page = 0, attachments = [],
     attachment_page = 0, attachment_cancel = False, attachment_sequence = 0, record_cancel = False,
     record_stop = False, record_generation = 0, choices = [], verification_code = [], editor = None,
     draft = empty_draft, drafts = [], draft_page = 0, recipient_kind = [], pending_name = [],
     pending_email = [], confirm_value = [], confirm_state = St_none, confirm_kind = [],
     editing_draft = False, send_in_flight = False, pending_attachment_remove = False,
     pending_cancel_confirm = False, greet_attempts = 0, alert_text = []\<rparr>"

definition demo_unicode :: unicode where
  "demo_unicode = \<lparr>u_letter = (\<lambda>r. 65 \<le> r \<and> r \<le> 90 \<or> 97 \<le> r \<and> r \<le> 122), u_latin = (\<lambda>_. True),
     u_script = (\<lambda>_ _. False), u_upper = id, u_lower = id, u_fold = id\<rparr>"

definition demo_account :: account where
  "demo_account = \<lparr>acc_id = ''a'', canonical_name = ''Work'', acc_email = ''me@x.org'', sender_name = [],
     smtp_password = ''s'', folder_map = None, acc_alert_folders = None, call_alert_enabled = False\<rparr>"

definition demo_mail :: "int \<Rightarrow> mail" where
  "demo_mail i = \<lparr>mail_id = i, mail_account = ''a'', mail_folder = ''Inbox'', mail_path = ''/m/a/Inbox/cur/1:2,'',
     mail_sender = ''bob@x.org'', mail_recipients = ''me@x.org'', mail_cc = [], mail_subject = ''Hi'',
     mail_date = ''today'', mail_read = False\<rparr>"

definition demo_world :: world where
  "demo_world = \<lparr>uni = demo_unicode, w_accounts = (\<lambda>_. Some [demo_account]),
     w_mail = (\<lambda>_ _. Some [demo_mail 1, demo_mail 2]), w_account_mail = (\<lambda>_ _ _. Some [demo_mail 1]),
     w_unread = (\<lambda>_ _. Some 1), w_drafts = (\<lambda>_ _. Some []), w_contacts = (\<lambda>_. Some []),
     w_alerts_available = Some True, w_alerts_enabled = (\<lambda>_. Some True), w_write_ok = True,
     w_mail_folders = (\<lambda>_ _. Some [''Inbox'']), w_mailboxes = (\<lambda>_ _. Some []), w_inbox = (\<lambda>_. Some ''Inbox''),
     w_folder_roles = (\<lambda>_ _. Some []), w_folder_role = (\<lambda>_ r. if r = ''trash'' then Role_found ''Trash'' ''Trash'' else No_role),
     w_group_destination = (\<lambda>_ _ _. None),
     w_user_by_id = (\<lambda>u. Some \<lparr>u_id = u, u_username = ''me'', u_pin_hash = ''1234'', u_enabled = True\<rparr>),
     w_check = (\<lambda>h p. h = p), w_parse_address = Some, w_parse_list = (\<lambda>_. Some []), w_read_file = (\<lambda>_. Some ''x''),
     w_parse_mail = (\<lambda>_. None), w_candidates = (\<lambda>_ _. None), w_queue_read = (\<lambda>m _. Some (mail_path m)),
     w_interrupted = (\<lambda>_. False), w_recorder = True, w_rx_ready = (\<lambda>_. True), w_speech_seconds = 60,
     w_audio_seconds = 60, w_media = True, w_refresher = True, w_move_remote = (\<lambda>_ _. Remote_ok),
     w_file_ok = (\<lambda>_. True), w_rename_ok = (\<lambda>_ _. True), w_index_ok = True, w_open_secret = Some,
     w_secrets = True, w_message_id = (\<lambda>e. Some (''<1@'' @ e @ ''>'')), w_build_ok = True, w_journal_ok = True,
     w_submit = Submit_accepted, w_data_root = []\<rparr>"

text \<open>A signed-in call in a given state, with two messages and a short draft.\<close>

definition demo_call :: "state \<Rightarrow> call" where
  "demo_call st = (blank_call ''c1'' ''u1'' ''15551234567'' st)\<lparr>authenticated := True,
     accounts := [demo_account], active_account := ''a'', messages := [demo_mail 1, demo_mail 2],
     draft := empty_draft\<lparr>draft_to := ''bob@x.org'', draft_subject := ''Hi'', draft_body := ''Hello''\<rparr>\<rparr>"

text \<open>Evaluation of a handler on a concrete call, the texts left as they are.\<close>

lemmas eval_steps = with_call_def upd_def emit_def skip_def next_step_def steps_def sayf_def at_index_def

lemmas eval_navigation = state_of_def ensure_flow_def Let_def transition_def enter_flow_def enter_def new_session_def
  default_history_limit_def

lemmas eval_demo = demo_call_def blank_call_def demo_world_def demo_account_def demo_mail_def

lemma demo_keys [simp]:
  "accepts St_review ''1''" "accepts St_review ''3''" "accepts St_confirm_delete ''1''" "accepts St_list ''2''"
  by (simp_all add: accepts_def specs_def spec_table_def help_pages_def mk_spec_def fixed_def)

lemma demo_no_help [simp]:
  "help_destination St_review k = Some None" "help_destination St_confirm_delete k = Some None"
  "help_destination St_list k = Some None"
  by (simp_all add: help_destination_def help_pages_def)

end
