(* ===== verification/Call_Run.thy ===== *)
theory Call_Run
  imports Call_Safety Call_Effects Call_Demo
begin

text \<open>
  A call as a machine: keys and the ends of the tasks they start, in any order and each in a world
  of its own.  The properties of the sign-in, of the confirmation menus and of sending.
\<close>

section \<open>Inputs\<close>

datatype input =
    Key world string "string \<Rightarrow> nat \<Rightarrow> string" bool char
  | Body_done nat "bool + string"
  | Subject_done world nat "bool + string"
  | Audio_done string nat "bool + string"
  | Playback world nat
  | Playback_done nat bool
  | Refresh_done world string bool

fun call_step :: "input \<Rightarrow> step" where
  "call_step (Key w new_id path_of appended key) = handle_dtmf w (\<lambda>_. save_draft w new_id path_of appended) key"
| "call_step (Body_done g res) = recording_done g res"
| "call_step (Subject_done w g res) = subject_done w g res"
| "call_step (Audio_done name g res) = audio_done name g res"
| "call_step (Playback w i) = play_attachment w i"
| "call_step (Playback_done n failed) = attachment_done n failed"
| "call_step (Refresh_done w aid ok) = refresh_done w aid ok"

definition call_next :: "input \<Rightarrow> call \<Rightarrow> call option" where
  "call_next i c = map_option fst (call_step i c)"

lemma safe_call_step: "safe session_ok (call_step i)"
proof (cases i)
  case (Key w did paths ok k)
  show ?thesis unfolding Key call_step.simps by (intro safe_dtmf safe_save_draft)
qed (simp_all only: call_step.simps, (intro safe_session safe_tasks)+)

interpretation call_machine: safe_machine call_next session_ok
proof unfold_locales
  show "\<exists>s'. call_next e s = Some s' \<and> session_ok s'" if "session_ok s" for e s
    using safe_call_step [of e] that unfolding safe_def safe_at_def call_next_def by fastforce
qed

lemma session_ok_blank: "session_ok (blank_call cid u p st)"
  by (simp add: session_ok_def call_inv_def gate_def blank_call_def mirrored_def typing_ok_def alerts_ready_def)

text \<open>C27. A call never panics: from a new session in any state, whatever keys are pressed and
  whatever tasks end in between, and however the database, the mail server, the files and the speech
  engines answer each of them, every handler returns; the cursor then points into the message list
  (or the list is empty) and the navigation state is the mirror of the flow's state.\<close>

theorem call_never_panics:
  "\<exists>c. run call_next inputs (blank_call cid u number st) = Some c \<and>
     (messages c = [] \<or> cursor c < length (messages c)) \<and>
     (case call_flow c of None \<Rightarrow> True | Some f \<Rightarrow> fl_state f = call_state c)"
proof -
  obtain c where "run call_next inputs (blank_call cid u number st) = Some c" "session_ok c"
    using call_machine.run_safe [OF session_ok_blank] by blast
  then show ?thesis by (auto simp: session_ok_def call_inv_def cursor_ok_def mirrored_def)
qed

section \<open>Sign-in\<close>

definition sign_in_event :: "event \<Rightarrow> bool" where
  "sign_in_event e \<longleftrightarrow> (case e of Say _ \<Rightarrow> True | Hangup _ _ \<Rightarrow> True | Lock_pin _ \<Rightarrow> True | Unlock_pin _ \<Rightarrow> True | _ \<Rightarrow> False)"

lemma sign_in_simps [simp]:
  "sign_in_event (Say t)" "sign_in_event (Hangup n t)" "sign_in_event (Lock_pin t)" "sign_in_event (Unlock_pin t)"
  by (simp_all add: sign_in_event_def)

lemma sign_in_quiet:
  "quiet sign_in_event (check_pin w)" "quiet sign_in_event (choose_caller_account d)"
  unfolding check_pin_def choose_caller_account_def speak_account_choice_def by (intro quiet_rules; simp)+

text \<open>Signing in, on one key.\<close>

lemma transition_gate [simp]: "gate (transition st c) = gate c"
proof -
  obtain f n where "transition st c = navigated c f n" using transition_step unfolding nav_step_def by blast
  then show ?thesis by (simp add: navigated_def gate_def)
qed

lemma transition_auth [simp]: "authenticated (transition st c) = authenticated c"
    "call_user (transition st c) = call_user c" "closed (transition st c) = closed c"
  using transition_gate [of st c] by (simp_all add: gate_def)

lemma check_pin_auth:
  assumes "check_pin w c = Some (c', es)" "\<not> authenticated c" "authenticated c'"
  shows "\<exists>u. w_user_by_id w (call_user c) = Some u \<and> w_check w (u_pin_hash u) (pin c) \<and> call_user c' = call_user c"
  using assms
  by (auto simp: check_pin_def with_call_def steps_def next_step_def upd_def emit_def skip_def sayf_def
      split: option.splits if_splits)

lemma choose_auth:
  assumes "choose_caller_account d c = Some (c', es)"
  shows "authenticated c' = authenticated c"
  using assms
  by (auto simp: choose_caller_account_def speak_account_choice_def with_call_def steps_def next_step_def upd_def
      emit_def skip_def at_index_def panic_def split: option.splits if_splits)

text \<open>C5. Nothing but the sign-in happens before it: a key on a call that is not signed in causes
  spoken prompts, hang-ups and changes of the PIN lockout only; and it signs the call in only when it is the
  pound key and the stored hash of the call's own user accepts the digits entered.\<close>

theorem sign_in_needs_pin:
  assumes "\<not> authenticated c" "handle_dtmf w save key c = Some (c', es)"
  shows "list_all sign_in_event es \<and>
    (authenticated c' \<longrightarrow> key = CHR ''#'' \<and> call_user c' = call_user c \<and>
       (\<exists>u. w_user_by_id w (call_user c) = Some u \<and> w_check w (u_pin_hash u) (pin c)))"
proof -
  have q: "quiet sign_in_event f \<Longrightarrow> f c = Some (c', es) \<Longrightarrow> list_all sign_in_event es" for f
    by (simp add: quiet_def)
  show ?thesis
  proof (cases "closed c \<or> call_state c = St_verification \<or> key = CHR ''*'' \<and> call_state c \<noteq> St_account_choice
      \<or> key \<noteq> CHR ''#'' \<and> call_state c \<noteq> St_account_choice")
    case True
    with assms show ?thesis
      by (auto simp: handle_dtmf_def with_call_def upd_def skip_def split: if_splits)
  next
    case False
    with assms have "choose_caller_account [key] c = Some (c', es) \<or> key = CHR ''#'' \<and> check_pin w c = Some (c', es)"
      by (auto simp: handle_dtmf_def with_call_def split: if_splits)
    then show ?thesis
      using q sign_in_quiet assms(1) choose_auth check_pin_auth by metis
  qed
qed

text \<open>A call at the PIN prompt of the demonstration signs in with its PIN.\<close>

theorem sign_in_needs_pin_witness:
  "\<exists>c' es. handle_dtmf demo_world (\<lambda>_. skip) CHR ''#'' ((blank_call ''c'' ''u'' ''1'' St_pin)\<lparr>pin := ''1234''\<rparr>) = Some (c', es)
     \<and> authenticated c' \<and> list_all sign_in_event es"
proof -
  let ?c = "(blank_call ''c'' ''u'' ''1'' St_pin)\<lparr>pin := ''1234''\<rparr>"
  have "\<exists>c' es. handle_dtmf demo_world (\<lambda>_. skip) CHR ''#'' ?c = Some (c', es) \<and> authenticated c'"
    by (simp add: handle_dtmf_def check_pin_def eval_steps blank_call_def demo_world_def)
  moreover have "\<not> authenticated ?c" by (simp add: blank_call_def)
  ultimately show ?thesis using sign_in_needs_pin by blast
qed

section \<open>Confirmation\<close>

text \<open>C1. No key changes mail without its confirmation: an event that submits a message or deletes a draft
  comes only from key 1 of the review menu, and an event that moves or deletes a message, on the mail
  server, on disk or in the index, comes only from key 1 of the delete confirmation or a digit of the
  move menu; the call is signed in and open.\<close>

theorem changes_need_confirmation:
  assumes "handle_menu w (\<lambda>_. save_draft w new_id path_of appended) key c = Some (c', es)" "e \<in> set es"
  shows "(sends_mail e \<longrightarrow> state_of c = St_review \<and> key = CHR ''1'') \<and>
    (moves_mail e \<longrightarrow> state_of c = St_confirm_delete \<and> key = CHR ''1'' \<or>
       state_of c = St_move_menu \<and> key_between CHR ''1'' CHR ''9'' key) \<and>
    authenticated c \<and> \<not> closed c"
proof -
  have "authenticated c \<and> \<not> closed c"
    using assms by (auto simp: handle_menu_def with_call_def skip_def split: if_splits)
  moreover have "allowed (state_of c) key e"
    using handle_menu_effects [OF assms(1)] assms(2) by (simp add: list_all_iff)
  moreover have "\<not> (sends_mail e \<and> moves_mail e)" by (cases e) simp_all
  ultimately show ?thesis by (auto simp: allowed_def mild_def)
qed

text \<open>Key 1 at the delete confirmation of the demonstration call deletes its first message.\<close>

theorem changes_need_confirmation_witness:
  "\<exists>es. Delete_index 1 \<in> set es \<and> state_of (demo_call St_confirm_delete) = St_confirm_delete \<and>
     (\<exists>c'. handle_menu demo_world (\<lambda>_. save_draft demo_world ''d'' (\<lambda>_ _. []) True) CHR ''1''
        (demo_call St_confirm_delete) = Some (c', es))"
proof -
  obtain c' es where r: "handle_menu demo_world (\<lambda>_. save_draft demo_world ''d'' (\<lambda>_ _. []) True) CHR ''1''
      (demo_call St_confirm_delete) = Some (c', es)" and d: "Delete_index 1 \<in> set es"
    by (simp add: eval_steps eval_navigation handle_menu_def menu_of_def is_editing_def menu_confirm_delete_def
        delete_current_def eval_demo trash_role_def find_account_def empty_draft_def)
  have "state_of (demo_call St_confirm_delete) = St_confirm_delete \<or> state_of (demo_call St_confirm_delete) = St_move_menu"
    using changes_need_confirmation [OF r d] by auto
  moreover have "state_of (demo_call St_confirm_delete) \<noteq> St_move_menu"
    by (simp add: eval_navigation eval_demo)
  ultimately show ?thesis using r d by blast
qed

section \<open>Sending\<close>

fun submission :: "event \<Rightarrow> bool" where
  "submission (Submit _ _) = True"
| "submission (Journal_submission _) = True"
| "submission (Settle_submission _ _) = True"
| "submission _ = False"

definition one_submission :: "event list \<Rightarrow> bool" where
  "one_submission es \<longleftrightarrow> (\<exists>pre post mid rs outcome.
     es = pre @ [Journal_submission mid, Submit rs mid, Settle_submission mid outcome] @ post \<and>
     list_all (\<lambda>e. \<not> submission e) (pre @ post) \<and>
     (\<forall>d. Delete_draft d \<in> set es \<longrightarrow> outcome = ''accepted''))"

lemma one_submissionI:
  "es = [Journal_submission mid, Submit rs mid, Settle_submission mid outcome] @ post \<Longrightarrow>
   list_all (\<lambda>e. \<not> submission e) post \<Longrightarrow> (\<And>d. Delete_draft d \<in> set post \<Longrightarrow> outcome = ''accepted'') \<Longrightarrow>
   one_submission es"
  unfolding one_submission_def
  by (rule exI [of _ "[]"], rule exI [of _ post], rule exI [of _ mid], rule exI [of _ rs], rule exI [of _ outcome]) auto

lemma send_draft_trace:
  assumes "send_draft w c = Some (c', es)" "Submit rs mid \<in> set es"
  shows "one_submission es \<and> \<not> send_in_flight c \<and> \<not> send_in_flight c' \<and>
    (\<exists>rto rcc rbcc. parse_recipients w (draft_to (draft c) # additional_to (draft c)) = Some rto \<and>
       parse_recipients w (draft_cc (draft c)) = Some rcc \<and> parse_recipients w (draft_bcc (draft c)) = Some rbcc \<and>
       rs = rto @ rcc @ rbcc)"
  using assms
  by (auto simp: send_draft_def submit_draft_def Let_def with_call_def steps_def next_step_def upd_def emit_def
      skip_def sayf_def intro!: one_submissionI
      split: option.splits if_splits submit_reply.splits)

lemma review_send:
  assumes "handle_menu w save CHR ''1'' c = Some (c', es)" "state_of c = St_review" "\<not> closed c" "authenticated c"
  shows "\<exists>c1. send_draft w c1 = Some (c', es) \<and> draft c1 = draft c \<and> send_in_flight c1 = send_in_flight c"
proof -
  have s: "state_of (ensure_flow c) = St_review" using assms(2) by simp
  obtain f n where e: "ensure_flow c = navigated c f n" using ensure_flow_navigated by blast
  have "send_draft w ((ensure_flow c)\<lparr>pending_cancel_confirm := False\<rparr>) = Some (c', es)"
    using assms(1,3,4) s
    by (simp add: handle_menu_def with_call_def [of "\<lambda>c0. if closed c0 \<or> \<not> authenticated c0 then _ c0 else _ c0"]
        eval_steps Let_def is_editing_def menu_of_def menu_review_def split: option.splits)
  then show ?thesis using e by (intro exI [of _ "(ensure_flow c)\<lparr>pending_cancel_confirm := False\<rparr>"]) (simp add: navigated_def)
qed

text \<open>C13. Sending is journalled and happens at most once per key: when a key submits a message, the
  submission is journalled directly before it and settled directly after it, there is no other one, the
  envelope is the parsed main, copy and hidden copy recipients of the draft in that order, a
  saved draft is deleted only when the server accepted the message, and no submission was in flight.\<close>

theorem send_journalled_once:
  assumes "handle_menu w (\<lambda>_. save_draft w new_id path_of appended) key c = Some (c', es)"
    and "Submit rs mid \<in> set es"
  shows "one_submission es \<and> \<not> send_in_flight c \<and> \<not> send_in_flight c' \<and>
    (\<exists>rto rcc rbcc. parse_recipients w (draft_to (draft c) # additional_to (draft c)) = Some rto \<and>
       parse_recipients w (draft_cc (draft c)) = Some rcc \<and> parse_recipients w (draft_bcc (draft c)) = Some rbcc \<and>
       rs = rto @ rcc @ rbcc)"
proof -
  have open_call: "authenticated c" "\<not> closed c"
    using assms by (auto simp: handle_menu_def with_call_def skip_def split: if_splits)
  have "allowed (state_of c) key (Submit rs mid)"
    using handle_menu_effects [OF assms(1)] assms(2) by (simp add: list_all_iff)
  then have r: "state_of c = St_review" "key = CHR ''1''" by (auto simp: allowed_def mild_def)
  obtain c1 where "send_draft w c1 = Some (c', es)" "draft c1 = draft c" "send_in_flight c1 = send_in_flight c"
    using review_send [OF _ r(1) open_call(2,1)] assms(1) r(2) by blast
  then show ?thesis using send_draft_trace assms(2) by metis
qed

text \<open>The demonstration call submits its draft to its one recipient.\<close>

theorem send_journalled_once_witness:
  "\<exists>c' es. handle_menu demo_world (\<lambda>_. save_draft demo_world ''d'' (\<lambda>_ _. []) True) CHR ''1''
      (demo_call St_review) = Some (c', es) \<and> Submit [''bob@x.org''] ''<1@me@x.org>'' \<in> set es \<and> one_submission es"
proof -
  obtain c' es where r: "handle_menu demo_world (\<lambda>_. save_draft demo_world ''d'' (\<lambda>_ _. []) True) CHR ''1''
      (demo_call St_review) = Some (c', es)" and d: "Submit [''bob@x.org''] ''<1@me@x.org>'' \<in> set es"
    by (simp add: eval_steps eval_navigation handle_menu_def menu_of_def is_editing_def menu_review_def send_draft_def
        submit_draft_def eval_demo parse_recipients_def sending_account_def find_account_def empty_draft_def)
  with send_journalled_once [OF r d] show ?thesis by blast
qed

end
