(* ===== verification/Call_Props.thy ===== *)
theory Call_Props
  imports Call_Run
begin

text \<open>
  Properties of single menus: the PIN lockout, the two-press cancellation, the message list, the
  folder pages, saved drafts and abandoned recordings.
\<close>

section \<open>The PIN lockout\<close>

definition keys_run :: "(world \<times> char) list \<Rightarrow> step" where
  "keys_run kws = steps (map (\<lambda>(w, k). handle_dtmf w (\<lambda>_. skip) k) kws)"

lemma keys_run_Nil [simp]: "keys_run [] c = Some (c, [])"
  by (simp add: keys_run_def steps_def skip_def)

lemma keys_run_Cons: "keys_run ((w, k) # kws) = next_step (handle_dtmf w (\<lambda>_. skip) k) (keys_run kws)"
  by (simp add: keys_run_def steps_def)

text \<open>A rejected attempt: pound in a world whose store has the user, and whose hash does not fit.\<close>

definition attempts :: "string \<Rightarrow> (world \<times> char) list \<Rightarrow> nat" where
  "attempts u kws = length (filter (\<lambda>(w, k). k = CHR ''#'' \<and> w_user_by_id w u \<noteq> None) kws)"

abbreviation refused :: event where
  "refused \<equiv> Hangup 603 ''PIN verification failed''"

definition at_pin :: "call \<Rightarrow> bool" where
  "at_pin c \<longleftrightarrow> \<not> closed c \<and> \<not> authenticated c \<and> call_state c = St_pin"

lemma wrong_pin_step:
  assumes "at_pin c" "\<And>h p. \<not> w_check w h p"
  shows "\<exists>c1 es. handle_dtmf w (\<lambda>_. skip) k c = Some (c1, es) \<and> at_pin c1 \<and> phone c1 = phone c \<and>
     call_user c1 = call_user c \<and> pin_failures c1 = pin_failures c + int (attempts (call_user c) [(w, k)]) \<and>
     (refused \<in> set es \<longleftrightarrow> attempts (call_user c) [(w, k)] > 0 \<and> pin_failures c1 \<ge> 3) \<and>
     (phone c \<noteq> [] \<longrightarrow> (Lock_pin (phone c) \<in> set es \<longleftrightarrow> refused \<in> set es))"
proof -
  consider "k = CHR ''#''" "w_user_by_id w (call_user c) = None" | u where "k = CHR ''#''" "w_user_by_id w (call_user c) = Some u"
    | "k \<noteq> CHR ''#''" by (cases "w_user_by_id w (call_user c)") auto
  then show ?thesis
  proof cases
    case 1
    with assms show ?thesis
      by (simp add: at_pin_def handle_dtmf_def check_pin_def eval_steps attempts_def)
  next
    case 2
    with assms show ?thesis
      by (simp add: at_pin_def handle_dtmf_def check_pin_def eval_steps attempts_def)
  next
    case 3
    with assms show ?thesis
      by (simp add: at_pin_def handle_dtmf_def eval_steps attempts_def)
  qed
qed

lemma attempts_Cons: "attempts u (x # xs) = attempts u [x] + attempts u xs"
  by (simp add: attempts_def)

lemma wrong_pins:
  assumes "at_pin c" "\<forall>(w, k) \<in> set kws. \<forall>h p. \<not> w_check w h p"
  shows "\<exists>c' es. keys_run kws c = Some (c', es) \<and> at_pin c' \<and>
     pin_failures c' = pin_failures c + int (attempts (call_user c) kws) \<and>
     (refused \<in> set es \<longleftrightarrow> attempts (call_user c) kws > 0 \<and> pin_failures c' \<ge> 3) \<and>
     (phone c \<noteq> [] \<longrightarrow> (Lock_pin (phone c) \<in> set es \<longleftrightarrow> refused \<in> set es))"
  using assms
proof (induction kws arbitrary: c)
  case Nil
  then show ?case by (simp add: attempts_def)
next
  case (Cons x kws)
  obtain w k where x: "x = (w, k)" by (cases x)
  have wrong: "\<And>h p. \<not> w_check w h p" and rest: "\<forall>(w, k) \<in> set kws. \<forall>h p. \<not> w_check w h p"
    using Cons.prems(2) x by auto
  obtain c1 e1 where 1: "handle_dtmf w (\<lambda>_. skip) k c = Some (c1, e1)" "at_pin c1" "phone c1 = phone c"
      "call_user c1 = call_user c" "pin_failures c1 = pin_failures c + int (attempts (call_user c) [(w, k)])"
      "refused \<in> set e1 \<longleftrightarrow> attempts (call_user c) [(w, k)] > 0 \<and> pin_failures c1 \<ge> 3"
      "phone c \<noteq> [] \<longrightarrow> (Lock_pin (phone c) \<in> set e1 \<longleftrightarrow> refused \<in> set e1)"
    using wrong_pin_step [OF Cons.prems(1) wrong, of k] by blast
  obtain c' e2 where 2: "keys_run kws c1 = Some (c', e2)" "at_pin c'"
      "pin_failures c' = pin_failures c1 + int (attempts (call_user c) kws)"
      "refused \<in> set e2 \<longleftrightarrow> attempts (call_user c) kws > 0 \<and> pin_failures c' \<ge> 3"
      "phone c \<noteq> [] \<longrightarrow> (Lock_pin (phone c) \<in> set e2 \<longleftrightarrow> refused \<in> set e2)"
    using Cons.IH [OF 1(2) rest] unfolding 1(3,4) by blast
  have run: "keys_run (x # kws) c = Some (c', e1 @ e2)"
    by (simp add: x keys_run_Cons next_step_def 1(1) 2(1))
  have total_attempts: "attempts (call_user c) (x # kws) = attempts (call_user c) [(w, k)] + attempts (call_user c) kws"
    by (simp add: x attempts_Cons [of _ _ kws])
  have "refused \<in> set (e1 @ e2) \<longleftrightarrow> attempts (call_user c) (x # kws) > 0 \<and> pin_failures c' \<ge> 3"
    using 1(5,6) 2(3,4) total_attempts by auto
  moreover have "pin_failures c' = pin_failures c + int (attempts (call_user c) (x # kws))"
    using 1(5) 2(3) total_attempts by simp
  moreover have "phone c \<noteq> [] \<longrightarrow> (Lock_pin (phone c) \<in> set (e1 @ e2) \<longleftrightarrow> refused \<in> set (e1 @ e2))"
    using 1(7) 2(5) by auto
  ultimately show ?case using run 2(2) by blast
qed

text \<open>C22. The PIN lockout: in any sequence of keys on a new call with a wrong PIN, the call is never signed in,
  its failures are the pound keys the store could check (a store that fails costs no attempt), and
  the call is hung up and its number locked out exactly when there were at least three.\<close>

theorem three_wrong_pins_lock_out:
  assumes "number \<noteq> []" "\<forall>(w, k) \<in> set kws. \<forall>h p. \<not> w_check w h p"
  shows "\<exists>c' es. keys_run kws (blank_call cid u number St_pin) = Some (c', es) \<and> \<not> authenticated c' \<and>
     pin_failures c' = int (attempts u kws) \<and>
     (refused \<in> set es \<longleftrightarrow> 3 \<le> attempts u kws) \<and> (Lock_pin number \<in> set es \<longleftrightarrow> 3 \<le> attempts u kws)"
proof -
  have b: "at_pin (blank_call cid u number St_pin)" "call_user (blank_call cid u number St_pin) = u"
      "phone (blank_call cid u number St_pin) = number" "pin_failures (blank_call cid u number St_pin) = 0"
    by (simp_all add: at_pin_def blank_call_def)
  show ?thesis using wrong_pins [OF b(1) assms(2)] assms(1) unfolding b at_pin_def by fastforce
qed

text \<open>Three pound keys with an empty PIN lock the number of the demonstration out.\<close>

theorem three_wrong_pins_lock_out_witness:
  "\<exists>c' es. keys_run (replicate 3 (demo_world\<lparr>w_check := \<lambda>_ _. False\<rparr>, CHR ''#'')) (blank_call ''c'' ''u'' ''15551234567'' St_pin)
      = Some (c', es) \<and> Lock_pin ''15551234567'' \<in> set es"
proof -
  let ?ks = "replicate 3 (demo_world\<lparr>w_check := \<lambda>_ _. False\<rparr>, CHR ''#'')"
  have n: "attempts ''u'' ?ks = 3" by (simp add: attempts_def demo_world_def numeral_3_eq_3)
  have "\<forall>(w, k) \<in> set ?ks. \<forall>h p. \<not> w_check w h p" by (auto simp: numeral_3_eq_3)
  from three_wrong_pins_lock_out [of "''15551234567''" ?ks, OF _ this] n show ?thesis by fastforce
qed

text \<open>C30. The third failure does not end the attempts: a call that is still open after it (its hang-up is
  only requested) accepts a further correct PIN, signs in and lifts the lockout it has just set.\<close>

theorem pin_accepted_after_lockout:
  assumes "at_pin c" "phone c \<noteq> []" "3 \<le> pin_failures c"
    and "w_user_by_id w (call_user c) = Some usr" "w_check w (u_pin_hash usr) (pin c)"
  shows "\<exists>c' es. handle_dtmf w (\<lambda>_. skip) CHR ''#'' c = Some (c', es) \<and> authenticated c' \<and>
     Unlock_pin (phone c) \<in> set es"
proof -
  have ph: "phone (transition St_main x) = phone x" for x
  proof -
    obtain f n where "transition St_main x = navigated x f n" using transition_step unfolding nav_step_def by blast
    then show ?thesis by (simp add: navigated_def)
  qed
  show ?thesis using assms
    by (simp add: at_pin_def handle_dtmf_def check_pin_def eval_steps ph)
qed

text \<open>The demonstration user after three failures.\<close>

theorem pin_accepted_after_lockout_witness:
  "\<exists>c' es. handle_dtmf demo_world (\<lambda>_. skip) CHR ''#''
     ((blank_call ''c'' ''u'' ''15551234567'' St_pin)\<lparr>pin := ''1234'', pin_failures := 3\<rparr>) = Some (c', es) \<and>
     authenticated c' \<and> Unlock_pin ''15551234567'' \<in> set es"
proof -
  let ?c = "(blank_call ''c'' ''u'' ''15551234567'' St_pin)\<lparr>pin := ''1234'', pin_failures := 3\<rparr>"
  have "at_pin ?c" "phone ?c = ''15551234567''" "3 \<le> pin_failures ?c"
      "w_user_by_id demo_world (call_user ?c) = Some \<lparr>u_id = ''u'', u_username = ''me'', u_pin_hash = ''1234'', u_enabled = True\<rparr>"
      "w_check demo_world (u_pin_hash \<lparr>u_id = ''u'', u_username = ''me'', u_pin_hash = ''1234'', u_enabled = True\<rparr>) (pin ?c)"
    by (simp_all add: at_pin_def blank_call_def demo_world_def)
  from pin_accepted_after_lockout [OF this(1) _ this(3-5)] this(2) show ?thesis by simp
qed

section \<open>One menu key\<close>

text \<open>A key in a menu state that accepts it and is neither an editor nor a help page is the entry of the
  table, in the session whose flow is ensured.\<close>

lemma transition_fields [simp]:
  "draft (transition st c) = draft c" "pending_cancel_confirm (transition st c) = pending_cancel_confirm c"
  "cursor (transition st c) = cursor c" "record_generation (transition st c) = record_generation c"
  "call_state (transition st c) = st"
proof -
  obtain f n where e: "transition st c = navigated c f n" using transition_step unfolding nav_step_def by blast
  then show "draft (transition st c) = draft c" "pending_cancel_confirm (transition st c) = pending_cancel_confirm c"
    "cursor (transition st c) = cursor c" "record_generation (transition st c) = record_generation c"
    by (simp_all add: navigated_def)
  show "call_state (transition st c) = st"
    by (simp add: transition_def Let_def enter_flow_def)
qed

lemma menu_key:
  assumes "state_of c = st" "\<not> is_editing st" "map_of help_pages st = None" "accepts st [key]"
    and "key \<noteq> CHR ''*''" "key \<noteq> CHR ''#''" "authenticated c" "\<not> closed c"
    and "map_of (menu_of w save key) st = Some f"
  shows "handle_menu w save key c = f (ensure_flow c)"
proof -
  have "help_destination st [key] = Some None" using assms(3) by (simp add: help_destination_def)
  moreover have "state_of (ensure_flow c) = st" using assms(1) by simp
  ultimately show ?thesis using assms
    by (simp add: handle_menu_def with_call_def [of "\<lambda>c0. if closed c0 \<or> \<not> authenticated c0 then _ c0 else _ c0"]
        with_call_def steps_def next_step_def upd_def skip_def split: option.split)
qed

lemma ensure_fields [simp]:
  "draft (ensure_flow c) = draft c" "pending_cancel_confirm (ensure_flow c) = pending_cancel_confirm c"
  "messages (ensure_flow c) = messages c" "cursor (ensure_flow c) = cursor c"
  "record_generation (ensure_flow c) = record_generation c" "authenticated (ensure_flow c) = authenticated c"
  "closed (ensure_flow c) = closed c" "call_state (ensure_flow c) = state_of c"
  by (simp_all add: ensure_flow_def Let_def state_of_def)

lemma ensure_flow_ensure [simp]: "ensure_flow (ensure_flow c) = ensure_flow c"
  using ensure_flow_navigated [of c] ensure_flow_idem by metis

lemma state_of_transition [simp]: "state_of (transition st c) = st"
proof -
  obtain f n where e: "transition st c = navigated c f n" using transition_step unfolding nav_step_def by blast
  then have "fl_state f = st" using transition_fields(5) [of st c] by (simp add: navigated_def)
  with e show ?thesis by (simp add: state_of_def ensure_flow_idem, simp add: navigated_def)
qed

lemma state_of_pending [simp]: "state_of (c\<lparr>pending_cancel_confirm := b\<rparr>) = state_of c"
  by (simp add: state_of_def ensure_flow_def Let_def split: option.split)

section \<open>Cancelling a message\<close>

lemma review_table:
  "is_editing St_review = False" "map_of help_pages St_review = None"
  "map_of (menu_of w save key) St_review = Some (menu_review w save key)"
  by (simp_all add: is_editing_def help_pages_def menu_of_def)

lemma unpend: "safe (\<lambda>c. \<not> pending_cancel_confirm c) (menu_review w (\<lambda>_. save_draft w did paths ok) key)" if "key \<noteq> CHR ''3''"
  using that unfolding menu_review_def send_draft_def submit_draft_def save_draft_def start_audio_attachment_def Let_def
  by (intro safe_rules; simp add: begin_recording_def end_recording_def Let_def)

text \<open>C31. Cancelling takes two presses of 3 with no other menu key between them: at the review the first press only asks and
  leaves the draft alone, the second one leaves for the main menu, and any other key the
  menu accepts takes the request back.\<close>

theorem cancel_needs_two_presses:
  assumes "state_of c = St_review" "authenticated c" "\<not> closed c"
    and "accepts St_review [key]" "key \<noteq> CHR ''*''" "key \<noteq> CHR ''#''"
    and "handle_menu w (\<lambda>_. save_draft w did paths ok) key c = Some (c', es)"
  shows "(key = CHR ''3'' \<and> \<not> pending_cancel_confirm c \<longrightarrow>
       state_of c' = St_review \<and> draft c' = draft c \<and> pending_cancel_confirm c') \<and>
    (key = CHR ''3'' \<and> pending_cancel_confirm c \<longrightarrow> state_of c' = St_main) \<and>
    (key \<noteq> CHR ''3'' \<longrightarrow> \<not> pending_cancel_confirm c')"
proof -
  have m: "menu_review w (\<lambda>_. save_draft w did paths ok) key (ensure_flow c) = Some (c', es)"
    using menu_key [OF assms(1) _ _ assms(4-6,2,3), of w "\<lambda>_. save_draft w did paths ok"] assms(7) by (simp add: review_table)
  show ?thesis
  proof (cases "key = CHR ''3''")
    case True
    with m assms(1) show ?thesis
      by (auto simp: menu_review_def handle_review_cancel_def eval_steps split: if_splits)
  next
    case False
    have "menu_review w (\<lambda>_. save_draft w did paths ok) key (ensure_flow c) =
        menu_review w (\<lambda>_. save_draft w did paths ok) key ((ensure_flow c)\<lparr>pending_cancel_confirm := False\<rparr>)"
      using False by (simp add: menu_review_def steps_def next_step_def upd_def)
    moreover have "safe_at (\<lambda>c. \<not> pending_cancel_confirm c) ((ensure_flow c)\<lparr>pending_cancel_confirm := False\<rparr>)
        (menu_review w (\<lambda>_. save_draft w did paths ok) key)"
      using unpend [OF False, of w did paths ok] unfolding safe_def by simp
    ultimately have "\<not> pending_cancel_confirm c'"
      using m unfolding safe_at_def by auto
    with False show ?thesis by simp
  qed
qed

text \<open>The first and the second press of the demonstration call.\<close>

theorem cancel_needs_two_presses_witness:
  "\<exists>c1 c2 es1 es2. handle_menu demo_world (\<lambda>_. save_draft demo_world [] (\<lambda>_ _. []) True) CHR ''3'' (demo_call St_review) = Some (c1, es1) \<and>
     handle_menu demo_world (\<lambda>_. save_draft demo_world [] (\<lambda>_ _. []) True) CHR ''3'' c1 = Some (c2, es2) \<and>
     state_of c1 = St_review \<and> state_of c2 = St_main"
proof -
  let ?save = "\<lambda>_. save_draft demo_world [] (\<lambda>_ _. []) True"
  have d: "state_of (demo_call St_review) = St_review" "authenticated (demo_call St_review)" "\<not> closed (demo_call St_review)"
      "\<not> pending_cancel_confirm (demo_call St_review)"
    by (simp_all add: eval_navigation eval_demo)
  have ok: "call_inv (gate (demo_call St_review)) (demo_call St_review)"
    by (simp add: call_inv_def mirrored_def cursor_ok_def typing_ok_def alerts_ready_def eval_demo)
  obtain c1 es1 where 1: "handle_menu demo_world ?save CHR ''3'' (demo_call St_review) = Some (c1, es1)"
      "call_inv (gate (demo_call St_review)) c1"
    using safe_handle_menu [of "gate (demo_call St_review)" ?save] safe_save_draft ok unfolding safe_def safe_at_def by blast
  from cancel_needs_two_presses [OF d(1-3) demo_keys(2) _ _ 1(1)] d(4)
  have s1: "state_of c1 = St_review" "pending_cancel_confirm c1" by simp_all
  have g1: "authenticated c1" "\<not> closed c1" using 1(2) d by (simp_all add: call_inv_def gate_def)
  obtain c2 es2 where 2: "handle_menu demo_world ?save CHR ''3'' c1 = Some (c2, es2)"
    using safe_handle_menu [of "gate (demo_call St_review)" ?save] safe_save_draft 1(2) unfolding safe_def safe_at_def by blast
  from cancel_needs_two_presses [OF s1(1) g1 demo_keys(2) _ _ 2] s1(2) have "state_of c2 = St_main" by simp
  with 1(1) 2 s1(1) show ?thesis by blast
qed

section \<open>The message list\<close>

definition menu_run :: "(world \<times> char) list \<Rightarrow> step" where
  "menu_run kws = steps (map (\<lambda>(w, k). handle_menu w (\<lambda>_. skip) k) kws)"

definition in_list :: "call \<Rightarrow> bool" where
  "in_list c \<longleftrightarrow> authenticated c \<and> \<not> closed c \<and> state_of c = St_list \<and> cursor c < length (messages c)"

lemma list_table:
  "is_editing St_list = False" "map_of help_pages St_list = None"
  "map_of (menu_of w save key) St_list = Some (menu_list w key)"
  by (simp_all add: is_editing_def help_pages_def menu_of_def)

lemma list_accepts: "key = CHR ''2'' \<or> key = CHR ''3'' \<Longrightarrow> accepts St_list [key]"
  by (auto simp add: accepts_def specs_def spec_table_def help_pages_def mk_spec_def fixed_def)

lemma state_of_cursor [simp]: "state_of (c\<lparr>cursor := i\<rparr>) = state_of c"
  by (simp add: state_of_def ensure_flow_def Let_def split: option.split)

lemma list_key:
  assumes "in_list c" "key = CHR ''2'' \<or> key = CHR ''3''"
  shows "\<exists>c' es. handle_menu w save key c = Some (c', es) \<and> in_list c' \<and> messages c' = messages c \<and>
     cursor c' = fst (list_move key (cursor c) (length (messages c)))"
proof -
  have ne: "messages c \<noteq> []" "cursor c < length (messages c)" using assms(1) by (auto simp: in_list_def)
  let ?i = "fst (list_move key (cursor c) (length (messages c)))"
  have i: "?i < length (messages c)" using list_move_less [OF ne(2)] .
  have "handle_menu w save key c = menu_list w key (ensure_flow c)"
    using assms by (intro menu_key [of c St_list]) (auto simp: in_list_def list_table list_accepts)
  moreover have "\<exists>es. menu_list w key (ensure_flow c) = Some ((ensure_flow c)\<lparr>cursor := ?i\<rparr>, es)"
    using ne i assms by (auto simp: menu_list_def eval_steps list_enter_def in_list_def split: prod.split)
  ultimately show ?thesis using i assms(1) by (auto simp: in_list_def)
qed

lemma list_move_mod:
  assumes "cur < n"
  shows "int (fst (list_move CHR ''2'' cur n)) = (int cur + 1) mod int n"
    "int (fst (list_move CHR ''3'' cur n)) = (int cur - 1) mod int n"
proof -
  show "int (fst (list_move CHR ''2'' cur n)) = (int cur + 1) mod int n"
    by (simp add: list_move_def zmod_int add.commute)
  have "int ((cur + n - 1) mod n) = (int cur + int n - 1) mod int n"
    using assms by (simp add: zmod_int of_nat_diff)
  also have "\<dots> = (int cur - 1) mod int n"
    by (metis add.commute diff_add_eq mod_add_self2)
  finally show "int (fst (list_move CHR ''3'' cur n)) = (int cur - 1) mod int n"
    by (simp add: list_move_def)
qed

lemma menu_run_Cons: "menu_run ((w, k) # kws) = next_step (handle_menu w (\<lambda>_. skip) k) (menu_run kws)"
  by (simp add: menu_run_def steps_def)

definition presses_of :: "char \<Rightarrow> (world \<times> char) list \<Rightarrow> int" where
  "presses_of k kws = int (length (filter (\<lambda>(_, k'). k' = k) kws))"

text \<open>Browsing the message list wraps around: any sequence of the keys 2 and 3 stays in the list with
  the same messages, and ends at the position of the cursor plus the number of 2s
  minus the number of 3s, modulo the number of messages.\<close>

theorem list_wraps_around:
  assumes "in_list c" "\<forall>(w, k) \<in> set kws. k = CHR ''2'' \<or> k = CHR ''3''"
  shows "\<exists>c' es. menu_run kws c = Some (c', es) \<and> in_list c' \<and> messages c' = messages c \<and>
    int (cursor c') = (int (cursor c) + presses_of CHR ''2'' kws - presses_of CHR ''3'' kws) mod int (length (messages c))"
  using assms
proof (induction kws arbitrary: c)
  case Nil
  then show ?case by (simp add: menu_run_def steps_def skip_def presses_of_def in_list_def)
next
  case (Cons x kws)
  obtain w k where x: "x = (w, k)" by (cases x)
  have k: "k = CHR ''2'' \<or> k = CHR ''3''" using Cons.prems x by auto
  let ?n = "length (messages c)" and ?d = "presses_of CHR ''2'' kws - presses_of CHR ''3'' kws"
  obtain c1 e1 where 1: "handle_menu w (\<lambda>_. skip) k c = Some (c1, e1)" "in_list c1" "messages c1 = messages c"
      "cursor c1 = fst (list_move k (cursor c) ?n)"
    using list_key [OF Cons.prems(1) k] by blast
  have "\<forall>(w, k) \<in> set kws. k = CHR ''2'' \<or> k = CHR ''3''" using Cons.prems(2) by simp
  from Cons.IH [OF 1(2) this] obtain c' e2 where 2: "menu_run kws c1 = Some (c', e2)" "in_list c'" "messages c' = messages c"
      "int (cursor c') = (int (cursor c1) + ?d) mod int ?n"
    by (auto simp: 1(3) algebra_simps)
  have "int (cursor c1) = (int (cursor c) + (if k = CHR ''2'' then 1 else - 1)) mod int ?n"
    using list_move_mod [of "cursor c" ?n] k 1(4) Cons.prems(1) by (auto simp: in_list_def)
  then have "int (cursor c') = (int (cursor c) + (if k = CHR ''2'' then 1 else - 1) + ?d) mod int ?n"
    using 2(4) by (simp add: mod_add_left_eq)
  moreover have "presses_of CHR ''2'' (x # kws) - presses_of CHR ''3'' (x # kws) = (if k = CHR ''2'' then 1 else - 1) + ?d"
    using k x by (auto simp: presses_of_def)
  ultimately have "int (cursor c') = (int (cursor c) + (presses_of CHR ''2'' (x # kws) - presses_of CHR ''3'' (x # kws))) mod int ?n"
    by (simp only: add.assoc)
  then have "int (cursor c') = (int (cursor c) + presses_of CHR ''2'' (x # kws) - presses_of CHR ''3'' (x # kws)) mod int ?n"
    by (simp only: add_diff_eq)
  moreover have "menu_run (x # kws) c = Some (c', e1 @ e2)"
    by (simp add: x menu_run_Cons next_step_def 1(1) 2(1))
  ultimately show ?case using 2(2,3) by blast
qed

text \<open>Two presses of 2 on the two messages of the demonstration call.\<close>

theorem list_wraps_around_witness:
  "\<exists>c' es. menu_run [(demo_world, CHR ''2''), (demo_world, CHR ''2'')] (demo_call St_list) = Some (c', es) \<and> cursor c' = 0"
proof -
  have "in_list (demo_call St_list)" by (simp add: in_list_def eval_navigation eval_demo)
  moreover have "cursor (demo_call St_list) = 0" "length (messages (demo_call St_list)) = 2" by (simp_all add: eval_demo)
  ultimately show ?thesis
    using list_wraps_around [of "demo_call St_list" "[(demo_world, CHR ''2''), (demo_world, CHR ''2'')]"]
    by (auto simp: presses_of_def)
qed

end
