(* ===== verification/Call_Drafts.thy ===== *)
theory Call_Drafts
  imports Call_Props
begin

text \<open>
  Properties of folders, saved drafts, recordings, replies and settings on a call.
\<close>

section \<open>Folder pages\<close>

definition page_entries :: "bool \<Rightarrow> nat \<Rightarrow> string list \<Rightarrow> string list" where
  "page_entries root page children =
     (let (start, _, n) = folder_window root page in take n (drop start children))"

definition page_key :: "bool \<Rightarrow> nat \<Rightarrow> nat \<Rightarrow> char" where
  "page_key root page i = (let (_, k, _) = folder_window root page in char_of (48 + k + i))"

lemma page_key_index:
  assumes "i < (case folder_window root page of (_, _, n) \<Rightarrow> n)"
  shows "folder_index root page (page_key root page i) = Some (fst (folder_window root page) + i)"
proof -
  have b: "byte (char_of (48 + k + i) :: char) = 48 + k + i" if "k + i < 200" for k
    using that by simp
  show ?thesis using assms
    by (auto simp: folder_index_def page_key_def folder_window_def digit_of_def b split: if_splits)
qed

lemma pages_prefix:
  "concat (map (\<lambda>p. page_entries root p children) [0..<Suc page]) =
   take (case folder_window root page of (s, _, n) \<Rightarrow> s + n) children"
proof (induction page)
  case 0
  show ?case by (simp add: page_entries_def folder_window_def)
next
  case (Suc page)
  have "concat (map (\<lambda>p. page_entries root p children) [0..<Suc (Suc page)]) =
      concat (map (\<lambda>p. page_entries root p children) [0..<Suc page]) @ page_entries root (Suc page) children"
    by simp
  also have "\<dots> = take (case folder_window root page of (s, _, n) \<Rightarrow> s + n) children @ page_entries root (Suc page) children"
    by (simp only: Suc.IH)
  also have "\<dots> = take (case folder_window root (Suc page) of (s, _, n) \<Rightarrow> s + n) children"
    by (cases page) (simp_all add: page_entries_def folder_window_def take_add [symmetric] algebra_simps)
  finally show ?case .
qed

text \<open>C34. The folder pages offer every folder exactly once, under the key that opens it: the entries of the pages
  up to one that has no more are the children, in order; and on each page the key announced for the
  i-th entry (5 to 8 on the first root page, behind the standard folders, and 1 to 8 elsewhere)
  selects that entry in the folder menu.\<close>

theorem folder_pages_cover:
  "(\<not> folder_page_has_more (length children) root page \<longrightarrow>
      concat (map (\<lambda>p. page_entries root p children) [0..<Suc page]) = children) \<and>
   (\<forall>i < length (page_entries root page children).
      \<exists>index. folder_index root page (page_key root page i) = Some index \<and> index < length children \<and>
        children ! index = page_entries root page children ! i)"
proof (intro conjI impI allI)
  assume "\<not> folder_page_has_more (length children) root page"
  then have "length children \<le> (case folder_window root page of (s, _, n) \<Rightarrow> s + n)"
    by (auto simp: folder_page_has_more_def folder_window_def split: if_splits)
  then show "concat (map (\<lambda>p. page_entries root p children) [0..<Suc page]) = children"
    by (simp only: pages_prefix take_all)
next
  fix i assume "i < length (page_entries root page children)"
  moreover obtain s k n where w: "folder_window root page = (s, k, n)" by (cases "folder_window root page")
  ultimately have "i < n" "s + i < length children" "page_entries root page children ! i = children ! (s + i)"
    by (auto simp: page_entries_def)
  then show "\<exists>index. folder_index root page (page_key root page i) = Some index \<and> index < length children \<and>
        children ! index = page_entries root page children ! i"
    using page_key_index [of i root page] w by simp
qed

text \<open>Six folders at the root: four on the first page and two on the second.\<close>

theorem folder_pages_cover_witness:
  "concat (map (\<lambda>p. page_entries True p [''a'', ''b'', ''c'', ''d'', ''e'', ''f'']) [0..<2]) = [''a'', ''b'', ''c'', ''d'', ''e'', ''f''] \<and>
   folder_index True 1 (page_key True 1 1) = Some 5"
proof -
  have "concat (map (\<lambda>p. page_entries True p [''a'', ''b'', ''c'', ''d'', ''e'', ''f'']) [0..<Suc 1]) = [''a'', ''b'', ''c'', ''d'', ''e'', ''f'']"
    using folder_pages_cover [of "[''a'', ''b'', ''c'', ''d'', ''e'', ''f'']" True 1]
    by (simp add: folder_page_has_more_def)
  then show ?thesis by (simp add: numeral_2_eq_2 folder_index_def page_key_def folder_window_def digit_of_def)
qed

section \<open>Saved drafts\<close>

lemma load_attachments_ok:
  "list_all (\<lambda>a. length (oa_data a) \<le> max_resume_attachment) loaded \<Longrightarrow>
   bytes = sum_list (map (length \<circ> oa_data) loaded) \<Longrightarrow> bytes \<le> max_resume_total \<Longrightarrow>
   load_attachments w recs loaded bytes skipped = (loaded', skipped') \<Longrightarrow>
   list_all (\<lambda>a. length (oa_data a) \<le> max_resume_attachment) loaded' \<and>
   sum_list (map (length \<circ> oa_data) loaded') \<le> max_resume_total \<and>
   length loaded' + skipped' = length loaded + skipped + length recs"
proof (induction w recs loaded bytes skipped arbitrary: loaded' skipped' rule: load_attachments.induct)
  case (2 w name kind path rest loaded bytes skipped)
  show ?case
  proof (cases "w_read_file w path")
    case None
    with 2 show ?thesis by auto
  next
    case (Some data)
    show ?thesis
    proof (cases "length data > max_resume_attachment \<or> bytes + length data > max_resume_total")
      case True
      with 2 Some show ?thesis by auto
    next
      case False
      with 2(3) [OF Some False] 2(4-) Some show ?thesis by (auto simp: not_less)
    qed
  qed
qed simp

text \<open>C32. Resuming a draft never loads more than 25 MiB for one attachment or 50 MiB in all, and every attachment of
  the draft is either loaded or counted among those left out.\<close>

theorem resume_bounded:
  "case load_attachments w recs [] 0 0 of (loaded, skipped) \<Rightarrow>
     list_all (\<lambda>a. length (oa_data a) \<le> 25 * 2 ^ 20) loaded \<and>
     sum_list (map (length \<circ> oa_data) loaded) \<le> 50 * 2 ^ 20 \<and> length loaded + skipped = length recs"
proof -
  obtain loaded skipped where l: "load_attachments w recs [] 0 0 = (loaded, skipped)" by fastforce
  show ?thesis using load_attachments_ok [OF _ _ _ l] unfolding l max_resume_attachment_def max_resume_total_def by simp
qed

text \<open>A draft whose attachments are all on disk and within the limits.\<close>

definition readable_draft :: "world \<Rightarrow> (nat \<Rightarrow> string) \<Rightarrow> draft \<Rightarrow> bool" where
  "readable_draft w path d \<longleftrightarrow>
     (\<forall>i < length (draft_attachments d). let data = oa_data (draft_attachments d ! i)
        in data \<noteq> [] \<and> length data \<le> max_resume_attachment \<and> w_read_file w (path i) = Some data) \<and>
     sum_list (map (length \<circ> oa_data) (draft_attachments d)) \<le> max_resume_total"

lemma load_all:
  assumes "\<forall>(i, a) \<in> set ias. oa_data a \<noteq> [] \<and> length (oa_data a) \<le> max_resume_attachment \<and> w_read_file w (path i) = Some (oa_data a)"
    and "bytes + sum_list (map (\<lambda>(_, a). length (oa_data a)) ias) \<le> max_resume_total"
  shows "load_attachments w (map (\<lambda>(i, a). (oa_filename a, oa_type a, path i)) ias) loaded bytes k = (loaded @ map snd ias, k)"
  using assms
proof (induction ias arbitrary: loaded bytes)
  case (Cons x ias)
  obtain i a where x: "x = (i, a)" by (cases x)
  have "load_attachments w (map (\<lambda>(i, a). (oa_filename a, oa_type a, path i)) ias) (loaded @ [a]) (bytes + length (oa_data a)) k
      = ((loaded @ [a]) @ map snd ias, k)"
    by (rule Cons.IH) (use Cons.prems x in \<open>auto simp: add.assoc\<close>)
  moreover have eta: "\<lparr>oa_filename = oa_filename a, oa_type = oa_type a, oa_data = oa_data a\<rparr> = a" by simp
  ultimately show ?case using Cons.prems x by (simp add: eta del: out_attachment.surjective)
qed simp

lemma resumed_saved:
  "resumed_draft (saved_record c did aid path_of) (draft_attachments (draft c)) = (draft c)\<lparr>draft_id := did\<rparr>"
  by (simp add: resumed_draft_def saved_record_def Let_def)

lemma saved_loads:
  assumes "readable_draft w (path_of did) (draft c)"
  shows "load_attachments w (dr_attachments (saved_record c did aid path_of)) [] 0 0 = (draft_attachments (draft c), 0)"
proof -
  let ?as = "draft_attachments (draft c)"
  have mem: "i < length ?as \<and> ?as ! i = a" if "(i, a) \<in> set (enumerate 0 ?as)" for i a
    using that by (auto simp: in_set_enumerate_eq)
  have "filter (\<lambda>(_, a). oa_data a \<noteq> []) (enumerate 0 ?as) = enumerate 0 ?as"
    using assms mem by (auto simp: readable_draft_def Let_def intro!: filter_True)
  moreover have "sum_list (map (\<lambda>(_, a). length (oa_data a)) (enumerate 0 ?as)) = sum_list (map (length \<circ> oa_data) ?as)"
  proof -
    have "map (\<lambda>(_, a). length (oa_data a)) (enumerate 0 ?as) = map (length \<circ> oa_data) (map snd (enumerate 0 ?as))"
      unfolding map_map by (rule map_cong) auto
    then show ?thesis by simp
  qed
  ultimately show ?thesis
    using load_all [of "enumerate 0 ?as" w "path_of did" 0 "[]" 0] assms mem
    by (auto simp: saved_record_def Let_def readable_draft_def)
qed

text \<open>The fields of a session a navigation step does not touch.\<close>

lemma transition_active [simp]: "active_account (transition st c) = active_account c"
proof -
  obtain f n where "transition st c = navigated c f n" using transition_step unfolding nav_step_def by blast
  then show ?thesis by (simp add: navigated_def)
qed

lemma resume_at_fields: "draft (resume_at d c) = draft c" "active_account (resume_at d c) = active_account c"
    "trim_space (draft_to d) \<noteq> [] \<Longrightarrow> trim_space (draft_subject d) \<noteq> [] \<Longrightarrow> trim_space (draft_body d) \<noteq> [] \<Longrightarrow>
     state_of (resume_at d c) = St_review"
  by (simp_all add: resume_at_def open_typing_def)

lemma say_eq: "say t c = Some (c', es) \<longleftrightarrow> c' = c \<and> es = [Say t]"
  by (auto simp: emit_def)

lemma guard_say:
  "(if b then say t else f) c = Some (c', es) \<Longrightarrow> e \<in> set es \<Longrightarrow> (\<And>t. e \<noteq> Say t) \<Longrightarrow> f c = Some (c', es)"
  by (auto simp: say_eq split: if_splits)

lemma steps_save:
  "steps [emit e, (if b then emit x else skip), upd g, sayf h] c = Some (c', es) \<longleftrightarrow>
   c' = g c \<and> es = e # (if b then [x] else []) @ [Say (h (g c))]"
  by (auto simp: eval_steps)

lemma save_draft_record:
  assumes "save_draft w new_id path_of appended c = Some (c1, es)" "Save_draft r \<in> set es"
  shows "\<exists>did aid. r = saved_record c did aid path_of \<and> draft c1 = (draft c)\<lparr>draft_id := did\<rparr> \<and> did = dr_id r"
proof -
  obtain accs where a: "w_accounts w (call_user c) = Some accs"
    using assms by (cases "w_accounts w (call_user c)") (simp_all add: save_draft_def with_call_def say_eq)
  note g = guard_say [OF _ assms(2)]
  define did where "did = (if draft_id (draft c) = [] then new_id else draft_id (draft c))"
  define aid where "aid = (if active_account c = [] then acc_id (hd accs) else active_account c)"
  have "\<exists>b x h. steps [emit (Save_draft (saved_record c did aid path_of)), (if b then emit (Append_remote x) else skip),
      upd (\<lambda>c. transition St_main (c\<lparr>draft := (draft c)\<lparr>draft_id := did\<rparr>\<rparr>)), sayf h] c = Some (c1, es)"
    using assms(1) unfolding save_draft_def with_call_def [of _ c] a option.case Let_def
    unfolding did_def [symmetric] aid_def [symmetric]
    apply -
    apply (drule g, simp)+
    apply (intro exI)
    apply assumption
    done
  then obtain b x h where "c1 = transition St_main (c\<lparr>draft := (draft c)\<lparr>draft_id := did\<rparr>\<rparr>)"
      "es = Save_draft (saved_record c did aid path_of) # (if b then [Append_remote x] else []) @
        [Say (h (transition St_main (c\<lparr>draft := (draft c)\<lparr>draft_id := did\<rparr>\<rparr>)))]"
    unfolding steps_save by blast
  with assms(2) show ?thesis by (auto simp: saved_record_def Let_def split: if_splits)
qed

text \<open>C20. Saving and resuming a draft loses nothing: the record a save stores, resumed later on any call of the same
  user in a world where its attachment files can be read (none empty, within the size limits), gives back
  exactly the draft of the call that saved it, on the account it was saved for, and a complete draft resumes at the review.\<close>

theorem save_resume_roundtrip:
  assumes "save_draft w new_id path_of appended c = Some (c1, es)" "Save_draft r \<in> set es"
    and "call_user c2 = call_user c" "readable_draft w2 (path_of (dr_id r)) (draft c)"
  shows "\<exists>c3 es'. resume_draft w2 r c2 = Some (c3, es') \<and> draft c3 = draft c1 \<and> active_account c3 = dr_account r \<and>
     (trim_space (draft_to (draft c)) \<noteq> [] \<longrightarrow> trim_space (draft_subject (draft c)) \<noteq> [] \<longrightarrow>
      trim_space (draft_body (draft c)) \<noteq> [] \<longrightarrow> state_of c3 = St_review)"
proof -
  obtain did aid where r: "r = saved_record c did aid path_of" "draft c1 = (draft c)\<lparr>draft_id := did\<rparr>" "did = dr_id r"
    using save_draft_record [OF assms(1,2)] by blast
  have l: "load_attachments w2 (dr_attachments r) [] 0 0 = (draft_attachments (draft c), 0)"
    unfolding r(1) by (rule saved_loads) (use assms(4) r(3) in simp)
  have d: "resumed_draft r (draft_attachments (draft c)) = (draft c)\<lparr>draft_id := did\<rparr>"
    unfolding r(1) by (rule resumed_saved)
  have u: "dr_user r = call_user c2" using assms(3) by (simp add: r(1) saved_record_def Let_def)
  let ?c3 = "resume_at ((draft c)\<lparr>draft_id := did\<rparr>)
      (c2\<lparr>draft := (draft c)\<lparr>draft_id := did\<rparr>, active_account := dr_account r, recipient_kind := [], editor := None\<rparr>)"
  have "\<exists>es'. resume_draft w2 r c2 = Some (?c3, es')"
    using u by (simp add: resume_draft_def l d eval_steps Let_def)
  then show ?thesis using r(2) by (auto simp: resume_at_fields)
qed

text \<open>The demonstration draft, saved and resumed.\<close>

theorem save_resume_roundtrip_witness:
  "\<exists>r c3 es'. resume_draft demo_world r (demo_call St_draft_list) = Some (c3, es') \<and>
     draft_body (draft c3) = ''Hello''"
proof -
  obtain c1 es r where s: "save_draft demo_world ''d1'' (\<lambda>_ _. []) True (demo_call St_review) = Some (c1, es)" "Save_draft r \<in> set es"
    by (simp add: save_draft_def Let_def eval_steps eval_demo find_account_def empty_draft_def)
  have u: "call_user (demo_call St_draft_list) = call_user (demo_call St_review)" by (simp add: eval_demo)
  have rd: "readable_draft demo_world p (draft (demo_call St_review))" for p
    by (simp add: readable_draft_def eval_demo empty_draft_def)
  have "draft_body (draft c1) = ''Hello''"
    using save_draft_record [OF s] by (auto simp: eval_demo)
  moreover obtain c3 es' where "resume_draft demo_world r (demo_call St_draft_list) = Some (c3, es')" "draft c3 = draft c1"
    using save_resume_roundtrip [OF s u rd] by blast
  ultimately have "resume_draft demo_world r (demo_call St_draft_list) = Some (c3, es') \<and> draft_body (draft c3) = ''Hello''"
    by simp
  then show ?thesis by (intro exI)
qed

section \<open>Abandoned recordings\<close>

lemma back_flow_fields [simp]: "record_generation (back_using_flow fb c) = record_generation c"
proof -
  obtain f n where "back_using_flow fb c = navigated c f n" using back_flow_step unfolding nav_step_def by blast
  then show ?thesis by (simp add: navigated_def)
qed

lemma stale_recording:
  assumes "record_generation c \<noteq> g"
  shows "recording_done g res c = Some (c, [])" "subject_done w g res c = Some (c, [])" "audio_done name g res c = Some (c, [])"
  using assms
  by (simp_all add: recording_done_def subject_done_def audio_done_def recording_active_def forget_recorder_def with_call_def upd_def)

lemma leave_recording:
  assumes "state_of c \<in> {St_recording, St_recording_subject, St_audio_recording}" "authenticated c" "\<not> closed c"
    and "key = CHR ''*'' \<or> key = CHR ''#''" "handle_menu w save key c = Some (c', es)"
  shows "record_generation c' = record_generation c + 1"
proof -
  have st: "state_of (ensure_flow c) = state_of c" by simp
  have ned: "\<not> is_editing (state_of c)" "\<not> is_help_state (state_of c)" "state_of c \<noteq> St_review"
    using assms(1) by (auto simp: is_editing_def is_help_state_def help_pages_def)
  have "map_of back_fallback (state_of c) = None" "map_of compose_back (state_of c) = None"
    using assms(1) by (auto simp: back_fallback_def compose_back_def)
  then have p: "record_generation (pound_back (ensure_flow c)) = record_generation c + 1"
    using assms(1) unfolding pound_back_def Let_def st by (auto simp: stop_recording_def)
  have r: "repeat_current_prompt w x = Some (y, es') \<Longrightarrow> record_generation y = record_generation x" for x y es'
    by (auto simp: repeat_current_prompt_def prompt_draft_list_def prompt_move_menu_def attachment_menu_def
        prompt_account_alert_folders_def eval_steps Let_def split: if_splits)
  show ?thesis using assms(4)
  proof
    assume k: "key = CHR ''*''"
    have "handle_star w (ensure_flow c) = Some (c', es)"
      using assms(2,3,5) ned k by (simp add: handle_menu_def eval_steps Let_def split: option.splits)
    then show ?thesis using assms(1) by (auto simp: handle_star_def eval_steps Let_def stop_recording_def split: if_splits)
  next
    assume k: "key = CHR ''#''"
    have "handle_pound w (ensure_flow c) = Some (c', es)"
      using assms(2,3,5) ned k by (simp add: handle_menu_def eval_steps Let_def split: option.splits)
    then have "\<exists>es'. repeat_current_prompt w (pound_back (ensure_flow c)) = Some (c', es')"
      using ned by (auto simp: handle_pound_def eval_steps split: option.splits)
    then show ?thesis using r p by fastforce
  qed
qed

text \<open>C33. Leaving a recording discards it: after star or pound in any of the three recording states,
  the recorder's result of that recording changes nothing and says nothing, whatever it is.\<close>

theorem left_recording_discarded:
  assumes "state_of c \<in> {St_recording, St_recording_subject, St_audio_recording}" "authenticated c" "\<not> closed c"
    and "key = CHR ''*'' \<or> key = CHR ''#''" "handle_menu w save key c = Some (c', es)"
  shows "recording_done (record_generation c) res c' = Some (c', []) \<and>
    subject_done w' (record_generation c) res c' = Some (c', []) \<and>
    audio_done name (record_generation c) res c' = Some (c', [])"
  using stale_recording [of c' "record_generation c"] leave_recording [OF assms] by simp

text \<open>The demonstration call leaves a recording of its message.\<close>

theorem left_recording_discarded_witness:
  "\<exists>c' es. handle_menu demo_world (\<lambda>_. skip) CHR ''#'' (demo_call St_recording) = Some (c', es) \<and>
     recording_done (record_generation (demo_call St_recording)) (Inr ''secret'') c' = Some (c', [])"
proof -
  have s: "state_of (demo_call St_recording) = St_recording" "authenticated (demo_call St_recording)" "\<not> closed (demo_call St_recording)"
    by (simp_all add: eval_navigation eval_demo)
  have ok: "call_inv (gate (demo_call St_recording)) (demo_call St_recording)"
    by (simp add: call_inv_def mirrored_def cursor_ok_def typing_ok_def alerts_ready_def eval_demo)
  obtain c' es where "handle_menu demo_world (\<lambda>_. skip) CHR ''#'' (demo_call St_recording) = Some (c', es)"
    using safe_handle_menu [of "gate (demo_call St_recording)" "\<lambda>_. skip"] safe.contract_skip ok
    unfolding safe_def [of _ "handle_menu _ _ _"] safe_at_def by blast
  with left_recording_discarded [of "demo_call St_recording"] s show ?thesis by blast
qed

end
