(* ===== verification/Bridge.thy ===== *)
theory Bridge
  imports Prelude
begin

text \<open>
  The frames of the control socket (internal/bridge/protocol.go): one JSON object per line.  The
  codec of \<open>encoding/json\<close> is a parameter (\<open>marshal\<close>, \<open>unmarshal\<close>).  A socket is
  what its successive reads return.  \<open>Decode\<close> wraps the reader it is given in a buffered reader
  of its own with a larger buffer, so the buffered bytes of a call are gone when it returns; the
  reader the call service passes (lifecycle.go) has a smaller buffer and hands such large reads on to
  the connection, so each refill is one read of the socket.
\<close>

section \<open>Messages\<close>

record message =
  m_version :: int
  m_type :: string
  m_call_id :: string
  m_request_id :: string
  m_user_id :: string
  m_from :: string
  m_digit :: string
  m_phase :: string
  m_reason :: string
  m_path :: string
  m_tx_path :: string
  m_rx_path :: string
  m_command :: string
  m_code :: int
  m_to :: string

definition empty_message :: message where
  "empty_message = \<lparr>m_version = 0, m_type = [], m_call_id = [], m_request_id = [], m_user_id = [],
     m_from = [], m_digit = [], m_phase = [], m_reason = [], m_path = [], m_tx_path = [],
     m_rx_path = [], m_command = [], m_code = 0, m_to = []\<rparr>"

datatype frame_error = Frame_too_long | End_of_stream | Bad_json | Bad_version int | No_type

definition protocol_version :: int where "protocol_version = 2"
definition max_frame_bytes :: nat where "max_frame_bytes = 64 * 1024"

abbreviation newline :: char where "newline \<equiv> CHR 0x0A"

section \<open>Encoding and decoding\<close>

definition encode :: "(message \<Rightarrow> string) \<Rightarrow> message \<Rightarrow> frame_error + string" where
  "encode marshal m =
     (let frame = marshal (m\<lparr>m_version := protocol_version\<rparr>) @ [newline]
      in if length frame > max_frame_bytes then Inl Frame_too_long else Inr frame)"

text \<open>The loop of \<open>Decode\<close>: the frame so far, the buffered bytes and the reads to come.\<close>

function read_frame :: "string \<Rightarrow> string \<Rightarrow> string list \<Rightarrow> (frame_error + string) \<times> string list" where
  "read_frame frame (c # buffer) socket =
     (if length frame \<ge> max_frame_bytes then (Inl Frame_too_long, socket)
      else if c = newline then (Inr (frame @ [c]), socket)
      else read_frame (frame @ [c]) buffer socket)"
| "read_frame frame [] (chunk # socket) =
     (if length frame \<ge> max_frame_bytes then (Inl Frame_too_long, chunk # socket)
      else read_frame frame chunk socket)"
| "read_frame frame [] [] =
     (if length frame \<ge> max_frame_bytes then (Inl Frame_too_long, []) else (Inl End_of_stream, []))"
  by pat_completeness auto
termination
  by (relation "measures [\<lambda>(_, _, socket). length socket, \<lambda>(_, buffer, _). length buffer]") auto

definition check_message :: "message \<Rightarrow> frame_error + message" where
  "check_message m =
     (if m_version m \<noteq> protocol_version then Inl (Bad_version (m_version m))
      else if m_type m = [] then Inl No_type else Inr m)"

definition decode :: "(string \<Rightarrow> message option) \<Rightarrow> string list \<Rightarrow> (frame_error + message) \<times> string list" where
  "decode unmarshal socket =
     (case read_frame [] [] socket of
        (Inl e, rest) \<Rightarrow> (Inl e, rest)
      | (Inr frame, rest) \<Rightarrow>
          (case unmarshal frame of None \<Rightarrow> (Inl Bad_json, rest) | Some m \<Rightarrow> (check_message m, rest)))"

section \<open>Reading frames\<close>

text \<open>A line in the buffer ends the frame; the rest of the buffer does not come back.\<close>

lemma read_frame_line:
  "newline \<notin> set line \<Longrightarrow> length (frame @ line) < max_frame_bytes \<Longrightarrow>
   read_frame frame (line @ newline # rest) socket = (Inr (frame @ line @ [newline]), socket)"
proof (induction line arbitrary: frame)
  case Nil
  then show ?case by simp
next
  case (Cons c line)
  then show ?case using Cons.IH [of "frame @ [c]"] by auto
qed

text \<open>Bytes without a line end are read on.\<close>

lemma read_frame_part:
  "newline \<notin> set part \<Longrightarrow> length (frame @ part) \<le> max_frame_bytes \<Longrightarrow>
   read_frame frame part socket = read_frame (frame @ part) [] socket"
proof (induction part arbitrary: frame)
  case Nil
  then show ?case by simp
next
  case (Cons c part)
  then show ?case using Cons.IH [of "frame @ [c]"] by auto
qed

lemma read_frame_chunks:
  "newline \<notin> set (concat chunks @ line) \<Longrightarrow> length (frame @ concat chunks @ line) < max_frame_bytes \<Longrightarrow>
   read_frame frame [] (chunks @ (line @ newline # rest) # socket)
     = (Inr (frame @ concat chunks @ line @ [newline]), socket)"
proof (induction chunks arbitrary: frame)
  case Nil
  then show ?case by (simp add: read_frame_line)
next
  case (Cons chunk chunks)
  then have "read_frame frame chunk (chunks @ (line @ newline # rest) # socket)
      = read_frame (frame @ chunk) [] (chunks @ (line @ newline # rest) # socket)"
    by (intro read_frame_part) auto
  then show ?case using Cons by simp
qed

text \<open>C23. A frame comes back as it was sent, however the socket cuts it into reads, when its last
  read ends with it: for a JSON codec that is inverse on messages of the protocol's version and
  never prints a line end, decoding what encoding wrote gives the message, and every
  message that encoding lets through is short enough for decoding.\<close>

theorem frame_roundtrip:
  assumes "encode marshal m = Inr frame" "m_type m \<noteq> []"
    and "unmarshal (marshal (m\<lparr>m_version := protocol_version\<rparr>) @ [newline]) = Some (m\<lparr>m_version := protocol_version\<rparr>)"
    and "newline \<notin> set (marshal (m\<lparr>m_version := protocol_version\<rparr>))"
    and "frame = concat chunks @ line @ [newline]"
  shows "decode unmarshal (chunks @ (line @ [newline]) # socket) = (Inr (m\<lparr>m_version := protocol_version\<rparr>), socket)"
proof -
  let ?m = "m\<lparr>m_version := protocol_version\<rparr>"
  have f: "frame = marshal ?m @ [newline]" "length frame \<le> max_frame_bytes"
    using assms(1) by (auto simp: encode_def Let_def split: if_splits)
  with assms have cl: "concat chunks @ line = marshal ?m" by simp
  have "length (marshal ?m) < max_frame_bytes" using f by simp
  with cl assms(4) have "read_frame [] [] (chunks @ (line @ [newline]) # socket) = (Inr (marshal ?m @ [newline]), socket)"
    using read_frame_chunks [of chunks line "[]" "[]" socket] by (simp flip: append_assoc)
  with assms show ?thesis by (simp add: decode_def check_message_def)
qed

text \<open>C26. Whatever follows a frame in the same read of the socket is lost: decoding the next frame goes on
  with the next read, so a frame that arrived together with its predecessor is never seen, and the
  rest of a frame cut by the read is taken for the start of one.\<close>

theorem coalesced_bytes_lost:
  assumes "newline \<notin> set line" "length line < max_frame_bytes"
  shows "decode unmarshal ((line @ newline # rest) # socket) = (fst (decode unmarshal [line @ [newline]]), socket)"
  using assms by (simp add: decode_def read_frame_line split: option.split)

section \<open>Witnesses\<close>

definition dtmf_message :: message where
  "dtmf_message = empty_message\<lparr>m_version := 2, m_type := ''dtmf'', m_call_id := ''c'', m_digit := ''1''\<rparr>"

text \<open>A frame cut in two reads, and the codec of one message.\<close>

theorem frame_roundtrip_witness:
  "decode (\<lambda>s. if s = ''{dtmf}'' @ [newline] then Some dtmf_message else None) [''{dt'', ''mf}'' @ [newline], ''next'']
     = (Inr dtmf_message, [''next''])"
proof -
  have m: "dtmf_message\<lparr>m_version := protocol_version\<rparr> = dtmf_message"
    by (simp add: dtmf_message_def protocol_version_def)
  have "encode (\<lambda>_. ''{dtmf}'') dtmf_message = Inr (''{dtmf}'' @ [newline])"
    by (simp add: encode_def max_frame_bytes_def)
  then show ?thesis
    using frame_roundtrip [of "\<lambda>_. ''{dtmf}''" dtmf_message "''{dtmf}'' @ [newline]"
      "\<lambda>s. if s = ''{dtmf}'' @ [newline] then Some dtmf_message else None" "[''{dt'']" "''mf}''" "[''next'']"]
    by (simp add: m) (simp add: dtmf_message_def empty_message_def)
qed

text \<open>Two key presses in one read: the second one is lost, and the stream has ended.\<close>

theorem coalesced_bytes_lost_witness:
  "decode (\<lambda>_. Some dtmf_message) [''{1}'' @ newline # ''{2}'' @ [newline]]
     = (fst (decode (\<lambda>_. Some dtmf_message) [''{1}'' @ [newline]]), [])"
  using coalesced_bytes_lost [of "''{1}''" "\<lambda>_. Some dtmf_message" "''{2}'' @ [newline]" "[]"]
  by (simp add: max_frame_bytes_def)

end
