(* ===== verification/Call_Service.thy ===== *)
theory Call_Service
  imports Call_Run Bridge
begin

text \<open>
  The call service around the calls (internal/calls: admission.go, lifecycle.go, verification.go
  and the dialling half of service.go): admission of incoming calls, alert calls and their
  outcome, PIN lockouts, revocation, the quiet window of a SIP restart and shutdown.

  The session objects are a store: tasks keep a pointer to an object after its call has left the
  session map, so an object is an index into \<open>sv_objects\<close> and the session map holds indices.
  Each function is one atomic step.  What it starts (\<open>startTask\<close>, timers), and what it goes on
  with after the lock was released and the bridge or the player was waited for, is put into
  \<open>sv_tasks\<close>; a task runs as a step of its own, at any later time (durations of timers are left
  out).  \<open>sv_history\<close> is what the service has done to the outside.  A done channel or outcome
  callback is a number, a speech lease is a token, times are integers (nanoseconds).
\<close>

section \<open>State\<close>

datatype alert_outcome = Alert_accepted | Alert_ringing | Alert_answered | Alert_playback_completed | Alert_failed

record dial_request =
  rq_id :: string
  rq_uri :: string
  rq_user :: string
  rq_account :: string
  rq_text :: string
  rq_done :: "nat option"
  rq_outcome :: "nat option"

record session_object =
  so_call :: call
  so_tx :: string
  so_rx :: string
  so_done :: "nat option"
  so_outcome :: "nat option"
  so_last :: "alert_outcome option"
  so_terminal :: bool
  so_plays :: nat
  so_inactivity :: bool
  so_inactivity_generation :: nat
  so_menu_lease :: "nat option"
  so_email_lease :: "nat option"

datatype task =
    Activate_media string string
  | Outgoing_timeout nat
  | Expire_pending string
  | Greet nat
  | Greeting_done nat
  | Play_alert nat
  | Alert_played nat
  | Speak_choice nat
  | Speak_verification nat
  | Verification_spoken nat
  | Prompt_done nat
  | Inactivity nat nat
  | Goodbye nat
  | Hangup_call string
  | Register_dial string dial_request
  | Send_dial string dial_request

text \<open>An outcome is given to a callback by a session object, or for a request without one.\<close>

datatype effect =
    Sent message
  | Reported nat nat alert_outcome
  | Request_outcome nat alert_outcome
  | Signal nat bool
  | Dial_failed nat
  | Set_lockout string int
  | Clear_lockout string
  | Speak nat string
  | In_call nat event

record service =
  sv_store :: bool
  sv_media :: bool
  sv_greeting :: bool
  sv_max_calls :: int
  sv_connected :: bool
  sv_objects :: "session_object list"
  sv_sessions :: "(string \<times> nat) list"
  sv_pending :: "(string \<times> dial_request) list"
  sv_pin_lock :: "(string \<times> int) list"
  sv_pin_no_lock :: "(string \<times> int) list"
  sv_sip_applying :: bool
  sv_shutting_down :: bool
  sv_tasks_closed :: bool
  sv_tasks :: "task list"
  sv_leases :: "nat list"
  sv_next_lease :: nat
  sv_history :: "effect list"

text \<open>What a step is answered: by the store, and by the socket for each message.\<close>

record desk =
  d_verification :: "string \<Rightarrow> (string \<times> string) option"
  d_routes :: "string \<Rightarrow> caller_route list option"
  d_user_by_phone :: "string \<Rightarrow> (string \<times> bool) option"
  d_lockout :: "string \<Rightarrow> int option option"
  d_send :: "message \<Rightarrow> bool"

definition log :: "effect \<Rightarrow> service \<Rightarrow> service" where
  "log e s = s\<lparr>sv_history := sv_history s @ [e]\<rparr>"

definition later :: "task \<Rightarrow> service \<Rightarrow> service" where
  "later t s = s\<lparr>sv_tasks := sv_tasks s @ [t]\<rparr>"

text \<open>\<open>startTask\<close>: nothing starts once the tasks are closed.\<close>

definition start_task :: "task \<Rightarrow> service \<Rightarrow> service" where
  "start_task t s = (if sv_tasks_closed s then s else later t s)"

definition object :: "nat \<Rightarrow> service \<Rightarrow> session_object" where
  "object i s = sv_objects s ! i"

definition modify :: "nat \<Rightarrow> (session_object \<Rightarrow> session_object) \<Rightarrow> service \<Rightarrow> service" where
  "modify i f s = s\<lparr>sv_objects := (sv_objects s)[i := f (sv_objects s ! i)]\<rparr>"

definition in_call :: "(call \<Rightarrow> call) \<Rightarrow> session_object \<Rightarrow> session_object" where
  "in_call f p = p\<lparr>so_call := f (so_call p)\<rparr>"

definition lookup :: "string \<Rightarrow> service \<Rightarrow> nat option" where
  "lookup cid s = map_of (sv_sessions s) cid"

definition forget_session :: "string \<Rightarrow> service \<Rightarrow> service" where
  "forget_session cid s = s\<lparr>sv_sessions := del cid (sv_sessions s)\<rparr>"

section \<open>The bridge\<close>

text \<open>\<open>sendBridge\<close>; the first argument says whether a connection to fall back on is at hand.\<close>

definition can_send :: "bool \<Rightarrow> desk \<Rightarrow> message \<Rightarrow> service \<Rightarrow> bool" where
  "can_send fallback d m s \<longleftrightarrow> (sv_connected s \<or> fallback) \<and> d_send d m"

definition send_bridge :: "bool \<Rightarrow> desk \<Rightarrow> message \<Rightarrow> service \<Rightarrow> service" where
  "send_bridge fallback d m s = (if can_send fallback d m s then log (Sent m) s else s)"

definition hangup_message :: "string \<Rightarrow> int \<Rightarrow> string \<Rightarrow> message" where
  "hangup_message cid code reason =
     empty_message\<lparr>m_type := ''hangup'', m_call_id := cid, m_code := code, m_reason := reason\<rparr>"

definition hangup :: "desk \<Rightarrow> string \<Rightarrow> service \<Rightarrow> service" where
  "hangup d cid = send_bridge False d (hangup_message cid 0 [])"

section \<open>Alert outcomes\<close>

fun rank :: "alert_outcome \<Rightarrow> nat" where
  "rank Alert_accepted = 1"
| "rank Alert_ringing = 2"
| "rank Alert_answered = 3"
| "rank Alert_playback_completed = 4"
| "rank Alert_failed = 4"

definition last_rank :: "alert_outcome option \<Rightarrow> nat" where
  "last_rank x = (case x of None \<Rightarrow> 0 | Some out \<Rightarrow> rank out)"

definition report_alert_outcome :: "alert_outcome \<Rightarrow> nat \<Rightarrow> service \<Rightarrow> service" where
  "report_alert_outcome out i s = (case so_outcome (object i s) of
      None \<Rightarrow> s
    | Some callback \<Rightarrow>
        if so_terminal (object i s) \<or> rank out \<le> last_rank (so_last (object i s)) then s
        else log (Reported i callback out)
          (modify i (\<lambda>p. p\<lparr>so_last := Some out,
             so_terminal := so_terminal p \<or> out = Alert_playback_completed \<or> out = Alert_failed\<rparr>) s))"

definition report_call_alert_outcome :: "string \<Rightarrow> alert_outcome \<Rightarrow> service \<Rightarrow> service" where
  "report_call_alert_outcome cid out s =
     (case lookup cid s of None \<Rightarrow> s | Some i \<Rightarrow> report_alert_outcome out i s)"

definition signal_alert :: "nat option \<Rightarrow> bool \<Rightarrow> service \<Rightarrow> service" where
  "signal_alert ch success s = (case ch of None \<Rightarrow> s | Some n \<Rightarrow> log (Signal n success) s)"

definition notify_alert :: "bool \<Rightarrow> nat \<Rightarrow> service \<Rightarrow> service" where
  "notify_alert success i s =
     signal_alert (so_done (object i s)) success (modify i (\<lambda>p. p\<lparr>so_done := None\<rparr>) s)"

definition report_dial_outcome :: "nat option \<Rightarrow> alert_outcome \<Rightarrow> service \<Rightarrow> service" where
  "report_dial_outcome callback out s = (case callback of None \<Rightarrow> s | Some n \<Rightarrow> log (Request_outcome n out) s)"

section \<open>Speech leases and timers\<close>

text \<open>\<open>ActivateForUserSpeeds\<close>: a lease for menus and one for mail; the session's old ones are
  overwritten.\<close>

definition activate_speech :: "nat \<Rightarrow> service \<Rightarrow> service" where
  "activate_speech i s =
     (if sv_media s then
        modify i (\<lambda>p. p\<lparr>so_menu_lease := Some (sv_next_lease s), so_email_lease := Some (sv_next_lease s + 1)\<rparr>)
          (s\<lparr>sv_leases := sv_leases s @ [sv_next_lease s, sv_next_lease s + 1], sv_next_lease := sv_next_lease s + 2\<rparr>)
      else s)"

definition release_lease :: "nat option \<Rightarrow> service \<Rightarrow> service" where
  "release_lease l s = (case l of None \<Rightarrow> s | Some n \<Rightarrow> s\<lparr>sv_leases := filter (\<lambda>m. m \<noteq> n) (sv_leases s)\<rparr>)"

definition release_session_speech :: "nat \<Rightarrow> service \<Rightarrow> service" where
  "release_session_speech i s =
     modify i (\<lambda>p. p\<lparr>so_menu_lease := None, so_email_lease := None\<rparr>)
       (release_lease (so_email_lease (object i s)) (release_lease (so_menu_lease (object i s)) s))"

definition arm_inactivity :: "nat \<Rightarrow> service \<Rightarrow> service" where
  "arm_inactivity i s =
     (if closed (so_call (object i s)) \<or> so_plays (object i s) > 0 then s
      else start_task (Inactivity i (so_inactivity_generation (object i s) + 1))
        (modify i (\<lambda>p. p\<lparr>so_inactivity := True, so_inactivity_generation := so_inactivity_generation p + 1\<rparr>) s))"

definition begin_media :: "nat \<Rightarrow> service \<Rightarrow> service" where
  "begin_media i = modify i (\<lambda>p. p\<lparr>so_plays := so_plays p + 1, so_inactivity := False,
     so_inactivity_generation := so_inactivity_generation p + 1\<rparr>)"

definition end_media :: "nat \<Rightarrow> service \<Rightarrow> service" where
  "end_media i s =
     (let s1 = modify i (\<lambda>p. p\<lparr>so_plays := so_plays p - 1\<rparr>) s; p = object i s1
      in if so_plays p = 0 \<and> \<not> closed (so_call p)
            \<and> state_of (so_call p) \<noteq> St_announce \<and> state_of (so_call p) \<noteq> St_outgoing
         then arm_inactivity i s1 else s1)"

text \<open>\<open>prompt\<close>: playing lasts until the task it goes on with runs.\<close>

definition prompt :: "nat \<Rightarrow> string \<Rightarrow> task \<Rightarrow> service \<Rightarrow> service" where
  "prompt i text next s =
     (if \<not> sv_media s \<or> so_tx (object i s) = [] then s
      else later next (begin_media i (log (Speak i text) s)))"

text \<open>The cancel functions of a session, when its call ends.\<close>

definition cancel_call :: "call \<Rightarrow> call" where
  "cancel_call c = c\<lparr>attachment_cancel := False, record_cancel := False\<rparr>"

definition cancel_work :: "session_object \<Rightarrow> session_object" where
  "cancel_work p = (in_call cancel_call p)\<lparr>so_inactivity := False\<rparr>"

definition close_session :: "session_object \<Rightarrow> session_object" where
  "close_session p = in_call (\<lambda>c. c\<lparr>closed := True\<rparr>) (cancel_work p)"

end
