(* ===== verification/Call_Admission.thy ===== *)
theory Call_Admission
  imports Call_Service
begin

text \<open>
  The operations of the call service: PIN lockouts and admission (admission.go), dialling
  (service.go, verification.go), establishment, close, revocation, the quiet window, drain and the loss of the
  bridge (lifecycle.go), and the tasks they start.
\<close>

section \<open>Phone numbers\<close>

text \<open>\<open>Normalize\<close> of internal/phone.\<close>

definition cut_at :: "char \<Rightarrow> string \<Rightarrow> string" where
  "cut_at c s = (case index_byte s c of None \<Rightarrow> s | Some i \<Rightarrow> take i s)"

definition cut_through :: "char \<Rightarrow> string \<Rightarrow> string" where
  "cut_through c s = (case last_index_byte s c of None \<Rightarrow> s | Some i \<Rightarrow> drop (i + 1) s)"

definition normalize :: "string \<Rightarrow> string" where
  "normalize value = cut_at CHR '';'' (cut_through CHR '':'' (cut_at CHR ''@'' (trim_space value)))"

section \<open>PIN lockouts\<close>

definition second :: int where "second = 1000000000"
definition pin_cooldown :: int where "pin_cooldown = 15 * 60 * second"
definition no_lock_cache :: int where "no_lock_cache = 30 * second"

definition persisted_lockout :: "desk \<Rightarrow> int \<Rightarrow> string \<Rightarrow> service \<Rightarrow> int option \<times> service" where
  "persisted_lockout d now number s =
     (if \<not> sv_store s then (None, s)
      else case d_lockout d number of
          None \<Rightarrow> (None, s)
        | Some (Some until) \<Rightarrow>
            if until > now then (Some until, s\<lparr>sv_pin_lock := put number until (sv_pin_lock s)\<rparr>)
            else (None, s\<lparr>sv_pin_no_lock := put number now (sv_pin_no_lock s)\<rparr>)
        | Some None \<Rightarrow> (None, s\<lparr>sv_pin_no_lock := put number now (sv_pin_no_lock s)\<rparr>))"

definition pin_locked_until :: "desk \<Rightarrow> int \<Rightarrow> string \<Rightarrow> service \<Rightarrow> int option \<times> service" where
  "pin_locked_until d now number s =
     (if number = [] then (None, s)
      else case map_of (sv_pin_lock s) number of
          Some until \<Rightarrow>
            if until > now then (Some until, s)
            else persisted_lockout d now number (s\<lparr>sv_pin_lock := del number (sv_pin_lock s)\<rparr>)
        | None \<Rightarrow>
            (case map_of (sv_pin_no_lock s) number of
               Some checked \<Rightarrow> if now - checked < no_lock_cache then (None, s) else persisted_lockout d now number s
             | None \<Rightarrow> persisted_lockout d now number s))"

definition record_pin_failure :: "int \<Rightarrow> string \<Rightarrow> service \<Rightarrow> service" where
  "record_pin_failure now number s =
     (if number = [] then s
      else (let s1 = s\<lparr>sv_pin_lock := put number (now + pin_cooldown) (sv_pin_lock s)\<rparr>
            in if sv_store s then log (Set_lockout number (now + pin_cooldown)) s1 else s1))"

definition clear_pin_failure :: "string \<Rightarrow> service \<Rightarrow> service" where
  "clear_pin_failure number s =
     (if number = [] then s
      else (let s1 = s\<lparr>sv_pin_lock := del number (sv_pin_lock s)\<rparr>
            in if sv_store s then log (Clear_lockout number) s1 else s1))"

section \<open>Admission\<close>

definition new_object :: "call \<Rightarrow> message \<Rightarrow> session_object" where
  "new_object c m = \<lparr>so_call = c, so_tx = m_tx_path m, so_rx = m_rx_path m, so_done = None, so_outcome = None,
     so_last = None, so_terminal = False, so_plays = 0, so_inactivity = False,
     so_inactivity_generation = 0, so_menu_lease = None, so_email_lease = None\<rparr>"

definition add_session :: "session_object \<Rightarrow> service \<Rightarrow> service" where
  "add_session p s = s\<lparr>sv_objects := sv_objects s @ [p],
     sv_sessions := put (call_id (so_call p)) (length (sv_objects s)) (sv_sessions s)\<rparr>"

definition open_session :: "string \<Rightarrow> service \<Rightarrow> bool" where
  "open_session cid s \<longleftrightarrow> (case lookup cid s of None \<Rightarrow> False | Some i \<Rightarrow> \<not> closed (so_call (object i s)))"

definition busy :: "service \<Rightarrow> bool" where
  "busy s \<longleftrightarrow> sv_sip_applying s \<or> (sv_max_calls s > 0 \<and> int (length (sv_sessions s)) \<ge> sv_max_calls s)"

definition incoming_call :: "string \<Rightarrow> string \<Rightarrow> string \<Rightarrow> state \<Rightarrow> call" where
  "incoming_call cid uid number st =
     (blank_call cid uid number st)\<lparr>call_flow := Some ((new_session cid)\<lparr>fl_state := st\<rparr>)\<rparr>"

text \<open>The common part of \<open>admit\<close> and \<open>admitVerification\<close>: the guards, the new session, its timer
  and the answer, after which the speech runtime is activated.\<close>

definition accept_call :: "desk \<Rightarrow> message \<Rightarrow> string \<Rightarrow> call \<Rightarrow> service \<Rightarrow> bool \<times> service" where
  "accept_call d m uid c s =
     (if open_session (m_call_id m) s then (True, s)
      else if sv_shutting_down s then
        (let bye = hangup_message (m_call_id m) 503 ''server is shutting down'' in (can_send True d bye s, send_bridge True d bye s))
      else if busy s then
        (let bye = hangup_message (m_call_id m) 486 ''all lines are busy'' in (can_send True d bye s, send_bridge True d bye s))
      else
        (let s1 = arm_inactivity (length (sv_objects s)) (add_session (new_object c m) s);
             answer = empty_message\<lparr>m_type := ''answer'', m_call_id := m_call_id m, m_user_id := uid\<rparr>
         in if can_send True d answer s1 then (True, later (Activate_media (m_call_id m) uid) (send_bridge True d answer s1))
            else (False, s1)))"

definition reject :: "desk \<Rightarrow> message \<Rightarrow> int \<Rightarrow> string \<Rightarrow> service \<Rightarrow> bool \<times> service" where
  "reject d m code reason s =
     (let bye = hangup_message (m_call_id m) code reason in (can_send True d bye s, send_bridge True d bye s))"

definition admit_verification :: "desk \<Rightarrow> message \<Rightarrow> string \<times> string \<Rightarrow> service \<Rightarrow> bool \<times> service" where
  "admit_verification d m v =
     accept_call d m (fst v)
       ((incoming_call (m_call_id m) (fst v) (normalize (m_from m)) St_verification)\<lparr>verification_code := snd v\<rparr>)"

text \<open>The accounts a number reaches; a number of the caller list without bindings reaches its owner.\<close>

definition routes_for :: "desk \<Rightarrow> string \<Rightarrow> caller_route list option" where
  "routes_for d number = (case d_routes d number of
      None \<Rightarrow> None
    | Some [] \<Rightarrow>
        (case d_user_by_phone d number of
           Some (uid, True) \<Rightarrow> Some [\<lparr>route_user = uid, route_username = [], route_account = [], route_account_name = []\<rparr>]
         | _ \<Rightarrow> None)
    | Some routes \<Rightarrow> Some routes)"

text \<open>The result says whether the handler returned without an error; with one the event worker hangs
  up the call.\<close>

definition admit :: "desk \<Rightarrow> int \<Rightarrow> message \<Rightarrow> service \<Rightarrow> bool \<times> service" where
  "admit d now m s =
     (let number = normalize (m_from m)
      in if \<not> sv_store s then reject d m 500 ''server unavailable'' s
         else case d_verification d number of
             Some v \<Rightarrow> admit_verification d m v s
           | None \<Rightarrow>
              (case pin_locked_until d now number s of
                 (Some _, s1) \<Rightarrow> reject d m 603 ''caller is temporarily locked out'' s1
               | (None, s1) \<Rightarrow>
                  (case routes_for d number of
                     None \<Rightarrow> reject d m 603 ''caller not authorized'' s1
                   | Some routes \<Rightarrow>
                      (let uid = route_user (hd routes)
                       in accept_call d m uid
                            (if length routes > 1
                             then (incoming_call (m_call_id m) uid number St_account_choice)\<lparr>choices := routes\<rparr>
                             else incoming_call (m_call_id m) uid number St_pin) s1))))"

definition activate_media :: "string \<Rightarrow> string \<Rightarrow> service \<Rightarrow> service" where
  "activate_media cid uid s = (case lookup cid s of None \<Rightarrow> s | Some i \<Rightarrow> activate_speech i s)"

section \<open>Dialling\<close>

datatype dial_error = Not_connected | Shutting_down | Applying | No_uri

text \<open>The first half of \<open>Dial\<close>, before the request is registered.\<close>

definition dial_begin :: "dial_request \<Rightarrow> service \<Rightarrow> dial_error option" where
  "dial_begin req s =
     (if \<not> sv_connected s then Some Not_connected
      else if sv_shutting_down s then Some Shutting_down
      else if sv_sip_applying s then Some Applying
      else if trim_space (rq_uri req) = [] then Some No_uri
      else None)"

text \<open>The second half: the request is registered under its identifier (\<open>NewRequestID\<close> makes one
  for a request that has none), its timeout starts and the message is sent.\<close>

definition dial_register :: "string \<Rightarrow> dial_request \<Rightarrow> service \<Rightarrow> service" where
  "dial_register rid req s =
     later (Send_dial rid (req\<lparr>rq_id := rid\<rparr>)) (start_task (Expire_pending rid)
       (s\<lparr>sv_pending := put rid (req\<lparr>rq_id := rid\<rparr>) (sv_pending s)\<rparr>))"

definition dial :: "string \<Rightarrow> dial_request \<Rightarrow> service \<Rightarrow> service" where
  "dial fresh req s =
     (case dial_begin req s of
        Some e \<Rightarrow> (case rq_done req of None \<Rightarrow> s | Some n \<Rightarrow> log (Dial_failed n) s)
      | None \<Rightarrow> later (Register_dial (if rq_id req = [] then fresh else rq_id req) req) s)"

text \<open>What \<open>Dial\<close> does when the bridge has taken the message, or has not.\<close>

definition dial_sent :: "string \<Rightarrow> dial_request \<Rightarrow> bool \<Rightarrow> service \<Rightarrow> service" where
  "dial_sent rid req ok s =
     (if ok then report_dial_outcome (rq_outcome req) Alert_accepted
               (log (Sent (empty_message\<lparr>m_type := ''dial'', m_request_id := rid, m_to := trim_space (rq_uri req)\<rparr>)) s)
      else
        (let s1 = s\<lparr>sv_pending := del rid (sv_pending s), sv_tasks := remove1 (Expire_pending rid) (sv_tasks s)\<rparr>;
             s2 = report_dial_outcome (rq_outcome req) Alert_failed s1
         in case rq_done req of None \<Rightarrow> s2 | Some n \<Rightarrow> log (Dial_failed n) s2))"

definition fail_request :: "dial_request \<Rightarrow> service \<Rightarrow> service" where
  "fail_request req s = signal_alert (rq_done req) False (report_dial_outcome (rq_outcome req) Alert_failed s)"

definition fail_pending :: "string \<Rightarrow> service \<Rightarrow> service" where
  "fail_pending rid s = (case map_of (sv_pending s) rid of
      None \<Rightarrow> s
    | Some req \<Rightarrow> fail_request req (s\<lparr>sv_pending := del rid (sv_pending s)\<rparr>))"

text \<open>\<open>DialVerification\<close>: the code is spoken digit by digit.  The pieces \<open>strings.Split\<close> makes
  of it are its UTF-8 sequences.\<close>

function explode :: "string \<Rightarrow> string list" where
  "explode [] = []"
| "explode (c # cs) = take (snd (decode_rune (c # cs))) (c # cs) # explode (drop (snd (decode_rune (c # cs)) - 1) cs)"
  by pat_completeness auto
termination
  by (relation "measure length") auto

definition spaced :: "string \<Rightarrow> string" where
  "spaced code = join (explode code) '' ''"

definition verification_request :: "string \<Rightarrow> string \<Rightarrow> string \<Rightarrow> nat \<Rightarrow> dial_request" where
  "verification_request uri uid code ch = \<lparr>rq_id = [], rq_uri = uri, rq_user = uid, rq_account = [],
     rq_text = ''Your VOXMail verification code is '' @ spaced code @ ''. You can hang up now. Goodbye.'',
     rq_done = Some ch, rq_outcome = None\<rparr>"

section \<open>Outgoing calls\<close>

text \<open>The request of a \<open>call_outgoing\<close> event: the one it names, or the only one when it names none.\<close>

definition take_request :: "message \<Rightarrow> service \<Rightarrow> dial_request option \<times> service" where
  "take_request m s =
     (if m_request_id m \<noteq> [] then
        (case map_of (sv_pending s) (m_request_id m) of
           Some req \<Rightarrow> (Some req, s\<lparr>sv_pending := del (m_request_id m) (sv_pending s)\<rparr>)
         | None \<Rightarrow> (None, s))
      else
        (case sv_pending s of
           [(rid, req)] \<Rightarrow> (Some req, s\<lparr>sv_pending := []\<rparr>)
         | _ \<Rightarrow> (None, s)))"

definition outgoing_object :: "message \<Rightarrow> dial_request \<Rightarrow> session_object" where
  "outgoing_object m req =
     (new_object ((blank_call (m_call_id m) (rq_user req) [] St_outgoing)\<lparr>alert_text := rq_text req\<rparr>) m)
       \<lparr>so_done := rq_done req, so_outcome := rq_outcome req\<rparr>"

definition start_outgoing :: "desk \<Rightarrow> message \<Rightarrow> service \<Rightarrow> bool \<times> service" where
  "start_outgoing d m s =
     (if m_call_id m = [] then (False, s)
      else if lookup (m_call_id m) s \<noteq> None then (True, s)
      else case take_request m s of
          (Some req, s1) \<Rightarrow>
            if rq_user req = [] then reject d m 603 ''unknown outgoing call'' s1
            else (True, start_task (Outgoing_timeout (length (sv_objects s1)))
                   (activate_speech (length (sv_objects s1)) (add_session (outgoing_object m req) s1)))
        | (None, s1) \<Rightarrow> reject d m 603 ''unknown outgoing call'' s1)"

definition outgoing_timeout :: "desk \<Rightarrow> nat \<Rightarrow> service \<Rightarrow> service" where
  "outgoing_timeout d i s =
     (let cid = call_id (so_call (object i s))
      in if lookup cid s = Some i \<and> state_of (so_call (object i s)) = St_outgoing
         then hangup d cid (notify_alert False i (report_alert_outcome Alert_failed i s)) else s)"

definition alert_finished :: "desk \<Rightarrow> bool \<Rightarrow> nat \<Rightarrow> service \<Rightarrow> service" where
  "alert_finished d success i s =
     hangup d (call_id (so_call (object i s)))
       (notify_alert success i
         (report_alert_outcome (if success then Alert_playback_completed else Alert_failed) i s))"

definition play_outgoing_alert :: "desk \<Rightarrow> nat \<Rightarrow> service \<Rightarrow> service" where
  "play_outgoing_alert d i s =
     (let s1 = modify i (in_call (transition St_announce)) s
      in if sv_media s1 \<and> alert_text (so_call (object i s1)) \<noteq> [] \<and> so_tx (object i s1) \<noteq> []
         then prompt i (alert_text (so_call (object i s1))) (Alert_played i) s1
         else alert_finished d False i s1)"

section \<open>Established calls\<close>

definition on_established :: "string \<Rightarrow> service \<Rightarrow> service" where
  "on_established cid s = (case lookup cid s of
      None \<Rightarrow> s
    | Some i \<Rightarrow>
        if closed (so_call (object i s)) \<or> established (so_call (object i s)) then s
        else (let s1 = modify i (in_call (\<lambda>c. ensure_flow (c\<lparr>established := True\<rparr>))) s;
                  st = call_state (so_call (object i s1))
              in start_task (if st = St_outgoing then Play_alert i
                             else if st = St_account_choice then Speak_choice i
                             else if st = St_verification then Speak_verification i
                             else Greet i) s1))"

definition static_welcome :: string where
  "static_welcome = ''Welcome to VOXMail. Please enter your PIN, then press pound.''"

definition greet :: "nat \<Rightarrow> service \<Rightarrow> service" where
  "greet i s =
     (if \<not> sv_media s then s
      else (let s1 = modify i (in_call (\<lambda>c. c\<lparr>greet_attempts := greet_attempts c + 1\<rparr>)) s
            in if greet_attempts (so_call (object i s1)) \<noteq> 1 then s1
               else if sv_greeting s1 then later (Greeting_done i) (begin_media i (log (In_call i Play_greeting) s1))
               else prompt i static_welcome (Prompt_done i) s1))"

text \<open>Closing without a hang-up by the peer, when a session has nothing to say.\<close>

definition give_up :: "desk \<Rightarrow> nat \<Rightarrow> service \<Rightarrow> service" where
  "give_up d i s = hangup d (call_id (so_call (object i s)))
     (modify i (in_call (\<lambda>c. (transition St_closed c)\<lparr>closed := True\<rparr>)) s)"

definition speak_choice :: "desk \<Rightarrow> nat \<Rightarrow> service \<Rightarrow> service" where
  "speak_choice d i s =
     (if choices (so_call (object i s)) = [] then give_up d i s
      else prompt i (account_choice_prompt (choices (so_call (object i s)))) (Prompt_done i)
             (modify i (in_call (transition St_account_choice)) s))"

definition speak_verification :: "desk \<Rightarrow> nat \<Rightarrow> service \<Rightarrow> service" where
  "speak_verification d i s =
     (let code = verification_code (so_call (object i s))
      in if code = [] then give_up d i s
         else (let s1 = modify i (in_call (transition St_verification)) s
               in if sv_media s1 \<and> so_tx (object i s1) \<noteq> []
                  then prompt i (''Your VOXMail verification code is '' @ spaced code @ ''.'') (Verification_spoken i) s1
                  else start_task (Hangup_call (call_id (so_call (object i s1)))) s1))"

section \<open>The end of calls\<close>

definition close_call :: "string \<Rightarrow> service \<Rightarrow> service" where
  "close_call cid s = (case lookup cid s of
      None \<Rightarrow> s
    | Some i \<Rightarrow>
       (let s1 = modify i (in_call ensure_flow \<circ> close_session) s;
            announced = (call_state (so_call (object i s1)) = St_announce \<and> so_plays (object i s1) > 0)
        in release_session_speech i
             (report_alert_outcome (if announced then Alert_playback_completed else Alert_failed) i
               (notify_alert announced i (forget_session cid s1)))))"

definition command_error :: "message \<Rightarrow> service \<Rightarrow> service" where
  "command_error m s =
     (let s1 = (if m_request_id m \<noteq> [] then fail_pending (m_request_id m) s else s)
      in if m_call_id m \<noteq> [] then close_call (m_call_id m) s1 else s1)"

text \<open>The session objects and requests of a user, as they are swept from the maps.\<close>

definition sessions_of :: "string \<Rightarrow> service \<Rightarrow> nat list" where
  "sessions_of uid s = filter (\<lambda>i. call_user (so_call (object i s)) = uid) (map snd (sv_sessions s))"

definition revoke_object :: "session_object \<Rightarrow> session_object" where
  "revoke_object p = in_call (\<lambda>c. c\<lparr>call_flow := map_option close_flow (call_flow c)\<rparr>) (close_session p)"

definition settle_revoked :: "desk \<Rightarrow> string \<Rightarrow> nat \<Rightarrow> service \<Rightarrow> service" where
  "settle_revoked d reason i s =
     release_session_speech i (notify_alert False i (report_alert_outcome Alert_failed i
       (send_bridge False d (hangup_message (call_id (so_call (object i s))) 603 reason) s)))"

definition invalidate_user :: "desk \<Rightarrow> string \<Rightarrow> string \<Rightarrow> service \<Rightarrow> service" where
  "invalidate_user d uid reason s =
     (if trim_space uid = [] then s
      else
        (let swept = map snd (filter (\<lambda>(_, req). rq_user req = uid) (sv_pending s));
             revoked = sessions_of uid s;
             s1 = fold (\<lambda>i. modify i revoke_object) revoked s;
             s2 = s1\<lparr>sv_pending := filter (\<lambda>(_, req). rq_user req \<noteq> uid) (sv_pending s1),
                     sv_sessions := filter (\<lambda>(_, i). i \<notin> set revoked) (sv_sessions s1)\<rparr>
         in fold (settle_revoked d reason) revoked (fold fail_request swept s2)))"

text \<open>The end of a bridge connection, and the start of the next one.\<close>

definition settle_lost :: "nat \<Rightarrow> service \<Rightarrow> service" where
  "settle_lost i s = release_session_speech i (report_alert_outcome Alert_failed i (notify_alert False i
     (modify i (\<lambda>p. (in_call (\<lambda>c. (cancel_call c)\<lparr>closed := True\<rparr>) p)\<lparr>so_inactivity := False\<rparr>) s)))"

definition disconnect :: "service \<Rightarrow> service" where
  "disconnect s =
     (let swept = map snd (sv_pending s); lost = map snd (sv_sessions s);
          s1 = s\<lparr>sv_connected := False, sv_pending := [], sv_sessions := []\<rparr>
      in fold settle_lost lost (fold fail_request swept s1))"

definition connect :: "service \<Rightarrow> service" where
  "connect s = s\<lparr>sv_connected := True\<rparr>"

section \<open>Quiet window and shutdown\<close>

definition active_calls :: "service \<Rightarrow> nat" where
  "active_calls s = length (sv_sessions s) + length (sv_pending s)"

definition begin_sip_apply :: "service \<Rightarrow> bool \<times> service" where
  "begin_sip_apply s =
     (if sv_shutting_down s \<or> sv_sessions s \<noteq> [] \<or> sv_pending s \<noteq> [] then (False, s)
      else (True, s\<lparr>sv_sip_applying := True\<rparr>))"

definition end_sip_apply :: "service \<Rightarrow> service" where
  "end_sip_apply s = s\<lparr>sv_sip_applying := False\<rparr>"

definition drain_object :: "session_object \<Rightarrow> session_object" where
  "drain_object p = in_call (\<lambda>c. c\<lparr>call_flow := map_option close_flow (call_flow c)\<rparr>) (cancel_work p)"

text \<open>The first half of \<open>Drain\<close>; then it waits until no call is active or its context ends.\<close>

definition drain_begin :: "desk \<Rightarrow> service \<Rightarrow> service" where
  "drain_begin d s =
     (let found = map snd (sv_sessions s); swept = map snd (sv_pending s);
          s1 = fold (\<lambda>i. modify i drain_object) found (s\<lparr>sv_shutting_down := True\<rparr>);
          s2 = s1\<lparr>sv_pending := [], sv_tasks_closed := True\<rparr>
      in fold (\<lambda>i s. send_bridge False d (hangup_message (call_id (so_call (object i s))) 503 ''server is shutting down'') s)
           found (fold fail_request swept s2))"

definition drained :: "service \<Rightarrow> bool" where
  "drained s \<longleftrightarrow> active_calls s = 0"

end
