(* ===== verification/Call_System.thy ===== *)
theory Call_System
  imports Call_Admission
begin

text \<open>
  The call service as a system: the events of the bridge (\<open>handle\<close> in events.go), keys on a call
  (\<open>handleDTMF\<close> with the PIN lockout), the tasks, and the steps of a running service.
\<close>

section \<open>Keys\<close>

text \<open>What an event of a call does to the service.\<close>

definition perform :: "desk \<Rightarrow> int \<Rightarrow> nat \<Rightarrow> event \<Rightarrow> service \<Rightarrow> service" where
  "perform d now i e s = (case e of
      Lock_pin number \<Rightarrow> record_pin_failure now number s
    | Unlock_pin number \<Rightarrow> clear_pin_failure number s
    | Hangup code reason \<Rightarrow> send_bridge (code \<noteq> 0) d (hangup_message (call_id (so_call (object i s))) code reason) s
    | _ \<Rightarrow> log (In_call i e) s)"

text \<open>A key of a call; choosing an account switches the speech runtime.\<close>

definition press_key :: "desk \<Rightarrow> int \<Rightarrow> world \<Rightarrow> (call \<Rightarrow> step) \<Rightarrow> string \<Rightarrow> char \<Rightarrow> service \<Rightarrow> service option" where
  "press_key d now w save cid key s = (case lookup cid s of
      None \<Rightarrow> Some s
    | Some i \<Rightarrow>
        if closed (so_call (object i s)) then Some s
        else
          (let s1 = arm_inactivity i s; c = so_call (object i s1)
           in case handle_dtmf w save key c of
               None \<Rightarrow> None
             | Some (c', es) \<Rightarrow>
                 (let s2 = modify i (in_call (\<lambda>_. c')) s1;
                      s3 = (if choices c \<noteq> [] \<and> choices c' = [] then activate_speech i s2 else s2)
                  in Some (fold (perform d now i) es s3))))"

text \<open>The end of a call's own work (a recording, a playback, a refresh).\<close>

definition is_work :: "input \<Rightarrow> bool" where
  "is_work input \<longleftrightarrow> (case input of Key _ _ _ _ _ \<Rightarrow> False | _ \<Rightarrow> True)"

definition call_work :: "desk \<Rightarrow> int \<Rightarrow> nat \<Rightarrow> input \<Rightarrow> service \<Rightarrow> service option" where
  "call_work d now i input s = (case call_step input (so_call (object i s)) of
      None \<Rightarrow> None
    | Some (c', es) \<Rightarrow> Some (fold (perform d now i) es (modify i (in_call (\<lambda>_. c')) s)))"

section \<open>Bridge events\<close>

definition valid_dtmf_key :: "string \<Rightarrow> bool" where
  "valid_dtmf_key key \<longleftrightarrow> (case key of [c] \<Rightarrow> is_digit c \<or> c = CHR ''*'' \<or> c = CHR ''#'' | _ \<Rightarrow> False)"

text \<open>\<open>handle\<close>: \<open>None\<close> is a panic; the boolean says that no error was returned.\<close>

definition handle_event :: "desk \<Rightarrow> int \<Rightarrow> world \<Rightarrow> (call \<Rightarrow> step) \<Rightarrow> message \<Rightarrow> service \<Rightarrow> (bool \<times> service) option" where
  "handle_event d now w save m s =
     (if m_type m = ''call_incoming'' then Some (admit d now m s)
      else if m_type m = ''call_outgoing'' then Some (start_outgoing d m s)
      else if m_type m = ''call_established'' then
        Some (True, on_established (m_call_id m) (report_call_alert_outcome (m_call_id m) Alert_answered s))
      else if m_type m = ''call_ringing'' then
        Some (True, report_call_alert_outcome (m_call_id m) Alert_ringing s)
      else if m_type m = ''dtmf'' then
        (if m_phase m \<noteq> [] \<and> m_phase m \<noteq> ''start'' \<or> \<not> valid_dtmf_key (m_digit m) then Some (True, s)
         else map_option (Pair True) (press_key d now w save (m_call_id m) (hd (m_digit m)) s))
      else Some (True, s))"

section \<open>Tasks\<close>

definition inactivity :: "nat \<Rightarrow> nat \<Rightarrow> service \<Rightarrow> service" where
  "inactivity i generation s =
     (if closed (so_call (object i s)) \<or> so_inactivity_generation (object i s) \<noteq> generation then s
      else start_task (Hangup_call (call_id (so_call (object i s)))) (start_task (Goodbye i)
        (modify i (\<lambda>p. p\<lparr>so_inactivity := False, so_inactivity_generation := so_inactivity_generation p + 1\<rparr>) s)))"

text \<open>\<open>ok\<close> is the result the task waited for: of the playback, or of sending the message.\<close>

definition run_task :: "desk \<Rightarrow> bool \<Rightarrow> task \<Rightarrow> service \<Rightarrow> service" where
  "run_task d ok t s = (case t of
      Activate_media cid uid \<Rightarrow> activate_media cid uid s
    | Outgoing_timeout i \<Rightarrow> outgoing_timeout d i s
    | Expire_pending rid \<Rightarrow> fail_pending rid s
    | Greet i \<Rightarrow> greet i s
    | Greeting_done i \<Rightarrow>
        (if ok then end_media i s else prompt i (menu_prompt St_pin) (Prompt_done i) (end_media i s))
    | Play_alert i \<Rightarrow> play_outgoing_alert d i s
    | Alert_played i \<Rightarrow> alert_finished d ok i (end_media i s)
    | Speak_choice i \<Rightarrow> speak_choice d i s
    | Speak_verification i \<Rightarrow> speak_verification d i s
    | Verification_spoken i \<Rightarrow>
        (let s1 = end_media i s; cid = call_id (so_call (object i s1))
         in if ok then start_task (Hangup_call cid) s1 else hangup d cid s1)
    | Prompt_done i \<Rightarrow> end_media i s
    | Inactivity i generation \<Rightarrow> inactivity i generation s
    | Goodbye i \<Rightarrow> prompt i ''No input was received. Goodbye.'' (Prompt_done i) s
    | Hangup_call cid \<Rightarrow> hangup d cid s
    | Register_dial rid req \<Rightarrow> dial_register rid req s
    | Send_dial rid req \<Rightarrow> dial_sent rid req ok s)"

definition take_task :: "task \<Rightarrow> service \<Rightarrow> service" where
  "take_task t s = s\<lparr>sv_tasks := remove1 t (sv_tasks s)\<rparr>"

section \<open>Steps\<close>

definition new_service :: "bool \<Rightarrow> bool \<Rightarrow> bool \<Rightarrow> int \<Rightarrow> service" where
  "new_service store media greeting lines = \<lparr>sv_store = store, sv_media = media, sv_greeting = greeting,
     sv_max_calls = lines, sv_connected = False, sv_objects = [], sv_sessions = [], sv_pending = [],
     sv_pin_lock = [], sv_pin_no_lock = [], sv_sip_applying = False, sv_shutting_down = False,
     sv_tasks_closed = False, sv_tasks = [], sv_leases = [], sv_next_lease = 0, sv_history = []\<rparr>"

text \<open>The done channels a service knows: in requests on their way, in pending requests, in sessions,
  or already used.\<close>

definition request_ids :: "service \<Rightarrow> string set" where
  "request_ids s = fst ` set (sv_pending s) \<union> {rid. \<exists>req. Register_dial rid req \<in> set (sv_tasks s) \<or> Send_dial rid req \<in> set (sv_tasks s)}"

definition task_done :: "task \<Rightarrow> nat option" where
  "task_done t = (case t of Register_dial _ req \<Rightarrow> rq_done req | _ \<Rightarrow> None)"

definition holders :: "nat \<Rightarrow> service \<Rightarrow> nat" where
  "holders n s = length (filter (\<lambda>(_, req). rq_done req = Some n) (sv_pending s))
     + length (filter (\<lambda>p. so_done p = Some n) (sv_objects s))
     + length (filter (\<lambda>t. task_done t = Some n) (sv_tasks s))"

definition signals :: "nat \<Rightarrow> service \<Rightarrow> nat" where
  "signals n s = length (filter (\<lambda>e. \<exists>b. e = Signal n b) (sv_history s))"

definition failures :: "nat \<Rightarrow> service \<Rightarrow> nat" where
  "failures n s = length (filter (\<lambda>e. e = Dial_failed n) (sv_history s))"

text \<open>A step of the service.  A request comes with a channel of its own, for a user, and with an
  identifier not in use (\<open>NewRequestID\<close> draws 128 random bits).\<close>

inductive service_step :: "service \<Rightarrow> service \<Rightarrow> bool" where
  Bridge_event: "handle_event d now w (\<lambda>_. save_draft w new_id path_of appended) m s = Some (ok, s') \<Longrightarrow> service_step s s'"
| Call_work: "i < length (sv_objects s) \<Longrightarrow> is_work input \<Longrightarrow> call_work d now i input s = Some s' \<Longrightarrow> service_step s s'"
| Call_closed: "service_step s (close_call cid s)"
| Command_error: "service_step s (command_error m s)"
| Dial: "rq_user req \<noteq> [] \<Longrightarrow> rq_id req = [] \<Longrightarrow> fresh \<notin> request_ids s \<Longrightarrow>
    (\<forall>n. rq_done req = Some n \<longrightarrow> holders n s + signals n s + failures n s = 0) \<Longrightarrow> service_step s (dial fresh req s)"
| Task: "t \<in> set (sv_tasks s) \<Longrightarrow> service_step s (run_task d ok t (take_task t s))"
| Revoke: "service_step s (invalidate_user d uid reason s)"
| Begin_apply: "service_step s (snd (begin_sip_apply s))"
| End_apply: "service_step s (end_sip_apply s)"
| Drain: "service_step s (drain_begin d s)"
| Lost: "service_step s (disconnect s)"
| Connected: "service_step s (connect s)"

inductive reachable :: "service \<Rightarrow> bool" where
  Start: "reachable (new_service store media greeting lines)"
| Step: "reachable s \<Longrightarrow> service_step s s' \<Longrightarrow> reachable s'"

end
