(* ===== verification/Call_Contracts.thy ===== *)
theory Call_Contracts
  imports Call_System
begin

text \<open>
  The interface between the operations of the call service and a property of its runs: a relation
  that holds across each primitive change holds across every operation, except the three that
  carry a request from \<open>Dial\<close> into the table.  The operations are shown to keep the relation once,
  inside the locale; each property gives the primitive changes.
\<close>

section \<open>Well-formed states\<close>

definition is_dial :: "task \<Rightarrow> bool" where
  "is_dial t \<longleftrightarrow> (case t of Register_dial _ _ \<Rightarrow> True | Send_dial _ _ \<Rightarrow> True | _ \<Rightarrow> False)"

definition task_object :: "task \<Rightarrow> nat option" where
  "task_object t = (case t of
      Outgoing_timeout i \<Rightarrow> Some i | Greet i \<Rightarrow> Some i | Greeting_done i \<Rightarrow> Some i | Play_alert i \<Rightarrow> Some i
    | Alert_played i \<Rightarrow> Some i | Speak_choice i \<Rightarrow> Some i | Speak_verification i \<Rightarrow> Some i
    | Verification_spoken i \<Rightarrow> Some i | Prompt_done i \<Rightarrow> Some i | Inactivity i _ \<Rightarrow> Some i | Goodbye i \<Rightarrow> Some i
    | _ \<Rightarrow> None)"

definition task_fits :: "service \<Rightarrow> task \<Rightarrow> bool" where
  "task_fits s t \<longleftrightarrow> (case task_object t of None \<Rightarrow> True | Some i \<Rightarrow> i < length (sv_objects s))"

text \<open>Sessions and tasks refer to objects, and every request is for a user.\<close>

definition request_fits :: "task \<Rightarrow> bool" where
  "request_fits t \<longleftrightarrow> (case t of Register_dial _ req \<Rightarrow> rq_user req \<noteq> [] | _ \<Rightarrow> True)"

definition valid :: "service \<Rightarrow> bool" where
  "valid s \<longleftrightarrow> distinct_keys (sv_pending s) \<and> (\<forall>(rid, req) \<in> set (sv_pending s). rq_user req \<noteq> []) \<and>
     (\<forall>(cid, i) \<in> set (sv_sessions s). i < length (sv_objects s)) \<and>
     (\<forall>t \<in> set (sv_tasks s). task_fits s t \<and> request_fits t)"

lemma valid_lookup: "valid s \<Longrightarrow> lookup cid s = Some i \<Longrightarrow> i < length (sv_objects s)"
  unfolding valid_def lookup_def by (auto dest!: lookup_in)

lemma valid_sessions: "valid s \<Longrightarrow> i \<in> set (map snd (sv_sessions s)) \<Longrightarrow> i < length (sv_objects s)"
  unfolding valid_def by auto

text \<open>A change of what the properties do not look at; sessions may leave the map.\<close>

definition plain_change :: "service \<Rightarrow> service \<Rightarrow> bool" where
  "plain_change s s' \<longleftrightarrow> sv_objects s' = sv_objects s \<and> sv_pending s' = sv_pending s \<and> sv_tasks s' = sv_tasks s \<and>
     sv_history s' = sv_history s \<and> set (sv_sessions s') \<subseteq> set (sv_sessions s)"

definition neutral :: "effect \<Rightarrow> bool" where
  "neutral e \<longleftrightarrow> (case e of Reported _ _ _ \<Rightarrow> False | Signal _ _ \<Rightarrow> False | Dial_failed _ \<Rightarrow> False | _ \<Rightarrow> True)"

text \<open>The invariant of a call without the mirror of its flow, which \<open>Drain\<close> and revocation break until
  the next \<open>ensureFlowLocked\<close>.\<close>

definition call_ok :: "call \<Rightarrow> bool" where
  "call_ok c \<longleftrightarrow> cursor_ok (cursor c) (messages c) \<and> typing_ok (editor c) \<and> alerts_ready (alert_folders c) (alert_selection c)"

text \<open>A change of a session object outside its alert, which keeps the invariant of its call.\<close>

definition plain_at :: "(session_object \<Rightarrow> session_object) \<Rightarrow> session_object \<Rightarrow> bool" where
  "plain_at f p \<longleftrightarrow> so_done (f p) = so_done p \<and> so_outcome (f p) = so_outcome p \<and> so_last (f p) = so_last p \<and>
     so_terminal (f p) = so_terminal p \<and> (call_ok (so_call p) \<longrightarrow> call_ok (so_call (f p)))"

definition plain_object :: "(session_object \<Rightarrow> session_object) \<Rightarrow> bool" where
  "plain_object f \<longleftrightarrow> (\<forall>p. plain_at f p)"

lemma neutral_simps [simp]:
  "neutral (Sent m)" "neutral (Request_outcome n x)" "neutral (Set_lockout a u)" "neutral (Clear_lockout a)"
  "neutral (Speak i a)" "neutral (In_call i ev)"
  by (simp_all add: neutral_def)

lemma is_dial_simps [simp]:
  "is_dial (Register_dial a r)" "is_dial (Send_dial a r)" "\<not> is_dial (Activate_media a u)"
  "\<not> is_dial (Outgoing_timeout i)" "\<not> is_dial (Expire_pending a)" "\<not> is_dial (Greet i)" "\<not> is_dial (Greeting_done i)"
  "\<not> is_dial (Play_alert i)" "\<not> is_dial (Alert_played i)" "\<not> is_dial (Speak_choice i)" "\<not> is_dial (Speak_verification i)"
  "\<not> is_dial (Verification_spoken i)" "\<not> is_dial (Prompt_done i)" "\<not> is_dial (Inactivity i g)" "\<not> is_dial (Goodbye i)"
  "\<not> is_dial (Hangup_call a)"
  by (simp_all add: is_dial_def)

lemma task_fits_simps [simp]:
  "task_fits s (Activate_media a u)" "task_fits s (Expire_pending a)" "task_fits s (Hangup_call a)"
  "task_fits s (Register_dial a r)" "task_fits s (Send_dial a r)"
  "task_fits s (Outgoing_timeout i) = (i < length (sv_objects s))" "task_fits s (Greet i) = (i < length (sv_objects s))"
  "task_fits s (Greeting_done i) = (i < length (sv_objects s))" "task_fits s (Play_alert i) = (i < length (sv_objects s))"
  "task_fits s (Alert_played i) = (i < length (sv_objects s))" "task_fits s (Speak_choice i) = (i < length (sv_objects s))"
  "task_fits s (Speak_verification i) = (i < length (sv_objects s))" "task_fits s (Verification_spoken i) = (i < length (sv_objects s))"
  "task_fits s (Prompt_done i) = (i < length (sv_objects s))" "task_fits s (Inactivity i g) = (i < length (sv_objects s))"
  "task_fits s (Goodbye i) = (i < length (sv_objects s))"
  by (simp_all add: task_fits_def task_object_def)

lemma object_modified [simp]:
  "length (sv_objects (modify i f s)) = length (sv_objects s)" "sv_tasks (modify i f s) = sv_tasks s"
  "sv_sessions (modify i f s) = sv_sessions s" "sv_pending (modify i f s) = sv_pending s"
  "sv_history (modify i f s) = sv_history s" "sv_media (modify i f s) = sv_media s"
  by (simp_all add: modify_def)

lemma log_simps [simp]:
  "sv_objects (log e s) = sv_objects s" "sv_tasks (log e s) = sv_tasks s" "sv_sessions (log e s) = sv_sessions s"
  "sv_pending (log e s) = sv_pending s" "sv_history (log e s) = sv_history s @ [e]"
  by (simp_all add: log_def)

lemma begin_media_simps [simp]: "length (sv_objects (begin_media i s)) = length (sv_objects s)"
  by (simp add: begin_media_def)

lemma later_simps [simp]:
  "sv_objects (later k s) = sv_objects s" "sv_tasks (later k s) = sv_tasks s @ [k]" "sv_sessions (later k s) = sv_sessions s"
  "sv_pending (later k s) = sv_pending s" "sv_history (later k s) = sv_history s"
  by (simp_all add: later_def)

lemma object_modify: "i < length (sv_objects s) \<Longrightarrow> object i (modify i f s) = f (object i s)"
  by (simp add: object_def modify_def)

lemma call_ok_navigated: "call_ok (navigated c f n) = call_ok c"
  by (simp add: call_ok_def navigated_def)

lemma call_ok_step: "nav_step g \<Longrightarrow> call_ok (g c) = call_ok c"
  unfolding nav_step_def using call_ok_navigated by metis

lemma call_ok_fields [simp]:
  "call_ok (transition st c) = call_ok c" "call_ok (ensure_flow c) = call_ok c"
  "call_ok (c\<lparr>closed := b\<rparr>) = call_ok c" "call_ok (c\<lparr>established := b\<rparr>) = call_ok c"
  "call_ok (c\<lparr>greet_attempts := n\<rparr>) = call_ok c" "call_ok (c\<lparr>call_flow := fl\<rparr>) = call_ok c"
  "call_ok (cancel_call c) = call_ok c" "call_ok (c\<lparr>alert_text := a\<rparr>) = call_ok c"
  "call_ok (c\<lparr>choices := rs\<rparr>) = call_ok c" "call_ok (c\<lparr>verification_code := a\<rparr>) = call_ok c"
  "call_ok (blank_call cid uid number st)"
  using call_ok_step [OF transition_step] call_ok_step [OF ensure_flow_step]
  by (simp_all add: call_ok_def cancel_call_def blank_call_def typing_ok_def alerts_ready_def)

lemma call_ok_incoming [simp]: "call_ok (incoming_call cid uid number st)"
  by (simp add: incoming_call_def)

lemma plain_in_call: "(\<And>c. call_ok c \<Longrightarrow> call_ok (g c)) \<Longrightarrow> plain_object (in_call g)"
  by (simp add: plain_object_def plain_at_def in_call_def)

lemma plain_objects:
  "plain_object close_session" "plain_object revoke_object" "plain_object drain_object"
  "plain_object (in_call ensure_flow \<circ> close_session)"
  "plain_object (\<lambda>p. (in_call (\<lambda>c. (cancel_call c)\<lparr>closed := True\<rparr>) p)\<lparr>so_inactivity := False\<rparr>)"
  by (simp_all add: plain_object_def plain_at_def in_call_def close_session_def cancel_work_def revoke_object_def drain_object_def)

lemma task_fits_grows: "task_fits s k \<Longrightarrow> length (sv_objects s) \<le> length (sv_objects s') \<Longrightarrow> task_fits s' k"
  by (auto simp: task_fits_def split: option.splits)

lemma task_fits_simps2 [simp]: "task_fits (modify i f s) k = task_fits s k" "task_fits (log e s) k = task_fits s k"
    "task_fits (begin_media i s) k = task_fits s k" "task_fits (later x s) k = task_fits s k"
  by (simp_all add: task_fits_def split: option.split)

text \<open>A key of a call needs the mirror only after it was restored.\<close>

lemma session_ok_iff: "session_ok c \<longleftrightarrow> mirrored (call_flow c) (call_state c) \<and> call_ok c"
  by (simp add: session_ok_def call_inv_def call_ok_def)

lemma ensure_flow_ok: "call_ok c \<Longrightarrow> session_ok (ensure_flow c)"
  by (simp add: session_ok_iff) (simp add: ensure_flow_def Let_def mirrored_def)

lemma call_ok_pin [simp]:
  "call_ok (c\<lparr>pin := a\<rparr>) = call_ok c" "call_ok (c\<lparr>pin := a, pin_failures := n\<rparr>) = call_ok c"
  "call_ok (c\<lparr>authenticated := b, pin_failures := n\<rparr>) = call_ok c"
  "call_ok (c\<lparr>call_user := u\<rparr>) = call_ok c" "call_ok (c\<lparr>call_user := u, choices := rs\<rparr>) = call_ok c"
  "call_ok (c\<lparr>draft := d\<rparr>) = call_ok c" "call_ok (c\<lparr>editing_draft := b\<rparr>) = call_ok c"
  "call_ok (c\<lparr>attachment_cancel := b\<rparr>) = call_ok c"
  "call_ok (c\<lparr>attachment_sequence := n'\<rparr>) = call_ok c"
  by (simp_all add: call_ok_def)

lemma safe_sign_in: "safe call_ok (check_pin w)" "safe call_ok (choose_caller_account k)"
  unfolding check_pin_def choose_caller_account_def speak_account_choice_def
  by (intro safe_rules safe_at_index; auto)+

lemma handle_menu_ensure: "handle_menu w save key c = handle_menu w save key (ensure_flow c) \<or> handle_menu w save key c = Some (c, [])"
proof -
  have e: "ensure_flow (ensure_flow c) = ensure_flow c"
    using ensure_flow_navigated [of c] ensure_flow_idem by metis
  have g: "closed (ensure_flow c) = closed c" "authenticated (ensure_flow c) = authenticated c"
    by (simp_all add: ensure_flow_def Let_def)
  show ?thesis by (simp add: handle_menu_def with_call_def steps_def next_step_def upd_def skip_def e g)
qed

lemma dtmf_ok:
  assumes "\<And>u c. safe (call_inv u) (save c)"
  shows "safe call_ok (handle_dtmf w save key)"
proof -
  have "safe call_ok (handle_menu w save key)"
  proof (unfold safe_def, intro allI impI)
    fix c assume c: "call_ok c"
    have "safe session_ok (handle_menu w save key)" by (intro safe_session safe_handle_menu assms)
    then have "safe_at session_ok (ensure_flow c) (handle_menu w save key)"
      using ensure_flow_ok [OF c] by (simp add: safe_def)
    then show "safe_at call_ok c (handle_menu w save key)"
      using handle_menu_ensure [of w save key c] c unfolding safe_at_def by (auto simp: session_ok_iff)
  qed
  then show ?thesis unfolding handle_dtmf_def by (intro safe_rules safe_sign_in) auto
qed

lemma call_ok_recorder [simp]: "call_ok (forget_recorder g c) = call_ok c"
  by (simp add: forget_recorder_def end_recording_def call_ok_def)

lemma call_ok_no_editor: "call_ok c \<Longrightarrow> call_ok (c\<lparr>editor := None\<rparr>)"
  by (simp add: call_ok_def)

lemma work_safe:
  "safe call_ok (recording_done g res)" "safe call_ok (subject_done w g res)" "safe call_ok (audio_done name g res)"
  "safe call_ok (play_attachment w i)" "safe call_ok (attachment_done n failed)" "safe call_ok (refresh_done w aid ok)"
  unfolding recording_done_def subject_done_def audio_done_def play_attachment_def attachment_done_def
    refresh_done_def Let_def
  by (intro safe_rules; auto split: sum.split bool.split option.split intro!: safe_rules call_ok_no_editor)+

lemma work_ok: "is_work input \<Longrightarrow> call_ok c \<Longrightarrow> safe_at call_ok c (call_step input)"
  using work_safe by (cases input) (simp_all add: is_work_def safe_def)

text \<open>The steps of a request on its way into the table.\<close>

inductive dial_step :: "service \<Rightarrow> service \<Rightarrow> bool" where
  Dial_begin: "rq_user req \<noteq> [] \<Longrightarrow> rq_id req = [] \<Longrightarrow> fresh \<notin> request_ids s \<Longrightarrow>
    (\<forall>n. rq_done req = Some n \<longrightarrow> holders n s + signals n s + failures n s = 0) \<Longrightarrow> dial_step s (dial fresh req s)"
| Dial_register: "Register_dial rid req \<in> set (sv_tasks s) \<Longrightarrow>
    dial_step s (dial_register rid req (take_task (Register_dial rid req) s))"
| Dial_sent: "Send_dial rid req \<in> set (sv_tasks s) \<Longrightarrow>
    dial_step s (dial_sent rid req ok (take_task (Send_dial rid req) s))"

section \<open>The interface\<close>

text \<open>\<open>keep_when\<close> lets a proof use that the state is well-formed.  A request leaves the table with its channel
  signalled, or for a session that takes its channel.\<close>

locale service_contract =
  fixes R :: "service \<Rightarrow> service \<Rightarrow> bool"
  assumes keep_refl: "R s s"
    and keep_trans: "R s t \<Longrightarrow> R t u \<Longrightarrow> R s u"
    and keep_when: "(valid s \<Longrightarrow> R s s') \<Longrightarrow> R s s'"
    and keep_grows: "R s s' \<Longrightarrow> valid s \<Longrightarrow> valid s' \<and> length (sv_objects s) \<le> length (sv_objects s')"
    and keep_plain: "plain_change s s' \<Longrightarrow> R s s'"
    and keep_log: "neutral e \<Longrightarrow> R s (log e s)"
    and keep_later: "\<not> is_dial k \<Longrightarrow> task_fits s k \<Longrightarrow> R s (later k s)"
    and keep_take: "\<not> is_dial k \<Longrightarrow> R s (take_task k s)"
    and keep_modify_at: "plain_at f (object i s) \<Longrightarrow> R s (modify i f s)"
    and keep_report: "i < length (sv_objects s) \<Longrightarrow> R s (report_alert_outcome out i s)"
    and keep_notify: "i < length (sv_objects s) \<Longrightarrow> R s (notify_alert success i s)"
    and keep_sweep: "sv_objects s' = sv_objects s \<Longrightarrow> sv_tasks s' = sv_tasks s \<Longrightarrow> sv_history s' = sv_history s \<Longrightarrow>
      set (sv_sessions s') \<subseteq> set (sv_sessions s) \<Longrightarrow> sv_pending s' = filter (\<lambda>(_, req). \<not> P req) (sv_pending s) \<Longrightarrow>
      R s (fold fail_request (map snd (filter (\<lambda>(_, req). P req) (sv_pending s))) s')"
    and keep_fail: "R s (fail_pending rid s)"
    and keep_add: "so_done p = None \<Longrightarrow> so_last p = None \<Longrightarrow> so_terminal p = False \<Longrightarrow> call_ok (so_call p) \<Longrightarrow>
      R s (add_session p s)"
    and keep_outgoing: "take_request m s = (Some req, s1) \<Longrightarrow> R s (add_session (outgoing_object m req) s1)"
begin

lemma keep_then: "R s t \<Longrightarrow> (valid t \<Longrightarrow> length (sv_objects s) \<le> length (sv_objects t) \<Longrightarrow> R t u) \<Longrightarrow> R s u"
  by (rule keep_when, rule keep_trans [where t = t]) (auto dest: keep_grows)

lemma keep_modify: "plain_object f \<Longrightarrow> R s (modify i f s)"
  by (rule keep_modify_at) (simp add: plain_object_def)

lemma keep_fold:
  assumes "\<And>x t. x \<in> set xs \<Longrightarrow> length (sv_objects s) \<le> length (sv_objects t) \<Longrightarrow> R t (f x t)"
  shows "R s (fold f xs s)"
  using assms
proof (induction xs arbitrary: s)
  case Nil
  then show ?case by (simp add: keep_refl)
next
  case (Cons x xs)
  have "R s (f x s)" using Cons.prems by simp
  then show ?case
  proof (rule keep_then)
    assume "length (sv_objects s) \<le> length (sv_objects (f x s))"
    then have "R (f x s) (fold f xs (f x s))" using Cons.prems by (intro Cons.IH) (meson le_trans list.set_intros(2))
    then show "R (f x s) (fold f (x # xs) s)" by simp
  qed
qed

lemma keep_if: "(b \<Longrightarrow> R s t) \<Longrightarrow> (\<not> b \<Longrightarrow> R s u) \<Longrightarrow> R s (if b then t else u)"
  by simp

subsection \<open>Messages, outcomes and timers\<close>

lemma keep_start: "\<not> is_dial k \<Longrightarrow> task_fits s k \<Longrightarrow> R s (start_task k s)"
  unfolding start_task_def by (intro keep_if keep_refl keep_later)

lemma keep_send: "R s (send_bridge fallback d m s)"
  unfolding send_bridge_def by (intro keep_if keep_refl keep_log) simp

lemma keep_hangup: "R s (hangup d cid s)"
  unfolding hangup_def by (rule keep_send)

lemma keep_reject: "R s (snd (reject d m code reason s))"
  unfolding reject_def Let_def by (simp add: keep_send)

lemma keep_dial_outcome: "R s (report_dial_outcome callback out s)"
  unfolding report_dial_outcome_def by (cases callback) (auto intro: keep_refl keep_log)

lemma keep_call_outcome: "R s (report_call_alert_outcome cid out s)"
  by (rule keep_when) (auto simp: report_call_alert_outcome_def intro: keep_refl keep_report valid_lookup split: option.split)

lemma keep_activate: "R s (activate_speech i s)"
proof -
  let ?t = "s\<lparr>sv_leases := sv_leases s @ [sv_next_lease s, sv_next_lease s + 1], sv_next_lease := sv_next_lease s + 2\<rparr>"
  have 1: "R s ?t" by (rule keep_plain) (simp add: plain_change_def)
  have "R ?t (modify i (\<lambda>p. p\<lparr>so_menu_lease := Some (sv_next_lease s), so_email_lease := Some (sv_next_lease s + 1)\<rparr>) ?t)"
    by (rule keep_modify) (simp add: plain_object_def plain_at_def)
  with 1 have "R s (modify i (\<lambda>p. p\<lparr>so_menu_lease := Some (sv_next_lease s), so_email_lease := Some (sv_next_lease s + 1)\<rparr>) ?t)"
    by (rule keep_trans)
  then show ?thesis by (simp add: activate_speech_def keep_refl)
qed

lemma keep_release_lease: "R s (release_lease l s)"
  by (cases l) (auto simp: release_lease_def plain_change_def intro: keep_refl keep_plain)

lemma keep_release: "R s (release_session_speech i s)"
  unfolding release_session_speech_def
  by (rule keep_trans [OF keep_release_lease keep_trans [OF keep_release_lease keep_modify]]) (simp add: plain_object_def plain_at_def)

lemma keep_arm: "i < length (sv_objects s) \<Longrightarrow> R s (arm_inactivity i s)"
  unfolding arm_inactivity_def
  by (intro keep_if keep_refl keep_trans [OF keep_modify keep_start]) (simp_all add: plain_object_def plain_at_def)

lemma keep_begin_media: "R s (begin_media i s)"
  unfolding begin_media_def by (rule keep_modify) (simp add: plain_object_def plain_at_def)

lemma keep_end_media: "i < length (sv_objects s) \<Longrightarrow> R s (end_media i s)"
  unfolding end_media_def Let_def
  by (intro keep_if keep_trans [OF keep_modify keep_arm] keep_modify) (auto simp: plain_object_def plain_at_def)

lemma keep_prompt: "i < length (sv_objects s) \<Longrightarrow> \<not> is_dial k \<Longrightarrow> task_fits s k \<Longrightarrow> R s (prompt i a k s)"
  unfolding prompt_def
  by (intro keep_if keep_refl keep_trans [OF keep_log keep_trans [OF keep_begin_media keep_later]]) auto

subsection \<open>Calls and their end\<close>

lemma keep_finished: "i < length (sv_objects s) \<Longrightarrow> R s (alert_finished d success i s)"
  unfolding alert_finished_def
  by (rule keep_then [OF keep_report], assumption, rule keep_trans [OF keep_notify keep_hangup]) simp

lemma keep_outgoing_timeout: "i < length (sv_objects s) \<Longrightarrow> R s (outgoing_timeout d i s)"
  unfolding outgoing_timeout_def Let_def
  by (intro keep_if keep_refl, rule keep_then [OF keep_report], assumption, rule keep_trans [OF keep_notify keep_hangup]) simp

lemma keep_play_alert: "i < length (sv_objects s) \<Longrightarrow> R s (play_outgoing_alert d i s)"
  unfolding play_outgoing_alert_def Let_def
  by (intro keep_if keep_trans [OF keep_modify keep_prompt] keep_trans [OF keep_modify keep_finished])
     (auto intro!: plain_in_call)

lemma keep_give_up: "R s (give_up d i s)"
  unfolding give_up_def by (rule keep_trans [OF keep_modify keep_hangup]) (auto intro!: plain_in_call)

lemma keep_greet: "i < length (sv_objects s) \<Longrightarrow> R s (greet i s)"
  unfolding greet_def Let_def
  by (intro keep_if keep_refl keep_trans [OF keep_modify keep_refl] keep_trans [OF keep_modify keep_prompt]
      keep_trans [OF keep_modify keep_trans [OF keep_log keep_trans [OF keep_begin_media keep_later]]])
     (auto intro!: plain_in_call)

lemma keep_speak_choice: "i < length (sv_objects s) \<Longrightarrow> R s (speak_choice d i s)"
  unfolding speak_choice_def
  by (intro keep_if keep_give_up keep_trans [OF keep_modify keep_prompt]) (auto intro!: plain_in_call)

lemma keep_speak_verification: "i < length (sv_objects s) \<Longrightarrow> R s (speak_verification d i s)"
  unfolding speak_verification_def Let_def
  by (intro keep_if keep_give_up keep_trans [OF keep_modify keep_prompt] keep_trans [OF keep_modify keep_start])
     (auto intro!: plain_in_call)

lemma keep_established: "R s (on_established cid s)"
proof (rule keep_when)
  assume v: "valid s"
  show ?thesis
  proof (cases "lookup cid s")
    case None
    then show ?thesis by (simp add: on_established_def keep_refl)
  next
    case (Some i)
    with v have "i < length (sv_objects s)" by (rule valid_lookup)
    with Some show ?thesis unfolding on_established_def Let_def
      by (auto intro!: keep_refl keep_trans [OF keep_modify keep_start] plain_in_call)
  qed
qed

lemma keep_forget: "R s (forget_session cid s)"
  by (rule keep_plain) (auto simp: plain_change_def forget_session_def dest: in_del)

lemma keep_close: "R s (close_call cid s)"
proof (rule keep_when)
  assume v: "valid s"
  show ?thesis
  proof (cases "lookup cid s")
    case None
    then show ?thesis by (simp add: close_call_def keep_refl)
  next
    case (Some i)
    with v have i: "i < length (sv_objects s)" by (rule valid_lookup)
    let ?s1 = "modify i (in_call ensure_flow \<circ> close_session) s"
    let ?a = "call_state (so_call (object i ?s1)) = St_announce \<and> so_plays (object i ?s1) > 0"
    have "R s (forget_session cid ?s1)" by (rule keep_trans [OF keep_modify keep_forget]) (rule plain_objects)
    then have 1: "R s (notify_alert ?a i (forget_session cid ?s1))"
      by (rule keep_then) (use i in \<open>intro keep_notify; simp\<close>)
    then have "R s (report_alert_outcome (if ?a then Alert_playback_completed else Alert_failed) i (notify_alert ?a i (forget_session cid ?s1)))"
      by (rule keep_then) (use i in \<open>intro keep_report; simp\<close>)
    then have "R s (release_session_speech i (report_alert_outcome (if ?a then Alert_playback_completed else Alert_failed) i
        (notify_alert ?a i (forget_session cid ?s1))))"
      by (rule keep_trans) (rule keep_release)
    with Some show ?thesis unfolding close_call_def Let_def by simp
  qed
qed

lemma keep_command_error: "R s (command_error m s)"
  unfolding command_error_def Let_def
  by (auto intro: keep_refl keep_close keep_fail keep_trans [OF keep_fail keep_close])

lemma keep_settle_revoked: "i < length (sv_objects s) \<Longrightarrow> R s (settle_revoked d reason i s)"
  unfolding settle_revoked_def
proof (rule keep_then [OF keep_send])
  let ?t = "send_bridge False d (hangup_message (call_id (so_call (object i s))) 603 reason) s"
  assume "i < length (sv_objects s)" "length (sv_objects s) \<le> length (sv_objects ?t)"
  then have i: "i < length (sv_objects ?t)" by linarith
  show "R ?t (release_session_speech i (notify_alert False i (report_alert_outcome Alert_failed i ?t)))"
    by (rule keep_then [OF keep_report [OF i]], rule keep_trans [OF keep_notify keep_release]) (use i in linarith)
qed

lemma keep_settle_lost: "i < length (sv_objects s) \<Longrightarrow> R s (settle_lost i s)"
  unfolding settle_lost_def
  by (rule keep_trans [OF keep_modify [OF plain_objects(5)]], rule keep_then [OF keep_notify], simp,
      rule keep_trans [OF keep_report keep_release]) simp

subsection \<open>Sweeps\<close>

lemma keep_modify_all: "plain_object f \<Longrightarrow> R s (fold (\<lambda>i. modify i f) is s)"
  by (rule keep_fold) (rule keep_modify)

lemma fold_modify_simps:
  "sv_pending (fold (\<lambda>i. modify i f) is s) = sv_pending s"
  "sv_sessions (fold (\<lambda>i. modify i f) is s) = sv_sessions s"
  "length (sv_objects (fold (\<lambda>i. modify i f) is s)) = length (sv_objects s)"
  by (induction "is" arbitrary: s) simp_all

lemma sessions_of_less: "valid s \<Longrightarrow> i \<in> set (sessions_of uid s) \<Longrightarrow> i < length (sv_objects s)"
  unfolding sessions_of_def valid_def by auto

lemma keep_invalidate: "R s (invalidate_user d uid reason s)"
proof (rule keep_when)
  assume v: "valid s"
  let ?s1 = "fold (\<lambda>i. modify i revoke_object) (sessions_of uid s) s"
  let ?s2 = "?s1\<lparr>sv_pending := filter (\<lambda>(_, req). rq_user req \<noteq> uid) (sv_pending ?s1),
                sv_sessions := filter (\<lambda>(_, i). i \<notin> set (sessions_of uid s)) (sv_sessions ?s1)\<rparr>"
  let ?s3 = "fold fail_request (map snd (filter (\<lambda>(_, req). rq_user req = uid) (sv_pending s))) ?s2"
  have 1: "R s ?s1" by (rule keep_modify_all) (rule plain_objects)
  have "R ?s1 (fold fail_request (map snd (filter (\<lambda>(_, req). rq_user req = uid) (sv_pending ?s1))) ?s2)"
    by (rule keep_sweep) auto
  then have "R ?s1 ?s3" by (simp add: fold_modify_simps)
  with 1 have 3: "R s ?s3" by (rule keep_trans)
  have "R s (fold (settle_revoked d reason) (sessions_of uid s) ?s3)"
  proof (rule keep_then [OF 3], rule keep_fold)
    fix x and t :: service assume *: "length (sv_objects s) \<le> length (sv_objects ?s3)" "x \<in> set (sessions_of uid s)"
      "length (sv_objects ?s3) \<le> length (sv_objects t)"
    have "x < length (sv_objects s)" by (rule sessions_of_less [OF v *(2)])
    with * show "R t (settle_revoked d reason x t)" by (intro keep_settle_revoked) linarith
  qed
  then show ?thesis unfolding invalidate_user_def Let_def by (simp add: keep_refl)
qed

lemma keep_disconnect: "R s (disconnect s)"
proof (rule keep_when)
  assume v: "valid s"
  let ?s1 = "s\<lparr>sv_connected := False, sv_pending := [], sv_sessions := []\<rparr>"
  have "R s (fold fail_request (map snd (filter (\<lambda>(_, req). True) (sv_pending s))) ?s1)"
    by (rule keep_sweep) auto
  then have 1: "R s (fold fail_request (map snd (sv_pending s)) ?s1)" by simp
  have "R s (fold settle_lost (map snd (sv_sessions s)) (fold fail_request (map snd (sv_pending s)) ?s1))"
  proof (rule keep_then [OF 1], rule keep_fold)
    fix x and t :: service assume *: "length (sv_objects s) \<le> length (sv_objects (fold fail_request (map snd (sv_pending s)) ?s1))"
      "x \<in> set (map snd (sv_sessions s))"
      "length (sv_objects (fold fail_request (map snd (sv_pending s)) ?s1)) \<le> length (sv_objects t)"
    have "x < length (sv_objects s)" by (rule valid_sessions [OF v *(2)])
    with * show "R t (settle_lost x t)" by (intro keep_settle_lost) linarith
  qed
  then show ?thesis unfolding disconnect_def Let_def .
qed

lemma keep_drain: "R s (drain_begin d s)"
proof -
  let ?s0 = "s\<lparr>sv_shutting_down := True\<rparr>"
  let ?s1 = "fold (\<lambda>i. modify i drain_object) (map snd (sv_sessions s)) ?s0"
  let ?s2 = "?s1\<lparr>sv_pending := [], sv_tasks_closed := True\<rparr>"
  have "R s ?s0" by (rule keep_plain) (simp add: plain_change_def)
  moreover have "R ?s0 ?s1" by (rule keep_modify_all) (rule plain_objects)
  moreover have "R ?s1 (fold fail_request (map snd (filter (\<lambda>(_, req). True) (sv_pending ?s1))) ?s2)"
    by (rule keep_sweep) auto
  ultimately have "R s (fold fail_request (map snd (sv_pending s)) ?s2)"
    by (simp add: fold_modify_simps) (meson keep_trans)
  then have "R s (fold (\<lambda>i s. send_bridge False d (hangup_message (call_id (so_call (object i s))) 503 ''server is shutting down'') s)
      (map snd (sv_sessions s)) (fold fail_request (map snd (sv_pending s)) ?s2))"
    by (rule keep_trans) (rule keep_fold, rule keep_send)
  then show ?thesis unfolding drain_begin_def Let_def .
qed

lemma keep_flags: "R s (snd (begin_sip_apply s))" "R s (end_sip_apply s)" "R s (connect s)"
  by (auto simp: begin_sip_apply_def end_sip_apply_def connect_def plain_change_def intro: keep_plain)

subsection \<open>Admission and outgoing calls\<close>

lemma plain_lockout: "plain_change s (snd (pin_locked_until d now number s))"
  by (auto simp: pin_locked_until_def persisted_lockout_def plain_change_def split: option.split)

lemma keep_accept: "call_ok c \<Longrightarrow> R s (snd (accept_call d m uid c s))"
proof -
  assume c: "call_ok c"
  let ?s0 = "add_session (new_object c m) s" let ?s1 = "arm_inactivity (length (sv_objects s)) ?s0"
  have "R s ?s0" by (rule keep_add) (simp_all add: new_object_def c)
  moreover have "R ?s0 ?s1" by (rule keep_arm) (simp add: add_session_def)
  ultimately have 1: "R s ?s1" by (rule keep_trans)
  have "R s (later k (send_bridge True d x ?s1))" if "\<not> is_dial k" "task_object k = None" for k x
    using keep_trans [OF 1 keep_trans [OF keep_send keep_later]] that by (simp add: task_fits_def)
  then show ?thesis unfolding accept_call_def Let_def using 1
    by (simp add: keep_refl keep_send task_object_def)
qed

lemma keep_admit: "R s (snd (admit d now m s))"
proof -
  obtain l s1 where l: "pin_locked_until d now (normalize (m_from m)) s = (l, s1)" by fastforce
  have 1: "R s s1" using keep_plain [OF plain_lockout [of s d now "normalize (m_from m)"]] l by simp
  have "R s (snd (reject d m 603 reason s1))" for reason by (rule keep_trans [OF 1 keep_reject])
  moreover have "call_ok c \<Longrightarrow> R s (snd (accept_call d m uid c s1))" for c uid by (rule keep_trans [OF 1 keep_accept])
  ultimately show ?thesis unfolding admit_def Let_def admit_verification_def
    by (auto simp: l keep_reject keep_accept split: option.split)
qed

lemma keep_take_none: "take_request m s = (None, s1) \<Longrightarrow> s1 = s"
  by (auto simp: take_request_def split: if_splits option.splits list.splits)

lemma take_request_in: "take_request m s = (Some req, s1) \<Longrightarrow> \<exists>rid. (rid, req) \<in> set (sv_pending s)"
  by (auto simp: take_request_def split: if_splits option.splits list.splits dest!: lookup_in)

lemma keep_start_outgoing: "R s (snd (start_outgoing d m s))"
proof (rule keep_when)
  assume v: "valid s"
  obtain r s1 where r: "take_request m s = (r, s1)" by fastforce
  show ?thesis
  proof (cases r)
    case None
    with r keep_take_none [of m s s1] show ?thesis
      by (simp add: start_outgoing_def keep_refl keep_reject)
  next
    case (Some req)
    with r v take_request_in have u: "rq_user req \<noteq> []" unfolding valid_def by blast
    let ?i = "length (sv_objects s1)" let ?s2 = "add_session (outgoing_object m req) s1"
    have "R s ?s2" using r Some by (intro keep_outgoing) simp
    then have "R s (activate_speech ?i ?s2)" by (rule keep_trans) (rule keep_activate)
    then have "R s (start_task (Outgoing_timeout ?i) (activate_speech ?i ?s2))"
      by (rule keep_trans) (rule keep_start; simp add: activate_speech_def modify_def add_session_def)
    with r Some u show ?thesis by (simp add: start_outgoing_def keep_refl)
  qed
qed

subsection \<open>Keys, events and tasks\<close>

lemma keep_perform: "R s (perform d now i e s)"
proof -
  have l: "R s (log x t)" if "neutral x" "plain_change s t" for x t
    by (rule keep_trans [OF keep_plain keep_log]) (use that in auto)
  have r: "R s (record_pin_failure now number s)" for number
    unfolding record_pin_failure_def Let_def by (intro keep_if keep_refl l keep_plain) (simp_all add: plain_change_def)
  have c: "R s (clear_pin_failure number s)" for number
    unfolding clear_pin_failure_def Let_def by (intro keep_if keep_refl l keep_plain) (simp_all add: plain_change_def)
  have "R s (log (In_call i e) s)" by (rule keep_log) simp
  then show ?thesis unfolding perform_def by (cases e) (simp_all add: r c keep_send)
qed

lemma keep_call:
  assumes "safe_at call_ok (so_call (object i s)) f \<or> \<not> call_ok (so_call (object i s))"
    and "f (so_call (object i s)) = Some (c', es)"
  shows "R s (modify i (in_call (\<lambda>_. c')) s)"
  using assms by (intro keep_modify_at) (auto simp: plain_at_def in_call_def safe_at_def)

lemma keep_press:
  assumes "press_key d now w save cid key s = Some s'" "\<And>u c. safe (call_inv u) (save c)"
  shows "R s s'"
proof (rule keep_when)
  assume v: "valid s"
  show "R s s'"
  proof (cases "lookup cid s")
    case None
    then show ?thesis using assms(1) by (simp add: press_key_def keep_refl)
  next
    case (Some i)
    have i: "i < length (sv_objects s)" by (rule valid_lookup [OF v Some])
    show ?thesis
    proof (cases "closed (so_call (object i s))")
      case True
      then show ?thesis using assms(1) Some by (simp add: press_key_def keep_refl)
    next
      case False
      let ?s1 = "arm_inactivity i s"
      from False assms(1) Some obtain c' es where h: "handle_dtmf w save key (so_call (object i ?s1)) = Some (c', es)"
        and s': "s' = fold (perform d now i) es (if choices (so_call (object i ?s1)) \<noteq> [] \<and> choices c' = []
            then activate_speech i (modify i (in_call (\<lambda>_. c')) ?s1) else modify i (in_call (\<lambda>_. c')) ?s1)"
        by (auto simp: press_key_def Let_def split: option.splits)
      have "safe_at call_ok (so_call (object i ?s1)) (handle_dtmf w save key) \<or> \<not> call_ok (so_call (object i ?s1))"
        using dtmf_ok [OF assms(2)] by (auto simp: safe_def)
      then have "R s (modify i (in_call (\<lambda>_. c')) ?s1)"
        by (rule keep_trans [OF keep_arm [OF i] keep_call]) (rule h)
      then have "R s (if choices (so_call (object i ?s1)) \<noteq> [] \<and> choices c' = []
            then activate_speech i (modify i (in_call (\<lambda>_. c')) ?s1) else modify i (in_call (\<lambda>_. c')) ?s1)"
        using keep_trans [OF _ keep_activate] by simp
      then show ?thesis unfolding s' by (rule keep_trans) (rule keep_fold, rule keep_perform)
    qed
  qed
qed

lemma keep_call_work:
  assumes "is_work input" "call_work d now i input s = Some s'"
  shows "R s s'"
proof -
  from assms(2) obtain c' es where h: "call_step input (so_call (object i s)) = Some (c', es)"
    and s': "s' = fold (perform d now i) es (modify i (in_call (\<lambda>_. c')) s)"
    by (auto simp: call_work_def split: option.splits)
  have "R s (modify i (in_call (\<lambda>_. c')) s)"
    by (rule keep_call [where f = "call_step input" and es = es]) (use work_ok [OF assms(1)] h in auto)
  then show ?thesis unfolding s' by (rule keep_trans) (rule keep_fold, rule keep_perform)
qed

lemma keep_event:
  assumes "handle_event d now w save m s = Some (ok, s')" "\<And>u c. safe (call_inv u) (save c)"
  shows "R s s'"
proof -
  have "R s (on_established cid (report_call_alert_outcome cid out s))" for cid out
    by (rule keep_trans [OF keep_call_outcome keep_established])
  moreover have "R s s'" if "admit d now m s = (ok, s')" using keep_admit [of s d now m] that by simp
  moreover have "R s s'" if "start_outgoing d m s = (ok, s')" using keep_start_outgoing [of s d m] that by simp
  ultimately show ?thesis using assms(1) keep_press [OF _ assms(2)]
    by (auto simp: handle_event_def keep_refl keep_call_outcome split: if_splits)
qed

lemma keep_inactivity: "i < length (sv_objects s) \<Longrightarrow> R s (inactivity i generation s)"
  unfolding inactivity_def
  by (intro keep_if keep_refl keep_trans [OF keep_modify keep_trans [OF keep_start keep_start]])
     (simp_all add: plain_object_def plain_at_def)

lemma keep_task:
  assumes "t \<in> set (sv_tasks s)" "\<not> is_dial t"
  shows "R s (run_task d ok t (take_task t s))"
proof (rule keep_when)
  let ?s = "take_task t s"
  assume v: "valid s"
  have n: "length (sv_objects ?s) = length (sv_objects s)" by (simp add: take_task_def)
  have f: "task_fits s t" using v assms(1) by (auto simp: valid_def)
  have "R ?s (run_task d ok t ?s)"
  proof (cases t)
    case (Greeting_done i)
    with f n have i: "i < length (sv_objects ?s)" by simp
    then have "R ?s (end_media i ?s)" by (rule keep_end_media)
    moreover have "R ?s (prompt i a (Prompt_done i) (end_media i ?s))" for a
      by (rule keep_then [OF keep_end_media [OF i]], rule keep_prompt) (use i in simp_all)
    ultimately show ?thesis using Greeting_done by (simp add: run_task_def)
  next
    case (Alert_played i)
    with f n have i: "i < length (sv_objects ?s)" by simp
    have "R ?s (alert_finished d ok i (end_media i ?s))"
      by (rule keep_then [OF keep_end_media [OF i]], rule keep_finished) (use i in simp)
    with Alert_played show ?thesis by (simp add: run_task_def)
  next
    case (Verification_spoken i)
    with f n have "R ?s (end_media i ?s)" by (simp add: keep_end_media)
    with Verification_spoken show ?thesis
      by (simp add: run_task_def Let_def) (auto intro: keep_trans [OF _ keep_start] keep_trans [OF _ keep_hangup])
  next
    case (Expire_pending rid)
    then show ?thesis by (simp add: run_task_def keep_fail)
  next
    case (Activate_media cid uid)
    then show ?thesis by (simp add: run_task_def activate_media_def keep_refl keep_activate split: option.split)
  qed (use f n assms(2) in \<open>simp_all add: run_task_def keep_outgoing_timeout keep_greet keep_play_alert keep_speak_choice
    keep_speak_verification keep_end_media keep_inactivity keep_prompt keep_hangup\<close>)
  then show "R s (run_task d ok t ?s)" using assms(2) keep_take keep_trans by blast
qed

lemma keep_or_dial: "service_step s s' \<Longrightarrow> R s s' \<or> dial_step s s'"
proof (induction rule: service_step.induct)
  case (Bridge_event d now w new_id path_of appended m s ok s')
  have "R s s'" by (rule keep_event [OF Bridge_event]) (rule safe_save_draft)
  then show ?case by blast
next
  case (Task t s d ok)
  show ?case
  proof (cases "is_dial t")
    case True
    then consider rid req where "t = Register_dial rid req" | rid req where "t = Send_dial rid req"
      by (cases t) simp_all
    then show ?thesis using Task by cases (auto simp: run_task_def intro: dial_step.intros)
  next
    case False
    with Task keep_task show ?thesis by blast
  qed
next
  case (Dial req fresh s)
  then show ?case by (auto intro: dial_step.intros)
qed (auto intro: keep_call_work keep_close keep_command_error keep_invalidate keep_flags keep_drain keep_disconnect)

end

text \<open>When the steps of a request keep the relation too, it holds along every run.\<close>

locale service_runs = service_contract +
  assumes keep_dial: "dial_step s s' \<Longrightarrow> R s s'"
begin

lemma keep_step: "service_step s s' \<Longrightarrow> R s s'"
  using keep_or_dial keep_dial by blast

lemma keep_run: "service_step\<^sup>*\<^sup>* s s' \<Longrightarrow> R s s'"
  by (induction rule: rtranclp_induct) (auto intro: keep_refl keep_trans keep_step)

end

section \<open>Well-formedness is kept\<close>

definition grows :: "service \<Rightarrow> service \<Rightarrow> bool" where
  "grows s s' \<longleftrightarrow> (valid s \<longrightarrow> valid s' \<and> length (sv_objects s) \<le> length (sv_objects s'))"

lemma growsI:
  assumes "valid s \<Longrightarrow> distinct_keys (sv_pending s') \<and> (\<forall>(rid, req) \<in> set (sv_pending s'). rq_user req \<noteq> [])"
    and "valid s \<Longrightarrow> (\<forall>(cid, i) \<in> set (sv_sessions s'). i < length (sv_objects s'))"
    and "valid s \<Longrightarrow> (\<forall>t \<in> set (sv_tasks s') - set (sv_tasks s). task_fits s' t \<and> request_fits t)"
    and "length (sv_objects s) \<le> length (sv_objects s')"
  shows "grows s s'"
  using assms task_fits_grows [OF _ assms(4)] unfolding grows_def valid_def by blast

lemma request_fits_other: "\<not> is_dial k \<Longrightarrow> request_fits k"
  by (cases k) (simp_all add: request_fits_def)

lemma set_take: "set (sv_tasks (take_task k s)) \<subseteq> set (sv_tasks s)"
  by (simp add: take_task_def set_remove1_subset)

lemma take_simps [simp]:
  "sv_objects (take_task k s) = sv_objects s" "sv_sessions (take_task k s) = sv_sessions s"
  "sv_pending (take_task k s) = sv_pending s" "sv_history (take_task k s) = sv_history s"
  by (simp_all add: take_task_def)

text \<open>A step between states with the same tables only shrinks or grows lists.\<close>

lemma growsI_shrink:
  assumes "set (sv_pending s') \<subseteq> set (sv_pending s)" "distinct_keys (sv_pending s) \<Longrightarrow> distinct_keys (sv_pending s')"
    and "set (sv_sessions s') \<subseteq> set (sv_sessions s)" "length (sv_objects s') = length (sv_objects s)"
    and "\<And>t. t \<in> set (sv_tasks s') \<Longrightarrow> t \<notin> set (sv_tasks s) \<Longrightarrow> task_fits s' t \<and> request_fits t"
  shows "grows s s'"
  by (rule growsI) (use assms in \<open>auto simp: valid_def\<close>)

lemma fail_request_simps [simp]:
  "sv_objects (fail_request r s) = sv_objects s" "sv_sessions (fail_request r s) = sv_sessions s"
  "sv_pending (fail_request r s) = sv_pending s" "sv_tasks (fail_request r s) = sv_tasks s"
  by (auto simp: fail_request_def signal_alert_def report_dial_outcome_def split: option.split)

lemma fold_fail_simps [simp]:
  "sv_objects (fold fail_request rs s) = sv_objects s" "sv_sessions (fold fail_request rs s) = sv_sessions s"
  "sv_pending (fold fail_request rs s) = sv_pending s" "sv_tasks (fold fail_request rs s) = sv_tasks s"
  by (induction rs arbitrary: s) simp_all

lemma report_simps [simp]:
  "length (sv_objects (report_alert_outcome out i s)) = length (sv_objects s)"
  "sv_sessions (report_alert_outcome out i s) = sv_sessions s" "sv_pending (report_alert_outcome out i s) = sv_pending s"
  "sv_tasks (report_alert_outcome out i s) = sv_tasks s"
  by (auto simp: report_alert_outcome_def split: option.split)

lemma notify_simps [simp]:
  "length (sv_objects (notify_alert b i s)) = length (sv_objects s)"
  "sv_sessions (notify_alert b i s) = sv_sessions s" "sv_pending (notify_alert b i s) = sv_pending s"
  "sv_tasks (notify_alert b i s) = sv_tasks s"
  by (auto simp: notify_alert_def signal_alert_def split: option.split)

lemma take_request_shrinks:
  assumes "take_request m s = (r, s1)"
  shows "set (sv_pending s1) \<subseteq> set (sv_pending s)" "distinct_keys (sv_pending s) \<Longrightarrow> distinct_keys (sv_pending s1)"
    "sv_objects s1 = sv_objects s" "sv_sessions s1 = sv_sessions s" "sv_tasks s1 = sv_tasks s" "sv_history s1 = sv_history s"
  using assms by (auto simp: take_request_def split: if_splits option.splits list.splits dest: in_del)

lemma add_session_grows: "grows s (add_session p s)"
  by (rule growsI) (auto simp: add_session_def valid_def less_SucI dest!: in_put)

lemma grows_trans: "grows s t \<Longrightarrow> grows t u \<Longrightarrow> grows s u"
  by (auto simp: grows_def)

interpretation grows: service_contract grows
proof unfold_locales
  show "grows s s" for s by (simp add: grows_def)
  show "grows s u" if "grows s t" "grows t u" for s t u using that by (rule grows_trans)
  show "grows s s'" if "valid s \<Longrightarrow> grows s s'" for s s' using that by (simp add: grows_def)
  show "valid s' \<and> length (sv_objects s) \<le> length (sv_objects s')" if "grows s s'" "valid s" for s s'
    using that by (simp add: grows_def)
  show "grows s s'" if "plain_change s s'" for s s'
    by (rule growsI_shrink) (use that in \<open>auto simp: plain_change_def\<close>)
  show "grows s (log e s)" for e s by (rule growsI_shrink) auto
  show "grows s (later k s)" if "\<not> is_dial k" "task_fits s k" for k s
    by (rule growsI_shrink) (use that request_fits_other in auto)
  show "grows s (take_task k s)" for k s
    by (rule growsI_shrink) (use set_take in auto)
  show "grows s (modify i f s)" for i f s by (rule growsI_shrink) auto
  show "grows s (report_alert_outcome out i s)" for out i s by (rule growsI_shrink) auto
  show "grows s (notify_alert b i s)" for b i s by (rule growsI_shrink) auto
  show "grows s (fold fail_request (map snd (filter (\<lambda>(_, req). P req) (sv_pending s))) s')"
    if "sv_objects s' = sv_objects s" "sv_tasks s' = sv_tasks s" "set (sv_sessions s') \<subseteq> set (sv_sessions s)"
      "sv_pending s' = filter (\<lambda>(_, req). \<not> P req) (sv_pending s)" for s s' P
    by (rule growsI_shrink) (use that in auto)
  show "grows s (fail_pending rid s)" for rid s
    by (rule growsI_shrink) (auto simp: fail_pending_def split: option.splits dest: in_del)
  show "grows s (add_session p s)" for p s by (rule add_session_grows)
  show "grows s (add_session (outgoing_object m req) s1)" if "take_request m s = (Some req, s1)" for m s req s1
  proof (rule grows_trans [OF _ add_session_grows])
    show "grows s s1" by (rule growsI_shrink) (use take_request_shrinks [OF that] in auto)
  qed
qed

text \<open>Requests on their way.\<close>

lemma report_dial_simps [simp]:
  "sv_objects (report_dial_outcome cb out s) = sv_objects s" "sv_sessions (report_dial_outcome cb out s) = sv_sessions s"
  "sv_pending (report_dial_outcome cb out s) = sv_pending s" "sv_tasks (report_dial_outcome cb out s) = sv_tasks s"
  by (auto simp: report_dial_outcome_def split: option.split)

lemma dial_grows: "rq_user req \<noteq> [] \<Longrightarrow> grows s (dial fresh req s)"
  by (rule growsI_shrink) (auto simp: dial_def request_fits_def split: option.splits)

lemma start_simps [simp]:
  "sv_objects (start_task k s) = sv_objects s" "sv_sessions (start_task k s) = sv_sessions s"
  "sv_pending (start_task k s) = sv_pending s" "sv_history (start_task k s) = sv_history s"
  by (auto simp: start_task_def)

lemma start_tasks: "set (sv_tasks (start_task k s)) \<subseteq> insert k (set (sv_tasks s))"
  by (auto simp: start_task_def)

lemma register_grows:
  assumes "Register_dial rid req \<in> set (sv_tasks s)"
  shows "grows s (dial_register rid req (take_task (Register_dial rid req) s))"
proof (rule growsI)
  let ?s = "take_task (Register_dial rid req) s"
  show "length (sv_objects s) \<le> length (sv_objects (dial_register rid req ?s))" by (simp add: dial_register_def)
  have "set (sv_tasks (dial_register rid req ?s)) \<subseteq>
      insert (Expire_pending rid) (insert (Send_dial rid (req\<lparr>rq_id := rid\<rparr>)) (set (sv_tasks s)))"
    using start_tasks [of "Expire_pending rid" "?s\<lparr>sv_pending := put rid (req\<lparr>rq_id := rid\<rparr>) (sv_pending ?s)\<rparr>"]
      set_take [of "Register_dial rid req" s] by (auto simp: dial_register_def)
  then show "\<forall>t\<in>set (sv_tasks (dial_register rid req ?s)) - set (sv_tasks s).
      task_fits (dial_register rid req ?s) t \<and> request_fits t"
    by (auto simp: request_fits_def)
  assume v: "valid s"
  then have "rq_user req \<noteq> []" using assms unfolding valid_def request_fits_def by fastforce
  with v show "distinct_keys (sv_pending (dial_register rid req ?s)) \<and>
      (\<forall>(rid, req)\<in>set (sv_pending (dial_register rid req ?s)). rq_user req \<noteq> [])"
    by (auto simp: dial_register_def valid_def dest!: in_put)
  from v show "\<forall>(cid, i)\<in>set (sv_sessions (dial_register rid req ?s)). i < length (sv_objects (dial_register rid req ?s))"
    by (simp add: dial_register_def valid_def)
qed

lemma sent_tasks: "set (sv_tasks (dial_sent rid req ok s)) \<subseteq> set (sv_tasks s)"
  using set_remove1_subset [of "Expire_pending rid" "sv_tasks s"]
  by (auto simp: dial_sent_def Let_def split: option.split)

lemma sent_grows: "grows s (dial_sent rid req ok (take_task (Send_dial rid req) s))"
proof (rule growsI_shrink)
  show "\<And>t. t \<in> set (sv_tasks (dial_sent rid req ok (take_task (Send_dial rid req) s))) \<Longrightarrow> t \<notin> set (sv_tasks s) \<Longrightarrow>
      task_fits (dial_sent rid req ok (take_task (Send_dial rid req) s)) t \<and> request_fits t"
    using sent_tasks set_take by fastforce
qed (auto simp: dial_sent_def Let_def dest: in_del split: option.split)

interpretation grows: service_runs grows
  by unfold_locales (auto elim!: dial_step.cases intro: dial_grows register_grows sent_grows)

lemma valid_new: "valid (new_service store media greeting lines)"
  by (simp add: valid_def new_service_def)

lemma reachable_valid: "reachable s \<Longrightarrow> valid s"
  by (induction rule: reachable.induct) (auto simp: valid_new dest: grows.keep_step simp: grows_def)

end
