(* ===== verification/Call_Ledger.thy ===== *)
theory Call_Ledger
  imports Call_Contracts
begin

text \<open>
  What holds along every run of the call service, as interpretations of the contract: the done
  channel of an alert is signalled once, the outcomes of an alert call advance, and no event
  makes the service panic.
\<close>

section \<open>The ledger of done channels\<close>

text \<open>Outside \<open>Dial\<close>, a channel moves from its holder to a signal.\<close>

definition balanced :: "nat \<Rightarrow> service \<Rightarrow> service \<Rightarrow> bool" where
  "balanced n s s' \<longleftrightarrow> holders n s' + signals n s' = holders n s + signals n s \<and> failures n s' = failures n s \<and>
     set (sv_pending s') \<subseteq> set (sv_pending s) \<and> filter is_dial (sv_tasks s') = filter is_dial (sv_tasks s)"

definition ledger :: "nat \<Rightarrow> service \<Rightarrow> service \<Rightarrow> bool" where
  "ledger n s s' \<longleftrightarrow> grows s s' \<and> (valid s \<longrightarrow> balanced n s s')"

lemma ledgerI: "grows s s' \<Longrightarrow> (valid s \<Longrightarrow> balanced n s s') \<Longrightarrow> ledger n s s'"
  by (simp add: ledger_def)

lemma balanced_trans: "balanced n s t \<Longrightarrow> balanced n t u \<Longrightarrow> balanced n s u"
  by (auto simp: balanced_def)

lemma ledger_trans: "ledger n s t \<Longrightarrow> ledger n t u \<Longrightarrow> ledger n s u"
  unfolding ledger_def using grows_trans balanced_trans by (metis grows_def)

text \<open>Counting after an update of one object.\<close>

lemma filter_update:
  "i < length xs \<Longrightarrow> length (filter P (xs[i := x])) + (if P (xs ! i) then 1 else 0)
     = length (filter P xs) + (if P x then 1 else 0)"
proof (induction xs arbitrary: i)
  case (Cons y ys)
  then show ?case by (cases i) auto
qed simp

lemma filter_update_same:
  "P (f (xs ! i)) = P (xs ! i) \<Longrightarrow> length (filter P (xs[i := f (xs ! i)])) = length (filter P xs)"
  using filter_update [of i xs P "f (xs ! i)"] by (cases "i < length xs") (auto simp: list_update_beyond split: if_splits)

lemma holders_count: "holders n s = count_if (\<lambda>_ req. rq_done req = Some n) (sv_pending s)
    + length (filter (\<lambda>p. so_done p = Some n) (sv_objects s)) + length (filter (\<lambda>t. task_done t = Some n) (sv_tasks s))"
  by (simp add: holders_def count_if_def)

lemma task_done_other: "\<not> is_dial k \<Longrightarrow> task_done k = None"
  by (cases k) (simp_all add: task_done_def)

lemma task_done_simps [simp]: "task_done (Register_dial rid req) = rq_done req" "task_done (Send_dial rid req) = None"
  by (simp_all add: task_done_def)

lemma filter_remove1_other: "\<not> P x \<Longrightarrow> filter P (remove1 x xs) = filter P xs"
  by (induction xs) auto

lemma balanced_plain:
  assumes "sv_pending s' = sv_pending s" "length (filter (\<lambda>p. so_done p = Some n) (sv_objects s')) = length (filter (\<lambda>p. so_done p = Some n) (sv_objects s))"
    and "sv_tasks s' = sv_tasks s" "signals n s' = signals n s" "failures n s' = failures n s"
  shows "balanced n s s'"
  using assms by (simp add: balanced_def holders_def)

lemma signals_log [simp]: "signals n (log e s) = signals n s + (if \<exists>b. e = Signal n b then 1 else 0)"
  by (simp add: signals_def)

lemma failures_log [simp]: "failures n (log e s) = failures n s + (if e = Dial_failed n then 1 else 0)"
  by (simp add: failures_def)

lemma signals_same: "sv_history s' = sv_history s \<Longrightarrow> signals n s' = signals n s \<and> failures n s' = failures n s"
  by (simp add: signals_def failures_def)

lemma modify_ledger [simp]: "signals n (modify i f s) = signals n s" "failures n (modify i f s) = failures n s"
  by (simp_all add: signals_def failures_def)

lemma fail_request_ledger:
  "signals n (fail_request r s) = signals n s + (if rq_done r = Some n then 1 else 0)"
  "failures n (fail_request r s) = failures n s"
  by (auto simp: fail_request_def signal_alert_def report_dial_outcome_def split: option.split)

lemma fold_fail_ledger:
  "signals n (fold fail_request rs s) = signals n s + length (filter (\<lambda>r. rq_done r = Some n) rs)"
  "failures n (fold fail_request rs s) = failures n s"
  by (induction rs arbitrary: s) (simp_all add: fail_request_ledger)

lemma count_split:
  "length (filter (\<lambda>r. Q r) (map snd (filter (\<lambda>(_, r). P r) m))) + count_if (\<lambda>_. Q) (filter (\<lambda>(_, r). \<not> P r) m) = count_if (\<lambda>_. Q) m"
  by (induction m) auto

lemma balanced_sweep:
  assumes "sv_objects s' = sv_objects s" "sv_tasks s' = sv_tasks s" "sv_history s' = sv_history s"
    "sv_pending s' = filter (\<lambda>(_, req). \<not> P req) (sv_pending s)"
  shows "balanced n s (fold fail_request (map snd (filter (\<lambda>(_, req). P req) (sv_pending s))) s')"
  using assms count_split [of "\<lambda>req. rq_done req = Some n" P "sv_pending s"] signals_same [OF assms(3), of n]
  by (auto simp: balanced_def holders_count fold_fail_ledger)

lemma pending_ledger [simp]:
  "signals n (s\<lparr>sv_pending := x\<rparr>) = signals n s" "failures n (s\<lparr>sv_pending := x\<rparr>) = failures n s"
  by (simp_all add: signals_def failures_def)

lemma balanced_fail:
  assumes "valid s"
  shows "balanced n s (fail_pending rid s)"
proof (cases "map_of (sv_pending s) rid")
  case None
  then show ?thesis by (simp add: fail_pending_def balanced_def)
next
  case (Some req)
  have "count_if (\<lambda>_ req. rq_done req = Some n) (del rid (sv_pending s)) + (if rq_done req = Some n then 1 else 0)
      = count_if (\<lambda>_ req. rq_done req = Some n) (sv_pending s)"
    using assms Some count_del [of "sv_pending s" "\<lambda>_ req. rq_done req = Some n" rid] by (simp add: valid_def)
  then show ?thesis
    by (auto simp: fail_pending_def Some balanced_def holders_count fail_request_ledger dest: in_del)
qed

lemma balanced_notify: "i < length (sv_objects s) \<Longrightarrow> balanced n s (notify_alert b i s)"
  using filter_update [of i "sv_objects s" "\<lambda>p. so_done p = Some n" "(sv_objects s ! i)\<lparr>so_done := None\<rparr>"]
  by (auto simp: notify_alert_def signal_alert_def balanced_def holders_def modify_def log_def object_def signals_def
      failures_def split: option.split)

lemma balanced_report: "balanced n s (report_alert_outcome out i s)"
proof -
  have "length (filter (\<lambda>p. so_done p = Some n) (sv_objects (report_alert_outcome out i s)))
      = length (filter (\<lambda>p. so_done p = Some n) (sv_objects s))"
    by (auto simp: report_alert_outcome_def modify_def split: option.split intro!: filter_update_same)
  then show ?thesis
    by (intro balanced_plain) (auto simp: report_alert_outcome_def split: option.split)
qed

lemma balanced_outgoing:
  assumes "take_request m s = (Some req, s1)" "valid s"
  shows "balanced n s (add_session (outgoing_object m req) s1)"
proof -
  have "count_if (\<lambda>_ req. rq_done req = Some n) (sv_pending s1) + (if rq_done req = Some n then 1 else 0)
      = count_if (\<lambda>_ req. rq_done req = Some n) (sv_pending s)"
    using assms count_del [of "sv_pending s" "\<lambda>_ req. rq_done req = Some n" "m_request_id m"]
    by (auto simp: take_request_def valid_def split: if_splits option.splits list.splits)
  then show ?thesis using take_request_shrinks [OF assms(1)]
    by (auto simp: balanced_def holders_count add_session_def outgoing_object_def new_object_def signals_def failures_def)
qed

interpretation ledger: service_contract "ledger n" for n
proof unfold_locales
  show "ledger n s s" for s by (simp add: ledger_def grows.keep_refl balanced_def)
  show "ledger n s u" if "ledger n s t" "ledger n t u" for s t u using that by (rule ledger_trans)
  show "ledger n s s'" if "valid s \<Longrightarrow> ledger n s s'" for s s' using that by (auto simp: ledger_def grows_def)
  show "valid s' \<and> length (sv_objects s) \<le> length (sv_objects s')" if "ledger n s s'" "valid s" for s s'
    using that by (simp add: ledger_def grows_def)
  show "ledger n s s'" if "plain_change s s'" for s s'
    by (rule ledgerI [OF grows.keep_plain [OF that]])
       (use that in \<open>simp add: plain_change_def balanced_def holders_def signals_def failures_def\<close>)
  show "ledger n s (log e s)" if "neutral e" for e s
    by (rule ledgerI [OF grows.keep_log [OF that]], rule balanced_plain) (use that in \<open>auto simp: neutral_def\<close>)
  show "ledger n s (later k s)" if "\<not> is_dial k" "task_fits s k" for k s
    by (rule ledgerI [OF grows.keep_later [OF that]])
       (use that(1) in \<open>simp add: balanced_def holders_def signals_def failures_def task_done_other\<close>)
  show "ledger n s (take_task k s)" if "\<not> is_dial k" for k s
    by (rule ledgerI [OF grows.keep_take [OF that]])
       (use that in \<open>simp add: balanced_def holders_def signals_def failures_def take_task_def filter_remove1_other task_done_other\<close>)
  show "ledger n s (modify i f s)" if "plain_at f (object i s)" for i f s
    by (rule ledgerI [OF grows.keep_modify_at [OF that]], rule balanced_plain)
       (use that in \<open>auto simp: plain_at_def object_def modify_def signals_def failures_def intro!: filter_update_same\<close>)
  show "ledger n s (report_alert_outcome out i s)" if "i < length (sv_objects s)" for out i s
    by (rule ledgerI [OF grows.keep_report [OF that] balanced_report])
  show "ledger n s (notify_alert b i s)" if "i < length (sv_objects s)" for b i s
    by (rule ledgerI [OF grows.keep_notify [OF that] balanced_notify [OF that]])
  show "ledger n s (fold fail_request (map snd (filter (\<lambda>(_, req). P req) (sv_pending s))) s')"
    if "sv_objects s' = sv_objects s" "sv_tasks s' = sv_tasks s" "sv_history s' = sv_history s"
      "set (sv_sessions s') \<subseteq> set (sv_sessions s)" "sv_pending s' = filter (\<lambda>(_, req). \<not> P req) (sv_pending s)" for s s' P
    by (rule ledgerI [OF grows.keep_sweep [OF that] balanced_sweep]) (use that in auto)
  show "ledger n s (fail_pending rid s)" for rid s by (rule ledgerI [OF grows.keep_fail balanced_fail])
  show "ledger n s (add_session p s)" if "so_done p = None" "so_last p = None" "so_terminal p = False" "call_ok (so_call p)" for p s
    by (rule ledgerI [OF grows.keep_add [OF that]])
       (use that in \<open>simp add: balanced_def holders_def add_session_def signals_def failures_def\<close>)
  show "ledger n s (add_session (outgoing_object m req) s1)" if "take_request m s = (Some req, s1)" for m s req s1
    by (rule ledgerI [OF grows.keep_outgoing [OF that] balanced_outgoing [OF that]])
qed

section \<open>Requests on their way\<close>

text \<open>The identifiers of dial tasks differ, a request to register is not in the table yet, and the table
  holds what is being sent.\<close>

definition task_id :: "task \<Rightarrow> string" where
  "task_id t = (case t of Register_dial rid _ \<Rightarrow> rid | Send_dial rid _ \<Rightarrow> rid | _ \<Rightarrow> [])"

definition wired :: "service \<Rightarrow> bool" where
  "wired s \<longleftrightarrow> distinct (map task_id (filter is_dial (sv_tasks s))) \<and>
     (\<forall>rid req. Register_dial rid req \<in> set (filter is_dial (sv_tasks s)) \<longrightarrow> rid \<notin> fst ` set (sv_pending s)) \<and>
     (\<forall>rid req r. Send_dial rid req \<in> set (filter is_dial (sv_tasks s)) \<longrightarrow> (rid, r) \<in> set (sv_pending s) \<longrightarrow>
        rq_done r = rq_done req)"

lemma wired_same:
  assumes "wired s" "set (sv_pending s') \<subseteq> set (sv_pending s)" "filter is_dial (sv_tasks s') = filter is_dial (sv_tasks s)"
  shows "wired s'"
  using assms(1,2) unfolding wired_def assms(3) by (metis image_mono subsetD)

lemma wired_register: "wired s \<Longrightarrow> Register_dial rid req \<in> set (sv_tasks s) \<Longrightarrow> rid \<notin> fst ` set (sv_pending s)"
  unfolding wired_def by (metis (mono_tags) is_dial_simps(1) mem_Collect_eq set_filter)

lemma wired_send: "wired s \<Longrightarrow> Send_dial rid req \<in> set (sv_tasks s) \<Longrightarrow> (rid, r) \<in> set (sv_pending s) \<Longrightarrow> rq_done r = rq_done req"
  unfolding wired_def by (metis (mono_tags) is_dial_simps(2) mem_Collect_eq set_filter)

lemma other_ids:
  "distinct (map task_id (filter is_dial ts)) \<Longrightarrow> t \<in> set ts \<Longrightarrow> is_dial t \<Longrightarrow> t' \<in> set (remove1 t ts) \<Longrightarrow> is_dial t' \<Longrightarrow>
   task_id t' \<noteq> task_id t"
proof (induction ts)
  case (Cons x ts)
  then show ?case by (cases "x = t") (auto split: if_splits simp: image_iff)
qed simp

lemma filter_remove1: "filter P (remove1 x xs) = (if P x then remove1 x (filter P xs) else filter P xs)"
  by (induction xs) auto

lemma distinct_map_remove1: "distinct (map f xs) \<Longrightarrow> distinct (map f (remove1 x xs))"
proof (induction xs)
  case (Cons a xs)
  have "set (remove1 x xs) \<subseteq> set xs" by (rule set_remove1_subset)
  with Cons show ?case by auto
qed simp

lemma length_filter_remove1: "x \<in> set xs \<Longrightarrow>
    length (filter P (remove1 x xs)) + (if P x then 1 else 0) = length (filter P xs)"
  by (induction xs) auto

text \<open>The books of a channel: signalled or held at most once, and not lost without an error of \<open>Dial\<close>.\<close>

definition books :: "nat \<Rightarrow> service \<Rightarrow> bool" where
  "books n s \<longleftrightarrow> holders n s + signals n s \<le> 1"

definition kept :: "nat \<Rightarrow> service \<Rightarrow> service \<Rightarrow> bool" where
  "kept n s s' \<longleftrightarrow> (0 < holders n s + signals n s + failures n s \<longrightarrow> 0 < holders n s' + signals n s' + failures n s')"

lemma kept_trans: "kept n s t \<Longrightarrow> kept n t u \<Longrightarrow> kept n s u"
  unfolding kept_def by (rule impI, drule (1) mp, erule (1) mp)

lemma balanced_books: "balanced n s s' \<Longrightarrow> books n s \<Longrightarrow> books n s' \<and> kept n s s'"
  by (auto simp: balanced_def books_def kept_def)

lemma report_dial_ledger [simp]:
  "signals n (report_dial_outcome cb out s) = signals n s" "failures n (report_dial_outcome cb out s) = failures n s"
  by (auto simp: report_dial_outcome_def split: option.split)

lemma holders_log [simp]: "holders n (log e s) = holders n s"
  by (simp add: holders_def)

lemma books_begin:
  assumes "wired s" "books n s" "fresh \<notin> request_ids s" "rq_id req = []"
    and "rq_done req = Some n \<longrightarrow> holders n s + signals n s + failures n s = 0"
  shows "wired (dial fresh req s) \<and> books n (dial fresh req s) \<and> kept n s (dial fresh req s)"
proof (cases "dial_begin req s")
  case None
  have ids: "task_id t \<noteq> fresh" if "t \<in> set (sv_tasks s)" "is_dial t" for t
    using assms(3) that by (cases t) (auto simp: request_ids_def task_id_def)
  have "fresh \<notin> fst ` set (sv_pending s)" using assms(3) by (simp add: request_ids_def)
  with assms(1) ids have "wired (later (Register_dial fresh req) s)"
    unfolding wired_def by (auto simp: task_id_def image_iff)
  moreover have "holders n (later (Register_dial fresh req) s) = holders n s + (if rq_done req = Some n then 1 else 0)"
    by (simp add: holders_def task_done_def)
  moreover have "signals n (later k s) = signals n s" "failures n (later k s) = failures n s" for k
    by (simp_all add: signals_def failures_def)
  ultimately show ?thesis using assms None by (simp add: dial_def books_def kept_def)
next
  case (Some e)
  then have d: "dial fresh req s = (case rq_done req of None \<Rightarrow> s | Some n \<Rightarrow> log (Dial_failed n) s)"
    by (simp add: dial_def)
  have "wired (dial fresh req s)"
    by (rule wired_same [OF assms(1)]) (auto simp: d split: option.split)
  moreover have "books n (dial fresh req s)" "kept n s (dial fresh req s)"
    using assms(2) by (auto simp: d books_def kept_def split: option.split)
  ultimately show ?thesis by blast
qed

lemma start_ledger [simp]: "signals n (start_task k s) = signals n s" "failures n (start_task k s) = failures n s"
  by (simp_all add: signals_def failures_def)

lemma dial_tasks_start: "\<not> is_dial k \<Longrightarrow> filter is_dial (sv_tasks (start_task k s)) = filter is_dial (sv_tasks s)"
  by (simp add: start_task_def)

lemma done_tasks_start: "\<not> is_dial k \<Longrightarrow> filter (\<lambda>t. task_done t = Some n) (sv_tasks (start_task k s)) = filter (\<lambda>t. task_done t = Some n) (sv_tasks s)"
  by (simp add: start_task_def task_done_other)

lemma books_register:
  assumes "wired s" "valid s" "Register_dial rid req \<in> set (sv_tasks s)"
  defines "s' \<equiv> dial_register rid req (take_task (Register_dial rid req) s)"
  shows "wired s'" and "holders n s' = holders n s" and "signals n s' = signals n s" and "failures n s' = failures n s"
proof -
  let ?t = "Register_dial rid req" let ?req = "req\<lparr>rq_id := rid\<rparr>"
  have fresh: "rid \<notin> fst ` set (sv_pending s)" by (rule wired_register [OF assms(1,3)])
  then have p: "sv_pending s' = sv_pending s @ [(rid, ?req)]"
    by (simp add: s'_def dial_register_def put_fresh map_of_eq_None_iff)
  have d: "filter is_dial (sv_tasks s') = remove1 ?t (filter is_dial (sv_tasks s)) @ [Send_dial rid ?req]"
    by (simp add: s'_def dial_register_def dial_tasks_start filter_remove1 take_task_def)
  have dist: "distinct (map task_id (filter is_dial (sv_tasks s)))" using assms(1) by (simp add: wired_def)
  have other: "task_id t' \<noteq> rid" if "t' \<in> set (remove1 ?t (filter is_dial (sv_tasks s)))" for t'
  proof -
    have "t' \<in> set (filter is_dial (remove1 ?t (sv_tasks s)))"
      using that by (simp only: filter_remove1 is_dial_simps if_True)
    then have "t' \<in> set (remove1 ?t (sv_tasks s))" "is_dial t'" by simp_all
    then show ?thesis using other_ids [OF dist assms(3)] by (simp add: task_id_def)
  qed
  have sub: "set (remove1 ?t (filter is_dial (sv_tasks s))) \<subseteq> set (filter is_dial (sv_tasks s))"
    by (rule set_remove1_subset)
  show "wired s'"
    unfolding wired_def d p
  proof (intro conjI allI impI)
    show "distinct (map task_id (remove1 ?t (filter is_dial (sv_tasks s)) @ [Send_dial rid ?req]))"
      using other distinct_map_remove1 [OF dist] by (auto simp: task_id_def)
  next
    fix rid' req' assume "Register_dial rid' req' \<in> set (remove1 ?t (filter is_dial (sv_tasks s)) @ [Send_dial rid ?req])"
    then have *: "Register_dial rid' req' \<in> set (remove1 ?t (filter is_dial (sv_tasks s)))" by simp
    then have "rid' \<noteq> rid" "rid' \<notin> fst ` set (sv_pending s)"
      using other [OF *] wired_register [OF assms(1)] sub by (auto simp: task_id_def)
    then show "rid' \<notin> fst ` set (sv_pending s @ [(rid, ?req)])" by simp
  next
    fix rid' req' r
    assume *: "Send_dial rid' req' \<in> set (remove1 ?t (filter is_dial (sv_tasks s)) @ [Send_dial rid ?req])"
      "(rid', r) \<in> set (sv_pending s @ [(rid, ?req)])"
    show "rq_done r = rq_done req'"
    proof (cases "rid' = rid")
      case True
      have "(rid, r) \<notin> set (sv_pending s)" using fresh by force
      with *(2) True have "r = ?req" by simp
      moreover have "Send_dial rid' req' \<notin> set (remove1 ?t (filter is_dial (sv_tasks s)))"
      proof
        assume "Send_dial rid' req' \<in> set (remove1 ?t (filter is_dial (sv_tasks s)))"
        then have "task_id (Send_dial rid' req') \<noteq> rid" by (rule other)
        with True show False by (simp add: task_id_def)
      qed
      with *(1) have "req' = ?req" by simp
      ultimately show ?thesis by simp
    next
      case False
      with * sub have "Send_dial rid' req' \<in> set (sv_tasks s)" "(rid', r) \<in> set (sv_pending s)" by auto
      then show ?thesis by (rule wired_send [OF assms(1)])
    qed
  qed
  have "length (filter (\<lambda>t. task_done t = Some n) (sv_tasks s')) + (if rq_done req = Some n then 1 else 0)
      = length (filter (\<lambda>t. task_done t = Some n) (sv_tasks s))"
    using length_filter_remove1 [OF assms(3), of "\<lambda>t. task_done t = Some n"]
    by (simp add: s'_def dial_register_def done_tasks_start take_task_def)
  moreover have "sv_objects s' = sv_objects s" by (simp add: s'_def dial_register_def)
  ultimately show "holders n s' = holders n s" by (auto simp: holders_def p)
  show "signals n s' = signals n s" "failures n s' = failures n s"
    by (simp_all add: s'_def dial_register_def signals_def failures_def)
qed

lemma books_sent:
  fixes ok :: bool
  assumes "wired s" "valid s" "Send_dial rid req \<in> set (sv_tasks s)"
  defines "s' \<equiv> dial_sent rid req ok (take_task (Send_dial rid req) s)"
  shows "wired s'" and "books n s \<Longrightarrow> books n s'" and "kept n s s'"
proof -
  let ?t = "Send_dial rid req" let ?s = "take_task ?t s"
  have d: "filter is_dial (sv_tasks s') = remove1 ?t (filter is_dial (sv_tasks s))"
    by (simp add: s'_def dial_sent_def Let_def filter_remove1 take_task_def split: option.split)
  have sub: "set (remove1 ?t (filter is_dial (sv_tasks s))) \<subseteq> set (filter is_dial (sv_tasks s))"
    by (rule set_remove1_subset)
  have p: "set (sv_pending s') \<subseteq> set (sv_pending s)"
    by (auto simp: s'_def dial_sent_def Let_def dest: in_del split: option.split)
  show "wired s'"
    using assms(1) distinct_map_remove1 [of task_id "filter is_dial (sv_tasks s)" ?t] sub p
    unfolding wired_def d by (meson image_mono subsetD)
  have no: "\<not> (task_done x = Some n)" if "x = ?t \<or> x = Expire_pending rid" for x
    using that by (auto simp: task_done_def)
  have t: "filter (\<lambda>t. task_done t = Some n) (sv_tasks s') = filter (\<lambda>t. task_done t = Some n) (sv_tasks s)"
    using no by (simp add: s'_def dial_sent_def Let_def take_task_def filter_remove1_other split: option.split)
  have ob: "sv_objects s' = sv_objects s"
    by (simp add: s'_def dial_sent_def Let_def split: option.split)
  have sig: "signals n s' = signals n s" and fl: "failures n s' = failures n s + (if ok \<or> rq_done req \<noteq> Some n then 0 else 1)"
    by (auto simp: s'_def dial_sent_def Let_def signals_def failures_def take_task_def report_dial_outcome_def split: option.split)
  have pend: "sv_pending s' = (if ok then sv_pending s else del rid (sv_pending s))"
    by (simp add: s'_def dial_sent_def Let_def split: option.split)
  have w: "weight (\<lambda>_ r. rq_done r = Some n) rid (map_of (sv_pending s) rid) \<le> (if rq_done req = Some n then 1 else 0)"
    using wired_send [OF assms(1,3) lookup_in] by (auto simp: weight_def split: option.splits)
  have c: "count_if (\<lambda>_ r. rq_done r = Some n) (del rid (sv_pending s)) + weight (\<lambda>_ r. rq_done r = Some n) rid (map_of (sv_pending s) rid)
      = count_if (\<lambda>_ r. rq_done r = Some n) (sv_pending s)"
    by (rule count_del) (use assms(2) in \<open>simp add: valid_def\<close>)
  show "books n s \<Longrightarrow> books n s'"
    using c by (auto simp: books_def holders_count t ob sig pend)
  show "kept n s s'"
    using c w by (auto simp: kept_def holders_count t ob sig fl pend split: if_splits)
qed

text \<open>Every step keeps the books.\<close>

lemma dial_books:
  assumes "dial_step s s'" "valid s" "wired s" "books n s"
  shows "wired s' \<and> books n s' \<and> kept n s s'"
  using assms(1)
proof cases
  case (Dial_begin req fresh)
  then show ?thesis using books_begin [of s n fresh req] assms by auto
next
  case (Dial_register rid req)
  then show ?thesis using books_register [OF assms(3,2), of rid req] assms(4) by (simp add: books_def kept_def)
next
  case (Dial_sent rid req ok)
  then show ?thesis using books_sent [OF assms(3,2), of rid req] assms(4) by simp
qed

lemma step_books:
  assumes "service_step s s'" "valid s" "wired s" "books n s"
  shows "wired s' \<and> books n s' \<and> kept n s s'"
  using ledger.keep_or_dial [OF assms(1), of n]
proof
  assume "ledger n s s'"
  then have b: "balanced n s s'" using assms(2) by (simp add: ledger_def)
  then have "wired s'" using assms(3) by (intro wired_same [OF assms(3)]) (auto simp: balanced_def)
  with balanced_books [OF b assms(4)] show ?thesis by simp
next
  assume "dial_step s s'"
  then show ?thesis by (rule dial_books) (use assms in auto)
qed

lemma reachable_books: "reachable s \<Longrightarrow> wired s \<and> books n s"
proof (induction rule: reachable.induct)
  case (Start store media greeting lines)
  then show ?case by (simp add: wired_def books_def holders_def signals_def new_service_def)
next
  case (Step s s')
  then show ?case using step_books [OF Step(2) reachable_valid] by blast
qed

lemma run_books:
  assumes "service_step\<^sup>*\<^sup>* s s'" "reachable s"
  shows "reachable s' \<and> kept n s s'"
  using assms
proof (induction rule: rtranclp_induct)
  case base
  then show ?case by (simp add: kept_def)
next
  case (step t u)
  then have t: "reachable t" "kept n s t" by auto
  then have "wired t \<and> books n t" by (intro reachable_books)
  with step_books [OF step(2) reachable_valid [OF t(1)]] have "kept n t u" by blast
  then have "kept n s u" using t(2) kept_trans by blast
  moreover have "reachable u" using t(1) step(2) by (rule reachable.Step)
  ultimately show ?case by simp
qed


text \<open>An alert of the demonstration is dialled and registered, and the bridge is lost before it is sent.\<close>

definition demo_request :: dial_request where
  "demo_request = \<lparr>rq_id = [], rq_uri = ''sip:1'', rq_user = ''u'', rq_account = [], rq_text = ''Hello'',
     rq_done = Some 0, rq_outcome = Some 0\<rparr>"

definition demo_desk :: desk where
  "demo_desk = \<lparr>d_verification = (\<lambda>_. None), d_routes = (\<lambda>_. None), d_user_by_phone = (\<lambda>_. None),
     d_lockout = (\<lambda>_. Some None), d_send = (\<lambda>_. True)\<rparr>"

definition demo_service :: service where
  "demo_service = connect (new_service True True False 4)"

lemma demo_trim: "trim_space ''sip:1'' \<noteq> []"
  by (simp add: trim_plain is_space_def)

lemma demo_reachable: "reachable demo_service"
  unfolding demo_service_def by (rule reachable.Step [OF reachable.Start service_step.Connected])

lemma demo_dialled: "dial ''r'' demo_request demo_service = demo_service\<lparr>sv_tasks := [Register_dial ''r'' demo_request]\<rparr>"
  using demo_trim by (simp add: dial_def dial_begin_def demo_service_def connect_def new_service_def demo_request_def later_def)

lemma demo_dial_step: "service_step demo_service (dial ''r'' demo_request demo_service)"
  by (rule service_step.Dial)
     (simp_all add: demo_request_def demo_service_def connect_def new_service_def request_ids_def holders_def signals_def failures_def)


section \<open>Outcomes of an alert call\<close>

definition reports :: "nat \<Rightarrow> service \<Rightarrow> alert_outcome list" where
  "reports i s = List.map_filter (\<lambda>e. case e of Reported j _ out \<Rightarrow> if j = i then Some out else None | _ \<Rightarrow> None) (sv_history s)"

definition advancing :: "service \<Rightarrow> bool" where
  "advancing s \<longleftrightarrow> (\<forall>i. sorted_wrt (<) (map rank (reports i s)) \<and>
     (\<forall>out \<in> set (reports i s). i < length (sv_objects s) \<and> rank out \<le> last_rank (so_last (object i s))))"

lemma reports_log [simp]:
  "reports i (log e s) = reports i s @ (case e of Reported j _ out \<Rightarrow> if j = i then [out] else [] | _ \<Rightarrow> [])"
  by (auto simp: reports_def List.map_filter_def split: effect.split)

lemma reports_same: "sv_history s' = sv_history s \<Longrightarrow> reports i s' = reports i s"
  by (simp add: reports_def)

definition advances :: "service \<Rightarrow> service \<Rightarrow> bool" where
  "advances s s' \<longleftrightarrow> grows s s' \<and> (valid s \<longrightarrow> advancing s \<longrightarrow> advancing s')"

lemma advancesI: "grows s s' \<Longrightarrow> (advancing s \<Longrightarrow> advancing s') \<Longrightarrow> advances s s'"
  by (simp add: advances_def)

text \<open>Enough for every change that reports nothing: old objects keep their last outcome.\<close>

lemma advancing_same:
  assumes "advancing s" "\<And>i. reports i s' = reports i s" "length (sv_objects s) \<le> length (sv_objects s')"
    and "\<And>i. i < length (sv_objects s) \<Longrightarrow> so_last (object i s') = so_last (object i s)"
  shows "advancing s'"
  using assms unfolding advancing_def by (metis order_less_le_trans)

lemma fail_request_reports [simp]: "reports i (fail_request r s) = reports i s"
  by (auto simp: fail_request_def signal_alert_def report_dial_outcome_def split: option.split)

lemma fold_fail_reports [simp]: "reports i (fold fail_request rs s) = reports i s"
  by (induction rs arbitrary: s) simp_all

lemma advancing_report:
  assumes "i < length (sv_objects s)" "advancing s"
  shows "advancing (report_alert_outcome out i s)"
proof (cases "so_outcome (object i s) = None \<or> so_terminal (object i s) \<or> rank out \<le> last_rank (so_last (object i s))")
  case True
  then have "report_alert_outcome out i s = s" by (auto simp: report_alert_outcome_def split: option.split)
  with assms show ?thesis by simp
next
  case False
  let ?s = "report_alert_outcome out i s"
  from False obtain cb where cb: "so_outcome (object i s) = Some cb" by auto
  have r: "reports j ?s = reports j s @ (if j = i then [out] else [])" for j
    using False cb by (auto simp: report_alert_outcome_def reports_same [of "modify i f s" s for f])
  have o: "last_rank (so_last (object j ?s)) = (if j = i then rank out else last_rank (so_last (object j s)))" for j
    using False cb assms(1) by (auto simp: report_alert_outcome_def object_def modify_def log_def last_rank_def)
  have n: "length (sv_objects ?s) = length (sv_objects s)" by simp
  have less: "\<forall>x \<in> set (reports i s). rank x < rank out"
    using assms(2) False unfolding advancing_def by (meson not_le order_le_less_trans)
  have old: "sorted_wrt (<) (map rank (reports j s))" "x \<in> set (reports j s) \<Longrightarrow> j < length (sv_objects s)"
    "x \<in> set (reports j s) \<Longrightarrow> rank x \<le> last_rank (so_last (object j s))" for j x
    using assms(2) unfolding advancing_def by auto
  show ?thesis
    unfolding advancing_def r o n using old less assms(1)
    by (auto simp: sorted_wrt_append less_imp_le split: if_splits)
qed

lemma object_modify_other: "so_last (f (object i s)) = so_last (object i s) \<Longrightarrow> so_last (object j (modify i f s)) = so_last (object j s)"
  by (cases "i < length (sv_objects s)"; cases "i = j") (simp_all add: object_def modify_def list_update_beyond)

lemma advancing_modify: "so_last (f (object i s)) = so_last (object i s) \<Longrightarrow> advancing s \<Longrightarrow> advancing (modify i f s)"
  by (rule advancing_same) (auto simp: object_modify_other intro: reports_same)

lemma advancing_objects:
  "advancing s \<Longrightarrow> sv_objects s' = sv_objects s \<Longrightarrow> (\<And>i. reports i s' = reports i s) \<Longrightarrow> advancing s'"
  by (rule advancing_same) (auto simp: object_def)

lemma advancing_log: "neutral e \<or> (\<exists>n b. e = Signal n b) \<or> (\<exists>n. e = Dial_failed n) \<Longrightarrow> advancing s \<Longrightarrow> advancing (log e s)"
  by (rule advancing_objects) (auto simp: neutral_def split: effect.splits)

lemma advancing_notify: "advancing s \<Longrightarrow> advancing (notify_alert b i s)"
  unfolding notify_alert_def signal_alert_def
  by (auto split: option.split intro!: advancing_log advancing_modify)

lemma advancing_add: "advancing s \<Longrightarrow> advancing (add_session p s)"
  by (rule advancing_same) (auto simp: add_session_def object_def nth_append reports_def)

interpretation advances: service_contract advances
proof unfold_locales
  show "advances s s" for s by (simp add: advances_def grows.keep_refl)
  show "advances s u" if "advances s t" "advances t u" for s t u
    using that grows_trans unfolding advances_def by (metis grows_def)
  show "advances s s'" if "valid s \<Longrightarrow> advances s s'" for s s' using that by (auto simp: advances_def grows_def)
  show "valid s' \<and> length (sv_objects s) \<le> length (sv_objects s')" if "advances s s'" "valid s" for s s'
    using that by (simp add: advances_def grows_def)
  show "advances s s'" if "plain_change s s'" for s s'
    by (rule advancesI [OF grows.keep_plain [OF that]], erule advancing_objects)
       (use that in \<open>auto simp: plain_change_def intro: reports_same\<close>)
  show "advances s (log e s)" if "neutral e" for e s
    by (rule advancesI [OF grows.keep_log [OF that] advancing_log]) (use that in auto)
  show "advances s (later k s)" if "\<not> is_dial k" "task_fits s k" for k s
    by (rule advancesI [OF grows.keep_later [OF that]], erule advancing_objects) (auto intro: reports_same)
  show "advances s (take_task k s)" if "\<not> is_dial k" for k s
    by (rule advancesI [OF grows.keep_take [OF that]], erule advancing_objects) (auto intro: reports_same)
  show "advances s (modify i f s)" if "plain_at f (object i s)" for i f s
    by (rule advancesI [OF grows.keep_modify_at [OF that] advancing_modify]) (use that in \<open>auto simp: plain_at_def\<close>)
  show "advances s (report_alert_outcome out i s)" if "i < length (sv_objects s)" for out i s
    by (rule advancesI [OF grows.keep_report [OF that] advancing_report [OF that]])
  show "advances s (notify_alert b i s)" if "i < length (sv_objects s)" for b i s
    by (rule advancesI [OF grows.keep_notify [OF that] advancing_notify])
  show "advances s (fold fail_request (map snd (filter (\<lambda>(_, req). P req) (sv_pending s))) s')"
    if "sv_objects s' = sv_objects s" "sv_tasks s' = sv_tasks s" "sv_history s' = sv_history s"
      "set (sv_sessions s') \<subseteq> set (sv_sessions s)" "sv_pending s' = filter (\<lambda>(_, req). \<not> P req) (sv_pending s)" for s s' P
    by (rule advancesI [OF grows.keep_sweep [OF that]], erule advancing_objects) (use that in \<open>simp_all add: reports_same [of s' s]\<close>)
  show "advances s (fail_pending rid s)" for rid s
    by (rule advancesI [OF grows.keep_fail], erule advancing_objects) (auto simp: fail_pending_def reports_same [of "s\<lparr>sv_pending := x\<rparr>" s for x] split: option.split)
  show "advances s (add_session p s)" if "so_done p = None" "so_last p = None" "so_terminal p = False" "call_ok (so_call p)" for p s
    by (rule advancesI [OF grows.keep_add [OF that] advancing_add])
  show "advances s (add_session (outgoing_object m req) s1)" if "take_request m s = (Some req, s1)" for m s req s1
    by (rule advancesI [OF grows.keep_outgoing [OF that]], rule advancing_add, erule advancing_objects)
       (use take_request_shrinks [OF that] in \<open>auto intro: reports_same\<close>)
qed

lemma advancing_dial: "dial_step s s' \<Longrightarrow> advancing s \<Longrightarrow> advancing s'"
proof (induction rule: dial_step.induct)
  case (Dial_begin req fresh s)
  then show ?case
    by (elim advancing_objects) (auto simp: dial_def reports_def later_def log_def List.map_filter_def split: option.split)
next
  case (Dial_register rid req s)
  then show ?case
    by (elim advancing_objects) (auto simp: dial_register_def reports_def later_def start_task_def take_task_def)
next
  case (Dial_sent rid req s ok)
  then show ?case
    by (elim advancing_objects)
       (auto simp: dial_sent_def Let_def report_dial_outcome_def reports_def log_def take_task_def List.map_filter_def split: option.split)
qed

interpretation advances: service_runs advances
  by unfold_locales (auto simp: advances_def intro: grows.keep_dial advancing_dial)

lemma advancing_new: "advancing (new_service store media greeting lines)"
  by (simp add: advancing_def reports_def new_service_def List.map_filter_def)

lemma reachable_advancing: "reachable s \<Longrightarrow> advancing s"
proof (induction rule: reachable.induct)
  case (Start store media greeting lines)
  show ?case by (rule advancing_new)
next
  case (Step s s')
  then show ?case using advances.keep_step [OF Step(2)] reachable_valid [OF Step(1)] by (simp add: advances_def)
qed

text \<open>C24. An alert call tells its progress in order: in every run of the service the outcomes one call reports to
  its callback have strictly rising ranks (accepted, ringing, answered, then completed or failed), so none
  is repeated, none comes after a later one, and a call ends in one final outcome at most.\<close>

theorem outcomes_advance:
  assumes "reachable s"
  shows "sorted_wrt (<) (map rank (reports i s)) \<and>
    length (filter (\<lambda>out. out = Alert_playback_completed \<or> out = Alert_failed) (reports i s)) \<le> 1"
proof -
  have sorted: "sorted_wrt (<) (map rank (reports i s))"
    using reachable_advancing [OF assms] by (simp add: advancing_def)
  have "length (filter (\<lambda>out. out = Alert_playback_completed \<or> out = Alert_failed) outs) \<le> 1"
    if "sorted_wrt (<) (map rank outs)" for outs
    using that
  proof (induction outs)
    case (Cons out outs)
    have "filter (\<lambda>out. out = Alert_playback_completed \<or> out = Alert_failed) outs = []"
      if "out = Alert_playback_completed \<or> out = Alert_failed"
    proof -
      have "rank out = 4" using that by auto
      moreover have "rank x \<le> 4" for x by (cases x) simp_all
      ultimately have "outs = []" using Cons.prems by (cases outs) (simp_all add: leD)
      then show ?thesis by simp
    qed
    with Cons show ?case by auto
  qed simp
  with sorted show ?thesis by blast
qed

text \<open>An alert that rings, is answered and is then cut off reports ringing, answered and failed, each once.\<close>

definition demo_outgoing :: message where
  "demo_outgoing = empty_message\<lparr>m_type := ''call_outgoing'', m_call_id := ''c'', m_request_id := ''r''\<rparr>"

definition demo_ringing :: message where
  "demo_ringing = empty_message\<lparr>m_type := ''call_ringing'', m_call_id := ''c''\<rparr>"

definition demo_registered :: service where
  "demo_registered = run_task demo_desk True (Register_dial ''r'' demo_request)
     (take_task (Register_dial ''r'' demo_request) (dial ''r'' demo_request demo_service))"

definition demo_called :: service where
  "demo_called = snd (start_outgoing demo_desk demo_outgoing demo_registered)"

lemma demo_registered_simps:
  "sv_pending demo_registered = [(''r'', demo_request\<lparr>rq_id := ''r''\<rparr>)]" "sv_sessions demo_registered = []"
  "sv_objects demo_registered = []" "sv_history demo_registered = []" "sv_media demo_registered"
  unfolding demo_registered_def demo_dialled
  by (simp_all add: run_task_def dial_register_def take_task_def start_task_def later_def demo_service_def
      connect_def new_service_def)

lemma registered_reachable: "reachable demo_registered"
  unfolding demo_registered_def
  by (rule reachable.Step [OF reachable.Step [OF demo_reachable demo_dial_step] service_step.Task]) (simp add: demo_dialled)

lemma demo_called_simps:
  "sv_sessions demo_called = [(''c'', 0)]" "length (sv_objects demo_called) = 1" "sv_history demo_called = []"
  "so_outcome (object 0 demo_called) = Some 0" "so_last (object 0 demo_called) = None"
  "\<not> so_terminal (object 0 demo_called)" "so_plays (object 0 demo_called) = 0" "so_done (object 0 demo_called) = Some 0"
  by (simp_all add: demo_called_def start_outgoing_def demo_outgoing_def empty_message_def lookup_def take_request_def
      demo_registered_simps demo_request_def activate_speech_def add_session_def modify_def start_task_def later_def object_def
      outgoing_object_def new_object_def blank_call_def)

lemma called_reachable: "reachable demo_called"
proof (rule reachable.Step [OF registered_reachable service_step.Bridge_event])
  show "handle_event demo_desk 0 demo_world (\<lambda>_. save_draft demo_world [] (\<lambda>_ _. []) True) demo_outgoing demo_registered
      = Some (fst (start_outgoing demo_desk demo_outgoing demo_registered), demo_called)"
    by (simp add: handle_event_def demo_outgoing_def demo_called_def)
qed

lemma reports_plain [simp]:
  "reports i (modify j f s) = reports i s" "reports i (release_session_speech j s) = reports i s"
  "reports i (forget_session cid s) = reports i s" "reports i (notify_alert b j s) = reports i s"
  by (auto simp: reports_def release_session_speech_def release_lease_def forget_session_def notify_alert_def
      signal_alert_def modify_def log_def List.map_filter_def split: option.split)

lemma object_simps [simp]:
  "object i (forget_session cid s) = object i s" "object i (log e s) = object i s"
  "sv_objects (forget_session cid s) = sv_objects s"
  by (simp_all add: object_def forget_session_def)

lemma object_notify: "i < length (sv_objects s) \<Longrightarrow> object i (notify_alert b i s) = (object i s)\<lparr>so_done := None\<rparr>"
  by (simp add: notify_alert_def signal_alert_def object_modify split: option.split)

lemma object_closed [simp]:
  "so_outcome (close_session p) = so_outcome p" "so_terminal (close_session p) = so_terminal p" "so_last (close_session p) = so_last p"
  "so_plays (close_session p) = so_plays p" "so_done (close_session p) = so_done p"
  by (simp_all add: close_session_def cancel_work_def in_call_def)

lemma object_in_call [simp]:
  "so_outcome (in_call f p) = so_outcome p" "so_terminal (in_call f p) = so_terminal p" "so_last (in_call f p) = so_last p"
  "so_plays (in_call f p) = so_plays p" "so_done (in_call f p) = so_done p" "so_call (in_call f p) = f (so_call p)"
  by (simp_all add: in_call_def)

lemma reports_close:
  assumes "lookup cid s = Some i" "i < length (sv_objects s)" "so_outcome (object i s) = Some cb"
    and "\<not> so_terminal (object i s)" "last_rank (so_last (object i s)) < 4" "so_plays (object i s) = 0"
  shows "reports i (close_call cid s) = reports i s @ [Alert_failed]"
  using assms by (simp add: close_call_def Let_def object_modify report_alert_outcome_def object_notify)

theorem outcomes_advance_witness:
  "\<exists>s. reachable s \<and> reports 0 s = [Alert_ringing, Alert_failed] \<and> sorted_wrt (<) (map rank (reports 0 s))"
proof -
  let ?s = "report_call_alert_outcome ''c'' Alert_ringing demo_called"
  let ?t = "close_call ''c'' ?s"
  have "handle_event demo_desk 0 demo_world (\<lambda>_. save_draft demo_world [] (\<lambda>_ _. []) True) demo_ringing demo_called = Some (True, ?s)"
    by (simp add: handle_event_def demo_ringing_def empty_message_def)
  then have "reachable ?s" by (intro reachable.Step [OF called_reachable] service_step.Bridge_event)
  then have r: "reachable ?t" by (rule reachable.Step) (rule service_step.Call_closed)
  have s: "?s = log (Reported 0 0 Alert_ringing) (modify 0 (\<lambda>p. p\<lparr>so_last := Some Alert_ringing, so_terminal := so_terminal p\<rparr>) demo_called)"
    by (simp add: report_call_alert_outcome_def lookup_def demo_called_simps report_alert_outcome_def last_rank_def)
  have "reports 0 ?s = [Alert_ringing]" "lookup ''c'' ?s = Some 0"
    unfolding s by (simp_all add: reports_def demo_called_simps log_def List.map_filter_def lookup_def)
  moreover have "reports 0 ?t = reports 0 ?s @ [Alert_failed]"
    by (rule reports_close) (use demo_called_simps in \<open>simp_all add: s object_modify last_rank_def lookup_def\<close>)
  ultimately have "reports 0 ?t = [Alert_ringing, Alert_failed]" by simp
  with outcomes_advance [OF r, of 0] r show ?thesis by auto
qed

end
