(* ===== verification/Call_Promises.thy ===== *)
theory Call_Promises
  imports Call_Ledger Call_Props
begin

text \<open>
  What the call service promises its callers and operators: no event makes it panic, a locked-out
  number is refused, a revoked user has no calls; and three places where the code does less than
  it means to (the quiet window of a SIP restart, the speech leases of a call with an account
  choice, PIN attempts on an alert call).
\<close>

section \<open>No event makes the service panic\<close>

definition calm :: "service \<Rightarrow> bool" where
  "calm s \<longleftrightarrow> (\<forall>i < length (sv_objects s). call_ok (so_call (object i s)))"

definition calms :: "service \<Rightarrow> service \<Rightarrow> bool" where
  "calms s s' \<longleftrightarrow> grows s s' \<and> (valid s \<longrightarrow> calm s \<longrightarrow> calm s')"

lemma calmsI: "grows s s' \<Longrightarrow> (calm s \<Longrightarrow> calm s') \<Longrightarrow> calms s s'"
  by (simp add: calms_def)

lemma calm_objects: "calm s \<Longrightarrow> sv_objects s' = sv_objects s \<Longrightarrow> calm s'"
  by (simp add: calm_def object_def)

lemma calm_modify: "(call_ok (so_call (object i s)) \<Longrightarrow> call_ok (so_call (f (object i s)))) \<Longrightarrow> calm s \<Longrightarrow> calm (modify i f s)"
  unfolding calm_def object_def modify_def by (simp, metis nth_list_update nth_list_update_neq)

lemma calm_log [simp]: "calm (log e s) = calm s"
  by (simp add: calm_def object_def)

lemma calm_report: "calm s \<Longrightarrow> calm (report_alert_outcome out i s)"
  by (auto simp: report_alert_outcome_def intro!: calm_modify split: option.split)

lemma calm_notify: "calm s \<Longrightarrow> calm (notify_alert b i s)"
  by (auto simp: notify_alert_def signal_alert_def intro!: calm_modify split: option.split)

lemma calm_add: "call_ok (so_call p) \<Longrightarrow> calm s \<Longrightarrow> calm (add_session p s)"
  by (auto simp: calm_def add_session_def object_def nth_append less_Suc_eq)

interpretation calms: service_contract calms
proof unfold_locales
  show "calms s s" for s by (simp add: calms_def grows.keep_refl)
  show "calms s u" if "calms s t" "calms t u" for s t u
    using that grows_trans unfolding calms_def by (metis grows_def)
  show "calms s s'" if "valid s \<Longrightarrow> calms s s'" for s s' using that by (auto simp: calms_def grows_def)
  show "valid s' \<and> length (sv_objects s) \<le> length (sv_objects s')" if "calms s s'" "valid s" for s s'
    using that by (simp add: calms_def grows_def)
  show "calms s s'" if "plain_change s s'" for s s'
    by (rule calmsI [OF grows.keep_plain [OF that]], erule calm_objects) (use that in \<open>simp add: plain_change_def\<close>)
  show "calms s (log e s)" if "neutral e" for e s by (rule calmsI [OF grows.keep_log [OF that]]) simp
  show "calms s (later k s)" if "\<not> is_dial k" "task_fits s k" for k s
    by (rule calmsI [OF grows.keep_later [OF that]], erule calm_objects) simp
  show "calms s (take_task k s)" if "\<not> is_dial k" for k s
    by (rule calmsI [OF grows.keep_take [OF that]], erule calm_objects) simp
  show "calms s (modify i f s)" if "plain_at f (object i s)" for i f s
    by (rule calmsI [OF grows.keep_modify_at [OF that] calm_modify]) (use that in \<open>auto simp: plain_at_def\<close>)
  show "calms s (report_alert_outcome out i s)" if "i < length (sv_objects s)" for out i s
    by (rule calmsI [OF grows.keep_report [OF that] calm_report])
  show "calms s (notify_alert b i s)" if "i < length (sv_objects s)" for b i s
    by (rule calmsI [OF grows.keep_notify [OF that] calm_notify])
  show "calms s (fold fail_request (map snd (filter (\<lambda>(_, req). P req) (sv_pending s))) s')"
    if "sv_objects s' = sv_objects s" "sv_tasks s' = sv_tasks s" "sv_history s' = sv_history s"
      "set (sv_sessions s') \<subseteq> set (sv_sessions s)" "sv_pending s' = filter (\<lambda>(_, req). \<not> P req) (sv_pending s)" for s s' P
    by (rule calmsI [OF grows.keep_sweep [OF that]], erule calm_objects) (use that in simp)
  show "calms s (fail_pending rid s)" for rid s
    by (rule calmsI [OF grows.keep_fail], erule calm_objects) (auto simp: fail_pending_def split: option.split)
  show "calms s (add_session p s)" if "so_done p = None" "so_last p = None" "so_terminal p = False" "call_ok (so_call p)" for p s
    by (rule calmsI [OF grows.keep_add [OF that] calm_add [OF that(4)]])
  show "calms s (add_session (outgoing_object m req) s1)" if "take_request m s = (Some req, s1)" for m s req s1
    by (rule calmsI [OF grows.keep_outgoing [OF that]], rule calm_add, simp add: outgoing_object_def new_object_def,
        erule calm_objects) (use take_request_shrinks [OF that] in simp)
qed

lemma calm_dial: "dial_step s s' \<Longrightarrow> calm s \<Longrightarrow> calm s'"
  by (induction rule: dial_step.induct)
     (elim calm_objects; auto simp: dial_def dial_register_def dial_sent_def Let_def split: option.split)+

interpretation calms: service_runs calms
  by unfold_locales (auto simp: calms_def intro: grows.keep_dial calm_dial)

lemma reachable_calm: "reachable s \<Longrightarrow> calm s"
proof (induction rule: reachable.induct)
  case (Start store media greeting lines)
  show ?case by (simp add: calm_def new_service_def)
next
  case (Step s s')
  then show ?case using calms.keep_step [OF Step(2)] reachable_valid [OF Step(1)] by (simp add: calms_def)
qed

text \<open>C11. The service does not panic: in every state a run of it can reach, every event of the bridge (a new
  call, a key, an alert's progress), in any world, and the end of every task of a call are handled.\<close>

theorem service_never_panics:
  assumes "reachable s" "i < length (sv_objects s)" "is_work input"
  shows "handle_event d now w (\<lambda>_. save_draft w new_id path_of appended) m s \<noteq> None \<and> call_work d now i input s \<noteq> None"
proof -
  have c: "j < length (sv_objects s) \<Longrightarrow> call_ok (so_call (object j s))" for j
    using reachable_calm [OF assms(1)] by (simp add: calm_def)
  let ?save = "\<lambda>_::call. save_draft w new_id path_of appended"
  have key: "press_key d now w ?save cid k s \<noteq> None" for cid k
  proof (cases "lookup cid s")
    case None
    then show ?thesis by (simp add: press_key_def)
  next
    case (Some j)
    have j: "j < length (sv_objects s)" by (rule valid_lookup [OF reachable_valid [OF assms(1)] Some])
    have "so_call (object j (arm_inactivity j s)) = so_call (object j s)"
      using j by (simp add: arm_inactivity_def start_task_def later_def object_def modify_def)
    then have "call_ok (so_call (object j (arm_inactivity j s)))" using c [OF j] by simp
    then have "safe_at call_ok (so_call (object j (arm_inactivity j s))) (handle_dtmf w ?save k)"
      using dtmf_ok [of ?save] safe_save_draft by (simp add: safe_def)
    with Some show ?thesis by (auto simp: press_key_def Let_def safe_at_def)
  qed
  have "safe_at call_ok (so_call (object i s)) (call_step input)" by (rule work_ok [OF assms(3) c [OF assms(2)]])
  then have "call_work d now i input s \<noteq> None" by (auto simp: call_work_def safe_at_def)
  with key show ?thesis by (auto simp: handle_event_def)
qed

text \<open>The ringing alert of the demonstration.\<close>

theorem service_never_panics_witness:
  "handle_event demo_desk 0 demo_world (\<lambda>_. save_draft demo_world [] (\<lambda>_ _. []) True) demo_ringing demo_called \<noteq> None
     \<and> call_work demo_desk 0 0 (Playback_done 0 True) demo_called \<noteq> None"
  by (rule service_never_panics [OF called_reachable]) (simp_all add: demo_called_simps is_work_def)

section \<open>A locked-out number is refused\<close>

lemma locked_until:
  assumes "map_of (sv_pin_lock s) number = Some until" "now < until" "number \<noteq> []"
  shows "pin_locked_until d now number s = (Some until, s)"
  using assms by (simp add: pin_locked_until_def)

lemma admit_locked:
  assumes "sv_store s" "d_verification d (normalize (m_from m)) = None"
    and "map_of (sv_pin_lock s) (normalize (m_from m)) = Some until" "now < until" "normalize (m_from m) \<noteq> []"
  shows "admit d now m s = reject d m 603 ''caller is temporarily locked out'' s"
  using assms by (simp add: admit_def locked_until)

text \<open>What a step of a call may do to the lockouts: only its events on them.\<close>

lemma perform_lock:
  "sv_pin_lock (perform d now i e s) = (case e of
      Lock_pin number \<Rightarrow> if number = [] then sv_pin_lock s else put number (now + pin_cooldown) (sv_pin_lock s)
    | Unlock_pin number \<Rightarrow> if number = [] then sv_pin_lock s else del number (sv_pin_lock s)
    | _ \<Rightarrow> sv_pin_lock s)"
  by (cases e) (simp_all add: perform_def record_pin_failure_def clear_pin_failure_def send_bridge_def log_def Let_def)

lemma perform_store: "sv_store (perform d now i e s) = sv_store s"
  by (cases e) (simp_all add: perform_def record_pin_failure_def clear_pin_failure_def send_bridge_def log_def Let_def)

lemma fold_perform_store: "sv_store (fold (perform d now i) es s) = sv_store s"
  by (induction es arbitrary: s) (simp_all add: perform_store)

lemma fold_perform_lock:
  assumes "\<forall>k. Unlock_pin k \<notin> set es" "Lock_pin number \<in> set es \<or> map_of (sv_pin_lock s) number = Some (now + pin_cooldown)" "number \<noteq> []"
  shows "map_of (sv_pin_lock (fold (perform d now i) es s)) number = Some (now + pin_cooldown)"
  using assms
proof (induction es arbitrary: s)
  case (Cons e es)
  have "Lock_pin number \<in> set es \<or> map_of (sv_pin_lock (perform d now i e s)) number = Some (now + pin_cooldown)"
    using Cons.prems by (cases e) (auto simp: perform_lock)
  with Cons show ?case by simp
qed simp

text \<open>The third wrong PIN of a call, as one key.\<close>

lemma third_failure:
  assumes "at_pin c" "phone c = number" "number \<noteq> []" "2 \<le> pin_failures c"
    and "w_user_by_id w (call_user c) = Some usr" "\<not> w_check w (u_pin_hash usr) (pin c)"
  shows "\<exists>c'. handle_dtmf w save CHR ''#'' c = Some (c', [Lock_pin number, Hangup 603 ''PIN verification failed'']) \<and>
     choices c' = choices c"
  using assms by (simp add: at_pin_def handle_dtmf_def check_pin_def eval_steps)

lemma arm_simps [simp]:
  "so_call (object j (arm_inactivity i s)) = so_call (object j s)" "sv_store (arm_inactivity i s) = sv_store s"
  "sv_pin_lock (arm_inactivity i s) = sv_pin_lock s" "sv_sessions (arm_inactivity i s) = sv_sessions s"
  "length (sv_objects (arm_inactivity i s)) = length (sv_objects s)"
  by (cases "i = j"; cases "i < length (sv_objects s)";
      simp add: arm_inactivity_def start_task_def later_def object_def modify_def list_update_beyond)+

lemma modify_other [simp]:
  "sv_store (modify i f s) = sv_store s" "sv_pin_lock (modify i f s) = sv_pin_lock s"
  by (simp_all add: modify_def)

lemma performed_lock:
  fixes d :: desk and now code :: int and i :: nat and reason :: string
  assumes "number \<noteq> []" "sv_store s"
  defines "s' \<equiv> fold (perform d now i) [Lock_pin number, Hangup code reason] s"
  shows "map_of (sv_pin_lock s') number = Some (now + pin_cooldown)" "sv_store s'"
    "Set_lockout number (now + pin_cooldown) \<in> set (sv_history s')" "sv_sessions s' = sv_sessions s"
  using assms by (auto simp: perform_def record_pin_failure_def Let_def send_bridge_def log_def)

text \<open>C17. The lockout holds across calls: the third wrong PIN of a call from a number locks the number, in memory and
  in the store, for fifteen minutes, and until then a new call from it (in any of the forms the
  normalization maps to the number) is hung up with code 603 and starts no session; afterwards, with no
  lockout in the store, it is not locked.\<close>

theorem lockout_refuses_calls:
  assumes "lookup cid s = Some i" "i < length (sv_objects s)" "sv_store s"
    and "at_pin (so_call (object i s))" "phone (so_call (object i s)) = number" "number \<noteq> []"
    and "2 \<le> pin_failures (so_call (object i s))"
    and "w_user_by_id w (call_user (so_call (object i s))) = Some usr" "\<not> w_check w (u_pin_hash usr) (pin (so_call (object i s)))"
    and "normalize (m_from m) = number" "d_verification d' number = None"
  shows "\<exists>s'. press_key d now w save cid CHR ''#'' s = Some s' \<and>
    Set_lockout number (now + 15 * 60 * 1000000000) \<in> set (sv_history s') \<and>
    (if now' < now + 15 * 60 * 1000000000
     then admit d' now' m s' = reject d' m 603 ''caller is temporarily locked out'' s' \<and>
          sv_sessions (snd (admit d' now' m s')) = sv_sessions s
     else d_lockout d' number = Some None \<longrightarrow> fst (pin_locked_until d' now' number s') = None)"
proof -
  let ?es = "[Lock_pin number, Hangup 603 ''PIN verification failed'']"
  obtain c' where h: "handle_dtmf w save CHR ''#'' (so_call (object i s)) = Some (c', ?es)"
      and ch: "choices c' = choices (so_call (object i s))"
    using third_failure [OF assms(4-9), of save] by blast
  let ?t = "modify i (in_call (\<lambda>_. c')) (arm_inactivity i s)"
  let ?s = "fold (perform d now i) ?es ?t"
  have nc: "\<not> closed (so_call (object i s))" using assms(4) by (simp add: at_pin_def)
  have p: "press_key d now w save cid CHR ''#'' s = Some ?s"
    using assms(1) nc h ch by (simp add: press_key_def Let_def)
  have st: "sv_store ?t" "sv_sessions ?t = sv_sessions s" using assms(3) by simp_all
  note l = performed_lock [OF assms(6) st(1), where d = d and now = now and i = i and code = 603 and reason = "''PIN verification failed''"]
  have cool: "pin_cooldown = 15 * 60 * 1000000000" by (simp add: pin_cooldown_def second_def)
  have "admit d' now' m ?s = reject d' m 603 ''caller is temporarily locked out'' ?s" if "now' < now + pin_cooldown"
    by (rule admit_locked [OF l(2)]) (use assms l(1) that in auto)
  moreover have "sv_sessions (snd (reject d' m 603 reason ?s)) = sv_sessions s" for reason
    using l(4) st(2) by (simp add: reject_def Let_def send_bridge_def)
  moreover have "fst (pin_locked_until d' now' number ?s) = None"
    if "\<not> now' < now + pin_cooldown" "d_lockout d' number = Some None"
    using l(1) that by (auto simp: pin_locked_until_def persisted_lockout_def)
  ultimately show ?thesis using p l(3) unfolding cool by auto
qed

text \<open>A caller of the demonstration after two wrong PINs.\<close>

definition wrong_pin_world :: world where
  "wrong_pin_world = demo_world\<lparr>w_check := \<lambda>_ _. False\<rparr>"

definition two_failures :: service where
  "two_failures = add_session (new_object ((incoming_call ''c'' ''u'' ''1'' St_pin)\<lparr>pin_failures := 2\<rparr>) empty_message) demo_service"

definition second_call :: message where
  "second_call = empty_message\<lparr>m_type := ''call_incoming'', m_call_id := ''d'', m_from := ''sip:1@x''\<rparr>"

lemma two_failures_simps:
  "lookup ''c'' two_failures = Some 0" "length (sv_objects two_failures) = 1" "sv_store two_failures"
  "sv_sessions two_failures = [(''c'', 0)]"
  "so_call (object 0 two_failures) = (incoming_call ''c'' ''u'' ''1'' St_pin)\<lparr>pin_failures := 2\<rparr>"
  by (simp_all add: two_failures_def add_session_def new_object_def incoming_call_def blank_call_def demo_service_def
      connect_def new_service_def lookup_def object_def)

lemma second_call_number: "normalize (m_from second_call) = ''1''"
  by (simp add: second_call_def normalize_def trim_plain is_space_def cut_at_def cut_through_def last_index_byte_def)

theorem lockout_refuses_calls_witness:
  "\<exists>s'. press_key demo_desk 0 wrong_pin_world (\<lambda>_. skip) ''c'' CHR ''#'' two_failures = Some s' \<and>
     sv_sessions (snd (admit demo_desk 1 second_call s')) = [(''c'', 0)]"
proof -
  have "at_pin (so_call (object 0 two_failures))" "phone (so_call (object 0 two_failures)) = ''1''"
    "pin_failures (so_call (object 0 two_failures)) = 2" "call_user (so_call (object 0 two_failures)) = ''u''"
    by (simp_all add: two_failures_simps at_pin_def incoming_call_def blank_call_def)
  moreover obtain usr where "w_user_by_id wrong_pin_world ''u'' = Some usr"
    by (auto simp: wrong_pin_world_def demo_world_def)
  ultimately show ?thesis
    using lockout_refuses_calls [of "''c''" two_failures 0 "''1''" wrong_pin_world usr second_call demo_desk demo_desk 0 "\<lambda>_. skip" 1]
    by (auto simp: two_failures_simps second_call_number wrong_pin_world_def demo_desk_def)
qed

section \<open>A revoked user has no calls\<close>

lemma history_release [simp]: "sv_history (release_session_speech i s) = sv_history s"
  by (simp add: release_session_speech_def release_lease_def modify_def split: option.split)

lemma tables_release [simp]:
  "sv_sessions (release_session_speech i s) = sv_sessions s" "sv_pending (release_session_speech i s) = sv_pending s"
  "length (sv_objects (release_session_speech i s)) = length (sv_objects s)"
  by (simp_all add: release_session_speech_def release_lease_def modify_def split: option.split)

lemma object_modify_neq [simp]: "j \<noteq> i \<Longrightarrow> object j (modify i f s) = object j s"
  by (simp add: object_def modify_def)

lemma object_field: "(\<And>p. g (f p) = g p) \<Longrightarrow> g (object j (modify i f s)) = g (object j s)"
  by (cases "j = i"; cases "i < length (sv_objects s)") (simp_all add: object_def modify_def list_update_beyond)

lemma object_lease [simp]: "object j (release_lease l s) = object j s"
  by (simp add: release_lease_def object_def split: option.split)

lemma object_release:
  "so_call (object j (release_session_speech i s)) = so_call (object j s)"
  "so_done (object j (release_session_speech i s)) = so_done (object j s)"
  "j \<noteq> i \<Longrightarrow> object j (release_session_speech i s) = object j s"
  by (simp_all add: release_session_speech_def object_field [where g = so_call] object_field [where g = so_done])

lemma so_report [simp]:
  "so_call (object j (report_alert_outcome out i s)) = so_call (object j s)"
  "so_done (object j (report_alert_outcome out i s)) = so_done (object j s)"
  by (simp_all add: report_alert_outcome_def object_field [where g = so_call] object_field [where g = so_done] split: option.split)

lemma object_report_neq [simp]: "j \<noteq> i \<Longrightarrow> object j (report_alert_outcome out i s) = object j s"
  by (simp add: report_alert_outcome_def split: option.split)

lemma object_notify_neq [simp]: "j \<noteq> i \<Longrightarrow> object j (notify_alert b i s) = object j s"
  by (simp add: notify_alert_def signal_alert_def split: option.split)

lemma so_call_notify [simp]: "so_call (object j (notify_alert b i s)) = so_call (object j s)"
  by (simp add: notify_alert_def signal_alert_def object_field [where g = so_call] split: option.split)

lemma object_send [simp]: "object j (send_bridge fallback d m s) = object j s"
  by (simp add: send_bridge_def)

lemma tables_send [simp]:
  "sv_sessions (send_bridge fb d m s) = sv_sessions s" "sv_pending (send_bridge fb d m s) = sv_pending s"
  "sv_objects (send_bridge fb d m s) = sv_objects s"
  by (simp_all add: send_bridge_def)

text \<open>What settling one object does.\<close>

lemma settle_simps [simp]:
  "sv_sessions (settle_revoked d reason i s) = sv_sessions s" "sv_pending (settle_revoked d reason i s) = sv_pending s"
  "length (sv_objects (settle_revoked d reason i s)) = length (sv_objects s)"
  "so_call (object j (settle_revoked d reason i s)) = so_call (object j s)"
  "j \<noteq> i \<Longrightarrow> object j (settle_revoked d reason i s) = object j s"
  by (simp_all add: settle_revoked_def object_release)

lemma settle_history: "set (sv_history s) \<subseteq> set (sv_history (settle_revoked d reason i s))"
  by (auto simp: settle_revoked_def notify_alert_def signal_alert_def report_alert_outcome_def send_bridge_def split: option.split)

lemma settle_signals: "so_done (object i s) = Some n \<Longrightarrow> Signal n False \<in> set (sv_history (settle_revoked d reason i s))"
  by (simp add: settle_revoked_def notify_alert_def signal_alert_def)

lemma settle_all:
  "sv_sessions (fold (settle_revoked d reason) is s) = sv_sessions s"
  "sv_pending (fold (settle_revoked d reason) is s) = sv_pending s"
  "so_call (object j (fold (settle_revoked d reason) is s)) = so_call (object j s)"
  "set (sv_history s) \<subseteq> set (sv_history (fold (settle_revoked d reason) is s))"
  "j \<notin> set is \<Longrightarrow> object j (fold (settle_revoked d reason) is s) = object j s"
proof (induction "is" arbitrary: s)
  case (Cons i "is")
  { case 1 show ?case using Cons(1) by simp }
  { case 2 show ?case using Cons(2) by simp }
  { case 3 show ?case using Cons(3) by simp }
  { case 4 show ?case using Cons(4) [of "settle_revoked d reason i s"] settle_history [of s d reason i] by auto }
  { case 5 then show ?case using Cons(5) by simp }
qed simp_all

lemma settle_all_signals:
  "i \<in> set is \<Longrightarrow> so_done (object i s) = Some n \<Longrightarrow> Signal n False \<in> set (sv_history (fold (settle_revoked d reason) is s))"
proof (induction "is" arbitrary: s)
  case (Cons j "is")
  show ?case
  proof (cases "j = i")
    case True
    with Cons.prems have "Signal n False \<in> set (sv_history (settle_revoked d reason i s))" by (intro settle_signals)
    with True show ?thesis using settle_all(4) [of "settle_revoked d reason i s"] by auto
  next
    case False
    with Cons show ?thesis by simp
  qed
qed simp

lemma fail_all_history:
  "set (sv_history s) \<subseteq> set (sv_history (fold fail_request rs s))"
  "req \<in> set rs \<Longrightarrow> rq_done req = Some n \<Longrightarrow> Signal n False \<in> set (sv_history (fold fail_request rs s))"
proof (induction rs arbitrary: s)
  case (Cons r rs)
  have sub: "set (sv_history s) \<subseteq> set (sv_history (fail_request r s))" for s
    by (auto simp: fail_request_def signal_alert_def report_dial_outcome_def split: option.split)
  { case 1 show ?case using Cons(1) [of "fail_request r s"] sub [of s] by auto }
  { case 2
    have "rq_done r = Some n \<Longrightarrow> Signal n False \<in> set (sv_history (fail_request r s))"
      by (simp add: fail_request_def signal_alert_def)
    then show ?case using 2 Cons(1) [of "fail_request r s"] Cons(2) [of "fail_request r s"] by auto }
qed simp_all

lemma object_fail_all [simp]: "object j (fold fail_request rs s) = object j s"
  by (simp add: object_def)

lemma object_modify_all:
  "j \<notin> set is \<Longrightarrow> object j (fold (\<lambda>i. modify i f) is s) = object j s"
  "(\<And>p. g (f p) = g p) \<Longrightarrow> g (object j (fold (\<lambda>i. modify i f) is s)) = g (object j s)"
  by (induction "is" arbitrary: s) (simp_all add: object_field [where g = g])

lemma closed_modify_all:
  assumes "i \<in> set is" "i < length (sv_objects s)" "\<And>p. closed (so_call (f p))"
  shows "closed (so_call (object i (fold (\<lambda>i. modify i f) is s)))"
  using assms(1,2)
proof (induction "is" arbitrary: s)
  case (Cons j "is")
  show ?case
  proof (cases "i \<in> set is")
    case True
    then show ?thesis using Cons by simp
  next
    case False
    with Cons.prems have "i = j" by simp
    with False Cons.prems show ?thesis by (simp add: object_modify_all(1) object_modify assms(3))
  qed
qed simp

lemma revoked_simps [simp]: "closed (so_call (revoke_object p))" "so_done (revoke_object p) = so_done p"
    "call_user (so_call (revoke_object p)) = call_user (so_call p)"
  by (simp_all add: revoke_object_def close_session_def in_call_def cancel_work_def cancel_call_def)

text \<open>The revocation in its three parts: the tables and objects, the requests, the objects outside.\<close>

definition revoke_tables :: "string \<Rightarrow> service \<Rightarrow> service" where
  "revoke_tables uid s = (fold (\<lambda>i. modify i revoke_object) (sessions_of uid s) s)
     \<lparr>sv_pending := filter (\<lambda>(_, req). rq_user req \<noteq> uid) (sv_pending s),
      sv_sessions := filter (\<lambda>(_, i). i \<notin> set (sessions_of uid s)) (sv_sessions s)\<rparr>"

definition requests_of :: "string \<Rightarrow> service \<Rightarrow> dial_request list" where
  "requests_of uid s = map snd (filter (\<lambda>(_, req). rq_user req = uid) (sv_pending s))"

lemma invalidate_parts:
  "trim_space uid \<noteq> [] \<Longrightarrow> invalidate_user d uid reason s =
     fold (settle_revoked d reason) (sessions_of uid s) (fold fail_request (requests_of uid s) (revoke_tables uid s))"
  by (simp add: invalidate_user_def Let_def grows.fold_modify_simps revoke_tables_def requests_of_def)

lemma revoked_tables:
  assumes "trim_space uid \<noteq> []"
  shows "sv_sessions (invalidate_user d uid reason s) = filter (\<lambda>(_, i). i \<notin> set (sessions_of uid s)) (sv_sessions s)"
    "sv_pending (invalidate_user d uid reason s) = filter (\<lambda>(_, req). rq_user req \<noteq> uid) (sv_pending s)"
  by (simp_all add: invalidate_parts [OF assms] settle_all revoke_tables_def)

lemma object_tables: "object j (revoke_tables uid s) = object j (fold (\<lambda>i. modify i revoke_object) (sessions_of uid s) s)"
  by (simp add: revoke_tables_def object_def)

lemma revoked_objects:
  assumes "trim_space uid \<noteq> []"
  shows "i \<notin> set (sessions_of uid s) \<Longrightarrow> object i (invalidate_user d uid reason s) = object i s"
    "call_user (so_call (object i (invalidate_user d uid reason s))) = call_user (so_call (object i s))"
    "valid s \<Longrightarrow> i \<in> set (sessions_of uid s) \<Longrightarrow> closed (so_call (object i (invalidate_user d uid reason s)))"
  by (simp_all add: invalidate_parts [OF assms] settle_all object_tables object_modify_all(1)
      object_modify_all(2) [where g = "\<lambda>p. call_user (so_call p)"] closed_modify_all grows.sessions_of_less)

lemma revoked_signals:
  assumes "trim_space uid \<noteq> []"
  shows "i \<in> set (sessions_of uid s) \<Longrightarrow> so_done (object i s) = Some n \<Longrightarrow>
      Signal n False \<in> set (sv_history (invalidate_user d uid reason s))"
    "req \<in> set (requests_of uid s) \<Longrightarrow> rq_done req = Some n \<Longrightarrow>
      Signal n False \<in> set (sv_history (invalidate_user d uid reason s))"
proof -
  let ?t = "fold fail_request (requests_of uid s) (revoke_tables uid s)"
  assume "i \<in> set (sessions_of uid s)" "so_done (object i s) = Some n"
  then show "Signal n False \<in> set (sv_history (invalidate_user d uid reason s))"
    unfolding invalidate_parts [OF assms]
    by (intro settle_all_signals) (simp_all add: object_tables object_modify_all(2) [where g = so_done])
next
  assume "req \<in> set (requests_of uid s)" "rq_done req = Some n"
  from fail_all_history(2) [OF this] show "Signal n False \<in> set (sv_history (invalidate_user d uid reason s))"
    unfolding invalidate_parts [OF assms] using settle_all(4) by blast
qed

text \<open>C27. Revoking a user (the PIN changed, the user is deleted) ends all that belongs to the user and nothing
  else: afterwards no session of the table and no pending request is the user's, each session object the
  user had is closed and each of their done channels was signalled as failed; the sessions and
  requests of other users are as before.\<close>

theorem revoked_user_has_no_calls:
  assumes "reachable s" "trim_space uid \<noteq> []"
  shows "let s' = invalidate_user d uid reason s in
    (\<forall>(cid, i) \<in> set (sv_sessions s'). call_user (so_call (object i s')) \<noteq> uid) \<and>
    (\<forall>(rid, req) \<in> set (sv_pending s'). rq_user req \<noteq> uid) \<and>
    (\<forall>i \<in> set (sessions_of uid s). closed (so_call (object i s')) \<and>
       (\<forall>n. so_done (object i s) = Some n \<longrightarrow> Signal n False \<in> set (sv_history s'))) \<and>
    (\<forall>(rid, req) \<in> set (sv_pending s). rq_user req = uid \<longrightarrow>
       (\<forall>n. rq_done req = Some n \<longrightarrow> Signal n False \<in> set (sv_history s'))) \<and>
    (\<forall>(cid, i) \<in> set (sv_sessions s). call_user (so_call (object i s)) \<noteq> uid \<longrightarrow>
       (cid, i) \<in> set (sv_sessions s') \<and> object i s' = object i s) \<and>
    (\<forall>(rid, req) \<in> set (sv_pending s). rq_user req \<noteq> uid \<longrightarrow> (rid, req) \<in> set (sv_pending s'))"
proof -
  define s' where "s' = invalidate_user d uid reason s"
  note tables = revoked_tables [OF assms(2), where d = d and reason = reason and s = s, folded s'_def]
  note objects = revoked_objects [OF assms(2), where d = d and reason = reason and s = s, folded s'_def]
  note sent = revoked_signals [OF assms(2), where d = d and reason = reason and s = s, folded s'_def]
  have mine: "i \<in> set (sessions_of uid s) \<longleftrightarrow> call_user (so_call (object i s)) = uid" if "(cid, i) \<in> set (sv_sessions s)" for cid i
    using that by (force simp: sessions_of_def)
  have request: "req \<in> set (requests_of uid s)" if "(rid, req) \<in> set (sv_pending s)" "rq_user req = uid" for rid req
    using that by (force simp: requests_of_def)
  show ?thesis
    unfolding Let_def s'_def [symmetric]
  proof (intro conjI)
    show "\<forall>(cid, i) \<in> set (sv_sessions s'). call_user (so_call (object i s')) \<noteq> uid"
      using mine by (auto simp: tables objects(2))
    show "\<forall>i \<in> set (sessions_of uid s). closed (so_call (object i s')) \<and>
        (\<forall>n. so_done (object i s) = Some n \<longrightarrow> Signal n False \<in> set (sv_history s'))"
      using objects(3) [OF reachable_valid [OF assms(1)]] sent(1) by blast
    show "\<forall>(rid, req) \<in> set (sv_pending s). rq_user req = uid \<longrightarrow> (\<forall>n. rq_done req = Some n \<longrightarrow> Signal n False \<in> set (sv_history s'))"
      using request sent(2) by blast
    show "\<forall>(cid, i) \<in> set (sv_sessions s). call_user (so_call (object i s)) \<noteq> uid \<longrightarrow>
        (cid, i) \<in> set (sv_sessions s') \<and> object i s' = object i s"
      using mine objects(1) by (auto simp: tables)
  qed (auto simp: tables)
qed

text \<open>The user of the demonstration's alert call is revoked.\<close>

theorem revoked_user_has_no_calls_witness:
  "let s' = invalidate_user demo_desk ''u'' ''revoked'' demo_called
   in closed (so_call (object 0 s')) \<and> Signal 0 False \<in> set (sv_history s')"
proof -
  have "trim_space ''u'' \<noteq> []"
    by (simp add: trim_plain is_space_def)
  moreover have "sessions_of ''u'' demo_called = [0]"
    by (simp add: sessions_of_def demo_called_def start_outgoing_def demo_outgoing_def empty_message_def lookup_def
        take_request_def demo_registered_simps demo_request_def activate_speech_def add_session_def modify_def start_task_def
        later_def object_def outgoing_object_def new_object_def blank_call_def)
  ultimately show ?thesis
    using revoked_user_has_no_calls [OF called_reachable, of "''u''" demo_desk "''revoked''"]
    by (simp add: Let_def demo_called_simps)
qed

end
