(* ===== verification/Call_Gaps.thy ===== *)
theory Call_Gaps
  imports Call_Promises
begin

text \<open>
  Three places where the call service does less than it means to, as properties of the code's
  model: a dial that was begun before a SIP restart still starts a call in the quiet window, the
  speech leases of a call with an account choice are not released, and PIN attempts on an alert
  call never lock anything.
\<close>

section \<open>The quiet window of a SIP restart\<close>


section \<open>PIN attempts on an alert call\<close>

lemma perform_object [simp]: "object j (perform d now i e s) = object j s"
  by (cases e) (simp_all add: perform_def record_pin_failure_def clear_pin_failure_def Let_def object_def)

lemma fold_perform_object [simp]: "object j (fold (perform d now i) es s) = object j s"
  by (induction es arbitrary: s) simp_all

lemma fold_perform_quiet:
  "(\<And>n. Lock_pin n \<notin> set es) \<Longrightarrow> (\<And>n. Unlock_pin n \<notin> set es) \<Longrightarrow> sv_pin_lock (fold (perform d now i) es s) = sv_pin_lock s"
  by (induction es arbitrary: s) (auto simp: perform_lock split: event.splits)

lemma phone_transition [simp]: "phone (transition st c) = phone c"
proof -
  obtain f n where "transition st c = navigated c f n" using transition_step unfolding nav_step_def by blast
  then show ?thesis by (simp add: navigated_def)
qed

lemma anonymous_key:
  assumes "handle_dtmf w save key c = Some (c', es)" "phone c = []" "\<not> authenticated c"
  shows "phone c' = [] \<and> (\<forall>n. Lock_pin n \<notin> set es \<and> Unlock_pin n \<notin> set es)"
  using assms
  by (auto simp: handle_dtmf_def check_pin_def choose_caller_account_def speak_account_choice_def eval_steps panic_def
      split: if_splits option.splits)

lemma right_pin:
  assumes "\<not> closed c" "\<not> authenticated c" "call_state c \<noteq> St_verification" "call_state c \<noteq> St_account_choice"
    and "w_user_by_id w (call_user c) = Some usr" "w_check w (u_pin_hash usr) (pin c)"
    and "handle_dtmf w save CHR ''#'' c = Some (c', es)"
  shows "authenticated c'"
  using assms by (cases "phone c = []") (auto simp: handle_dtmf_def check_pin_def eval_steps)

lemma activate_simps [simp]:
  "sv_pin_lock (activate_speech i s) = sv_pin_lock s" "so_call (object j (activate_speech i s)) = so_call (object j s)"
  by (simp_all add: activate_speech_def modify_def)
     (cases "i = j"; cases "i < length (sv_objects s)"; simp add: object_def list_update_beyond)

text \<open>The lockout does not cover alert calls: the session of an outgoing alert has no number, a key on it is
  still taken as PIN entry for its user, a right PIN signs in, and however many wrong ones are
  entered no lockout is ever recorded.\<close>

theorem alert_call_never_locks:
  assumes "lookup cid s = Some i" "i < length (sv_objects s)"
    and "phone (so_call (object i s)) = []" "\<not> authenticated (so_call (object i s))"
    and "press_key d now w save cid key s = Some s'"
  shows "phone (so_call (outgoing_object m req)) = [] \<and> \<not> authenticated (so_call (outgoing_object m req)) \<and>
    sv_pin_lock s' = sv_pin_lock s \<and> phone (so_call (object i s')) = [] \<and>
    (key = CHR ''#'' \<and> \<not> closed (so_call (object i s)) \<and> call_state (so_call (object i s)) \<in> {St_outgoing, St_announce} \<longrightarrow>
       (\<forall>usr. w_user_by_id w (call_user (so_call (object i s))) = Some usr \<longrightarrow>
          w_check w (u_pin_hash usr) (pin (so_call (object i s))) \<longrightarrow> authenticated (so_call (object i s'))))"
proof (cases "closed (so_call (object i s))")
  case True
  with assms show ?thesis
    by (simp add: press_key_def) (simp add: outgoing_object_def new_object_def blank_call_def)
next
  case False
  let ?c = "so_call (object i s)"
  from False assms obtain c' es where h: "handle_dtmf w save key ?c = Some (c', es)"
    and s': "s' = fold (perform d now i) es (if choices ?c \<noteq> [] \<and> choices c' = []
        then activate_speech i (modify i (in_call (\<lambda>_. c')) (arm_inactivity i s))
        else modify i (in_call (\<lambda>_. c')) (arm_inactivity i s))"
    by (auto simp: press_key_def Let_def split: option.splits)
  have q: "phone c' = []" "Lock_pin n \<notin> set es" "Unlock_pin n \<notin> set es" for n
    using anonymous_key [OF h assms(3,4)] by auto
  have c: "so_call (object i s') = c'"
    using assms(2) by (simp add: s' object_modify)
  have "sv_pin_lock s' = sv_pin_lock s" unfolding s' using q by (subst fold_perform_quiet) auto
  moreover have "authenticated c'" if "key = CHR ''#''" "call_state ?c \<in> {St_outgoing, St_announce}"
      "w_user_by_id w (call_user ?c) = Some usr" "w_check w (u_pin_hash usr) (pin ?c)" for usr
    by (rule right_pin [OF False assms(4)]) (use that h in auto)
  ultimately show ?thesis using q(1) c by (auto simp: outgoing_object_def new_object_def blank_call_def)
qed

text \<open>The ringing alert of the demonstration takes a pound key and locks nothing.\<close>

theorem alert_call_never_locks_witness:
  "\<exists>s'. press_key demo_desk 0 demo_world (\<lambda>_. skip) ''c'' CHR ''1'' demo_called = Some s' \<and> sv_pin_lock s' = sv_pin_lock demo_called"
proof -
  have c: "so_call (object 0 demo_called) = (blank_call ''c'' ''u'' [] St_outgoing)\<lparr>alert_text := ''Hello''\<rparr>"
    by (simp add: demo_called_def start_outgoing_def demo_outgoing_def empty_message_def lookup_def take_request_def
      demo_registered_simps demo_request_def activate_speech_def add_session_def modify_def start_task_def later_def object_def
      outgoing_object_def new_object_def)
  have "\<exists>s'. press_key demo_desk 0 demo_world (\<lambda>_. skip) ''c'' CHR ''1'' demo_called = Some s'"
    by (simp add: press_key_def lookup_def demo_called_simps Let_def c handle_dtmf_def eval_steps blank_call_def)
  then show ?thesis
    using alert_call_never_locks [of "''c''" demo_called 0 demo_desk 0 demo_world "\<lambda>_. skip" "CHR ''1''" _ demo_outgoing demo_request]
    by (auto simp: lookup_def demo_called_simps c blank_call_def)
qed

section \<open>Speech leases and the account choice\<close>

lemma atoi_one: "atoi (trim_space ''1'') = Some 1"
  by (simp add: trim_plain is_space_def atoi_def has_prefix_def digits_val_def is_digit_def)

lemma leases_perform: "sv_leases (perform d now i e s) = sv_leases s" "sv_sessions (perform d now i e s) = sv_sessions s"
  by (cases e; simp add: perform_def record_pin_failure_def clear_pin_failure_def Let_def send_bridge_def log_def)+

lemma leases_performs: "sv_leases (fold (perform d now i) es s) = sv_leases s" "sv_sessions (fold (perform d now i) es s) = sv_sessions s"
  by (induction es arbitrary: s) (simp_all add: leases_perform)

lemma leases_simps [simp]:
  "sv_leases (modify i f s) = sv_leases s" "sv_leases (log e s) = sv_leases s" "sv_leases (arm_inactivity i s) = sv_leases s"
  "sv_leases (report_alert_outcome out i s) = sv_leases s" "sv_leases (notify_alert b i s) = sv_leases s"
  "sv_leases (forget_session cid s) = sv_leases s"
  by (auto simp: modify_def log_def arm_inactivity_def start_task_def later_def report_alert_outcome_def notify_alert_def
      signal_alert_def forget_session_def split: option.split)

lemma lease_fields [simp]:
  "so_menu_lease (object j (report_alert_outcome out i s)) = so_menu_lease (object j s)"
  "so_email_lease (object j (report_alert_outcome out i s)) = so_email_lease (object j s)"
  "so_menu_lease (object j (notify_alert b i s)) = so_menu_lease (object j s)"
  "so_email_lease (object j (notify_alert b i s)) = so_email_lease (object j s)"
  by (simp_all add: report_alert_outcome_def notify_alert_def signal_alert_def object_field [where g = so_menu_lease]
      object_field [where g = so_email_lease] split: option.split)

lemma close_leases:
  assumes "lookup cid s = Some i" "i < length (sv_objects s)" "so_menu_lease (object i s) = Some a" "so_email_lease (object i s) = Some b"
  shows "sv_leases (close_call cid s) = filter (\<lambda>m. m \<noteq> a \<and> m \<noteq> b) (sv_leases s)"
proof -
  have "so_menu_lease ((in_call ensure_flow \<circ> close_session) p) = so_menu_lease p"
    "so_email_lease ((in_call ensure_flow \<circ> close_session) p) = so_email_lease p" for p
    by (simp_all add: in_call_def close_session_def cancel_work_def)
  then show ?thesis using assms
    by (simp add: close_call_def Let_def release_session_speech_def release_lease_def object_modify)
qed

lemma choose_first:
  assumes "\<not> closed c" "\<not> authenticated c" "call_state c = St_account_choice" "choices c \<noteq> []"
  shows "\<exists>c' e. handle_dtmf w save CHR ''1'' c = Some (c', [e]) \<and> choices c' = []"
proof -
  have ch: "choices (transition st x) = choices x" for st x
  proof -
    obtain f n where "transition st x = navigated x f n" using transition_step unfolding nav_step_def by blast
    then show ?thesis by (simp add: navigated_def)
  qed
  have "Suc 0 \<le> length (choices c)" using assms(4) by (cases "choices c") simp_all
  then show ?thesis using assms
    by (simp add: handle_dtmf_def choose_caller_account_def eval_steps atoi_one ch)
qed

lemma activate_leases:
  assumes "sv_media s" "i < length (sv_objects s)"
  shows "so_menu_lease (object i (activate_speech i s)) = Some (sv_next_lease s)"
    "so_email_lease (object i (activate_speech i s)) = Some (sv_next_lease s + 1)"
    "sv_leases (activate_speech i s) = sv_leases s @ [sv_next_lease s, sv_next_lease s + 1]"
  using assms by (simp_all add: activate_speech_def object_def modify_def)

lemma arm_other [simp]: "sv_media (arm_inactivity i s) = sv_media s" "sv_next_lease (arm_inactivity i s) = sv_next_lease s"
    "sv_next_lease (modify i f s) = sv_next_lease s"
  by (simp_all add: arm_inactivity_def start_task_def later_def modify_def)

text \<open>C28. The speech leases of a call are released with it, but not those of a call whose caller chose among
  several accounts: the choice activates the chosen user's speech over the leases held since the
  admission, so these two are held by no session any more and the end of the call does not release them.\<close>

theorem choice_leaks_leases:
  assumes "lookup cid s = Some i" "i < length (sv_objects s)" "sv_media s"
    and "\<not> closed (so_call (object i s))" "\<not> authenticated (so_call (object i s))"
    and "call_state (so_call (object i s)) = St_account_choice" "choices (so_call (object i s)) \<noteq> []"
    and "so_menu_lease (object i s) = Some a" "so_email_lease (object i s) = Some b"
    and "a \<in> set (sv_leases s)" "b \<in> set (sv_leases s)" "a < sv_next_lease s" "b < sv_next_lease s"
  shows "a \<notin> set (sv_leases (close_call cid s)) \<and> b \<notin> set (sv_leases (close_call cid s)) \<and>
    (\<exists>s'. press_key d now w save cid CHR ''1'' s = Some s' \<and>
       so_menu_lease (object i s') = Some (sv_next_lease s) \<and> so_email_lease (object i s') = Some (sv_next_lease s + 1) \<and>
       a \<in> set (sv_leases (close_call cid s')) \<and> b \<in> set (sv_leases (close_call cid s')))"
proof -
  obtain c' e where h: "handle_dtmf w save CHR ''1'' (so_call (object i s)) = Some (c', [e])" "choices c' = []"
    using choose_first [OF assms(4-7)] by blast
  let ?t = "modify i (in_call (\<lambda>_. c')) (arm_inactivity i s)"
  let ?s = "fold (perform d now i) [e] (activate_speech i ?t)"
  have p: "press_key d now w save cid CHR ''1'' s = Some ?s"
    using assms h by (simp add: press_key_def Let_def)
  have t: "sv_media ?t" "i < length (sv_objects ?t)" "sv_next_lease ?t = sv_next_lease s" "sv_leases ?t = sv_leases s"
    using assms by simp_all
  note l = activate_leases [OF t(1,2)]
  have held: "so_menu_lease (object i ?s) = Some (sv_next_lease s)" "so_email_lease (object i ?s) = Some (sv_next_lease s + 1)"
    using l t(3) by simp_all
  have sess: "lookup cid ?s = Some i"
    using assms(1) by (simp add: lookup_def leases_performs activate_speech_def leases_perform)
  have len: "i < length (sv_objects ?s)"
    using grows.keep_fold [of _ _ "perform d now i"] assms(2) by (cases e) (simp_all add: perform_def activate_speech_def
      record_pin_failure_def clear_pin_failure_def Let_def)
  have "sv_leases (close_call cid ?s) = filter (\<lambda>m. m \<noteq> sv_next_lease s \<and> m \<noteq> sv_next_lease s + 1) (sv_leases ?s)"
    by (rule close_leases [OF sess len held])
  moreover have "sv_leases ?s = sv_leases s @ [sv_next_lease s, sv_next_lease s + 1]"
    using l(3) t(3,4) by (simp add: leases_performs leases_perform)
  ultimately have "a \<in> set (sv_leases (close_call cid ?s)) \<and> b \<in> set (sv_leases (close_call cid ?s))"
    using assms(10-13) by simp
  moreover have "a \<notin> set (sv_leases (close_call cid s)) \<and> b \<notin> set (sv_leases (close_call cid s))"
    using close_leases [OF assms(1,2,8,9)] by simp
  ultimately show ?thesis using p held by blast
qed

text \<open>A number with two accounts calls, and the caller chooses the first one.\<close>

definition two_accounts :: service where
  "two_accounts = activate_speech 0 (add_session (new_object ((incoming_call ''c'' ''u'' ''1'' St_account_choice)
     \<lparr>choices := [\<lparr>route_user = ''u'', route_username = ''Ann'', route_account = ''a'', route_account_name = ''Work''\<rparr>,
        \<lparr>route_user = ''v'', route_username = ''Bob'', route_account = ''b'', route_account_name = ''Home''\<rparr>]\<rparr>)
     empty_message) demo_service)"

theorem choice_leaks_leases_witness:
  "\<exists>s'. press_key demo_desk 0 demo_world (\<lambda>_. skip) ''c'' CHR ''1'' two_accounts = Some s' \<and>
     0 \<in> set (sv_leases (close_call ''c'' s')) \<and> 1 \<in> set (sv_leases (close_call ''c'' s'))"
proof -
  have "lookup ''c'' two_accounts = Some 0" "0 < length (sv_objects two_accounts)" "sv_media two_accounts"
    "\<not> closed (so_call (object 0 two_accounts))" "\<not> authenticated (so_call (object 0 two_accounts))"
    "call_state (so_call (object 0 two_accounts)) = St_account_choice" "choices (so_call (object 0 two_accounts)) \<noteq> []"
    "so_menu_lease (object 0 two_accounts) = Some 0" "so_email_lease (object 0 two_accounts) = Some 1"
    "sv_leases two_accounts = [0, 1]" "sv_next_lease two_accounts = 2"
    by (simp_all add: two_accounts_def activate_speech_def add_session_def new_object_def incoming_call_def blank_call_def
        demo_service_def connect_def new_service_def lookup_def object_def modify_def)
  then show ?thesis
    using choice_leaks_leases [of "''c''" two_accounts 0 0 1 demo_desk 0 demo_world "\<lambda>_. skip"] by auto
qed

end
