(* ===== verification/Call_Events.thy ===== *)
theory Call_Events
  imports Call_Ledger "HOL-Library.Sublist" "HOL-Library.Multiset"
begin

text \<open>
  The dispatcher of bridge events (internal/calls/events.go): one bounded queue and one worker per
  call.  A Go channel is the list of its jobs; the worker of a call is the step \<open>worker_step\<close>.
  Contexts, the interruption of a prompt and tracing are left out.
\<close>

section \<open>Queues\<close>

record job =
  jb_message :: message
  jb_stamp :: "nat option"

record worker =
  wk_queue :: "job list"
  wk_running :: bool

record dispatcher =
  ds_workers :: "(string \<times> worker) list"
  ds_active :: "(string \<times> string \<times> int) list"

definition call_event_queue_size :: nat where "call_event_queue_size = 32"
definition dtmf_release_grace :: int where "dtmf_release_grace = 250 * 1000000"

definition new_worker :: worker where
  "new_worker = \<lparr>wk_queue = [], wk_running = True\<rparr>"

definition is_press :: "message \<Rightarrow> bool" where
  "is_press m \<longleftrightarrow> m_type m = ''dtmf''"

text \<open>A job that is not a key press: a control event, which is not to be discarded.\<close>

definition is_control :: "job \<Rightarrow> bool" where
  "is_control j \<longleftrightarrow> m_type (jb_message j) \<noteq> [] \<and> m_type (jb_message j) \<noteq> ''dtmf''"

text \<open>A send that does not block.\<close>

definition offer :: "job \<Rightarrow> job list \<Rightarrow> job list" where
  "offer j q = (if length q < call_event_queue_size then q @ [j] else q)"

text \<open>A key press on a full queue: the oldest job makes room, a control event among them is put back
  behind the others.\<close>

definition make_room :: "job \<Rightarrow> job list \<Rightarrow> job list" where
  "make_room j q = (case q of
      [] \<Rightarrow> offer j []
    | oldest # rest \<Rightarrow> offer j (if is_control oldest then offer oldest rest else rest))"

section \<open>Dispatch\<close>

definition navigation_version :: "string \<Rightarrow> service \<Rightarrow> nat option" where
  "navigation_version cid s = (case lookup cid s of
      None \<Rightarrow> None
    | Some i \<Rightarrow> if closed (so_call (object i s)) then None else Some (nav_generation (so_call (object i s))))"

text \<open>The release of a key and values that are no key are transport noise.\<close>

definition is_release :: "message \<Rightarrow> bool" where
  "is_release m \<longleftrightarrow> is_press m \<and> m_phase m = ''end''"

definition is_noise :: "message \<Rightarrow> bool" where
  "is_noise m \<longleftrightarrow> is_press m \<and> (m_phase m \<noteq> [] \<and> m_phase m \<noteq> ''start'' \<or> \<not> valid_dtmf_key (m_digit m))"

text \<open>The same key again before its release, within the grace.\<close>

definition is_duplicate :: "int \<Rightarrow> message \<Rightarrow> (string \<times> int) option \<Rightarrow> bool" where
  "is_duplicate now m tone \<longleftrightarrow> is_press m \<and> m_phase m \<noteq> [] \<and>
     (case tone of None \<Rightarrow> False | Some (digit, seen) \<Rightarrow> digit = m_digit m \<and> now - seen < dtmf_release_grace)"

definition stop_worker :: "string \<Rightarrow> dispatcher \<Rightarrow> dispatcher" where
  "stop_worker cid D = D\<lparr>ds_workers := del cid (ds_workers D), ds_active := del cid (ds_active D)\<rparr>"

definition set_queue :: "string \<Rightarrow> worker \<Rightarrow> job list \<Rightarrow> dispatcher \<Rightarrow> dispatcher" where
  "set_queue cid wk q D = D\<lparr>ds_workers := put cid (wk\<lparr>wk_queue := q\<rparr>) (ds_workers D)\<rparr>"

definition enqueue :: "desk \<Rightarrow> job \<Rightarrow> dispatcher \<times> service \<Rightarrow> dispatcher \<times> service" where
  "enqueue d j Ds =
     (let D = fst Ds; s = snd Ds; cid = m_call_id (jb_message j);
          wk = get_or new_worker (ds_workers D) cid; q = wk_queue wk
      in if length q < call_event_queue_size then (set_queue cid wk (q @ [j]) D, s)
         else if is_press (jb_message j) then (set_queue cid wk (make_room j q) D, s)
         else (set_queue cid wk q D, hangup d cid s))"

definition dispatch :: "desk \<Rightarrow> int \<Rightarrow> message \<Rightarrow> dispatcher \<times> service \<Rightarrow> dispatcher \<times> service" where
  "dispatch d now m Ds =
     (let D = fst Ds; s = snd Ds; cid = m_call_id m
      in if cid = [] then Ds
         else if is_release m then (D\<lparr>ds_active := del cid (ds_active D)\<rparr>, s)
         else if is_noise m then Ds
         else if m_type m = ''call_closed'' then (stop_worker cid D, close_call cid s)
         else
           (let dup = is_duplicate now m (map_of (ds_active D) cid);
                D1 = (if is_press m then D\<lparr>ds_active := put cid (m_digit m, now) (ds_active D)\<rparr> else D)
            in if dup then (D1, s)
               else enqueue d \<lparr>jb_message = m, jb_stamp = (if is_press m then navigation_version cid s else None)\<rparr> (D1, s)))"

section \<open>Workers\<close>

definition retire :: "string \<Rightarrow> worker \<Rightarrow> dispatcher \<Rightarrow> dispatcher" where
  "retire cid wk D = D\<lparr>ds_workers := put cid (wk\<lparr>wk_running := False\<rparr>) (ds_workers D)\<rparr>"

text \<open>A key press that was made for an earlier menu is dropped; a handler that fails hangs up its call and
  ends its worker.  \<open>None\<close> is a panic.\<close>

definition worker_step :: "desk \<Rightarrow> int \<Rightarrow> world \<Rightarrow> (call \<Rightarrow> step) \<Rightarrow> string \<Rightarrow> dispatcher \<times> service \<Rightarrow> (dispatcher \<times> service) option" where
  "worker_step d now w save cid Ds =
     (let D = fst Ds; s = snd Ds
      in case map_of (ds_workers D) cid of
          None \<Rightarrow> Some Ds
        | Some wk \<Rightarrow>
            (case (wk_running wk, wk_queue wk) of
               (True, j # q) \<Rightarrow>
                 (let D1 = set_queue cid wk q D
                  in if (case jb_stamp j of None \<Rightarrow> False | Some v \<Rightarrow> navigation_version cid s \<noteq> Some v)
                     then Some (D1, s)
                     else case handle_event d now w save (jb_message j) s of
                         None \<Rightarrow> None
                       | Some (True, s1) \<Rightarrow> Some (D1, s1)
                       | Some (False, s1) \<Rightarrow> Some (retire cid (wk\<lparr>wk_queue := q\<rparr>) D1, hangup d cid s1))
             | _ \<Rightarrow> Some Ds))"

definition new_dispatcher :: dispatcher where
  "new_dispatcher = \<lparr>ds_workers = [], ds_active = []\<rparr>"

section \<open>One call's share\<close>

text \<open>What the dispatcher holds for one call, and the dispatch of one call alone: the
  specification that the tables implement.\<close>

type_synonym share = "worker option \<times> (string \<times> int) option"

definition share_of :: "string \<Rightarrow> dispatcher \<Rightarrow> share" where
  "share_of cid D = (map_of (ds_workers D) cid, map_of (ds_active D) cid)"

definition queue_of :: "share \<Rightarrow> job list" where
  "queue_of sh = (case fst sh of None \<Rightarrow> [] | Some wk \<Rightarrow> wk_queue wk)"

definition share_queue :: "share \<Rightarrow> job list \<Rightarrow> share" where
  "share_queue sh q = (Some ((case fst sh of None \<Rightarrow> new_worker | Some wk \<Rightarrow> wk)\<lparr>wk_queue := q\<rparr>), snd sh)"

definition dispatch_one :: "int \<Rightarrow> message \<Rightarrow> nat option \<Rightarrow> share \<Rightarrow> share" where
  "dispatch_one now m version sh =
     (if is_release m then (fst sh, None)
      else if is_noise m then sh
      else if m_type m = ''call_closed'' then (None, None)
      else if is_duplicate now m (snd sh) then (fst sh, Some (m_digit m, now))
      else
        (let sh1 = (if is_press m then (fst sh, Some (m_digit m, now)) else sh);
             j = \<lparr>jb_message = m, jb_stamp = (if is_press m then version else None)\<rparr>;
             q = queue_of sh
         in share_queue sh1 (if length q < call_event_queue_size then q @ [j]
                             else if is_press m then make_room j q else q)))"

lemma share_put [simp]:
  "share_of cid (set_queue c wk q D) = (if c = cid then (Some (wk\<lparr>wk_queue := q\<rparr>), snd (share_of cid D)) else share_of cid D)"
  "share_of cid (stop_worker c D) = (if c = cid then (None, None) else share_of cid D)"
  "share_of cid (D\<lparr>ds_active := put c t (ds_active D)\<rparr>) = (if c = cid then (fst (share_of cid D), Some t) else share_of cid D)"
  "share_of cid (D\<lparr>ds_active := del c (ds_active D)\<rparr>) = (if c = cid then (fst (share_of cid D), None) else share_of cid D)"
  by (simp_all add: share_of_def set_queue_def stop_worker_def)

lemma worker_of_share: "get_or new_worker (ds_workers D) cid = (case fst (share_of cid D) of None \<Rightarrow> new_worker | Some wk \<Rightarrow> wk)"
  by (simp add: get_or_def share_of_def)

lemma queue_of_share: "wk_queue (case fst sh of None \<Rightarrow> new_worker | Some wk \<Rightarrow> wk) = queue_of sh"
  by (simp add: queue_of_def new_worker_def split: option.split)

definition next_queue :: "job \<Rightarrow> job list \<Rightarrow> job list" where
  "next_queue j q = (if length q < call_event_queue_size then q @ [j] else if is_press (jb_message j) then make_room j q else q)"

lemma enqueue_share:
  "share_of cid (fst (enqueue d j (D, s))) = (if m_call_id (jb_message j) = cid
     then share_queue (share_of cid D) (next_queue j (queue_of (share_of cid D))) else share_of cid D)"
proof (cases "m_call_id (jb_message j) = cid")
  case True
  let ?wk = "case fst (share_of cid D) of None \<Rightarrow> new_worker | Some wk \<Rightarrow> wk"
  have "fst (enqueue d j (D, s)) = set_queue cid ?wk (next_queue j (queue_of (share_of cid D))) D"
    using True by (simp add: enqueue_def Let_def worker_of_share queue_of_share next_queue_def)
  with True show ?thesis by (simp add: share_queue_def)
next
  case False
  then show ?thesis by (simp add: enqueue_def Let_def)
qed

lemma dispatch_one_queue:
  "\<not> is_release m \<Longrightarrow> \<not> is_noise m \<Longrightarrow> m_type m \<noteq> ''call_closed'' \<Longrightarrow> \<not> is_duplicate now m (snd sh) \<Longrightarrow>
   dispatch_one now m version sh = share_queue (if is_press m then (fst sh, Some (m_digit m, now)) else sh)
     (next_queue \<lparr>jb_message = m, jb_stamp = (if is_press m then version else None)\<rparr> (queue_of sh))"
  by (simp add: dispatch_one_def Let_def next_queue_def)

text \<open>C21. The calls do not get in each other's way: for every call, dispatching a message changes that call's
  queue and key state as the dispatch of this call alone does when the message is the call's, and not at
  all otherwise, however full the other queues are.\<close>

theorem dispatch_per_call:
  "share_of cid (fst (dispatch d now m (D, s))) =
     (if m_call_id m = cid \<and> cid \<noteq> [] then dispatch_one now m (navigation_version cid s) (share_of cid D) else share_of cid D)"
proof -
  have active: "map_of (ds_active D) (m_call_id m) = snd (share_of (m_call_id m) D)" by (simp add: share_of_def)
  consider "m_call_id m = []" | "m_call_id m \<noteq> []" "is_release m" | "m_call_id m \<noteq> []" "\<not> is_release m" "is_noise m"
    | "m_call_id m \<noteq> []" "\<not> is_release m" "\<not> is_noise m" "m_type m = ''call_closed''"
    | "m_call_id m \<noteq> []" "\<not> is_release m" "\<not> is_noise m" "m_type m \<noteq> ''call_closed''"
      "is_duplicate now m (snd (share_of (m_call_id m) D))"
    | "m_call_id m \<noteq> []" "\<not> is_release m" "\<not> is_noise m" "m_type m \<noteq> ''call_closed''"
      "\<not> is_duplicate now m (snd (share_of (m_call_id m) D))" by blast
  then show ?thesis
  proof cases
    case 6
    then show ?thesis
      by (cases "m_call_id m = cid") (auto simp: dispatch_def Let_def active enqueue_share dispatch_one_queue queue_of_def)
  qed (auto simp: dispatch_def Let_def active dispatch_one_def is_duplicate_def)
qed

section \<open>Full queues\<close>

lemma offer_length: "length q \<le> call_event_queue_size \<Longrightarrow> length (offer j q) \<le> call_event_queue_size"
  by (simp add: offer_def)

lemma make_room_length: "length q \<le> call_event_queue_size \<Longrightarrow> length (make_room j q) \<le> call_event_queue_size"
  by (auto simp: make_room_def offer_def call_event_queue_size_def split: list.split)

lemma next_queue_length: "length q \<le> call_event_queue_size \<Longrightarrow> length (next_queue j q) \<le> call_event_queue_size"
  by (simp add: next_queue_def make_room_length)

definition bounded :: "dispatcher \<Rightarrow> bool" where
  "bounded D \<longleftrightarrow> (\<forall>cid. length (queue_of (share_of cid D)) \<le> call_event_queue_size)"

lemma queue_share_queue [simp]: "queue_of (share_queue sh q) = q"
  by (simp add: queue_of_def share_queue_def)

lemma dispatch_one_bounded:
  "length (queue_of sh) \<le> call_event_queue_size \<Longrightarrow> length (queue_of (dispatch_one now m version sh)) \<le> call_event_queue_size"
  by (auto simp: dispatch_one_def Let_def queue_of_def [of "(fst sh, x)" for x] queue_of_def [of "(None, None)"]
      intro: make_room_length) (simp_all add: queue_of_def)

lemma bounded_dispatch: "bounded (fst Ds) \<Longrightarrow> bounded (fst (dispatch d now m Ds))"
  by (cases Ds) (auto simp: bounded_def dispatch_per_call intro: dispatch_one_bounded)

inductive loop_step :: "dispatcher \<times> service \<Rightarrow> dispatcher \<times> service \<Rightarrow> bool" where
  Arrive: "loop_step Ds (dispatch d now m Ds)"
| Work: "worker_step d now w save cid Ds = Some Ds' \<Longrightarrow> loop_step Ds Ds'"

lemma bounded_set_queue:
  "bounded D \<Longrightarrow> map_of (ds_workers D) cid = Some wk \<Longrightarrow> wk_queue wk = j # q \<Longrightarrow> bounded (set_queue cid wk q D)"
  by (fastforce simp: bounded_def share_of_def set_queue_def queue_of_def dest: spec [where x = cid])

lemma bounded_retire:
  "bounded (set_queue cid wk q D) \<Longrightarrow> bounded (retire cid (wk\<lparr>wk_queue := q\<rparr>) (set_queue cid wk q D))"
  by (fastforce simp: bounded_def share_of_def set_queue_def retire_def queue_of_def split: if_splits dest: spec)

lemma bounded_work:
  assumes "worker_step d now w save cid Ds = Some Ds'" "bounded (fst Ds)"
  shows "bounded (fst Ds')"
proof (cases "map_of (ds_workers (fst Ds)) cid")
  case None
  with assms show ?thesis by (simp add: worker_step_def)
next
  case (Some wk)
  show ?thesis
  proof (cases "wk_running wk \<and> wk_queue wk \<noteq> []")
    case False
    with assms Some show ?thesis by (auto simp: worker_step_def Let_def split: bool.splits list.splits)
  next
    case True
    then obtain j q where q: "wk_queue wk = j # q" by (cases "wk_queue wk") auto
    have b: "bounded (set_queue cid wk q (fst Ds))" by (rule bounded_set_queue [OF assms(2) Some q])
    have r: "bounded (retire cid (wk\<lparr>wk_queue := q\<rparr>) (set_queue cid wk q (fst Ds)))" by (rule bounded_retire [OF b])
    from True assms Some q show ?thesis
      by (auto simp: worker_step_def Let_def b r split: option.splits if_splits bool.splits)
  qed
qed

text \<open>C28. The queue of a call never holds more than 32 events, whatever arrives and however slowly its worker runs.\<close>

theorem event_queues_bounded:
  assumes "loop_step\<^sup>*\<^sup>* (new_dispatcher, s) (D, s')"
  shows "length (queue_of (share_of cid D)) \<le> 32"
proof -
  have "bounded (fst Ds)" if "loop_step\<^sup>*\<^sup>* (new_dispatcher, s) Ds" for Ds
    using that
  proof (induction rule: rtranclp_induct)
    case base
    then show ?case by (simp add: bounded_def new_dispatcher_def share_of_def queue_of_def)
  next
    case (step Ds Ds')
    from step(2,3) show ?case by (cases rule: loop_step.cases) (auto intro: bounded_dispatch bounded_work)
  qed
  from this [OF assms] show ?thesis by (simp add: bounded_def call_event_queue_size_def)
qed

text \<open>Two reads and one event: the witness of the bound is a queue with one job.\<close>

theorem event_queues_bounded_witness:
  "length (queue_of (share_of ''c'' (fst (dispatch demo_desk 0 demo_ringing (new_dispatcher, demo_service))))) \<le> 32"
proof -
  obtain D s where D: "dispatch demo_desk 0 demo_ringing (new_dispatcher, demo_service) = (D, s)" by fastforce
  have "loop_step (new_dispatcher, demo_service) (D, s)" using loop_step.Arrive D by metis
  then have "loop_step\<^sup>*\<^sup>* (new_dispatcher, demo_service) (D, s)" by (rule r_into_rtranclp)
  then have "length (queue_of (share_of ''c'' D)) \<le> 32" by (rule event_queues_bounded)
  then show ?thesis by (simp add: D)
qed

lemma offer_short: "length q < call_event_queue_size \<Longrightarrow> offer j q = q @ [j]"
  by (simp add: offer_def)

lemma make_room_cases:
  assumes "length q = call_event_queue_size"
  shows "make_room j q = (if is_control (hd q) then tl q @ [hd q] else tl q @ [j])"
  using assms by (cases q) (auto simp: make_room_def offer_def call_event_queue_size_def)

text \<open>C39. What a queue may lose: an event that comes to a queue with room is appended.  On a full queue a control event
  is refused and the call is hung up; a key press never displaces a control event, and the presses in the
  queue stay in the order they were made in.\<close>

theorem full_queue_policy:
  assumes "length q \<le> call_event_queue_size"
  shows "let q' = next_queue j q in (length q < 32 \<longrightarrow> q' = q @ [j]) \<and>
    (length q = 32 \<and> \<not> is_press (jb_message j) \<longrightarrow> q' = q \<and>
       (\<forall>d D s. queue_of (share_of (m_call_id (jb_message j)) D) = q \<longrightarrow>
          snd (enqueue d j (D, s)) = hangup d (m_call_id (jb_message j)) s)) \<and>
    (is_press (jb_message j) \<longrightarrow>
       mset (filter is_control q') = mset (filter is_control q) \<and>
       subseq (filter (\<lambda>x. \<not> is_control x) q') (filter (\<lambda>x. \<not> is_control x) q @ [j]))"
proof -
  define q' where "q' = next_queue j q"
  have room: "length q < 32 \<Longrightarrow> q' = q @ [j]"
    by (simp add: q'_def next_queue_def call_event_queue_size_def)
  have full: "length q = 32 \<Longrightarrow> q' = (if is_press (jb_message j) then make_room j q else q)"
    by (simp add: q'_def next_queue_def call_event_queue_size_def)
  have hang: "snd (enqueue d j (D, s)) = hangup d (m_call_id (jb_message j)) s"
    if "length q = 32" "\<not> is_press (jb_message j)" "queue_of (share_of (m_call_id (jb_message j)) D) = q" for d D s
    using that by (simp add: enqueue_def Let_def worker_of_share queue_of_share call_event_queue_size_def)
  have press: "\<not> is_control j" if "is_press (jb_message j)"
    using that by (simp add: is_control_def is_press_def)
  have "mset (filter is_control q') = mset (filter is_control q) \<and>
       subseq (filter (\<lambda>x. \<not> is_control x) q') (filter (\<lambda>x. \<not> is_control x) q @ [j])" if p: "is_press (jb_message j)"
  proof (cases "length q = 32")
    case False
    with assms(1) room press [OF p] show ?thesis by (simp add: call_event_queue_size_def)
  next
    case True
    then obtain x xs where q: "q = x # xs" by (cases q) auto
    have "q' = (if is_control x then xs @ [x] else xs @ [j])"
      using full [OF True] p make_room_cases [of q j] True by (simp add: call_event_queue_size_def q)
    then show ?thesis using press [OF p] by (simp add: q subseq_rev_drop_many list_emb_Cons)
  qed
  with room full hang show ?thesis unfolding Let_def q'_def [symmetric] by auto
qed

text \<open>A press on a queue of 32 presses displaces the oldest one.\<close>

definition demo_press :: "string \<Rightarrow> job" where
  "demo_press key = \<lparr>jb_message = empty_message\<lparr>m_type := ''dtmf'', m_call_id := ''c'', m_digit := key\<rparr>, jb_stamp = None\<rparr>"

theorem full_queue_policy_witness:
  "subseq (filter (\<lambda>x. \<not> is_control x) (next_queue (demo_press ''2'') (replicate 32 (demo_press ''1''))))
     (filter (\<lambda>x. \<not> is_control x) (replicate 32 (demo_press ''1'')) @ [demo_press ''2''])"
  using full_queue_policy [of "replicate 32 (demo_press ''1'')" "demo_press ''2''"]
  by (simp add: call_event_queue_size_def Let_def is_press_def demo_press_def empty_message_def)

text \<open>Room is not always made for the newest press: when the oldest event of a full queue is a control event, it
  is put back behind the presses and the new press is dropped, so a call's establishment can end up
  handled after keys that were pressed after it, and the press that just came is lost.\<close>

theorem newest_press_dropped:
  assumes "length q = 32" "is_control (hd q)" "is_press (jb_message j)" "j \<notin> set q"
  shows "next_queue j q = tl q @ [hd q] \<and> j \<notin> set (next_queue j q)"
proof -
  have "next_queue j q = tl q @ [hd q]"
    using assms make_room_cases [of q j] by (simp add: next_queue_def call_event_queue_size_def)
  moreover have "set (tl q @ [hd q]) = set q" using assms(1) by (cases q) auto
  ultimately show ?thesis using assms(4) by metis
qed

text \<open>The establishment of a call, with 31 presses behind it.\<close>

theorem newest_press_dropped_witness:
  "next_queue (demo_press ''2'') (\<lparr>jb_message = empty_message\<lparr>m_type := ''call_established'', m_call_id := ''c''\<rparr>, jb_stamp = None\<rparr>
      # replicate 31 (demo_press ''1''))
   = replicate 31 (demo_press ''1'') @ [\<lparr>jb_message = empty_message\<lparr>m_type := ''call_established'', m_call_id := ''c''\<rparr>, jb_stamp = None\<rparr>]"
proof -
  let ?e = "\<lparr>jb_message = empty_message\<lparr>m_type := ''call_established'', m_call_id := ''c''\<rparr>, jb_stamp = None\<rparr>"
  have "demo_press ''2'' \<notin> set (?e # replicate 31 (demo_press ''1''))"
    by (simp add: demo_press_def empty_message_def)
  then show ?thesis
    using newest_press_dropped [of "?e # replicate 31 (demo_press ''1'')" "demo_press ''2''"]
    by (simp add: is_control_def is_press_def demo_press_def empty_message_def)
qed

end
