(* ===== verification/Call_Settings.thy ===== *)
theory Call_Settings
  imports Call_Props
begin

text \<open>
  Three behaviours of the menus a caller hears wrong: the announced alert switch, the confirmation of a blank
  subject or body, and the closing quotes of a spoken mail.
\<close>

section \<open>The alert switch\<close>

definition alert_notice :: "bool \<Rightarrow> bool \<Rightarrow> string" where
  "alert_notice was now =
     ''Call alerts were '' @ (if was then ''on'' else ''off'') @ '' for this account. They are now '' @
     (if now then ''on'' else ''off'') @ ''. '' @ menu_prompt St_account_settings"

text \<open>Key 1 of the account settings switches the alerts of the account, and tells the caller the opposite: that they
  were what they now are, and are now what they were.\<close>

theorem alert_switch_announced_inverted:
  assumes "selected_account c = Some a" "w_write_ok w"
  shows "\<exists>c'. handle_account_settings w CHR ''1'' c =
      Some (c', [Set_account_alert (acc_id a) (\<not> call_alert_enabled a), Say (alert_notice (\<not> call_alert_enabled a) (call_alert_enabled a))]) \<and>
    (\<forall>b \<in> set (accounts c'). acc_id b = acc_id a \<longrightarrow> call_alert_enabled b = (\<not> call_alert_enabled a))"
  using assms by (auto simp: handle_account_settings_def eval_steps replace_account_def alert_notice_def)

definition settings_call :: call where
  "settings_call = (blank_call ''c'' ''u'' ''1'' St_account_settings)\<lparr>authenticated := True, accounts := [demo_account],
     active_account := acc_id demo_account\<rparr>"

text \<open>The demonstration's account.\<close>

theorem alert_switch_announced_inverted_witness:
  "\<exists>c'. handle_account_settings demo_world CHR ''1'' settings_call =
      Some (c', [Set_account_alert (acc_id demo_account) (\<not> call_alert_enabled demo_account),
        Say (alert_notice (\<not> call_alert_enabled demo_account) (call_alert_enabled demo_account))])"
proof -
  have "selected_account settings_call = Some demo_account" "w_write_ok demo_world"
    by (simp_all add: selected_account_def find_account_def settings_call_def blank_call_def demo_account_def demo_world_def)
  then show ?thesis using alert_switch_announced_inverted by blast
qed

section \<open>Blank fields\<close>

text \<open>C40. A blank subject or body is read back with the offer to accept it, but no key does: each one repeats the
  prompt and changes nothing, also the key that would take the entry back.\<close>

theorem blank_field_not_accepted:
  assumes "state_of c \<in> {St_subject, St_body}"
  shows "\<exists>c'. submit_field w [] c = Some (c', [Say (field_confirm_prompt w (state_of c) [])]) \<and> state_of c' = St_field_confirm \<and>
     (\<forall>repeat_prompt key. handle_field_confirmation repeat_prompt key c' = repeat_prompt c')"
  using assms
  by (auto simp: submit_field_def confirm_field_def handle_field_confirmation_def eval_steps Let_def transition_def
      enter_flow_def ensure_flow_def state_of_def enter_def split: option.splits)

text \<open>A caller who presses pound without a body.\<close>

theorem blank_field_not_accepted_witness:
  "\<exists>c'. submit_field demo_world [] (blank_call ''c'' ''u'' ''1'' St_body) = Some (c', [Say (field_confirm_prompt demo_world St_body [])]) \<and>
     handle_field_confirmation skip CHR ''1'' c' = skip c'"
proof -
  have "state_of (blank_call ''c'' ''u'' ''1'' St_body) = St_body" by (simp add: state_of_def ensure_flow_def blank_call_def)
  with blank_field_not_accepted [of "blank_call ''c'' ''u'' ''1'' St_body" demo_world] show ?thesis by auto
qed

section \<open>Closing quotes\<close>

lemma split_plain:
  "list_all (\<lambda>r. \<not> is_terminator r \<and> r \<noteq> 10) rs \<Longrightarrow> split_runes (rs @ rest) cur out = split_runes rest (cur @ rs) out"
  by (induction rs arbitrary: cur) auto

text \<open>Closing quotes and brackets behind a full stop, exclamation or question mark that no white space follows are
  spoken twice.\<close>

theorem closers_spoken_twice:
  assumes "is_terminator t" "list_all is_closer cs" "\<not> is_closer r" "r \<notin> {32, 9, 10}"
  shows "split_runes (t # cs @ r # rest) cur out = split_runes (r # rest) (cur @ t # cs @ cs) out"
proof -
  have "takeWhile is_closer (cs @ r # rest) = cs" "dropWhile is_closer (cs @ r # rest) = r # rest"
    using assms(2,3) by (auto simp: list_all_iff takeWhile_append dropWhile_append)
  moreover have "list_all (\<lambda>r. \<not> is_terminator r \<and> r \<noteq> 10) cs"
    using assms(2) by (auto simp: list_all_iff is_closer_def is_terminator_def)
  moreover have "t \<noteq> 10" using assms(1) by (auto simp: is_terminator_def)
  ultimately show ?thesis
    using assms(1,4) split_plain [of cs "r # rest" "cur @ t # cs" out] by (simp add: Let_def)
qed

text \<open>In a mail with \<open>a.)b\<close>.\<close>

theorem closers_spoken_twice_witness:
  "split_runes [97, 46, 41, 98] [] [] = split_runes [98] [97, 46, 41, 41] []"
proof -
  have "split_runes [97, 46, 41, 98] [] [] = split_runes [46, 41, 98] [97] []" by (simp add: is_terminator_def)
  also have "\<dots> = split_runes [98] [97, 46, 41, 41] []"
    using closers_spoken_twice [of 46 "[41]" 98 "[]" "[97]" "[]"] by (simp add: is_terminator_def is_closer_def)
  finally show ?thesis .
qed

end
