(* ===== verification/Alerts.thy ===== *)
theory Alerts
  imports Call_System
begin

text \<open>
  New-mail alerts: the alert service (internal/alerts/alerts.go) over the claim tables of the store
  (internal/store/alerts.go, alert_state.go).  One database transaction, one user's turn in a round and the
  end of an alert call are a step each; which database calls fail, whether \<open>Dial\<close> accepts and the clock are
  the \<open>board\<close> of the step.  \<open>al_round\<close> is the local variable \<open>byUser\<close> of the running round, \<open>al_calls\<close> are
  the goroutines waiting for the end of a call, and \<open>al_dialled\<close> is a ghost: every alert call \<open>Dial\<close> accepted,
  with its messages.  Rows of mail are kept in the order the candidate query sorts by.
\<close>

section \<open>State\<close>

text \<open>A row is a message joined with its account, owner and settings; \<open>ml_folders\<close> is the decoded JSON of the
  account's alert folders, \<open>None\<close> when that is no list of strings.\<close>

record mail_row =
  ml_account :: string
  ml_folder :: string
  ml_user :: string
  ml_number :: string
  ml_read :: bool
  ml_enabled :: bool
  ml_folders :: "string list option"
  ml_alerted :: bool
  ml_attempts :: int

record claim_row =
  cl_user :: string
  cl_at :: int
  cl_announced :: bool

record mail_store =
  st_available :: bool
  st_mail :: "(int \<times> mail_row) list"
  st_claims :: "(int \<times> claim_row) list"
  st_next_dial :: "(string \<times> int) list"

record candidate =
  ca_message :: int
  ca_account :: string
  ca_folder :: string
  ca_user :: string
  ca_number :: string
  ca_folders :: "string list option"

record alert_call =
  lc_user :: string
  lc_messages :: "int list"
  lc_test :: bool

record alerts =
  al_max_concurrent :: int
  al_min_delay :: int
  al_max_per_round :: int
  al_last :: "(string \<times> int) list"
  al_inflight :: "int list"
  al_test_last :: "(string \<times> int) list"
  al_pending :: int
  al_by_user :: "(string \<times> int) list"
  al_store :: mail_store
  al_round :: "candidate list"
  al_calls :: "alert_call list"
  al_dialled :: "(string \<times> int list) list"

datatype query = Read_pending | Read_next | Read_number | Claim | Release | Mark | Set_next

record board =
  b_now :: int
  b_domain :: string
  b_number :: "string \<Rightarrow> string"
  b_fails :: "query \<Rightarrow> bool"
  b_dial_ok :: bool

definition default_max_concurrent_alerts :: int where "default_max_concurrent_alerts = 10"
definition max_alert_attempts :: int where "max_alert_attempts = 3"
definition stale_claim :: int where "stale_claim = 15 * 60 * second"

definition max_alerts :: "alerts \<Rightarrow> int" where
  "max_alerts a = (if al_max_concurrent a \<le> 0 then default_max_concurrent_alerts else al_max_concurrent a)"

definition min_delay :: "alerts \<Rightarrow> int" where
  "min_delay a = (if al_min_delay a \<le> 0 then 5 * 60 * second else al_min_delay a)"

definition per_round :: "alerts \<Rightarrow> nat" where
  "per_round a = (if al_max_per_round a \<le> 0 then 1 else nat (al_max_per_round a))"

section \<open>The claim tables\<close>

text \<open>The rows the join with the alert folders gives a message: one for each folder that matches.\<close>

definition matching_folders :: "mail_row \<Rightarrow> nat" where
  "matching_folders r = (case ml_folders r of
      None \<Rightarrow> 0
    | Some fs \<Rightarrow> length (filter (\<lambda>f. sql_key f = sql_key (ml_folder r)) fs))"

definition alertable :: "mail_row \<Rightarrow> bool" where
  "alertable r \<longleftrightarrow> \<not> ml_read r \<and> \<not> ml_alerted r \<and> ml_attempts r < max_alert_attempts \<and> ml_enabled r \<and>
     ml_number r \<noteq> [] \<and> matching_folders r > 0"

definition sweep_claims :: "int \<Rightarrow> mail_store \<Rightarrow> mail_store" where
  "sweep_claims now st =
     st\<lparr>st_claims := filter (\<lambda>(_, c). \<not> (\<not> cl_announced c \<and> cl_at c < now - stale_claim)) (st_claims st)\<rparr>"

definition to_candidate :: "int \<times> mail_row \<Rightarrow> candidate" where
  "to_candidate p = (case p of (i, r) \<Rightarrow>
     \<lparr>ca_message = i, ca_account = ml_account r, ca_folder = ml_folder r, ca_user = ml_user r, ca_number = ml_number r,
      ca_folders = ml_folders r\<rparr>)"

text \<open>\<open>user_rank <= 10\<close>: \<open>seen\<close> are the users of the rows before.\<close>

fun top_ten :: "string list \<Rightarrow> candidate list \<Rightarrow> candidate list" where
  "top_ten seen [] = []"
| "top_ten seen (c # cs) =
     (if count_list seen (ca_user c) < 10 then c # top_ten (ca_user c # seen) cs else top_ten (ca_user c # seen) cs)"

definition pending_alerts :: "int \<Rightarrow> mail_store \<Rightarrow> candidate list \<times> mail_store" where
  "pending_alerts now st =
     (if \<not> st_available st then ([], st)
      else
        (let st1 = sweep_claims now st;
             free = (\<lambda>i. case map_of (st_claims st1) i of None \<Rightarrow> True | Some c \<Rightarrow> cl_announced c);
             matches = filter (\<lambda>(i, r). alertable r \<and> free i) (st_mail st1)
         in (take 100 (top_ten [] (concat (map (\<lambda>(i, r). replicate (matching_folders r) (to_candidate (i, r))) matches))), st1)))"

text \<open>One \<open>INSERT OR IGNORE\<close> with the attempt it records.\<close>

definition claim_one :: "int \<Rightarrow> string \<Rightarrow> int \<Rightarrow> int list \<times> mail_store \<Rightarrow> int list \<times> mail_store" where
  "claim_one now user i = (\<lambda>(claimed, st). case map_of (st_mail st) i of
      None \<Rightarrow> (claimed, st)
    | Some r \<Rightarrow>
        if ml_user r = user \<and> alertable r \<and> st_available st \<and> map_of (st_claims st) i = None
        then (claimed @ [i],
              st\<lparr>st_claims := put i \<lparr>cl_user = user, cl_at = now, cl_announced = False\<rparr> (st_claims st),
                 st_mail := put i (r\<lparr>ml_attempts := ml_attempts r + 1\<rparr>) (st_mail st)\<rparr>)
        else (claimed, st))"

definition claim_alert_messages :: "int \<Rightarrow> string \<Rightarrow> int list \<Rightarrow> mail_store \<Rightarrow> int list \<times> mail_store" where
  "claim_alert_messages now user ids st =
     (if user = [] \<or> ids = [] then ([], st) else fold (claim_one now user) ids ([], sweep_claims now st))"

definition release_alert_claims :: "string \<Rightarrow> int list \<Rightarrow> mail_store \<Rightarrow> mail_store" where
  "release_alert_claims user ids st =
     (if user = [] \<or> ids = [] then st
      else st\<lparr>st_claims := filter (\<lambda>(i, c). \<not> (cl_user c = user \<and> \<not> cl_announced c \<and> i \<in> set ids)) (st_claims st)\<rparr>)"

definition mark_alert_messages_notified :: "string \<Rightarrow> int list \<Rightarrow> mail_store \<Rightarrow> mail_store" where
  "mark_alert_messages_notified user ids st =
     (if user = [] \<or> ids = [] then st
      else st\<lparr>st_mail := map (\<lambda>(i, r). (i, if i \<in> set ids \<and> ml_user r = user then r\<lparr>ml_alerted := True\<rparr> else r)) (st_mail st),
              st_claims := map (\<lambda>(i, c). (i, if i \<in> set ids \<and> cl_user c = user then c\<lparr>cl_announced := True\<rparr> else c)) (st_claims st)\<rparr>)"

section \<open>Reservations\<close>

definition reserve_pending :: "string \<Rightarrow> alerts \<Rightarrow> bool \<times> alerts" where
  "reserve_pending user0 a =
     (let user = trim_space user0
      in if user = [] then (False, a)
         else if al_pending a \<ge> max_alerts a \<or> get_or 0 (al_by_user a) user \<ge> 1 then (False, a)
         else (True, a\<lparr>al_pending := al_pending a + 1,
                       al_by_user := put user (get_or 0 (al_by_user a) user + 1) (al_by_user a)\<rparr>))"

definition release_pending :: "string \<Rightarrow> alerts \<Rightarrow> alerts" where
  "release_pending user0 a =
     (let user = trim_space user0; count = get_or 0 (al_by_user a) user
      in if count \<le> 0 then a
         else
           (let a1 = (if al_pending a > 0 then a\<lparr>al_pending := al_pending a - 1\<rparr> else a)
            in a1\<lparr>al_by_user := (if count > 1 then put user (count - 1) (al_by_user a1) else del user (al_by_user a1))\<rparr>))"

definition clear_inflight :: "int list \<Rightarrow> alerts \<Rightarrow> alerts" where
  "clear_inflight ids a = a\<lparr>al_inflight := filter (\<lambda>i. i \<notin> set ids) (al_inflight a)\<rparr>"

section \<open>A round\<close>

text \<open>An empty list of alert folders matches nothing.\<close>

definition alert_folder_match :: "unicode \<Rightarrow> candidate \<Rightarrow> bool" where
  "alert_folder_match U c = (case ca_folders c of
      None \<Rightarrow> False
    | Some fs \<Rightarrow> list_ex (\<lambda>f. equal_fold U (trim_space f) (trim_space (ca_folder c))) fs)"

definition dial_uri :: "(rune \<Rightarrow> rune) \<Rightarrow> string \<Rightarrow> string \<Rightarrow> string" where
  "dial_uri U number0 domain =
     (let number = trim_space number0
      in if number = [] then []
         else if has_prefix (to_lower U number) ''sip:'' then number
         else if domain = [] then ''sip:'' @ number
         else ''sip:'' @ number @ ''@'' @ domain)"

text \<open>The head of \<open>round\<close>: the candidates that are announced.\<close>

definition start_round :: "unicode \<Rightarrow> board \<Rightarrow> alerts \<Rightarrow> alerts" where
  "start_round U b a =
     (if b_fails b Read_pending then a\<lparr>al_round := []\<rparr>
      else case pending_alerts (b_now b) (al_store a) of (cands, st) \<Rightarrow>
        a\<lparr>al_store := st,
          al_round := (if trim_space (b_domain b) = [] then []
                       else filter (\<lambda>c. ca_message c \<notin> set (al_inflight a) \<and> alert_folder_match U c) cands)\<rparr>)"

definition alert_next_dial :: "board \<Rightarrow> string \<Rightarrow> alerts \<Rightarrow> int option" where
  "alert_next_dial b user a = (if b_fails b Read_next then None else map_of (st_next_dial (al_store a)) user)"

definition last_dial :: "board \<Rightarrow> string \<Rightarrow> alerts \<Rightarrow> int option" where
  "last_dial b user a =
     (let recent = map_of (al_last a) user
      in case alert_next_dial b user a of
          None \<Rightarrow> recent
        | Some persistent \<Rightarrow>
            if persistent > b_now b \<and> (case recent of None \<Rightarrow> True | Some t \<Rightarrow> persistent > t) then Some persistent else recent)"

definition in_cooldown :: "board \<Rightarrow> string \<Rightarrow> alerts \<Rightarrow> bool" where
  "in_cooldown b user a = (case last_dial b user a of None \<Rightarrow> False | Some recent \<Rightarrow> b_now b - recent < min_delay a)"

definition set_alert_next_dial :: "board \<Rightarrow> string \<Rightarrow> alerts \<Rightarrow> alerts" where
  "set_alert_next_dial b user a =
     (if trim_space user = [] \<or> b_fails b Set_next then a
      else a\<lparr>al_store := (al_store a)\<lparr>st_next_dial := put user (b_now b + min_delay a) (st_next_dial (al_store a))\<rparr>\<rparr>)"

definition release_claims :: "board \<Rightarrow> string \<Rightarrow> int list \<Rightarrow> alerts \<Rightarrow> alerts" where
  "release_claims b user ids a =
     (if b_fails b Release then a else a\<lparr>al_store := release_alert_claims user ids (al_store a)\<rparr>)"

definition place_call :: "board \<Rightarrow> string \<Rightarrow> int list \<Rightarrow> alerts \<Rightarrow> alerts" where
  "place_call b user ids a0 =
     (let a = a0\<lparr>al_inflight := al_inflight a0 @ ids\<rparr>
      in if \<not> b_dial_ok b then release_claims b user ids (clear_inflight ids (release_pending user a))
         else (set_alert_next_dial b user (a\<lparr>al_last := put user (b_now b) (al_last a)\<rparr>))
                \<lparr>al_calls := al_calls a @ [\<lparr>lc_user = user, lc_messages = ids, lc_test = False\<rparr>],
                 al_dialled := al_dialled a @ [(user, ids)]\<rparr>)"

definition try_alert :: "unicode \<Rightarrow> board \<Rightarrow> string \<Rightarrow> candidate list \<Rightarrow> alerts \<Rightarrow> alerts" where
  "try_alert U b user cands a = (case reserve_pending user a of
      (False, a1) \<Rightarrow> a1
    | (True, a1) \<Rightarrow>
        (let taken = take (per_round a) cands
         in if dial_uri (u_lower U) (ca_number (hd taken)) (trim_space (b_domain b)) = [] then release_pending user a1
            else if b_fails b Claim then release_pending user a1
            else case claim_alert_messages (b_now b) user (map ca_message taken) (al_store a1) of
                ([], st) \<Rightarrow> release_pending user (a1\<lparr>al_store := st\<rparr>)
              | (ids, st) \<Rightarrow> place_call b user ids (a1\<lparr>al_store := st\<rparr>)))"

text \<open>One iteration over \<open>byUser\<close>.\<close>

definition round_turn :: "unicode \<Rightarrow> board \<Rightarrow> string \<Rightarrow> alerts \<Rightarrow> alerts" where
  "round_turn U b user a0 =
     (let cands = filter (\<lambda>c. ca_user c = user) (al_round a0);
          a = a0\<lparr>al_round := filter (\<lambda>c. ca_user c \<noteq> user) (al_round a0)\<rparr>
      in if cands = [] \<or> in_cooldown b user a then a else try_alert U b user cands a)"

section \<open>The end of an alert call and the test alert\<close>

text \<open>Announced to the end, ended otherwise, or the service's context ended first.\<close>

datatype ending = Announced | Not_announced | Round_cancelled

definition settle_claims :: "board \<Rightarrow> ending \<Rightarrow> alert_call \<Rightarrow> alerts \<Rightarrow> alerts" where
  "settle_claims b e lc a = (case e of
      Announced \<Rightarrow>
        if b_fails b Mark then a
        else a\<lparr>al_store := mark_alert_messages_notified (lc_user lc) (lc_messages lc) (al_store a)\<rparr>
    | Not_announced \<Rightarrow> release_claims b (lc_user lc) (lc_messages lc) a
    | Round_cancelled \<Rightarrow> a)"

definition finish_alert :: "board \<Rightarrow> ending \<Rightarrow> alert_call \<Rightarrow> alerts \<Rightarrow> alerts" where
  "finish_alert b e lc a =
     (if lc \<notin> set (al_calls a) then a
      else
        (let a1 = a\<lparr>al_calls := remove1 lc (al_calls a)\<rparr>
         in if lc_test lc then release_pending (lc_user lc) a1
            else release_pending (lc_user lc) (settle_claims b e lc (clear_inflight (lc_messages lc) a1))))"

datatype test_error = Settings_unavailable | No_number | No_domain | Too_soon | Too_many | Dial_error

definition test_alert :: "board \<Rightarrow> string \<Rightarrow> alerts \<Rightarrow> test_error option \<times> alerts" where
  "test_alert b user a =
     (if b_fails b Read_number then (Some Settings_unavailable, a)
      else if trim_space (b_number b user) = [] then (Some No_number, a)
      else if trim_space (b_domain b) = [] then (Some No_domain, a)
      else if (case alert_next_dial b user a of Some next_dial \<Rightarrow> next_dial > b_now b | None \<Rightarrow> False) then (Some Too_soon, a)
      else if (case map_of (al_test_last a) user of Some recent \<Rightarrow> b_now b - recent < min_delay a | None \<Rightarrow> False)
      then (Some Too_soon, a)
      else case reserve_pending user a of
          (False, a1) \<Rightarrow> (Some Too_many, a1)
        | (True, a1) \<Rightarrow>
            if \<not> b_dial_ok b
            then (Some Dial_error, (release_pending user a1)\<lparr>al_test_last := del user (al_test_last a1)\<rparr>)
            else (None, set_alert_next_dial b user
                    (a1\<lparr>al_test_last := put user (b_now b) (al_test_last a1),
                        al_calls := al_calls a1 @ [\<lparr>lc_user = user, lc_messages = [], lc_test = True\<rparr>]\<rparr>)))"

section \<open>Runs\<close>

text \<open>A message arrives or changes (what the mail index writes); its alert history is the store's.\<close>

definition index_mail :: "int \<Rightarrow> mail_row \<Rightarrow> alerts \<Rightarrow> alerts" where
  "index_mail i r a =
     (let st = al_store a;
          r1 = (case map_of (st_mail st) i of
                  None \<Rightarrow> r\<lparr>ml_alerted := False, ml_attempts := 0\<rparr>
                | Some old \<Rightarrow> r\<lparr>ml_user := ml_user old, ml_alerted := ml_alerted old, ml_attempts := ml_attempts old\<rparr>)
      in a\<lparr>al_store := st\<lparr>st_mail := put i r1 (st_mail st)\<rparr>\<rparr>)"

definition fresh_alerts :: "alerts \<Rightarrow> alerts" where
  "fresh_alerts a = a\<lparr>al_last := [], al_inflight := [], al_test_last := [], al_pending := 0, al_by_user := [],
     al_round := [], al_calls := []\<rparr>"

datatype alert_op =
  Start_round board | Turn board string | Ended board ending alert_call | Test_call board string | Index int mail_row
| Restart

fun alert_step :: "unicode \<Rightarrow> alert_op \<Rightarrow> alerts \<Rightarrow> alerts" where
  "alert_step U (Start_round b) a = start_round U b a"
| "alert_step U (Turn b user) a = round_turn U b user a"
| "alert_step U (Ended b e lc) a = finish_alert b e lc a"
| "alert_step U (Test_call b user) a = snd (test_alert b user a)"
| "alert_step U (Index i r) a = index_mail i r a"
| "alert_step U Restart a = fresh_alerts a"

definition new_alerts :: "int \<Rightarrow> int \<Rightarrow> int \<Rightarrow> alerts" where
  "new_alerts max_concurrent delay per =
     \<lparr>al_max_concurrent = max_concurrent, al_min_delay = delay, al_max_per_round = per, al_last = [], al_inflight = [],
      al_test_last = [], al_pending = 0, al_by_user = [],
      al_store = \<lparr>st_available = True, st_mail = [], st_claims = [], st_next_dial = []\<rparr>,
      al_round = [], al_calls = [], al_dialled = []\<rparr>"

section \<open>Reservations bound the calls\<close>

text \<open>\<open>us\<close> are the users with a reservation.\<close>

definition held :: "int \<Rightarrow> string list \<Rightarrow> alerts \<Rightarrow> bool" where
  "held m us a \<longleftrightarrow> max_alerts a = m \<and> al_pending a = int (length us) \<and> distinct us \<and> int (length us) \<le> m \<and>
     (\<forall>u. get_or 0 (al_by_user a) u = (if u \<in> set us then 1 else 0))"

abbreviation owner :: "alert_call \<Rightarrow> string" where
  "owner lc \<equiv> trim_space (lc_user lc)"

definition reserved :: "int \<Rightarrow> alerts \<Rightarrow> bool" where
  "reserved m a \<longleftrightarrow> held m (map owner (al_calls a)) a"

lemma max_alerts_same: "al_max_concurrent a = al_max_concurrent a' \<Longrightarrow> max_alerts a = max_alerts a'"
  by (simp add: max_alerts_def)

lemma held_cong:
  "held m us a \<Longrightarrow> al_max_concurrent a' = al_max_concurrent a \<Longrightarrow> al_pending a' = al_pending a \<Longrightarrow>
   al_by_user a' = al_by_user a \<Longrightarrow> held m us a'"
  by (simp add: held_def max_alerts_same [of a' a])

lemma reserve_calls [simp]:
  "al_calls (snd (reserve_pending u a)) = al_calls a" "al_inflight (snd (reserve_pending u a)) = al_inflight a"
  "al_store (snd (reserve_pending u a)) = al_store a" "al_round (snd (reserve_pending u a)) = al_round a"
  "al_dialled (snd (reserve_pending u a)) = al_dialled a" "al_max_concurrent (snd (reserve_pending u a)) = al_max_concurrent a"
  by (simp_all add: reserve_pending_def Let_def)

lemma release_calls [simp]:
  "al_calls (release_pending u a) = al_calls a" "al_inflight (release_pending u a) = al_inflight a"
  "al_store (release_pending u a) = al_store a" "al_round (release_pending u a) = al_round a"
  "al_dialled (release_pending u a) = al_dialled a" "al_max_concurrent (release_pending u a) = al_max_concurrent a"
  by (simp_all add: release_pending_def Let_def)

lemma clear_fields [simp]:
  "al_calls (clear_inflight is a) = al_calls a" "al_inflight (clear_inflight is a) = filter (\<lambda>i. i \<notin> set is) (al_inflight a)"
  "al_store (clear_inflight is a) = al_store a" "al_round (clear_inflight is a) = al_round a"
  "al_dialled (clear_inflight is a) = al_dialled a" "al_max_concurrent (clear_inflight is a) = al_max_concurrent a"
  "al_pending (clear_inflight is a) = al_pending a" "al_by_user (clear_inflight is a) = al_by_user a"
  by (simp_all add: clear_inflight_def)

lemma claims_fields [simp]:
  "al_calls (release_claims b u is a) = al_calls a" "al_inflight (release_claims b u is a) = al_inflight a"
  "al_round (release_claims b u is a) = al_round a"
  "al_dialled (release_claims b u is a) = al_dialled a" "al_max_concurrent (release_claims b u is a) = al_max_concurrent a"
  "al_pending (release_claims b u is a) = al_pending a" "al_by_user (release_claims b u is a) = al_by_user a"
  by (simp_all add: release_claims_def)

lemma cooldown_fields [simp]:
  "al_calls (set_alert_next_dial b u a) = al_calls a" "al_inflight (set_alert_next_dial b u a) = al_inflight a"
  "al_round (set_alert_next_dial b u a) = al_round a"
  "al_dialled (set_alert_next_dial b u a) = al_dialled a" "al_max_concurrent (set_alert_next_dial b u a) = al_max_concurrent a"
  "al_pending (set_alert_next_dial b u a) = al_pending a" "al_by_user (set_alert_next_dial b u a) = al_by_user a"
  "st_mail (al_store (set_alert_next_dial b u a)) = st_mail (al_store a)"
  by (simp_all add: set_alert_next_dial_def)

lemma settle_fields [simp]:
  "al_calls (settle_claims b e lc a) = al_calls a" "al_inflight (settle_claims b e lc a) = al_inflight a"
  "al_round (settle_claims b e lc a) = al_round a"
  "al_dialled (settle_claims b e lc a) = al_dialled a" "al_max_concurrent (settle_claims b e lc a) = al_max_concurrent a"
  "al_pending (settle_claims b e lc a) = al_pending a" "al_by_user (settle_claims b e lc a) = al_by_user a"
  by (simp_all add: settle_claims_def split: ending.splits)

lemma held_reserve:
  assumes "held m us a" "reserve_pending u a = (True, a')"
  shows "held m (us @ [trim_space u]) a'"
  using assms by (auto simp: held_def reserve_pending_def Let_def max_alerts_def split: if_splits)

lemma held_refused: "reserve_pending u a = (False, a') \<Longrightarrow> a' = a"
  by (auto simp: reserve_pending_def Let_def split: if_splits)

lemma held_release:
  assumes "held m us a" "trim_space u \<in> set us"
  shows "held m (remove1 (trim_space u) us) (release_pending u a)"
  using assms by (auto simp: held_def release_pending_def Let_def max_alerts_def length_remove1 length_greater_0_conv [symmetric] Suc_le_eq simp del: length_greater_0_conv split: if_splits)

lemma remove1_last [simp]: "distinct (xs @ [x]) \<Longrightarrow> remove1 x (xs @ [x]) = xs"
  by (simp add: remove1_append)

lemma held_reserve_release:
  assumes "held m us a" "reserve_pending u a = (True, a1)" "al_max_concurrent a2 = al_max_concurrent a1"
    "al_pending a2 = al_pending a1" "al_by_user a2 = al_by_user a1"
  shows "held m us (release_pending u a2)"
proof -
  have h: "held m (us @ [trim_space u]) a2"
    using held_cong [OF held_reserve [OF assms(1,2)] assms(3-5)] .
  then have "distinct (us @ [trim_space u])" by (simp add: held_def)
  then show ?thesis using held_release [OF h, of u] by simp
qed

lemma map_remove1_distinct:
  "distinct (map f xs) \<Longrightarrow> x \<in> set xs \<Longrightarrow> map f (remove1 x xs) = remove1 (f x) (map f xs)"
  by (induction xs) (auto intro: rev_image_eqI)

lemma reserved_try:
  assumes "reserved m a"
  shows "reserved m (try_alert U b user cands a)"
proof (cases "reserve_pending user a")
  case (Pair ok a1)
  show ?thesis
  proof (cases ok)
    case False
    then show ?thesis using assms Pair held_refused [of user a a1] by (simp add: try_alert_def)
  next
    case True
    have r: "reserve_pending user a = (True, a1)" using Pair True by simp
    have h: "held m (map owner (al_calls a)) a" using assms by (simp add: reserved_def)
    have same: "al_calls a1 = al_calls a" using reserve_calls(1) [of user a] r by simp
    have given: "reserved m (release_pending user a2)"
      if "al_max_concurrent a2 = al_max_concurrent a1" "al_pending a2 = al_pending a1" "al_by_user a2 = al_by_user a1" "al_calls a2 = al_calls a1" for a2
      using held_reserve_release [OF h r that(1-3)] that(4) same by (simp add: reserved_def)
    have undone: "reserved m (release_claims b user ns (clear_inflight ns (release_pending user a2)))"
      if "reserved m (release_pending user a2)" for ns a2
      using that by (auto simp: reserved_def elim: held_cong)
    have placed: "reserved m (place_call b user ns (a1\<lparr>al_store := st\<rparr>))" for ns st
    proof (cases "b_dial_ok b")
      case True
      have "held m (map owner (al_calls a) @ [trim_space user]) a1" by (rule held_reserve [OF h r])
      then show ?thesis using True same
        by (auto simp: place_call_def Let_def reserved_def elim: held_cong)
    next
      case False
      then show ?thesis by (simp add: place_call_def Let_def undone given)
    qed
    show ?thesis using r given placed
      by (auto simp: try_alert_def Let_def split: prod.splits list.splits)
  qed
qed

lemma reserved_finish:
  assumes "reserved m a" shows "reserved m (finish_alert b e lc a)"
proof (cases "lc \<in> set (al_calls a)")
  case True
  have h: "held m (map owner (al_calls a)) a" using assms by (simp add: reserved_def)
  then have d: "distinct (map owner (al_calls a))" by (simp add: held_def)
  have "held m (remove1 (owner lc) (map owner (al_calls a))) (release_pending (lc_user lc) a2)"
    if "al_max_concurrent a2 = al_max_concurrent a" "al_pending a2 = al_pending a" "al_by_user a2 = al_by_user a" for a2
    using held_release [OF held_cong [OF h that]] True by simp
  then show ?thesis using True
    by (simp add: finish_alert_def Let_def reserved_def map_remove1_distinct [OF d True])
qed (use assms in \<open>simp add: finish_alert_def\<close>)

lemma reserved_test:
  assumes "reserved m a" shows "reserved m (snd (test_alert b user a))"
proof (cases "reserve_pending user a")
  case (Pair ok a1)
  have h: "held m (map owner (al_calls a)) a" using assms by (simp add: reserved_def)
  have same: "al_calls a1 = al_calls a" using reserve_calls(1) [of user a] Pair by simp
  have "reserved m a1" if "\<not> ok" using that assms Pair held_refused [of user a a1] by simp
  moreover have "held m (map owner (al_calls a) @ [trim_space user]) (set_alert_next_dial b user (a1\<lparr>al_test_last := t, al_calls := cs\<rparr>))"
    if ok for t cs
    using held_cong [OF held_reserve [OF h, of user a1]] Pair that by simp
  moreover have "held m (map owner (al_calls a)) ((release_pending user a1)\<lparr>al_test_last := t\<rparr>)" if ok for t
    using held_cong [OF held_reserve_release [OF h, of user a1 a1]] Pair that by simp
  ultimately show ?thesis using assms Pair same
    by (cases ok; simp add: test_alert_def reserved_def)
qed

lemma reserved_step: "reserved m a \<Longrightarrow> reserved m (alert_step U e a)"
proof (cases e)
  case (Start_round b)
  assume "reserved m a"
  then show ?thesis using Start_round
    by (auto simp: start_round_def reserved_def split: prod.splits elim: held_cong)
next
  case (Turn b user)
  assume "reserved m a"
  then have "reserved m (a\<lparr>al_round := r\<rparr>)" for r by (auto simp: reserved_def elim: held_cong)
  then show ?thesis using Turn by (simp add: round_turn_def Let_def reserved_try)
next
  case (Index i r)
  assume "reserved m a"
  then show ?thesis using Index by (auto simp: index_mail_def reserved_def Let_def elim: held_cong)
next
  case Restart
  assume "reserved m a"
  then show ?thesis using Restart
    by (auto simp: fresh_alerts_def reserved_def held_def max_alerts_def default_max_concurrent_alerts_def)
qed (simp_all add: reserved_finish reserved_test)

interpretation reservations: machine "alert_step U" "reserved m" for U m
  by unfold_locales (rule reserved_step)

section \<open>What the store remembers of a message\<close>

definition attempts :: "int \<Rightarrow> (int \<times> mail_row) list \<Rightarrow> int" where
  "attempts i m = (case map_of m i of None \<Rightarrow> 0 | Some r \<Rightarrow> ml_attempts r)"

definition announced :: "int \<Rightarrow> (int \<times> mail_row) list \<Rightarrow> bool" where
  "announced i m \<longleftrightarrow> (case map_of m i of None \<Rightarrow> False | Some r \<Rightarrow> ml_alerted r)"

definition mailbox :: "int \<Rightarrow> (int \<times> mail_row) list \<Rightarrow> string option" where
  "mailbox i m = map_option ml_user (map_of m i)"

lemmas views = attempts_def announced_def mailbox_def

abbreviation mail_of :: "alerts \<Rightarrow> (int \<times> mail_row) list" where
  "mail_of a \<equiv> st_mail (al_store a)"

text \<open>\<open>new\<close> was claimed for the user out of \<open>ids\<close>, and the rows are now \<open>m'\<close>.\<close>

definition claims :: "string \<Rightarrow> int list \<Rightarrow> (int \<times> mail_row) list \<Rightarrow> int list \<Rightarrow> (int \<times> mail_row) list \<Rightarrow> bool" where
  "claims u ids m new m' \<longleftrightarrow> distinct new \<and> set new \<subseteq> set ids \<and>
     (\<forall>i \<in> set new. mailbox i m = Some u \<and> \<not> announced i m \<and> attempts i m < max_alert_attempts) \<and>
     (\<forall>i. attempts i m' = attempts i m + (if i \<in> set new then 1 else 0)) \<and>
     (\<forall>i. announced i m' = announced i m) \<and> (\<forall>i. mailbox i m' = mailbox i m) \<and> (distinct_keys m \<longrightarrow> distinct_keys m')"

lemma claims_none [simp]: "claims u ids m [] m"
  by (simp add: claims_def)

lemma claim_fold:
  assumes "fold (claim_one now u) ids (cl, st) = (cl', st')" "distinct cl" "\<forall>i \<in> set cl. map_of (st_claims st) i \<noteq> None"
  shows "\<exists>new. cl' = cl @ new \<and> distinct cl' \<and> claims u ids (st_mail st) new (st_mail st')"
  using assms
proof (induction ids arbitrary: cl st)
  case Nil
  then show ?case by simp
next
  case (Cons i ids)
  show ?case
  proof (cases "claim_one now u i (cl, st) = (cl, st)")
    case True
    with Cons.IH [of cl st] Cons.prems show ?thesis by (auto simp: claims_def)
  next
    case False
    then obtain r where r: "map_of (st_mail st) i = Some r" "ml_user r = u" "alertable r" "map_of (st_claims st) i = None"
      by (auto simp: claim_one_def split: option.splits if_splits)
    define st1 where "st1 = snd (claim_one now u i (cl, st))"
    have one: "claim_one now u i (cl, st) = (cl @ [i], st1)"
      and claims1: "map_of (st_claims st1) = (map_of (st_claims st))(i \<mapsto> \<lparr>cl_user = u, cl_at = now, cl_announced = False\<rparr>)"
      and mail1: "st_mail st1 = put i (r\<lparr>ml_attempts := ml_attempts r + 1\<rparr>) (st_mail st)"
      using r False by (auto simp: claim_one_def st1_def map_of_put split: if_splits)
    have fresh: "i \<notin> set cl" using Cons.prems(3) r(4) by auto
    obtain new where new: "cl' = (cl @ [i]) @ new" "distinct cl'" "claims u ids (st_mail st1) new (st_mail st')"
      using Cons.IH [of "cl @ [i]" st1] Cons.prems fresh one by (force simp: claims1)
    have "i \<notin> set new" using new(1,2) by simp
    then have "claims u (i # ids) (st_mail st) (i # new) (st_mail st')"
      using new r unfolding claims_def mail1 by (auto simp: views alertable_def split: if_splits)
    then show ?thesis using new by (intro exI [of _ "i # new"]) simp
  qed
qed

lemma claim_claims:
  assumes "claim_alert_messages now u ids st = (new, st')"
  shows "claims u ids (st_mail st) new (st_mail st')"
proof (cases "u = [] \<or> ids = []")
  case True
  then show ?thesis using assms by (auto simp: claim_alert_messages_def)
next
  case False
  then have "fold (claim_one now u) ids ([], sweep_claims now st) = (new, st')"
    using assms by (auto simp: claim_alert_messages_def)
  from claim_fold [OF this] show ?thesis by (simp add: sweep_claims_def)
qed

lemma release_mail [simp]:
  "st_mail (release_alert_claims u ids st) = st_mail st" "mail_of (release_claims b u ids a) = mail_of a"
  by (simp_all add: release_alert_claims_def release_claims_def)

lemma map_of_keyed: "map_of (map (\<lambda>(i, r). (i, f i r)) m) i = map_option (f i) (map_of m i)"
  by (induction m) auto

lemma mark_views:
  "attempts i (st_mail (mark_alert_messages_notified u ids st)) = attempts i (st_mail st)"
  "mailbox i (st_mail (mark_alert_messages_notified u ids st)) = mailbox i (st_mail st)"
  "announced i (st_mail (mark_alert_messages_notified u ids st)) \<longleftrightarrow>
     announced i (st_mail st) \<or> (i \<in> set ids \<and> u \<noteq> [] \<and> mailbox i (st_mail st) = Some u)"
  by (cases "map_of (st_mail st) i"; auto simp: mark_alert_messages_notified_def map_of_keyed views)+

lemma mark_keys: "map fst (st_mail (mark_alert_messages_notified u ids st)) = map fst (st_mail st)"
  by (auto simp: mark_alert_messages_notified_def comp_def case_prod_beta)

text \<open>A turn claims messages, and then a call with them is placed, or nothing but the claim is left.\<close>

lemma try_alert_cases:
  obtains new m' where "claims user (map ca_message cands) (mail_of a) new m'" "mail_of (try_alert U b user cands a) = m'"
    "al_round (try_alert U b user cands a) = al_round a"
    "al_calls (try_alert U b user cands a) = al_calls a \<and> al_dialled (try_alert U b user cands a) = al_dialled a \<and>
       al_inflight (try_alert U b user cands a) = filter (\<lambda>i. i \<notin> set new) (al_inflight a @ new) \<or>
     al_calls (try_alert U b user cands a) = al_calls a @ [\<lparr>lc_user = user, lc_messages = new, lc_test = False\<rparr>] \<and>
       al_dialled (try_alert U b user cands a) = al_dialled a @ [(user, new)] \<and>
       al_inflight (try_alert U b user cands a) = al_inflight a @ new"
proof (cases "reserve_pending user a")
  case (Pair ok a1)
  have same: "al_calls a1 = al_calls a" "al_inflight a1 = al_inflight a" "al_store a1 = al_store a" "al_round a1 = al_round a"
    "al_dialled a1 = al_dialled a"
    using reserve_calls [of user a] Pair by simp_all
  show thesis
  proof (cases "\<not> ok \<or> dial_uri (u_lower U) (ca_number (hd (take (per_round a) cands))) (trim_space (b_domain b)) = [] \<or> b_fails b Claim")
    case True
    show thesis
      by (rule that [of "[]" "mail_of a"]) (use True Pair same in \<open>auto simp: try_alert_def Let_def split: bool.splits\<close>)
  next
    case False
    let ?ids = "map ca_message (take (per_round a) cands)"
    obtain new st where cl: "claim_alert_messages (b_now b) user ?ids (al_store a) = (new, st)" by fastforce
    have sub: "set ?ids \<subseteq> set (map ca_message cands)" by (auto dest: in_set_takeD)
    have c: "claims user (map ca_message cands) (mail_of a) new (st_mail st)"
      using claim_claims [OF cl] sub unfolding claims_def by blast
    show thesis
      by (rule that [OF c]) (use False Pair same cl in \<open>auto simp: try_alert_def Let_def place_call_def split: list.splits\<close>)
  qed
qed

section \<open>Running calls share no message\<close>

definition tidy :: "alerts \<Rightarrow> bool" where
  "tidy a \<longleftrightarrow> distinct_keys (mail_of a) \<and> distinct (concat (map lc_messages (al_calls a))) \<and>
     set (concat (map lc_messages (al_calls a))) \<subseteq> set (al_inflight a) \<and>
     (\<forall>c \<in> set (al_round a). ca_message c \<notin> set (al_inflight a) \<and> mailbox (ca_message c) (mail_of a) = Some (ca_user c)) \<and>
     (\<forall>lc \<in> set (al_calls a). \<forall>i \<in> set (lc_messages lc). mailbox i (mail_of a) = Some (lc_user lc))"

lemma tidy_try:
  assumes "tidy a" "cands \<noteq> []" "\<forall>c \<in> set cands. ca_user c = user \<and> ca_message c \<notin> set (al_inflight a)"
    "\<forall>c \<in> set (al_round a). ca_user c \<noteq> user"
  shows "tidy (try_alert U b user cands a)"
proof -
  obtain new m' where t: "claims user (map ca_message cands) (mail_of a) new m'" "mail_of (try_alert U b user cands a) = m'"
    "al_round (try_alert U b user cands a) = al_round a"
    "al_calls (try_alert U b user cands a) = al_calls a \<and> al_dialled (try_alert U b user cands a) = al_dialled a \<and>
       al_inflight (try_alert U b user cands a) = filter (\<lambda>i. i \<notin> set new) (al_inflight a @ new) \<or>
     al_calls (try_alert U b user cands a) = al_calls a @ [\<lparr>lc_user = user, lc_messages = new, lc_test = False\<rparr>] \<and>
       al_dialled (try_alert U b user cands a) = al_dialled a @ [(user, new)] \<and>
       al_inflight (try_alert U b user cands a) = al_inflight a @ new"
    by (rule try_alert_cases)
  have new: "set new \<inter> set (al_inflight a) = {}" using t(1) assms(3) unfolding claims_def by fastforce
  have mine: "mailbox i (mail_of a) = Some user" if "i \<in> set new" for i using t(1) that by (simp add: claims_def)
  have views: "mailbox i m' = mailbox i (mail_of a)" for i using t(1) by (simp add: claims_def)
  have other: "ca_message c \<notin> set new" if "c \<in> set (al_round a)" for c
    using that assms(1,4) mine [of "ca_message c"] unfolding tidy_def by auto
  from t(4) show ?thesis
  proof
    assume *: "al_calls (try_alert U b user cands a) = al_calls a \<and> al_dialled (try_alert U b user cands a) = al_dialled a \<and>
       al_inflight (try_alert U b user cands a) = filter (\<lambda>i. i \<notin> set new) (al_inflight a @ new)"
    have "filter (\<lambda>i. i \<notin> set new) (al_inflight a) = al_inflight a" using new by (auto simp: filter_id_conv)
    then have "al_inflight (try_alert U b user cands a) = al_inflight a" using * by (simp add: filter_empty_conv)
    with * t(1-3) views assms(1) show ?thesis by (simp add: tidy_def claims_def)
  next
    assume *: "al_calls (try_alert U b user cands a) = al_calls a @ [\<lparr>lc_user = user, lc_messages = new, lc_test = False\<rparr>] \<and>
       al_dialled (try_alert U b user cands a) = al_dialled a @ [(user, new)] \<and>
       al_inflight (try_alert U b user cands a) = al_inflight a @ new"
    have "distinct new" "distinct_keys m'" using t(1) assms(1) by (simp_all add: claims_def tidy_def)
    with * t(2,3) views other mine new assms(1) show ?thesis by (auto simp: tidy_def)
  qed
qed

lemma concat_remove1:
  "distinct (concat (map f xs)) \<Longrightarrow> x \<in> set xs \<Longrightarrow>
     distinct (concat (map f (remove1 x xs))) \<and>
     set (concat (map f (remove1 x xs))) = set (concat (map f xs)) - set (f x)"
  by (induction xs) auto

lemma settle_views:
  "attempts i (mail_of (settle_claims b e lc a)) = attempts i (mail_of a)"
  "mailbox i (mail_of (settle_claims b e lc a)) = mailbox i (mail_of a)"
  "announced i (mail_of a) \<Longrightarrow> announced i (mail_of (settle_claims b e lc a))"
  "map fst (mail_of (settle_claims b e lc a)) = map fst (mail_of a)"
  by (simp_all add: settle_claims_def mark_views mark_keys split: ending.splits)

lemma tidy_finish:
  assumes "tidy a" shows "tidy (finish_alert b e lc a)"
proof (cases "lc \<in> set (al_calls a)")
  case True
  have d: "distinct (concat (map lc_messages (remove1 lc (al_calls a))))"
    "set (concat (map lc_messages (remove1 lc (al_calls a)))) = set (concat (map lc_messages (al_calls a))) - set (lc_messages lc)"
    using concat_remove1 [of lc_messages "al_calls a" lc] assms True by (auto simp: tidy_def)
  have inflight: "set (concat (map lc_messages (al_calls a))) \<subseteq> set (al_inflight a)" using assms by (simp add: tidy_def)
  have sub: "set (remove1 lc (al_calls a)) \<subseteq> set (al_calls a)" by (rule set_remove1_subset)
  show ?thesis
  proof (cases "lc_test lc")
    case test: True
    have "set (concat (map lc_messages (remove1 lc (al_calls a)))) \<subseteq> set (al_inflight a)" using d(2) inflight by blast
    then show ?thesis using True test d(1) sub assms by (auto simp: finish_alert_def Let_def tidy_def)
  next
    case False
    have "set (concat (map lc_messages (remove1 lc (al_calls a)))) \<subseteq> {i \<in> set (al_inflight a). i \<notin> set (lc_messages lc)}"
      using d(2) inflight by blast
    then show ?thesis using True False d(1) sub assms
      by (auto simp: finish_alert_def Let_def tidy_def settle_views simp del: set_concat)
  qed
qed (use assms in \<open>simp add: finish_alert_def\<close>)

lemma top_ten_subset: "set (top_ten seen cs) \<subseteq> set cs"
  by (induction seen cs rule: top_ten.induct) auto

lemma joined_row:
  "c \<in> set (take k (top_ten seen (concat (map (\<lambda>(i, r). replicate (Q r) (to_candidate (i, r))) (filter P m))))) \<Longrightarrow>
     \<exists>i r. (i, r) \<in> set m \<and> c = to_candidate (i, r)"
  by (auto dest!: in_set_takeD subsetD [OF top_ten_subset]) blast

lemma pending_candidates:
  assumes "pending_alerts now st = (cands, st')" "c \<in> set cands" "distinct_keys (st_mail st)"
  shows "mailbox (ca_message c) (st_mail st) = Some (ca_user c)"
proof -
  from assms(1,2) obtain i r where ir: "(i, r) \<in> set (st_mail st)" "c = to_candidate (i, r)"
    by (auto simp: pending_alerts_def Let_def sweep_claims_def dest!: joined_row split: if_splits)
  then show ?thesis using in_lookup [OF assms(3) ir(1)] by (simp add: to_candidate_def mailbox_def)
qed

lemma pending_mail: "pending_alerts now st = (cands, st') \<Longrightarrow> st_mail st' = st_mail st"
  by (auto simp: pending_alerts_def Let_def sweep_claims_def split: if_splits)

lemma index_views:
  "attempts j (mail_of (index_mail i r a)) = attempts j (mail_of a)"
  "announced j (mail_of (index_mail i r a)) = announced j (mail_of a)"
  "mailbox j (mail_of a) = Some u \<Longrightarrow> mailbox j (mail_of (index_mail i r a)) = Some u"
  "distinct_keys (mail_of a) \<Longrightarrow> distinct_keys (mail_of (index_mail i r a))"
  by (auto simp: index_mail_def Let_def views split: option.splits)

lemma index_fields [simp]:
  "al_calls (index_mail i r a) = al_calls a" "al_inflight (index_mail i r a) = al_inflight a"
  "al_round (index_mail i r a) = al_round a" "al_dialled (index_mail i r a) = al_dialled a"
  by (simp_all add: index_mail_def Let_def)

lemma test_fields:
  "mail_of (snd (test_alert b u a)) = mail_of a" "al_inflight (snd (test_alert b u a)) = al_inflight a"
  "al_round (snd (test_alert b u a)) = al_round a" "al_dialled (snd (test_alert b u a)) = al_dialled a"
  "concat (map lc_messages (al_calls (snd (test_alert b u a)))) = concat (map lc_messages (al_calls a))"
  "lc \<in> set (al_calls (snd (test_alert b u a))) \<Longrightarrow> lc \<in> set (al_calls a) \<or> lc_messages lc = []"
  using reserve_calls [of u a]
  by (cases "reserve_pending u a"; auto simp: test_alert_def split: bool.splits if_splits)+

lemma tidy_test: "tidy a \<Longrightarrow> tidy (snd (test_alert b u a))"
  using test_fields(6) [of _ b u a] by (fastforce simp: tidy_def test_fields(1-5))

lemma tidy_step: "tidy a \<Longrightarrow> tidy (alert_step U e a)"
proof (cases e)
  case (Start_round b)
  assume "tidy a"
  then show ?thesis using Start_round
    by (auto simp: start_round_def tidy_def pending_mail dest: pending_candidates split: prod.splits)
next
  case (Turn b user)
  assume a: "tidy a"
  have "tidy (a\<lparr>al_round := filter P (al_round a)\<rparr>)" for P using a by (auto simp: tidy_def)
  moreover have "\<forall>c \<in> set (al_round a). ca_message c \<notin> set (al_inflight a)" using a by (simp add: tidy_def)
  ultimately show ?thesis using Turn by (auto simp: round_turn_def Let_def intro!: tidy_try)
next
  case (Index i r)
  assume "tidy a"
  then show ?thesis using Index by (simp add: tidy_def index_views)
next
  case Restart
  assume "tidy a"
  then show ?thesis using Restart by (simp add: fresh_alerts_def tidy_def)
qed (simp_all add: tidy_finish tidy_test)

interpretation messages: machine "alert_step U" tidy for U
  by unfold_locales (rule tidy_step)

section \<open>How often a message is announced\<close>

text \<open>The alert calls placed with a message.\<close>

definition dials :: "int \<Rightarrow> alerts \<Rightarrow> nat" where
  "dials i a = length (filter (\<lambda>(_, ids). i \<in> set ids) (al_dialled a))"

text \<open>No step forgets an attempt or an announcement, and only an attempt on an open message places a call with it.\<close>

definition remembers :: "int \<Rightarrow> alerts \<Rightarrow> alerts \<Rightarrow> bool" where
  "remembers i a a' \<longleftrightarrow> (announced i (mail_of a) \<longrightarrow> announced i (mail_of a')) \<and>
     (attempts i (mail_of a') = attempts i (mail_of a) \<and> dials i a' = dials i a \<or>
      \<not> announced i (mail_of a) \<and> attempts i (mail_of a) < max_alert_attempts \<and>
      attempts i (mail_of a') = attempts i (mail_of a) + 1 \<and> dials i a' \<le> dials i a + 1)"

lemma remembers_try: "remembers i a (try_alert U b user cands a)"
proof -
  obtain new m' where t: "claims user (map ca_message cands) (mail_of a) new m'" "mail_of (try_alert U b user cands a) = m'"
    "al_dialled (try_alert U b user cands a) = al_dialled a \<or> al_dialled (try_alert U b user cands a) = al_dialled a @ [(user, new)]"
    by (rule try_alert_cases [of user cands a U b]) auto
  then show ?thesis by (auto simp: remembers_def claims_def dials_def)
qed

lemma remembers_step: "remembers i a (alert_step U e a)"
proof (cases e)
  case (Start_round b)
  then show ?thesis by (auto simp: start_round_def remembers_def pending_mail dials_def split: prod.splits)
next
  case (Turn b user)
  have "remembers i a (try_alert U b user cs (a\<lparr>al_round := r\<rparr>))" for cs r
    using remembers_try [of i "a\<lparr>al_round := r\<rparr>" U b user cs] by (simp add: remembers_def dials_def)
  then show ?thesis using Turn by (auto simp: round_turn_def Let_def remembers_def dials_def)
next
  case (Ended b en lc)
  then show ?thesis by (auto simp: finish_alert_def Let_def remembers_def dials_def settle_views)
next
  case (Test_call b user)
  then show ?thesis by (simp add: remembers_def dials_def test_fields)
next
  case (Index j r)
  then show ?thesis by (simp add: remembers_def dials_def index_views)
next
  case Restart
  then show ?thesis by (simp add: fresh_alerts_def remembers_def dials_def)
qed

interpretation retries: machine "alert_step U"
  "\<lambda>a. int (dials i a) \<le> attempts i (mail_of a) \<and> attempts i (mail_of a) \<le> max_alert_attempts" for U i
proof
  fix a e
  assume "int (dials i a) \<le> attempts i (mail_of a) \<and> attempts i (mail_of a) \<le> max_alert_attempts"
  with remembers_step [of i a U e]
  show "int (dials i (alert_step U e a)) \<le> attempts i (mail_of (alert_step U e a)) \<and>
        attempts i (mail_of (alert_step U e a)) \<le> max_alert_attempts"
    by (auto simp: remembers_def)
qed

interpretation announced: machine "alert_step U" "\<lambda>a. announced i (mail_of a) \<and> dials i a = n" for U i n
proof
  fix a e
  assume "announced i (mail_of a) \<and> dials i a = n"
  with remembers_step [of i a U e]
  show "announced i (mail_of (alert_step U e a)) \<and> dials i (alert_step U e a) = n" by (auto simp: remembers_def)
qed

lemma tidy_new: "tidy (new_alerts m d p)"
  by (simp add: tidy_def new_alerts_def)

section \<open>Properties\<close>

text \<open>C26. However rounds, test alerts, ended calls, new mail and restarts are ordered, at most the configured
  number of alert calls (ten by default) run at once, at most one for a user, no two of them carry the same
  message, and the counter of pending calls is the number of calls that run.\<close>

theorem alert_calls_bounded:
  "let a = fold (alert_step U) ops (new_alerts m d p)
   in int (length (al_calls a)) \<le> (if m \<le> 0 then 10 else m) \<and> al_pending a = int (length (al_calls a)) \<and>
      distinct (map owner (al_calls a)) \<and> distinct (concat (map lc_messages (al_calls a)))"
proof -
  let ?m = "if m \<le> 0 then 10 else m"
  have "reserved ?m (new_alerts m d p)"
    by (simp add: reserved_def held_def new_alerts_def max_alerts_def default_max_concurrent_alerts_def)
  then have "reserved ?m (fold (alert_step U) ops (new_alerts m d p))" by (rule reservations.fold_inv)
  moreover have "tidy (fold (alert_step U) ops (new_alerts m d p))" by (rule messages.fold_inv [OF tidy_new])
  ultimately show ?thesis by (simp add: Let_def reserved_def held_def tidy_def)
qed

text \<open>C20. A message is announced in at most three calls, also across restarts of the service and failed database calls.\<close>

theorem message_called_three_times:
  "dials i (fold (alert_step U) ops (new_alerts m d p)) \<le> 3"
proof -
  have "int (dials i (new_alerts m d p)) \<le> attempts i (mail_of (new_alerts m d p)) \<and>
        attempts i (mail_of (new_alerts m d p)) \<le> max_alert_attempts"
    by (simp add: new_alerts_def dials_def attempts_def max_alert_attempts_def)
  from retries.fold_inv [OF this, of U ops] show ?thesis by (simp add: max_alert_attempts_def)
qed

text \<open>C21. When an alert call ended after its announcement and the database took the mark, its messages are in no
  alert call that is placed later, whatever happens afterwards.\<close>

theorem announced_messages_stay_quiet:
  assumes "a = fold (alert_step U) ops (new_alerts m d p)" "lc \<in> set (al_calls a)" "\<not> lc_test lc" "lc_user lc \<noteq> []"
    "\<not> b_fails b Mark" "i \<in> set (lc_messages lc)"
  shows "dials i (fold (alert_step U) rest (alert_step U (Ended b Announced lc) a)) = dials i a"
proof -
  have "tidy a" unfolding assms(1) by (rule messages.fold_inv [OF tidy_new])
  then have "mailbox i (mail_of a) = Some (lc_user lc)" using assms(2,6) by (auto simp: tidy_def)
  then have "announced i (mail_of (alert_step U (Ended b Announced lc) a))"
    using assms(2-6) by (simp add: finish_alert_def Let_def settle_claims_def mark_views)
  moreover have "dials i (alert_step U (Ended b Announced lc) a) = dials i a"
    by (simp add: finish_alert_def Let_def dials_def)
  ultimately show ?thesis using announced.fold_inv [of i _ "dials i a" U rest] by simp
qed

text \<open>A service with one new message, which a call announces.\<close>

definition ascii_unicode :: unicode where
  "ascii_unicode = \<lparr>u_letter = \<lambda>_. False, u_latin = \<lambda>_. False, u_script = \<lambda>_ _. False, u_upper = \<lambda>r. r, u_lower = \<lambda>r. r,
     u_fold = \<lambda>r. r\<rparr>"

definition demo_board :: board where
  "demo_board = \<lparr>b_now = 0, b_domain = ''pbx'', b_number = \<lambda>_. [], b_fails = \<lambda>_. False, b_dial_ok = True\<rparr>"

definition demo_mail :: mail_row where
  "demo_mail = \<lparr>ml_account = ''a'', ml_folder = ''INBOX'', ml_user = ''u'', ml_number = ''100'', ml_read = False,
     ml_enabled = True, ml_folders = Some [''INBOX''], ml_alerted = False, ml_attempts = 0\<rparr>"

definition demo_alerts :: alerts where
  "demo_alerts = fold (alert_step ascii_unicode)
     [Index 7 demo_mail, Start_round demo_board, Turn demo_board ''u''] (new_alerts 0 0 0)"

definition demo_alert_call :: alert_call where
  "demo_alert_call = \<lparr>lc_user = ''u'', lc_messages = [7], lc_test = False\<rparr>"

lemma dial_uri_empty: "dial_uri U number domain = [] \<longleftrightarrow> trim_space number = []"
  by (simp add: dial_uri_def Let_def)

lemma announce_keys: "sql_key ''INBOX'' = ''inbox''" "trim_space ''INBOX'' = ''INBOX''" "trim_space ''u'' = ''u''"
  "trim_space ''100'' = ''100''" "trim_space ''pbx'' = ''pbx''"
  by (simp_all add: sql_key_def sql_lower_def trim_plain is_space_def char_of_def bit_0)

lemmas demo_rules = announce_keys index_mail_def start_round_def pending_alerts_def round_turn_def
  alert_folder_match_def alertable_def matching_folders_def sweep_claims_def to_candidate_def try_alert_def place_call_def
  reserve_pending_def claim_alert_messages_def claim_one_def set_alert_next_dial_def in_cooldown_def last_dial_def
  alert_next_dial_def per_round_def dial_uri_empty equal_fold_def max_alerts_def default_max_concurrent_alerts_def max_alert_attempts_def

lemma demo_calls: "al_calls demo_alerts = [demo_alert_call]" "dials 7 demo_alerts = 1"
  by (simp_all add: demo_alerts_def new_alerts_def demo_board_def demo_mail_def demo_alert_call_def dials_def demo_rules Let_def)

text \<open>The announced message of the demo is not called again in a second round.\<close>

theorem announced_messages_stay_quiet_witness:
  "dials 7 (fold (alert_step ascii_unicode) [Start_round demo_board, Turn demo_board ''u'']
     (alert_step ascii_unicode (Ended demo_board Announced demo_alert_call) demo_alerts)) = 1"
proof -
  have "dials 7 (fold (alert_step ascii_unicode) [Start_round demo_board, Turn demo_board ''u'']
     (alert_step ascii_unicode (Ended demo_board Announced demo_alert_call) demo_alerts)) = dials 7 demo_alerts"
    by (rule announced_messages_stay_quiet [OF demo_alerts_def])
      (simp_all add: demo_calls demo_alert_call_def demo_board_def)
  then show ?thesis by (simp only: demo_calls)
qed

end
