(* ===== verification/Operation_Errors.thy ===== *)
theory Operation_Errors
  imports Prelude
begin

text \<open>
  Operational failures (internal/operation/error.go).  An error of the program is a tree of wrapped and joined
  causes, walked in preorder by \<open>errors.Is\<close> and \<open>errors.As\<close>; the leaves are the sentinels and
  library types that \<open>Classify\<close> tells apart.
\<close>

section \<open>Errors\<close>

datatype category =
  Failed | Configuration | Timeout | Canceled | TLS | Authentication | Endpoint_policy | DNS | Connection | Disk_full
| Storage_permissions | Missing_dependency | Process_exit | Protocol | Uncertain | Mail_index | SIP_account | Integrity
| Resource_limit

datatype leaf =
  Outcome_uncertain | Deadline_exceeded | Context_canceled | DNS_error bool | Certificate | No_space | Permission | Read_only
| Exec_not_found | Not_exist | Network bool | End_of_stream | Exit_error | Other string

text \<open>\<open>Wrapped\<close> is \<open>fmt.Errorf\<close> with \<open>%w\<close>, \<open>Joined\<close> is \<open>errors.Join\<close>, and \<open>Operation\<close> the
  type \<open>Error\<close> of the package.\<close>

datatype go_error =
  Leaf leaf
| Wrapped string go_error
| Joined "go_error list"
| Operation category string string go_error

fun causes :: "go_error \<Rightarrow> go_error list" where
  "causes (Leaf l) = [Leaf l]"
| "causes (Wrapped m e) = Wrapped m e # causes e"
| "causes (Joined es) = Joined es # concat (map causes es)"
| "causes (Operation c p s e) = Operation c p s e # causes e"

fun is_uncertain_node :: "go_error \<Rightarrow> bool" where
  "is_uncertain_node (Leaf l) \<longleftrightarrow> l = Outcome_uncertain"
| "is_uncertain_node (Operation c p s e) \<longleftrightarrow> c = Uncertain"
| "is_uncertain_node e \<longleftrightarrow> False"

definition err_uncertain :: "go_error \<Rightarrow> bool" where
  "err_uncertain e \<longleftrightarrow> list_ex is_uncertain_node (causes e)"

definition err_is :: "leaf list \<Rightarrow> go_error \<Rightarrow> bool" where
  "err_is ls e \<longleftrightarrow> list_ex (\<lambda>n. list_ex (\<lambda>l. n = Leaf l) ls) (causes e)"

fun structured :: "go_error \<Rightarrow> category option" where
  "structured (Operation c p s e) = Some c"
| "structured e = None"

fun dns_timeout :: "go_error \<Rightarrow> bool option" where
  "dns_timeout (Leaf (DNS_error t)) = Some t"
| "dns_timeout e = None"

fun network_timeout :: "go_error \<Rightarrow> bool option" where
  "network_timeout (Leaf (Network t)) = Some t"
| "network_timeout e = None"

text \<open>\<open>errors.As\<close>: the first node of the tree that has the type.\<close>

definition err_as :: "(go_error \<Rightarrow> 'a option) \<Rightarrow> go_error \<Rightarrow> 'a option" where
  "err_as f e = (case List.map_filter f (causes e) of [] \<Rightarrow> None | x # _ \<Rightarrow> Some x)"

section \<open>Classification\<close>

definition classify_leaf :: "go_error \<Rightarrow> category" where
  "classify_leaf e =
     (case err_as dns_timeout e of Some t \<Rightarrow> if t then Timeout else DNS
      | None \<Rightarrow>
          if err_is [Certificate] e then TLS
          else if err_is [No_space] e then Disk_full
          else if err_is [Permission, Read_only] e then Storage_permissions
          else if err_is [Exec_not_found, Not_exist] e then Missing_dependency
          else case err_as network_timeout e of Some t \<Rightarrow> if t then Timeout else Connection
            | None \<Rightarrow>
                if err_is [End_of_stream] e then Connection
                else if err_is [Exit_error] e then Process_exit
                else Failed)"

definition classify :: "go_error \<Rightarrow> category" where
  "classify e =
     (if err_uncertain e then Uncertain
      else if err_is [Deadline_exceeded] e then Timeout
      else if err_is [Context_canceled] e then Canceled
      else case err_as structured e of Some c \<Rightarrow> c | None \<Rightarrow> classify_leaf e)"

definition wrap_error :: "string \<Rightarrow> string \<Rightarrow> category \<Rightarrow> go_error \<Rightarrow> go_error" where
  "wrap_error component stage fallback e =
     (let c = classify e
      in Operation (if fallback = Uncertain \<or> c = Failed then fallback else c) component stage e)"

section \<open>What wrapping keeps\<close>

lemma causes_of_wrap: "causes (wrap_error p s f e) = wrap_error p s f e # causes e"
  by (simp add: wrap_error_def Let_def)

lemma err_is_wrap [simp]: "err_is ls (wrap_error p s f e) = err_is ls e"
  by (auto simp: err_is_def wrap_error_def Let_def list_ex_iff)

lemma classify_uncertain: "classify e = Uncertain" if "err_uncertain e"
  using that by (simp add: classify_def)

text \<open>Wrapping an error keeps its category when the cause has a specific one, and gives it the fallback of the stage
  otherwise; an uncertain outcome stays uncertain under any wrapping, and a stage whose outcome is uncertain is
  never read as a timeout or a cancellation.\<close>

theorem wrap_keeps_category:
  "classify (wrap_error component stage fallback e) =
     (if fallback = Uncertain \<or> classify e = Failed then fallback else classify e)"
proof -
  have u: "err_uncertain (wrap_error component stage fallback e) \<longleftrightarrow>
      (if fallback = Uncertain \<or> classify e = Failed then fallback else classify e) = Uncertain \<or> err_uncertain e"
    by (simp add: err_uncertain_def causes_of_wrap) (simp add: wrap_error_def Let_def)
  have s: "err_as structured (wrap_error component stage fallback e) =
      Some (if fallback = Uncertain \<or> classify e = Failed then fallback else classify e)"
    by (simp add: err_as_def causes_of_wrap) (simp add: wrap_error_def Let_def map_filter_def)
  show ?thesis
  proof (cases "err_uncertain e")
    case True
    then show ?thesis using u by (simp add: classify_def [of "wrap_error component stage fallback e"] classify_uncertain)
  next
    case False
    then show ?thesis using u s
      by (auto simp: classify_def [of "wrap_error component stage fallback e"] classify_def [of e] split: if_splits)
  qed
qed

end
