(* ===== verification/Sync_Store.thy ===== *)
theory Sync_Store
  imports Operation_Errors
begin

text \<open>
  The table \<open>sync_runs\<close> (internal/store/sync.go): one row for each synchronization, written before any external
  work and finished afterwards.  A row's number is SQLite's \<open>INTEGER PRIMARY KEY\<close>, one more than the largest in the
  table.  A statement that the database refuses is an \<open>Inl\<close> of the callers.
\<close>

section \<open>The table\<close>

record sync_row =
  sr_id :: int
  sr_account :: string
  sr_kind :: string
  sr_started :: string
  sr_finished :: "string option"
  sr_success :: bool
  sr_changed :: bool
  sr_error :: string
  sr_category :: string

definition next_run_id :: "sync_row list \<Rightarrow> int" where
  "next_run_id rows = fold max (map sr_id rows) 0 + 1"

definition begin_sync_run :: "string \<Rightarrow> string \<Rightarrow> string \<Rightarrow> sync_row list \<Rightarrow> int \<times> sync_row list" where
  "begin_sync_run now account kind rows =
     (let i = next_run_id rows;
          k = (if trim_space kind = [] then ''incremental'' else kind)
      in (i, rows @ [\<lparr>sr_id = i, sr_account = account, sr_kind = k, sr_started = now, sr_finished = None, sr_success = False,
              sr_changed = False, sr_error = [], sr_category = []\<rparr>]))"

text \<open>\<open>show_error\<close> stands for \<open>Error()\<close> and \<open>show_category\<close> for the text of a category.\<close>

definition finish_sync_run :: "(go_error \<Rightarrow> string) \<Rightarrow> (category \<Rightarrow> string) \<Rightarrow> string \<Rightarrow> int \<Rightarrow> bool \<Rightarrow> bool \<Rightarrow> go_error option \<Rightarrow>
    sync_row list \<Rightarrow> sync_row list" where
  "finish_sync_run show_error show_category now i success changed run_err rows =
     (if i = 0 then rows
      else map (\<lambda>r. if sr_id r = i
           then r\<lparr>sr_finished := Some now, sr_success := success, sr_changed := changed,
                  sr_error := (case run_err of None \<Rightarrow> [] | Some e \<Rightarrow> show_error e),
                  sr_category := (case run_err of None \<Rightarrow> [] | Some e \<Rightarrow> show_category (classify e))\<rparr>
           else r) rows)"

definition unfinished :: "sync_row \<Rightarrow> bool" where
  "unfinished r \<longleftrightarrow> sr_finished r = None \<or> sr_finished r = Some []"

definition interrupt_sync_runs :: "string \<Rightarrow> sync_row list \<Rightarrow> nat \<times> sync_row list" where
  "interrupt_sync_runs now rows =
     (length (filter unfinished rows),
      map (\<lambda>r. if unfinished r
         then r\<lparr>sr_finished := Some now, sr_success := False, sr_error := ''interrupted by application restart'',
                sr_category := ''interrupted''\<rparr> else r) rows)"

section \<open>Queries\<close>

text \<open>\<open>ORDER BY id DESC\<close>, and the first row of it.\<close>

definition newest_first :: "sync_row list \<Rightarrow> sync_row list" where
  "newest_first rows = rev (sort_key sr_id rows)"

definition newest :: "sync_row list \<Rightarrow> sync_row option" where
  "newest rows = (case newest_first rows of [] \<Rightarrow> None | r # _ \<Rightarrow> Some r)"

definition latest_sync_run :: "sync_row list \<Rightarrow> string \<Rightarrow> bool \<Rightarrow> sync_row option" where
  "latest_sync_run rows account successful =
     newest (filter (\<lambda>r. sr_account r = account \<and> (successful \<longrightarrow> sr_success r)) rows)"

definition full_kind :: "string \<Rightarrow> bool" where
  "full_kind k \<longleftrightarrow> k \<in> {''initial'', ''reconciliation'', ''manual''}"

definition latest_full_sync_run :: "sync_row list \<Rightarrow> string \<Rightarrow> sync_row option" where
  "latest_full_sync_run rows account =
     newest (filter (\<lambda>r. sr_account r = account \<and> sr_success r \<and> full_kind (sr_kind r)) rows)"

text \<open>The listing of several accounts: the largest number of each group, joined with the table.\<close>

definition group_max :: "sync_row list \<Rightarrow> string list \<Rightarrow> bool \<Rightarrow> (string \<times> int) list" where
  "group_max rows accounts successful =
     (let chosen = filter (\<lambda>r. sr_account r \<in> set accounts \<and> (successful \<longrightarrow> sr_success r)) rows
      in map (\<lambda>a. (a, fold max (map sr_id (filter (\<lambda>r. sr_account r = a) chosen)) 0)) (remdups (map sr_account chosen)))"

definition latest_sync_runs :: "sync_row list \<Rightarrow> string list \<Rightarrow> bool \<Rightarrow> (string \<rightharpoonup> sync_row)" where
  "latest_sync_runs rows accounts successful =
     (if accounts = [] then Map.empty
      else fold (\<lambda>r out. out(sr_account r \<mapsto> r))
        (filter (\<lambda>r. list_ex (\<lambda>(_, m). sr_id r = m) (group_max rows accounts successful)) rows) Map.empty)"

definition list_sync_runs :: "(string \<Rightarrow> string option) \<Rightarrow> sync_row list \<Rightarrow> string \<Rightarrow> string \<Rightarrow> int \<Rightarrow> sync_row list" where
  "list_sync_runs owner rows user account limit =
     (let n = (if limit \<le> 0 \<or> limit > 100 then 20 else limit)
      in take (nat n) (newest_first
           (filter (\<lambda>r. owner (sr_account r) = Some user \<and> (account \<noteq> [] \<longrightarrow> sr_account r = account)) rows)))"

section \<open>The primary key\<close>

definition runs_ok :: "sync_row list \<Rightarrow> bool" where
  "runs_ok rows \<longleftrightarrow> distinct (map sr_id rows) \<and> list_all (\<lambda>r. 0 < sr_id r) rows"

lemma fold_max_Max: "fold max xs (a :: int) = Max (insert a (set xs))"
  using Max.set_eq_fold [of a xs] by simp

lemma fold_max_ge: "x \<in> insert a (set xs) \<Longrightarrow> x \<le> fold max xs (a :: int)"
  unfolding fold_max_Max by (rule Max_ge) simp_all

lemma fold_max_in: "fold max xs (a :: int) \<in> insert a (set xs)"
  unfolding fold_max_Max by (rule Max_in) simp_all

lemma next_run_id_fresh: "r \<in> set rows \<Longrightarrow> sr_id r < next_run_id rows"
  using fold_max_ge [of "sr_id r" 0 "map sr_id rows"] by (auto simp: next_run_id_def)

lemma next_run_id_pos: "0 < next_run_id rows"
  using fold_max_ge [of 0 0 "map sr_id rows"] by (auto simp: next_run_id_def)

lemma begin_runs_ok: "runs_ok rows \<Longrightarrow> runs_ok (snd (begin_sync_run now account kind rows))"
  using next_run_id_fresh next_run_id_pos by (fastforce simp: runs_ok_def begin_sync_run_def Let_def)

lemma finish_runs_ok: "runs_ok rows \<Longrightarrow> runs_ok (finish_sync_run f g now i ok ch e rows)"
  by (auto simp: runs_ok_def finish_sync_run_def list_all_iff comp_def if_distrib [of sr_id] cong: if_cong)

lemma interrupt_runs_ok: "runs_ok rows \<Longrightarrow> runs_ok (snd (interrupt_sync_runs now rows))"
  by (auto simp: runs_ok_def interrupt_sync_runs_def list_all_iff comp_def if_distrib [of sr_id] cong: if_cong)

lemma newest_iff:
  assumes "distinct (map sr_id rows)"
  shows "newest rows = Some r \<longleftrightarrow> r \<in> set rows \<and> (\<forall>q \<in> set rows. sr_id q \<le> sr_id r)"
proof (cases "sort_key sr_id rows" rule: rev_cases)
  case Nil
  then have "set rows = {}" by (metis set_sort list.set(1))
  then show ?thesis using Nil by (simp add: newest_def newest_first_def)
next
  case (snoc ys y)
  have s: "set rows = insert y (set ys)" using arg_cong [OF snoc, of set] by simp
  have "sorted (map sr_id (ys @ [y]))" using sorted_sort_key [of sr_id rows] snoc by simp
  then have le: "\<forall>q \<in> set rows. sr_id q \<le> sr_id y" by (auto simp: s sorted_append)
  have "newest rows = Some y" by (simp add: newest_def newest_first_def snoc)
  moreover have "r = y" if "r \<in> set rows" "\<forall>q \<in> set rows. sr_id q \<le> sr_id r"
  proof -
    have "sr_id r = sr_id y" using that(1) bspec [OF that(2), of y] bspec [OF le that(1)] s by simp
    moreover have "inj_on sr_id (set rows)" using assms by (simp add: distinct_map)
    moreover have "y \<in> set rows" using s by simp
    ultimately show ?thesis using that(1) by (blast dest: inj_onD)
  qed
  moreover have "y \<in> set rows" using s by simp
  ultimately show ?thesis using le by (metis option.inject)
qed

lemma newest_None: "newest rows = None \<longleftrightarrow> rows = []"
proof -
  have "newest_first rows = [] \<longleftrightarrow> rows = []"
    by (metis newest_first_def set_empty set_rev set_sort)
  then show ?thesis by (auto simp: newest_def split: list.split)
qed

lemma distinct_ids_filter: "runs_ok rows \<Longrightarrow> distinct (map sr_id (filter P rows))"
  by (simp add: runs_ok_def distinct_map_filter)

lemma same_run: "runs_ok rows \<Longrightarrow> r \<in> set rows \<Longrightarrow> q \<in> set rows \<Longrightarrow> sr_id r = sr_id q \<Longrightarrow> r = q"
  by (auto simp: runs_ok_def distinct_map dest: inj_onD)

lemma latest_iff:
  assumes "runs_ok rows"
  shows "latest_sync_run rows a ok = Some r \<longleftrightarrow>
     r \<in> set rows \<and> sr_account r = a \<and> (ok \<longrightarrow> sr_success r) \<and>
     (\<forall>q \<in> set rows. sr_account q = a \<longrightarrow> (ok \<longrightarrow> sr_success q) \<longrightarrow> sr_id q \<le> sr_id r)"
  using newest_iff [OF distinct_ids_filter [OF assms]] by (auto simp: latest_sync_run_def)

lemma latest_None: "latest_sync_run rows a ok = None \<longleftrightarrow> (\<forall>r \<in> set rows. sr_account r = a \<longrightarrow> ok \<and> \<not> sr_success r)"
  by (auto simp: latest_sync_run_def newest_None filter_empty_conv)

section \<open>One query for many accounts\<close>

lemma find_some: "find P xs = Some x \<Longrightarrow> x \<in> set xs \<and> P x"
  by (induction xs) (auto split: if_splits)

lemma fold_upd:
  "fold (\<lambda>r out. out(f r \<mapsto> r)) rs m a =
     (case find (\<lambda>r. f r = a) (rev rs) of Some r \<Rightarrow> Some r | None \<Rightarrow> m a)"
  by (induction rs rule: rev_induct) auto

lemma group_max_member:
  assumes "runs_ok rows"
  shows "(r \<in> set rows \<and> list_ex (\<lambda>(_, m). sr_id r = m) (group_max rows accounts ok)) \<longleftrightarrow>
     sr_account r \<in> set accounts \<and> latest_sync_run rows (sr_account r) ok = Some r"
proof -
  let ?chosen = "filter (\<lambda>r. sr_account r \<in> set accounts \<and> (ok \<longrightarrow> sr_success r)) rows"
  let ?of = "\<lambda>a. filter (\<lambda>r. sr_account r = a) ?chosen"
  let ?m = "\<lambda>a. fold max (map sr_id (?of a)) 0"
  have top: "?m (sr_account q) \<in> sr_id ` set (?of (sr_account q))" if "q \<in> set ?chosen" for q
  proof -
    have "0 < sr_id q" "q \<in> set (?of (sr_account q))" using that assms by (auto simp: runs_ok_def list_all_iff)
    then have "0 < ?m (sr_account q)" using fold_max_ge [of "sr_id q" 0 "map sr_id (?of (sr_account q))"] by auto
    then show ?thesis using fold_max_in [of "map sr_id (?of (sr_account q))" 0] by auto
  qed
  have ge: "q \<in> set (?of a) \<Longrightarrow> sr_id q \<le> ?m a" for q a
    using fold_max_ge [of "sr_id q" 0 "map sr_id (?of a)"] by auto
  show ?thesis (is "?l \<longleftrightarrow> ?r")
  proof
    assume ?l
    then obtain q where q: "q \<in> set ?chosen" "sr_id r = ?m (sr_account q)" and r: "r \<in> set rows"
      by (auto simp: group_max_def Let_def list_ex_iff)
    obtain x where x: "x \<in> set (?of (sr_account q))" "?m (sr_account q) = sr_id x" using top [OF q(1)] by auto
    then have "r = x" using same_run [OF assms r, of x] q(2) by simp
    with x q(2) ge [of _ "sr_account q"] show ?r by (auto simp: latest_iff [OF assms])
  next
    assume ?r
    then have r: "r \<in> set ?chosen" and le: "\<forall>q \<in> set (?of (sr_account r)). sr_id q \<le> sr_id r"
      by (auto simp: latest_iff [OF assms])
    obtain x where x: "x \<in> set (?of (sr_account r))" "?m (sr_account r) = sr_id x" using top [OF r] by auto
    have "r \<in> set (?of (sr_account r))" using r by simp
    from ge [OF this] have "sr_id r = ?m (sr_account r)" using le x by fastforce
    then show ?l using r by (auto simp: group_max_def Let_def list_ex_iff)
  qed
qed

text \<open>C35. The one query for a list of accounts returns for each of them the run that the query for a single account
  returns, and nothing for the others.\<close>

theorem latest_runs_agree:
  assumes "runs_ok rows"
  shows "latest_sync_runs rows accounts successful a =
     (if a \<in> set accounts then latest_sync_run rows a successful else None)"
proof (cases "accounts = []")
  case True
  then show ?thesis by (simp add: latest_sync_runs_def)
next
  case False
  let ?rs = "filter (\<lambda>r. list_ex (\<lambda>(_, m). sr_id r = m) (group_max rows accounts successful)) rows"
  have mem: "r \<in> set ?rs \<longleftrightarrow> sr_account r \<in> set accounts \<and> latest_sync_run rows (sr_account r) successful = Some r" for r
    using group_max_member [OF assms, of r accounts successful] by simp
  have "latest_sync_runs rows accounts successful a = find (\<lambda>r. sr_account r = a) (rev ?rs)"
    using False by (simp add: latest_sync_runs_def fold_upd split: option.split)
  moreover have "find (\<lambda>r. sr_account r = a) (rev ?rs) = (if a \<in> set accounts then latest_sync_run rows a successful else None)"
  proof (cases "find (\<lambda>r. sr_account r = a) (rev ?rs)")
    case None
    then have none: "\<forall>r \<in> set ?rs. sr_account r \<noteq> a" by (auto simp: find_None_iff)
    have "latest_sync_run rows a successful = None" if "a \<in> set accounts"
    proof (cases "latest_sync_run rows a successful")
      case (Some r)
      then have "sr_account r = a" by (simp add: latest_iff [OF assms])
      then have "r \<in> set ?rs" using mem that Some by simp
      then show ?thesis using none \<open>sr_account r = a\<close> by blast
    qed
    then show ?thesis using None by simp
  next
    case (Some r)
    from find_some [OF this] have "r \<in> set ?rs" "sr_account r = a" by auto
    then show ?thesis using Some mem [of r] by simp
  qed
  ultimately show ?thesis by simp
qed

text \<open>Two accounts listed with their newest successful run each.\<close>

definition demo_run :: "int \<Rightarrow> string \<Rightarrow> bool \<Rightarrow> sync_row" where
  "demo_run i a ok = \<lparr>sr_id = i, sr_account = a, sr_kind = ''initial'', sr_started = [], sr_finished = Some ''t'', sr_success = ok,
     sr_changed = True, sr_error = [], sr_category = []\<rparr>"

theorem latest_runs_agree_witness:
  "latest_sync_runs [demo_run 1 ''a'' True, demo_run 2 ''b'' True, demo_run 3 ''a'' False] [''a'', ''c''] True ''a'' = Some (demo_run 1 ''a'' True)"
proof -
  have "runs_ok [demo_run 1 ''a'' True, demo_run 2 ''b'' True, demo_run 3 ''a'' False]" by (simp add: runs_ok_def demo_run_def)
  from latest_runs_agree [OF this, of "[''a'', ''c'']" True "''a''"] show ?thesis
    by (simp add: latest_sync_run_def newest_def newest_first_def demo_run_def)
qed

end
