(* ===== verification/Sync_Run.thy ===== *)
theory Sync_Run
  imports Sync_Store
begin

text \<open>
  One synchronization of an account (internal/mailsync/service.go): when it is due, of which kind it is, and the
  stages it goes through once it owns the account.  Instants are nanoseconds since 1970; the zero time of Go is
  \<open>zero_time\<close>.  \<open>parse\<close> is \<open>time.Parse\<close>; mbsync, the indexer, the IMAP connection and the file system
  answer through the record \<open>sync_env\<close>, one field for each call.
\<close>

section \<open>Accounts and time\<close>

record sync_account =
  sy_id :: string
  sy_user :: string
  sy_host :: string
  sy_port :: int
  sy_login :: string
  sy_security :: string
  sy_password :: string
  sy_version :: int
  sy_interval :: int
  sy_reconcile :: int
  sy_cutoff :: "string option"
  sy_retention :: "int option"

definition wrap64 :: "int \<Rightarrow> int" where
  "wrap64 i = (i + 2 ^ 63) mod 2 ^ 64 - 2 ^ 63"

definition minute :: int where "minute = 60000000000"

definition zero_time :: int where "zero_time = - 62135596800000000000"

text \<open>\<open>Time.Sub\<close> saturates.\<close>

definition time_sub :: "int \<Rightarrow> int \<Rightarrow> int" where
  "time_sub t u = max (- (2 ^ 63)) (min (2 ^ 63 - 1) (t - u))"

definition sync_retry_backoff :: int where "sync_retry_backoff = 5 * minute"
definition default_sync_timeout :: int where "default_sync_timeout = 5 * minute"
definition default_initial_sync_timeout :: int where "default_initial_sync_timeout = 30 * minute"
definition default_max_concurrent_syncs :: int where "default_max_concurrent_syncs = 2"

record sync_config =
  sc_timeout :: int
  sc_initial_timeout :: int
  sc_concurrent :: int

definition sync_concurrency_limit :: "sync_config \<Rightarrow> int" where
  "sync_concurrency_limit c = (if sc_concurrent c > 0 then sc_concurrent c else default_max_concurrent_syncs)"

definition run_timeout :: "sync_config \<Rightarrow> string \<Rightarrow> int" where
  "run_timeout c kind =
     (if kind = ''initial'' \<or> kind = ''reconciliation'' \<or> kind = ''manual''
      then if sc_initial_timeout c > 0 then sc_initial_timeout c else default_initial_sync_timeout
      else if sc_timeout c > 0 then sc_timeout c else default_sync_timeout)"

section \<open>What is due\<close>

text \<open>The answer of a query of the table: a row, no row, or a failing database.\<close>

datatype query_error = No_rows | Store_error

type_synonym run_query = "string \<Rightarrow> bool \<Rightarrow> query_error + sync_row"

definition table_latest :: "sync_row list \<Rightarrow> run_query" where
  "table_latest rows a ok = (case latest_sync_run rows a ok of None \<Rightarrow> Inl No_rows | Some r \<Rightarrow> Inr r)"

definition table_full :: "sync_row list \<Rightarrow> string \<Rightarrow> query_error + sync_row" where
  "table_full rows a = (case latest_full_sync_run rows a of None \<Rightarrow> Inl No_rows | Some r \<Rightarrow> Inr r)"

text \<open>A column that is NULL is read as the empty string.\<close>

definition finished_text :: "sync_row \<Rightarrow> string" where
  "finished_text r = (case sr_finished r of None \<Rightarrow> [] | Some t \<Rightarrow> t)"

definition failed_run_in_backoff :: "(string \<Rightarrow> int option) \<Rightarrow> sync_row \<Rightarrow> int \<Rightarrow> bool" where
  "failed_run_in_backoff parse r now =
     (if sr_success r then False
      else
        (let parsed = (case parse (finished_text r) of None \<Rightarrow> parse (sr_started r) | Some t \<Rightarrow> Some t)
         in case parsed of None \<Rightarrow> False | Some t \<Rightarrow> now < t + sync_retry_backoff))"

definition sync_interval :: "sync_account \<Rightarrow> int" where
  "sync_interval a = (let i = wrap64 (sy_interval a * minute) in if i \<le> 0 then 5 * minute else i)"

text \<open>\<open>last\<close> is the time of the last run of this process, \<open>zero_time\<close> for an account that has none.\<close>

definition is_due :: "(string \<Rightarrow> int option) \<Rightarrow> run_query \<Rightarrow> (string \<Rightarrow> int) \<Rightarrow> int \<Rightarrow> sync_account \<Rightarrow> bool" where
  "is_due parse latest last_run now a =
     (let last_time = (case latest (sy_id a) True of
             Inr r \<Rightarrow> (case parse (finished_text r) of Some t \<Rightarrow> t | None \<Rightarrow> zero_time)
           | Inl _ \<Rightarrow> last_run (sy_id a));
          waits = (case latest (sy_id a) False of Inr r \<Rightarrow> failed_run_in_backoff parse r now | Inl _ \<Rightarrow> False)
      in \<not> waits \<and> (last_time = zero_time \<or> time_sub now last_time \<ge> sync_interval a))"

definition due_accounts :: "(string \<Rightarrow> int option) \<Rightarrow> run_query \<Rightarrow> (string \<Rightarrow> int) \<Rightarrow> int \<Rightarrow> sync_account list \<Rightarrow> sync_account list" where
  "due_accounts parse latest last_run now accounts = filter (is_due parse latest last_run now) accounts"

definition next_kind :: "(string \<Rightarrow> int option) \<Rightarrow> run_query \<Rightarrow> (string \<Rightarrow> query_error + sync_row) \<Rightarrow> int \<Rightarrow> sync_account \<Rightarrow> string" where
  "next_kind parse latest full now a =
     (case latest (sy_id a) True of
        Inl No_rows \<Rightarrow> ''initial''
      | Inl Store_error \<Rightarrow> ''incremental''
      | Inr r \<Rightarrow>
          if sr_kind r = ''initial'' then ''incremental''
          else case full (sy_id a) of
              Inl _ \<Rightarrow> ''reconciliation''
            | Inr f \<Rightarrow>
                (let i = wrap64 (sy_reconcile a * minute);
                     interval = (if i \<le> 0 then 24 * 60 * minute else i)
                 in case parse (finished_text f) of
                     Some t \<Rightarrow> if time_sub now t \<ge> interval then ''reconciliation'' else ''incremental''
                   | None \<Rightarrow> ''incremental''))"

definition initial_cutoff :: "(string \<Rightarrow> int option) \<Rightarrow> sync_account \<Rightarrow> string \<Rightarrow> go_error + int option" where
  "initial_cutoff parse a kind =
     (case sy_cutoff a of
        None \<Rightarrow> Inr None
      | Some c \<Rightarrow>
          if kind \<noteq> ''initial'' \<or> trim_space c = [] then Inr None
          else case parse (trim_space c) of
              None \<Rightarrow> Inl (Wrapped (''account '' @ sy_id a @ '' initial cutoff: '') (Leaf (Other ''cannot parse time'')))
            | Some t \<Rightarrow> Inr (Some t))"

text \<open>\<open>strings.ToLower\<close>; \<open>L\<close> maps the letters outside ASCII.\<close>

definition should_reconcile_remote :: "(rune \<Rightarrow> rune) \<Rightarrow> string \<Rightarrow> bool" where
  "should_reconcile_remote L kind \<longleftrightarrow> to_lower L (trim_space kind) \<in> {''initial'', ''reconciliation'', ''manual''}"

section \<open>The stages of a run\<close>

datatype sync_act =
  Begin_run string
| Report_started
| Report_failed
| Make_root
| Recover_index
| Resolve_endpoint
| Discover_folders
| Record_discovery
| Generate_config
| Make_config_dir
| Write_config
| Bind_folders
| Take_watermark
| Run_mbsync int
| Check_context
| Retry_reads
| Parse_cutoff
| Prune_local "int option" "int option"
| Index_mail
| Reconcile_remote
| Mark_synchronized
| Check_retained
| Import_partial
| Finish_run bool bool

record sync_env =
  en_previous :: "query_error + sync_row"
  en_begin :: "go_error + int"
  en_mkdir :: "go_error option"
  en_indexed :: bool
  en_recover :: "go_error option"
  en_resolver :: "(go_error + string) option"
  en_discover :: "go_error + string list option"
  en_record :: "go_error option"
  en_generate :: "go_error option"
  en_config_dir :: "go_error option"
  en_config_file :: "go_error option"
  en_bind :: "go_error option"
  en_watermark :: "go_error option"
  en_mbsync :: "go_error + bool"
  en_context :: "go_error option"
  en_retained :: "go_error option"
  en_prune :: "go_error + bool"
  en_index :: "go_error option"
  en_reconcile :: "go_error option"
  en_mark :: "go_error option"
  en_partial :: "go_error option"
  en_finish :: "go_error option"

definition left :: "'e + 'a \<Rightarrow> 'e option" where
  "left r = (case r of Inl e \<Rightarrow> Some e | Inr _ \<Rightarrow> None)"

text \<open>Stages run in their order until one fails; the acts are those that were tried, the last of them the failed one.\<close>

fun run_stages :: "(sync_act \<times> go_error option) list \<Rightarrow> sync_act list \<times> go_error option" where
  "run_stages [] = ([], None)"
| "run_stages ((act, result) # rest) =
     (case result of
        Some e \<Rightarrow> ([act], Some e)
      | None \<Rightarrow> (case run_stages rest of (acts, err) \<Rightarrow> (act # acts, err)))"

text \<open>The body of \<open>syncAccountStarted\<close> behind the registration of its deferred work.  A failed retry of retained
  reads is reported only at the end, behind the import of the mail.\<close>

definition root_stage :: "sync_env \<Rightarrow> (sync_act \<times> go_error option) list" where
  "root_stage en = [(Make_root, en_mkdir en)]"

definition prepare_stages :: "sync_env \<Rightarrow> (sync_act \<times> go_error option) list" where
  "prepare_stages en =
     (if en_indexed en \<and> (case en_previous en of Inr r \<Rightarrow> \<not> sr_success r | Inl _ \<Rightarrow> False)
      then [(Recover_index, map_option (wrap_error ''mailindex'' ''recover_sync'' Mail_index) (en_recover en))] else []) @
     [(Resolve_endpoint, case en_resolver en of
         None \<Rightarrow> Some (Leaf (Other ''IMAP endpoint resolver is required''))
       | Some r \<Rightarrow> map_option (wrap_error ''mailsync'' ''endpoint'' Endpoint_policy) (left r)),
      (Discover_folders, left (en_discover en))] @
     (case en_discover en of Inr (Some _) \<Rightarrow> [(Record_discovery, map_option (Wrapped ''retain sync discovery: '') (en_record en))]
      | _ \<Rightarrow> []) @
     [(Generate_config, en_generate en), (Make_config_dir, en_config_dir en), (Write_config, en_config_file en),
      (Bind_folders, map_option (Wrapped ''retain sync folder identities: '') (en_bind en)),
      (Take_watermark, map_option (Wrapped ''snapshot queued mail mutations: '') (en_watermark en))]"

definition import_stages :: "(string \<Rightarrow> int option) \<Rightarrow> (rune \<Rightarrow> rune) \<Rightarrow> sync_config \<Rightarrow> sync_env \<Rightarrow> sync_account \<Rightarrow> string \<Rightarrow>
    (sync_act \<times> go_error option) list" where
  "import_stages parse L c en a kind =
     [(Run_mbsync (run_timeout c kind), left (en_mbsync en)), (Check_context, en_context en), (Retry_reads, None),
      (Parse_cutoff, left (initial_cutoff parse a kind))] @
     (if en_indexed en
      then [(Prune_local (case initial_cutoff parse a kind of Inr t \<Rightarrow> t | Inl _ \<Rightarrow> None) (sy_retention a), left (en_prune en)),
            (Index_mail, map_option (wrap_error ''mailindex'' ''sync'' Mail_index) (en_index en))] else []) @
     (if should_reconcile_remote L kind then [(Reconcile_remote, en_reconcile en)] else []) @
     [(Mark_synchronized, map_option (Wrapped ''record synchronized mail mutations: '') (en_mark en)),
      (Check_retained, map_option (Wrapped ''synchronize retained read changes: '') (en_retained en))]"

definition sync_stages :: "(string \<Rightarrow> int option) \<Rightarrow> (rune \<Rightarrow> rune) \<Rightarrow> sync_config \<Rightarrow> sync_env \<Rightarrow> sync_account \<Rightarrow> string \<Rightarrow>
    (sync_act \<times> go_error option) list" where
  "sync_stages parse L c en a kind = root_stage en @ prepare_stages en @ import_stages parse L c en a kind"

text \<open>The flag \<open>changed\<close> of the run: set when mbsync has returned under a live context, and by the pruning.\<close>

definition run_changed :: "sync_env \<Rightarrow> sync_act list \<Rightarrow> bool" where
  "run_changed en acts =
     (Retry_reads \<in> set acts \<and>
      (en_mbsync en = Inr True \<or> Index_mail \<in> set acts \<and> en_prune en = Inr True))"

text \<open>A run that owns its account.  The deferred work is done in the reverse order of its registration: the import of
  a partial download, which is registered once the root exists, and then the row of the run.  The last component
  is the error the run returns.\<close>

definition sync_run :: "(string \<Rightarrow> int option) \<Rightarrow> (rune \<Rightarrow> rune) \<Rightarrow> sync_config \<Rightarrow> sync_env \<Rightarrow> sync_account \<Rightarrow> string \<Rightarrow>
    sync_act list \<times> go_error option" where
  "sync_run parse L c en a kind =
     (case en_begin en of
        Inl e \<Rightarrow> ([Begin_run kind, Report_failed], Some e)
      | Inr i \<Rightarrow>
          (let (acts, err) = run_stages (sync_stages parse L c en a kind);
               imports = (err \<noteq> None \<and> en_mkdir en = None \<and> en_indexed en);
               err' = (case err of None \<Rightarrow> None | Some e \<Rightarrow>
                   if imports then (case en_partial en of None \<Rightarrow> Some e
                     | Some p \<Rightarrow> Some (Joined [e, wrap_error ''mailindex'' ''partial_sync'' Mail_index p])) else Some e);
               err'' = (if err' = None then en_finish en else err')
           in ([Begin_run kind, Report_started] @ acts @ (if imports then [Import_partial] else []) @
                 [Finish_run (err' = None) (run_changed en acts)], err'')))"

section \<open>Stages\<close>

lemma run_stages_append:
  "run_stages (xs @ ys) =
     (if list_all (\<lambda>(_, r). r = None) xs then (map fst xs @ fst (run_stages ys), snd (run_stages ys)) else run_stages xs)"
  by (induction xs rule: run_stages.induct) (auto split: option.split prod.split)

lemma run_stages_ok: "snd (run_stages xs) = None \<longleftrightarrow> list_all (\<lambda>(_, r). r = None) xs"
  by (induction xs rule: run_stages.induct) (auto split: option.split prod.split)

lemma run_stages_acts: "set (fst (run_stages xs)) \<subseteq> fst ` set xs"
  by (induction xs rule: run_stages.induct) (auto split: option.split prod.split)

text \<open>An act is tried only when everything before it went well.\<close>

lemma tried_behind:
  "act \<in> set (fst (run_stages (xs @ ys))) \<Longrightarrow> act \<notin> fst ` set xs \<Longrightarrow> list_all (\<lambda>(_, r). r = None) xs \<and> act \<in> set (fst (run_stages ys))"
  using run_stages_acts [of xs] by (auto simp: run_stages_append split: if_splits)

lemma stage_acts:
  "fst ` set (root_stage en) = {Make_root}"
  "fst ` set (prepare_stages en) \<subseteq> {Recover_index, Resolve_endpoint, Discover_folders, Record_discovery, Generate_config,
     Make_config_dir, Write_config, Bind_folders, Take_watermark}"
  by (auto simp: root_stage_def prepare_stages_def split: sum.splits option.splits if_splits)

lemma import_acts: "act \<in> fst ` set (import_stages parse L c en a kind) \<Longrightarrow>
   act \<in> {Run_mbsync (run_timeout c kind), Check_context, Retry_reads, Parse_cutoff, Index_mail, Reconcile_remote, Mark_synchronized,
     Check_retained} \<or> (\<exists>t r. act = Prune_local t r)"
  by (auto simp: import_stages_def split: if_splits)

text \<open>The acts around the stages of a run.\<close>

fun framing :: "sync_act \<Rightarrow> bool" where
  "framing (Begin_run k) \<longleftrightarrow> True"
| "framing Report_started \<longleftrightarrow> True"
| "framing Report_failed \<longleftrightarrow> True"
| "framing (Finish_run ok changed) \<longleftrightarrow> True"
| "framing act \<longleftrightarrow> False"

lemma stages_not_framing: "act \<in> set (fst (run_stages (sync_stages parse L c en a kind))) \<Longrightarrow> \<not> framing act \<and> act \<noteq> Import_partial"
proof -
  assume "act \<in> set (fst (run_stages (sync_stages parse L c en a kind)))"
  then have "act \<in> fst ` set (sync_stages parse L c en a kind)" using run_stages_acts by blast
  then consider "act \<in> fst ` set (root_stage en)" | "act \<in> fst ` set (prepare_stages en)" | "act \<in> fst ` set (import_stages parse L c en a kind)"
    by (auto simp: sync_stages_def)
  then show ?thesis
  proof cases
    case 1
    then show ?thesis using stage_acts(1) by auto
  next
    case 2
    then show ?thesis using subsetD [OF stage_acts(2) 2] by auto
  next
    case 3
    from import_acts [OF this] show ?thesis by auto
  qed
qed

lemma run_acts:
  assumes "en_begin en = Inr i"
  shows "fst (sync_run parse L c en a kind) =
     [Begin_run kind, Report_started] @ fst (run_stages (sync_stages parse L c en a kind)) @
     (if snd (run_stages (sync_stages parse L c en a kind)) \<noteq> None \<and> en_mkdir en = None \<and> en_indexed en then [Import_partial] else []) @
     [Finish_run (snd (run_stages (sync_stages parse L c en a kind)) = None)
        (run_changed en (fst (run_stages (sync_stages parse L c en a kind))))]"
  using assms by (auto simp: sync_run_def split_beta Let_def split: option.split)

lemma stage_of_run:
  assumes "act \<in> set (fst (sync_run parse L c en a kind))"
    "act \<notin> {Begin_run kind, Report_started, Report_failed, Import_partial}" "\<And>x y. act \<noteq> Finish_run x y"
  shows "act \<in> set (fst (run_stages (sync_stages parse L c en a kind)))"
proof (cases "en_begin en")
  case (Inl e)
  then show ?thesis using assms by (simp add: sync_run_def)
next
  case (Inr i)
  then show ?thesis using assms by (auto simp: run_acts split: if_splits)
qed

lemma import_act:
  assumes "act \<in> set (fst (sync_run parse L c en a kind))" "act \<in> {Mark_synchronized, Index_mail} \<or> (\<exists>t r. act = Prune_local t r)"
  shows "act \<in> set (fst (run_stages (import_stages parse L c en a kind)))"
proof -
  have "act \<in> set (fst (run_stages ((root_stage en @ prepare_stages en) @ import_stages parse L c en a kind)))"
    using stage_of_run [OF assms(1)] assms(2) by (auto simp: sync_stages_def)
  moreover have "act \<notin> fst ` set (root_stage en @ prepare_stages en)"
    unfolding set_append image_Un stage_acts(1) using assms(2) subsetD [OF stage_acts(2) [of en], of act] by auto
  ultimately show ?thesis using tried_behind by blast
qed

section \<open>Every run is recorded\<close>

text \<open>C15. Once the row of a run is written, the run reports its start once, and whatever its stages do, its last act is to
  finish the row, once: as a success exactly when every stage succeeded.  The copies already downloaded are imported
  before that exactly when a stage behind the root failed.\<close>

theorem run_recorded:
  assumes "en_begin en = Inr i"
  shows "\<exists>acts changed. let ok = list_all (\<lambda>(_, r). r = None) (sync_stages parse L c en a kind)
     in fst (sync_run parse L c en a kind) = Begin_run kind # Report_started # acts @ [Finish_run ok changed] \<and>
        \<not> list_ex framing acts \<and>
        (Import_partial \<in> set acts) = (\<not> ok \<and> en_mkdir en = None \<and> en_indexed en)"
proof -
  let ?r = "run_stages (sync_stages parse L c en a kind)"
  let ?acts = "fst ?r @ (if snd ?r \<noteq> None \<and> en_mkdir en = None \<and> en_indexed en then [Import_partial] else [])"
  have own: "\<not> framing x \<and> x \<noteq> Import_partial" if "x \<in> set (fst ?r)" for x using stages_not_framing [OF that] .
  then have "\<not> list_ex framing ?acts" by (auto simp: list_ex_iff)
  moreover have "(Import_partial \<in> set ?acts) = (snd ?r \<noteq> None \<and> en_mkdir en = None \<and> en_indexed en)" using own by auto
  moreover have "fst (sync_run parse L c en a kind) = Begin_run kind # Report_started # ?acts @
      [Finish_run (list_all (\<lambda>(_, r). r = None) (sync_stages parse L c en a kind)) (run_changed en (fst ?r))]"
    by (simp add: run_acts [OF assms] run_stages_ok)
  ultimately show ?thesis by (auto simp: Let_def run_stages_ok intro!: exI [of _ ?acts])
qed

text \<open>The journal of local changes is marked as synchronized only in a run in which mbsync ended well under a live
  context, the downloaded mail was indexed, and, for a complete walk, the remote identities were reconciled.\<close>

theorem marked_after_sync:
  assumes "Mark_synchronized \<in> set (fst (sync_run parse L c en a kind))"
  shows "(\<exists>changed. en_mbsync en = Inr changed) \<and> en_context en = None \<and> (\<not> en_indexed en \<or> en_index en = None) \<and>
     (\<not> should_reconcile_remote L kind \<or> en_reconcile en = None)"
proof -
  have "Mark_synchronized \<in> set (fst (run_stages (import_stages parse L c en a kind)))" using import_act [OF assms] by simp
  then show ?thesis by (auto simp: import_stages_def left_def split: if_splits option.splits sum.splits)
qed

section \<open>Which kind comes next\<close>

text \<open>An import is initial exactly when no run of the account has succeeded.\<close>

theorem initial_once:
  "(next_kind parse (table_latest rows) (table_full rows) now a = ''initial'') =
     (\<not> list_ex (\<lambda>r. sr_account r = sy_id a \<and> sr_success r) rows)"
proof (cases "latest_sync_run rows (sy_id a) True")
  case None
  then show ?thesis using latest_None [of rows "sy_id a" True] by (auto simp: next_kind_def table_latest_def list_ex_iff)
next
  case (Some r)
  then have "list_ex (\<lambda>r. sr_account r = sy_id a \<and> sr_success r) rows"
    using latest_None [of rows "sy_id a" True] by (auto simp: list_ex_iff)
  moreover have "table_latest rows (sy_id a) True = Inr r" using Some by (simp add: table_latest_def)
  ultimately show ?thesis by (auto simp: next_kind_def Let_def split: sum.split option.split)
qed

lemma cutoff_only_initial:
  assumes "Prune_local (Some t) d \<in> set (fst (sync_run parse L c en a kind))"
  shows "kind = ''initial''"
proof -
  have "Prune_local (Some t) d \<in> set (fst (run_stages (import_stages parse L c en a kind)))" using import_act [OF assms] by simp
  then show ?thesis
    by (auto simp: import_stages_def initial_cutoff_def left_def split: if_splits option.splits sum.splits)
qed

text \<open>C36. The cutoff of the first import, which removes old mail from the local copy, is applied by no scheduled run of an
  account that has been synchronized before.\<close>

theorem cutoff_before_first_success:
  assumes "Prune_local (Some t) d \<in> set (fst (sync_run parse L c en a (next_kind parse (table_latest rows) (table_full rows) now a)))"
  shows "\<not> list_ex (\<lambda>r. sr_account r = sy_id a \<and> sr_success r) rows"
  using cutoff_only_initial [OF assms] by (simp add: initial_once)

section \<open>A refresh before the first import\<close>


section \<open>Runs\<close>

definition demo_sync_account :: sync_account where
  "demo_sync_account = \<lparr>sy_id = ''a'', sy_user = ''u'', sy_host = ''h'', sy_port = 993, sy_login = ''l'', sy_security = ''tls'',
     sy_password = ''p'', sy_version = 1, sy_interval = 5, sy_reconcile = 0, sy_cutoff = Some ''c'', sy_retention = None\<rparr>"

definition demo_sync_env :: sync_env where
  "demo_sync_env = \<lparr>en_previous = Inl No_rows, en_begin = Inr 1, en_mkdir = None, en_indexed = True, en_recover = None,
     en_resolver = Some (Inr ''192.0.2.1''), en_discover = Inr None, en_record = None, en_generate = None, en_config_dir = None,
     en_config_file = None, en_bind = None, en_watermark = None, en_mbsync = Inr True, en_context = None, en_retained = None,
     en_prune = Inr False, en_index = None, en_reconcile = None, en_mark = None, en_partial = None, en_finish = None\<rparr>"

definition demo_sync_config :: sync_config where
  "demo_sync_config = \<lparr>sc_timeout = 0, sc_initial_timeout = 0, sc_concurrent = 0\<rparr>"

lemmas demo_sync_simps = demo_sync_account_def demo_sync_env_def demo_sync_config_def sync_run_def sync_stages_def root_stage_def
  prepare_stages_def import_stages_def run_changed_def left_def initial_cutoff_def

lemma demo_names_plain: "trim_space ''c'' = ''c''" "trim_space ''initial'' = ''initial''" "trim_space ''manual'' = ''manual''"
  by (rule trim_plain; simp add: is_space_def)+

lemma to_lower_plain: "list_all (\<lambda>c. 97 \<le> (byte c :: nat) \<and> byte c < (128 :: nat)) s \<Longrightarrow> to_lower U s = s"
proof -
  assume s: "list_all (\<lambda>c. 97 \<le> (byte c :: nat) \<and> byte c < (128 :: nat)) s"
  then have "list_all ascii s" by (auto simp: list_all_iff ascii_def)
  moreover have "map (lower_rune U) (map byte s) = map byte s" using s by (auto simp: list_all_iff lower_rune_def)
  ultimately show ?thesis unfolding to_lower_def runes_ascii' [OF \<open>list_all ascii s\<close>] by (metis encode_ascii)
qed

lemma demo_reconciles: "should_reconcile_remote (\<lambda>r. r) ''initial''" "should_reconcile_remote (\<lambda>r. r) ''manual''"
  by (simp_all add: should_reconcile_remote_def demo_names_plain to_lower_plain)

text \<open>A run whose child fails finishes its row as failed.\<close>

theorem run_recorded_witness:
  "\<exists>acts changed. fst (sync_run (\<lambda>_. Some 7) (\<lambda>r. r) demo_sync_config (demo_sync_env\<lparr>en_mbsync := Inl (Leaf Exit_error)\<rparr>) demo_sync_account ''manual'')
     = Begin_run ''manual'' # Report_started # acts @ [Finish_run False changed] \<and> Import_partial \<in> set acts"
  using run_recorded [of "demo_sync_env\<lparr>en_mbsync := Inl (Leaf Exit_error)\<rparr>" 1 "\<lambda>_. Some 7" "\<lambda>r. r" demo_sync_config demo_sync_account "''manual''"]
  by (simp add: Let_def demo_sync_simps)

text \<open>A first import that succeeds.\<close>

theorem marked_after_sync_witness:
  "(\<exists>changed. en_mbsync demo_sync_env = Inr changed) \<and> en_context demo_sync_env = None"
  using marked_after_sync [of "\<lambda>_. Some 7" "\<lambda>r. r" demo_sync_config demo_sync_env demo_sync_account "''initial''"]
  by (simp add: demo_sync_simps demo_names_plain demo_reconciles)

text \<open>The same import applies its cutoff, the table being empty.\<close>

theorem cutoff_before_first_success_witness:
  "\<not> list_ex (\<lambda>r. sr_account r = sy_id demo_sync_account \<and> sr_success r) []"
  using cutoff_before_first_success [of 7 None "\<lambda>_. Some 7" "\<lambda>r. r" demo_sync_config demo_sync_env demo_sync_account "[]" 0]
  by (simp add: demo_sync_simps demo_names_plain demo_reconciles next_kind_def table_latest_def latest_sync_run_def newest_def newest_first_def)


end
