(* ===== verification/Sync_Jobs.thy ===== *)
theory Sync_Jobs
  imports Sync_Run
begin

text \<open>
  Ownership of an account's synchronization (internal/mailsync/service.go): the maps of \<open>Service\<close> under its mutex,
  the goroutines that enter \<open>syncAccountStarted\<close>, and the calls of the web console and of account deletion.
  A goroutine is a job; its number also names its cancel function and its \<open>done\<close> channel.  A step of the
  machine is one critical section, so the interleavings of the goroutines are the sequences of events.
\<close>

section \<open>State\<close>

datatype sync_refusal = Account_deleting | Sync_busy | Sync_capacity | Account_missing | Bad_request | Stage_failed go_error

datatype job_phase = Waiting | Running | Ended "sync_refusal option"

record sync_job =
  jo_account :: string
  jo_kind :: string
  jo_manual :: bool
  jo_phase :: job_phase

record sync_service =
  ss_busy :: "string set"
  ss_deleting :: "string set"
  ss_cancel :: "string \<rightharpoonup> nat"
  ss_kind :: "string \<rightharpoonup> string"
  ss_done :: "string \<rightharpoonup> nat"
  ss_slots :: nat
  ss_cancelled :: "nat set"
  ss_closed :: "nat set"
  ss_jobs :: "nat \<rightharpoonup> sync_job"
  ss_next :: nat

definition max_manual_sync_jobs :: nat where "max_manual_sync_jobs = 8"

definition new_sync_service :: sync_service where
  "new_sync_service = \<lparr>ss_busy = {}, ss_deleting = {}, ss_cancel = Map.empty, ss_kind = Map.empty, ss_done = Map.empty,
     ss_slots = 0, ss_cancelled = {}, ss_closed = {}, ss_jobs = Map.empty, ss_next = 0\<rparr>"

definition sync_running :: "sync_service \<Rightarrow> string \<Rightarrow> bool" where
  "sync_running s a \<longleftrightarrow> a \<in> ss_busy s"

definition set_phase :: "nat \<Rightarrow> sync_job \<Rightarrow> job_phase \<Rightarrow> sync_service \<Rightarrow> sync_service" where
  "set_phase j job p s = s\<lparr>ss_jobs := (ss_jobs s)(j \<mapsto> job\<lparr>jo_phase := p\<rparr>)\<rparr>"

section \<open>Entering a synchronization\<close>

definition spawn :: "sync_job \<Rightarrow> sync_service \<Rightarrow> sync_service" where
  "spawn job s = s\<lparr>ss_jobs := (ss_jobs s)(ss_next s \<mapsto> job), ss_next := Suc (ss_next s)\<rparr>"

definition sync_account_call :: "string \<Rightarrow> string \<Rightarrow> sync_service \<Rightarrow> sync_service" where
  "sync_account_call a kind s = spawn \<lparr>jo_account = a, jo_kind = kind, jo_manual = False, jo_phase = Waiting\<rparr> s"

text \<open>\<open>StartRefreshAccount\<close> up to the start of its goroutine; \<open>worker\<close> tells whether a worker context was given.\<close>

definition start_refresh_account :: "(go_error + sync_account list) \<Rightarrow> bool \<Rightarrow> string \<Rightarrow> string \<Rightarrow> sync_service \<Rightarrow>
    sync_refusal + sync_service" where
  "start_refresh_account listed worker user a s =
     (if user = [] \<or> a = [] then Inl Bad_request
      else case listed of
          Inl e \<Rightarrow> Inl (Stage_failed e)
        | Inr accounts \<Rightarrow>
            if \<not> list_ex (\<lambda>x. sy_id x = a) accounts then Inl Account_missing
            else if \<not> worker then Inl Bad_request
            else if ss_slots s \<ge> max_manual_sync_jobs then Inl Sync_capacity
            else Inr (spawn \<lparr>jo_account = a, jo_kind = ''manual'', jo_manual = True, jo_phase = Waiting\<rparr> (s\<lparr>ss_slots := Suc (ss_slots s)\<rparr>)))"

text \<open>The critical section at the head of \<open>syncAccountStarted\<close>.\<close>

definition claim_sync :: "nat \<Rightarrow> sync_service \<Rightarrow> sync_service" where
  "claim_sync j s = (case ss_jobs s j of
      None \<Rightarrow> s
    | Some job \<Rightarrow>
        if jo_phase job \<noteq> Waiting then s
        else if jo_account job \<in> ss_deleting s then set_phase j job (Ended (Some Account_deleting)) s
        else if jo_account job \<in> ss_busy s
        then set_phase j job (Ended (if jo_manual job then Some Sync_busy else None)) s
        else (set_phase j job Running s)\<lparr>ss_busy := insert (jo_account job) (ss_busy s),
               ss_cancel := (ss_cancel s)(jo_account job \<mapsto> j), ss_kind := (ss_kind s)(jo_account job \<mapsto> jo_kind job),
               ss_done := (ss_done s)(jo_account job \<mapsto> j)\<rparr>)"

text \<open>Its deferred release, once the run has ended with \<open>result\<close>.\<close>

definition release_sync :: "nat \<Rightarrow> go_error option \<Rightarrow> sync_service \<Rightarrow> sync_service" where
  "release_sync j result s = (case ss_jobs s j of
      None \<Rightarrow> s
    | Some job \<Rightarrow>
        if jo_phase job \<noteq> Running then s
        else (set_phase j job (Ended (map_option Stage_failed result)) s)\<lparr>ss_cancelled := insert j (ss_cancelled s),
               ss_busy := ss_busy s - {jo_account job}, ss_cancel := (ss_cancel s)(jo_account job := None),
               ss_kind := (ss_kind s)(jo_account job := None), ss_done := (ss_done s)(jo_account job := None),
               ss_closed := insert j (ss_closed s)\<rparr>)"

text \<open>The goroutine returns, and a manual one gives its slot back.\<close>

definition exit_job :: "nat \<Rightarrow> sync_service \<Rightarrow> sync_service" where
  "exit_job j s = (case ss_jobs s j of
      None \<Rightarrow> s
    | Some job \<Rightarrow>
        (case jo_phase job of
           Ended r \<Rightarrow> s\<lparr>ss_jobs := (ss_jobs s)(j := None), ss_slots := (if jo_manual job then ss_slots s - 1 else ss_slots s)\<rparr>
         | _ \<Rightarrow> s))"

section \<open>Cancelling and stopping\<close>

definition cancel_manual_sync :: "string \<Rightarrow> sync_service \<Rightarrow> (bool option) \<times> sync_service" where
  "cancel_manual_sync a s =
     (if trim_space a = [] then (None, s)
      else case ss_cancel s a of
          None \<Rightarrow> (Some False, s)
        | Some j \<Rightarrow> if ss_kind s a \<noteq> Some ''manual'' then (Some False, s) else (Some True, s\<lparr>ss_cancelled := insert j (ss_cancelled s)\<rparr>))"

text \<open>\<open>StopAccount\<close> up to its wait, with the channel it waits for; \<open>stopped\<close> tells whether the wait is over.\<close>

definition stop_account :: "string \<Rightarrow> sync_service \<Rightarrow> nat option \<times> sync_service" where
  "stop_account a s =
     (let s1 = s\<lparr>ss_deleting := insert a (ss_deleting s)\<rparr>;
          s2 = (case ss_cancel s a of None \<Rightarrow> s1 | Some j \<Rightarrow> s1\<lparr>ss_cancelled := insert j (ss_cancelled s1)\<rparr>)
      in (ss_done s a, s2))"

definition stopped :: "nat option \<Rightarrow> sync_service \<Rightarrow> bool" where
  "stopped channel s = (case channel of None \<Rightarrow> True | Some j \<Rightarrow> j \<in> ss_closed s)"

section \<open>Interleavings\<close>

datatype job_event =
  Ev_scheduled string string
| Ev_refresh "go_error + sync_account list" bool string string
| Ev_claim nat
| Ev_release nat "go_error option"
| Ev_exit nat
| Ev_cancel string
| Ev_stop string

fun job_step :: "job_event \<Rightarrow> sync_service \<Rightarrow> sync_service" where
  "job_step (Ev_scheduled a kind) s = sync_account_call a kind s"
| "job_step (Ev_refresh listed worker user a) s = (case start_refresh_account listed worker user a s of Inl _ \<Rightarrow> s | Inr s' \<Rightarrow> s')"
| "job_step (Ev_claim j) s = claim_sync j s"
| "job_step (Ev_release j r) s = release_sync j r s"
| "job_step (Ev_exit j) s = exit_job j s"
| "job_step (Ev_cancel a) s = snd (cancel_manual_sync a s)"
| "job_step (Ev_stop a) s = snd (stop_account a s)"

section \<open>The invariant\<close>

definition runs_job :: "sync_service \<Rightarrow> string \<Rightarrow> nat \<Rightarrow> bool" where
  "runs_job s a j = (case ss_jobs s j of None \<Rightarrow> False | Some job \<Rightarrow> jo_account job = a \<and> jo_phase job = Running)"

definition manual_jobs :: "sync_service \<Rightarrow> nat set" where
  "manual_jobs s = {j. \<exists>job. ss_jobs s j = Some job \<and> jo_manual job}"

definition owners_ok :: "sync_service \<Rightarrow> bool" where
  "owners_ok s \<longleftrightarrow> (\<forall>a j. ss_done s a = Some j \<longleftrightarrow> runs_job s a j) \<and> ss_cancel s = ss_done s \<and> ss_busy s = dom (ss_done s) \<and>
     (\<forall>j job. ss_jobs s j = Some job \<longrightarrow> (jo_phase job = Running \<longrightarrow> ss_kind s (jo_account job) = Some (jo_kind job)) \<and>
        (j \<in> ss_closed s \<longrightarrow> (\<exists>r. jo_phase job = Ended r)) \<and> j < ss_next s) \<and>
     (\<forall>j \<in> ss_closed s. j < ss_next s)"

definition slots_ok :: "sync_service \<Rightarrow> bool" where
  "slots_ok s \<longleftrightarrow> finite (dom (ss_jobs s)) \<and> ss_slots s = card (manual_jobs s) \<and> ss_slots s \<le> max_manual_sync_jobs"

definition jobs_ok :: "sync_service \<Rightarrow> bool" where
  "jobs_ok s \<longleftrightarrow> owners_ok s \<and> slots_ok s"

lemma finite_manual: "finite (dom (ss_jobs s)) \<Longrightarrow> finite (manual_jobs s)"
  by (rule finite_subset [of _ "dom (ss_jobs s)"]) (auto simp: manual_jobs_def)

lemma runs_set_phase [simp]:
  "runs_job (set_phase j job p s) a i = (if i = j then jo_account job = a \<and> p = Running else runs_job s a i)"
  by (simp add: runs_job_def set_phase_def)

lemma set_phase_fields [simp]:
  "ss_busy (set_phase j job p s) = ss_busy s" "ss_deleting (set_phase j job p s) = ss_deleting s"
  "ss_cancel (set_phase j job p s) = ss_cancel s" "ss_kind (set_phase j job p s) = ss_kind s"
  "ss_done (set_phase j job p s) = ss_done s" "ss_slots (set_phase j job p s) = ss_slots s"
  "ss_closed (set_phase j job p s) = ss_closed s" "ss_next (set_phase j job p s) = ss_next s"
  "ss_jobs (set_phase j job p s) = (ss_jobs s)(j \<mapsto> job\<lparr>jo_phase := p\<rparr>)"
  by (simp_all add: set_phase_def)

lemma runs_job_cong: "ss_jobs s' = ss_jobs s \<Longrightarrow> runs_job s' = runs_job s"
  by (auto simp: runs_job_def fun_eq_iff)

lemma manual_cong: "ss_jobs s' = ss_jobs s \<Longrightarrow> manual_jobs s' = manual_jobs s"
  by (simp add: manual_jobs_def)

lemma manual_set_phase: "ss_jobs s j = Some job \<Longrightarrow> manual_jobs (set_phase j job p s) = manual_jobs s"
  by (auto simp: manual_jobs_def)

section \<open>The invariant is kept\<close>

lemma owners_fresh: "owners_ok s \<Longrightarrow> ss_jobs s (ss_next s) = None \<and> ss_next s \<notin> ss_closed s"
  unfolding owners_ok_def by (cases "ss_jobs s (ss_next s)") auto

lemma spawn_owners: "owners_ok s \<Longrightarrow> jo_phase job = Waiting \<Longrightarrow> owners_ok (spawn job s)"
proof -
  assume s: "owners_ok s" and w: "jo_phase job = Waiting"
  have r: "runs_job (spawn job s) a j = runs_job s a j" for a j
    using owners_fresh [OF s] w by (simp add: runs_job_def spawn_def)
  show ?thesis using s owners_fresh [OF s] w unfolding owners_ok_def r by (auto simp: spawn_def less_Suc_eq split: if_splits)
qed

lemma spawn_slots:
  "owners_ok s \<Longrightarrow> slots_ok s \<Longrightarrow> \<not> jo_manual job \<Longrightarrow> slots_ok (spawn job s)"
  "owners_ok s \<Longrightarrow> slots_ok s \<Longrightarrow> jo_manual job \<Longrightarrow> ss_slots s < max_manual_sync_jobs \<Longrightarrow>
     slots_ok (spawn job (s\<lparr>ss_slots := Suc (ss_slots s)\<rparr>))"
proof -
  assume s: "owners_ok s" "slots_ok s"
  have fresh: "ss_jobs s (ss_next s) = None" using owners_fresh [OF s(1)] by simp
  then have new: "ss_next s \<notin> manual_jobs s" by (simp add: manual_jobs_def)
  have fin: "finite (manual_jobs s)" using s(2) finite_manual by (simp add: slots_ok_def)
  {
    assume "\<not> jo_manual job"
    then have "manual_jobs (spawn job s) = manual_jobs s" using fresh by (auto simp: manual_jobs_def spawn_def)
    then show "slots_ok (spawn job s)" using s(2) by (simp add: slots_ok_def spawn_def)
  next
    assume m: "jo_manual job" and l: "ss_slots s < max_manual_sync_jobs"
    have "manual_jobs (spawn job (s\<lparr>ss_slots := Suc (ss_slots s)\<rparr>)) = insert (ss_next s) (manual_jobs s)"
      using m by (auto simp: manual_jobs_def spawn_def)
    then show "slots_ok (spawn job (s\<lparr>ss_slots := Suc (ss_slots s)\<rparr>))"
      using s(2) l new fin by (simp add: slots_ok_def spawn_def)
  }
qed

lemma owners_slots: "owners_ok (s\<lparr>ss_slots := n\<rparr>) = owners_ok s"
  by (simp add: owners_ok_def runs_job_def)

lemma start_refresh_ok: "jobs_ok s \<Longrightarrow> start_refresh_account listed worker user a s = Inr s' \<Longrightarrow> jobs_ok s'"
  using spawn_slots(2) [of s "\<lparr>jo_account = a, jo_kind = ''manual'', jo_manual = True, jo_phase = Waiting\<rparr>"]
  by (auto simp: start_refresh_account_def jobs_ok_def owners_slots intro!: spawn_owners split: if_splits sum.splits)

lemma end_owners:
  assumes "owners_ok s" "ss_jobs s j = Some job" "jo_phase job = Waiting"
  shows "owners_ok (set_phase j job (Ended r) s)"
proof -
  have "\<not> runs_job s a j" for a using assms by (simp add: runs_job_def)
  then have "runs_job (set_phase j job (Ended r) s) a i = runs_job s a i" for a i by auto
  then show ?thesis using assms unfolding owners_ok_def by auto
qed

lemma take_owners:
  assumes s: "owners_ok s" and job: "ss_jobs s j = Some job" "jo_phase job = Waiting" "jo_account job \<notin> ss_busy s"
  shows "owners_ok ((set_phase j job Running s)\<lparr>ss_busy := insert (jo_account job) (ss_busy s),
     ss_cancel := (ss_cancel s)(jo_account job \<mapsto> j), ss_kind := (ss_kind s)(jo_account job \<mapsto> jo_kind job),
     ss_done := (ss_done s)(jo_account job \<mapsto> j)\<rparr>)" (is "owners_ok ?s")
proof -
  have r: "runs_job ?s a i = (if i = j then jo_account job = a else runs_job s a i)" for a i
    by (simp add: runs_job_def set_phase_def)
  have w: "\<not> runs_job s a j" for a using job by (simp add: runs_job_def)
  have free: "\<not> runs_job s (jo_account job) i" for i using s job(3) by (auto simp: owners_ok_def)
  have kinds: "jo_account other \<noteq> jo_account job" if "ss_jobs s i = Some other" "jo_phase other = Running" for i other
    using free [of i] that by (auto simp: runs_job_def)
  have open_channel: "j \<notin> ss_closed s" using s job(1,2) unfolding owners_ok_def by fastforce
  show ?thesis using s job w free kinds open_channel unfolding owners_ok_def r by auto
qed

lemma claim_owners: "owners_ok s \<Longrightarrow> owners_ok (claim_sync j s)"
  by (auto simp: claim_sync_def intro: end_owners take_owners split: option.split)

lemma release_owners: "owners_ok s \<Longrightarrow> owners_ok (release_sync j r s)"
proof (cases "ss_jobs s j")
  case None
  then show "owners_ok s \<Longrightarrow> ?thesis" by (simp add: release_sync_def)
next
  case (Some job)
  assume s: "owners_ok s"
  show ?thesis
  proof (cases "jo_phase job = Running")
    case False
    then show ?thesis using s Some by (simp add: release_sync_def)
  next
    case True
    let ?a = "jo_account job" and ?s = "release_sync j r s"
    have own: "runs_job s ?a j" using Some True by (simp add: runs_job_def)
    have r: "runs_job ?s a i = (i \<noteq> j \<and> runs_job s a i)" for a i
      using Some True by (simp add: release_sync_def runs_job_def set_phase_def)
    have one: "runs_job s ?a i \<longleftrightarrow> i = j" for i using s own unfolding owners_ok_def by (metis option.inject)
    have other: "runs_job s a j \<longleftrightarrow> a = ?a" for a using own by (auto simp: runs_job_def Some)
    have kinds: "jo_account x \<noteq> ?a" if "ss_jobs s i = Some x" "jo_phase x = Running" "i \<noteq> j" for i x
      using one [of i] that by (auto simp: runs_job_def)
    have f: "ss_done ?s = (ss_done s)(?a := None)" "ss_cancel ?s = (ss_cancel s)(?a := None)" "ss_busy ?s = ss_busy s - {?a}"
      "ss_kind ?s = (ss_kind s)(?a := None)" "ss_closed ?s = insert j (ss_closed s)" "ss_next ?s = ss_next s"
      "ss_jobs ?s = (ss_jobs s)(j \<mapsto> job\<lparr>jo_phase := Ended (map_option Stage_failed r)\<rparr>)"
      using Some True by (simp_all add: release_sync_def)
    have d: "ss_done s a = Some i \<longleftrightarrow> runs_job s a i" for a i using s by (simp add: owners_ok_def)
    have "(\<forall>a i. ss_done ?s a = Some i \<longleftrightarrow> runs_job ?s a i)" using one other unfolding f r by (auto simp: d)
    moreover have "ss_cancel ?s = ss_done ?s" "ss_busy ?s = dom (ss_done ?s)" using s unfolding f by (auto simp: owners_ok_def)
    moreover have "j < ss_next s" "\<forall>i \<in> ss_closed s. i < ss_next s" using s Some by (auto simp: owners_ok_def)
    moreover have "(jo_phase x = Running \<longrightarrow> ss_kind ?s (jo_account x) = Some (jo_kind x)) \<and>
        (i \<in> ss_closed ?s \<longrightarrow> (\<exists>r. jo_phase x = Ended r)) \<and> i < ss_next ?s" if "ss_jobs ?s i = Some x" for i x
    proof (cases "i = j")
      case True
      then show ?thesis using that \<open>j < ss_next s\<close> by (auto simp: f)
    next
      case False
      then have "ss_jobs s i = Some x" using that by (simp add: f)
      then show ?thesis using s kinds [of i x] False by (auto simp: owners_ok_def f)
    qed
    ultimately show ?thesis unfolding owners_ok_def f(5,6) by blast
  qed
qed

lemma exit_owners: "owners_ok s \<Longrightarrow> owners_ok (exit_job j s)"
proof (cases "ss_jobs s j")
  case None
  then show "owners_ok s \<Longrightarrow> ?thesis" by (simp add: exit_job_def)
next
  case (Some job)
  assume s: "owners_ok s"
  show ?thesis
  proof (cases "\<exists>r. jo_phase job = Ended r")
    case False
    then show ?thesis using s Some by (auto simp: exit_job_def split: job_phase.split)
  next
    case True
    then have w: "\<not> runs_job s a j" for a using Some by (auto simp: runs_job_def)
    then have r: "runs_job (exit_job j s) a i = runs_job s a i" for a i
      using w [of a] Some True by (auto simp: exit_job_def runs_job_def split: if_splits)
    have f: "ss_done (exit_job j s) = ss_done s" "ss_cancel (exit_job j s) = ss_cancel s" "ss_busy (exit_job j s) = ss_busy s"
      "ss_kind (exit_job j s) = ss_kind s" "ss_closed (exit_job j s) = ss_closed s" "ss_next (exit_job j s) = ss_next s"
      "ss_jobs (exit_job j s) = (ss_jobs s)(j := None)"
      using Some True by (auto simp: exit_job_def)
    have "ss_jobs s i = Some x" if "((ss_jobs s)(j := None)) i = Some x" for i x using that by (simp split: if_splits)
    then show ?thesis using s unfolding owners_ok_def r f by blast
  qed
qed

lemma claim_slots: "slots_ok s \<Longrightarrow> slots_ok (claim_sync j s)"
proof -
  assume s: "slots_ok s"
  have "manual_jobs (claim_sync j s) = manual_jobs s" "ss_slots (claim_sync j s) = ss_slots s"
    by (auto simp: claim_sync_def manual_jobs_def split: option.splits)
  moreover have "finite (dom (ss_jobs (claim_sync j s)))" using s by (auto simp: slots_ok_def claim_sync_def split: option.split)
  ultimately show ?thesis using s by (simp add: slots_ok_def)
qed

lemma release_slots: "slots_ok s \<Longrightarrow> slots_ok (release_sync j r s)"
proof -
  assume s: "slots_ok s"
  have "manual_jobs (release_sync j r s) = manual_jobs s" "ss_slots (release_sync j r s) = ss_slots s"
    by (auto simp: release_sync_def manual_jobs_def split: option.splits)
  moreover have "finite (dom (ss_jobs (release_sync j r s)))" using s by (auto simp: slots_ok_def release_sync_def split: option.split)
  ultimately show ?thesis using s by (simp add: slots_ok_def)
qed

lemma exit_slots: "slots_ok s \<Longrightarrow> slots_ok (exit_job j s)"
proof (cases "\<exists>job r. ss_jobs s j = Some job \<and> jo_phase job = Ended r")
  case False
  then have "exit_job j s = s" by (auto simp: exit_job_def split: option.split job_phase.split)
  then show "slots_ok s \<Longrightarrow> ?thesis" by simp
next
  case True
  then obtain job r where job: "ss_jobs s j = Some job" "jo_phase job = Ended r" by blast
  assume s: "slots_ok s"
  have m: "manual_jobs (exit_job j s) = manual_jobs s - {j}" using job by (auto simp: exit_job_def manual_jobs_def)
  have fin: "finite (manual_jobs s)" using s finite_manual by (simp add: slots_ok_def)
  have "j \<in> manual_jobs s \<longleftrightarrow> jo_manual job" using job by (simp add: manual_jobs_def)
  moreover have "finite (dom (ss_jobs (exit_job j s)))" "ss_slots (exit_job j s) = (if jo_manual job then ss_slots s - 1 else ss_slots s)"
    using s job by (auto simp: slots_ok_def exit_job_def)
  ultimately show ?thesis using s fin by (auto simp: slots_ok_def m)
qed

lemma mark_ok: "jobs_ok (s\<lparr>ss_cancelled := c, ss_deleting := d\<rparr>) = jobs_ok s"
  by (simp add: jobs_ok_def owners_ok_def slots_ok_def runs_job_def manual_jobs_def)

lemma mark_cancelled_ok: "jobs_ok (s\<lparr>ss_cancelled := c\<rparr>) = jobs_ok s"
  by (simp add: jobs_ok_def owners_ok_def slots_ok_def runs_job_def manual_jobs_def)

lemma mark_deleting_ok: "jobs_ok (s\<lparr>ss_deleting := d\<rparr>) = jobs_ok s"
  by (simp add: jobs_ok_def owners_ok_def slots_ok_def runs_job_def manual_jobs_def)

lemma stop_fields:
  "ss_jobs (snd (stop_account a s)) = ss_jobs s" "ss_deleting (snd (stop_account a s)) = insert a (ss_deleting s)"
  "fst (stop_account a s) = ss_done s a"
  by (simp_all add: stop_account_def Let_def split: option.split)

lemma stop_ok: "jobs_ok s \<Longrightarrow> jobs_ok (snd (stop_account a s))"
  by (simp add: stop_account_def Let_def mark_cancelled_ok mark_deleting_ok mark_ok split: option.split)

lemma cancel_ok: "jobs_ok s \<Longrightarrow> jobs_ok (snd (cancel_manual_sync a s))"
  by (simp add: cancel_manual_sync_def mark_cancelled_ok split: option.split)

lemma job_step_ok: "jobs_ok s \<Longrightarrow> jobs_ok (job_step e s)"
proof (cases e)
  case (Ev_scheduled a kind)
  then show "jobs_ok s \<Longrightarrow> ?thesis"
    using spawn_slots(1) [of s "\<lparr>jo_account = a, jo_kind = kind, jo_manual = False, jo_phase = Waiting\<rparr>"]
    by (simp add: jobs_ok_def sync_account_call_def spawn_owners)
next
  case (Ev_refresh listed worker user a)
  then show "jobs_ok s \<Longrightarrow> ?thesis" using start_refresh_ok by (auto split: sum.split)
qed (simp_all add: jobs_ok_def claim_owners claim_slots release_owners release_slots exit_owners exit_slots
      cancel_ok [unfolded jobs_ok_def] stop_ok [unfolded jobs_ok_def])

interpretation sync_jobs: machine job_step jobs_ok
  by unfold_locales (rule job_step_ok)

lemma new_jobs_ok: "jobs_ok new_sync_service"
  by (auto simp: jobs_ok_def owners_ok_def slots_ok_def new_sync_service_def runs_job_def manual_jobs_def)

section \<open>One synchronization of an account\<close>

text \<open>C7. Whatever the interleaving, an account is synchronized by at most one run at a time, the busy set holds exactly
  the accounts that are being synchronized, and no more than eight refreshes asked for by users are admitted.\<close>

theorem one_sync_per_account:
  "let s = fold job_step events new_sync_service
   in \<not> (\<exists>a i j. i \<noteq> j \<and> runs_job s a i \<and> runs_job s a j) \<and> (\<forall>a. sync_running s a = (\<exists>j. runs_job s a j)) \<and>
      ss_slots s = card (manual_jobs s) \<and> ss_slots s \<le> 8"
proof -
  have "jobs_ok (fold job_step events new_sync_service)" by (rule sync_jobs.fold_inv [OF new_jobs_ok])
  then show ?thesis unfolding Let_def jobs_ok_def owners_ok_def slots_ok_def sync_running_def max_manual_sync_jobs_def
    by (metis domD domI option.inject)
qed

section \<open>Deleting an account\<close>

text \<open>What stays true of an account once \<open>StopAccount\<close> has marked it: only the run it waits for can still work.\<close>

definition draining_account :: "string \<Rightarrow> nat option \<Rightarrow> sync_service \<Rightarrow> bool" where
  "draining_account a channel s \<longleftrightarrow> jobs_ok s \<and> a \<in> ss_deleting s \<and> (\<forall>j. runs_job s a j \<longrightarrow> channel = Some j)"

lemma step_runs:
  assumes "jobs_ok s" "a \<in> ss_deleting s" "runs_job (job_step e s) a j"
  shows "runs_job s a j"
proof (cases e)
  case (Ev_claim i)
  then show ?thesis using assms
    by (auto simp: claim_sync_def runs_job_def set_phase_def split: option.splits if_splits)
next
  case (Ev_release i r)
  then show ?thesis using assms by (auto simp: release_sync_def runs_job_def set_phase_def split: option.splits if_splits)
next
  case (Ev_exit i)
  then show ?thesis using assms by (auto simp: exit_job_def runs_job_def split: option.splits if_splits job_phase.splits)
next
  case (Ev_stop b)
  then show ?thesis using assms by (simp add: runs_job_def stop_fields)
next
  case (Ev_cancel b)
  then show ?thesis using assms by (auto simp: cancel_manual_sync_def runs_job_def split: option.splits if_splits)
next
  case (Ev_scheduled b kind)
  then show ?thesis using assms by (auto simp: sync_account_call_def spawn_def runs_job_def split: option.splits if_splits)
next
  case (Ev_refresh l w u b)
  then show ?thesis using assms
    by (auto simp: start_refresh_account_def spawn_def runs_job_def split: option.splits if_splits sum.splits)
qed

lemma step_deleting: "ss_deleting s \<subseteq> ss_deleting (job_step e s)"
  by (cases e) (auto simp: claim_sync_def release_sync_def exit_job_def cancel_manual_sync_def stop_account_def Let_def
      sync_account_call_def spawn_def start_refresh_account_def split: option.splits sum.splits job_phase.splits)

lemma step_draining: "draining_account a c s \<Longrightarrow> draining_account a c (job_step e s)"
  using step_runs [of s a e] step_deleting [of s e] job_step_ok [of s e] by (auto simp: draining_account_def)

interpretation draining: machine job_step "draining_account a c" for a c
  by unfold_locales (rule step_draining)

lemma stop_draining: "jobs_ok s \<Longrightarrow> draining_account a (fst (stop_account a s)) (snd (stop_account a s))"
proof -
  assume s: "jobs_ok s"
  then have "ss_done s a = Some j" if "runs_job s a j" for j using that by (simp add: jobs_ok_def owners_ok_def)
  then show ?thesis using stop_ok [OF s, of a] runs_job_cong [OF stop_fields(1) [of a s]]
    by (simp add: draining_account_def stop_fields)
qed



end
