(* ===== verification/Idle_Watch.thy ===== *)
theory Idle_Watch
  imports Sync_Run
begin

text \<open>
  The IMAP IDLE watchers (internal/mailsync/idle.go): one goroutine for each account with credentials, reconciled with
  the account table every minute, its retry delays, and the targeted synchronization that a notification asks for.
  A watcher's number also names its cancel function.
\<close>

section \<open>Watchers\<close>

definition idle_min_backoff :: int where "idle_min_backoff = minute"
definition idle_max_backoff :: int where "idle_max_backoff = 10 * minute"

definition idle_signature :: "sync_account \<Rightarrow> string" where
  "idle_signature a = join [sy_host a, itoa (sy_port a), sy_login a, sy_security a, itoa (sy_version a)] [CHR 0x00]"

record idle_watcher =
  iw_states :: "string \<rightharpoonup> nat \<times> string"
  iw_account :: "nat \<rightharpoonup> string"
  iw_cancelled :: "nat set"
  iw_next :: nat

definition new_idle_watcher :: idle_watcher where
  "new_idle_watcher = \<lparr>iw_states = Map.empty, iw_account = Map.empty, iw_cancelled = {}, iw_next = 0\<rparr>"

section \<open>Reconciling with the account table\<close>

definition watchable :: "sync_account \<Rightarrow> bool" where
  "watchable a \<longleftrightarrow> sy_host a \<noteq> [] \<and> sy_login a \<noteq> [] \<and> sy_password a \<noteq> []"

definition wanted :: "sync_account list \<Rightarrow> (string \<rightharpoonup> sync_account)" where
  "wanted accounts = fold (\<lambda>a want. want(sy_id a \<mapsto> a)) (filter watchable accounts) Map.empty"

text \<open>The watchers of removed and of changed accounts are cancelled and forgotten.\<close>

definition stale_watch :: "(string \<rightharpoonup> sync_account) \<Rightarrow> idle_watcher \<Rightarrow> string \<Rightarrow> bool" where
  "stale_watch want w i = (case iw_states w i of
      None \<Rightarrow> False
    | Some (_, signature) \<Rightarrow> (case want i of None \<Rightarrow> True | Some a \<Rightarrow> signature \<noteq> idle_signature a))"

definition drop_stale :: "(string \<rightharpoonup> sync_account) \<Rightarrow> idle_watcher \<Rightarrow> idle_watcher" where
  "drop_stale want w = w\<lparr>iw_states := (\<lambda>i. if stale_watch want w i then None else iw_states w i),
     iw_cancelled := iw_cancelled w \<union> {n. \<exists>i s. iw_states w i = Some (n, s) \<and> stale_watch want w i}\<rparr>"

definition start_watch :: "(string \<rightharpoonup> sync_account) \<Rightarrow> string \<Rightarrow> idle_watcher \<Rightarrow> idle_watcher" where
  "start_watch want i w = (case want i of
      None \<Rightarrow> w
    | Some a \<Rightarrow>
        if iw_states w i \<noteq> None then w
        else w\<lparr>iw_states := (iw_states w)(i \<mapsto> (iw_next w, idle_signature a)), iw_account := (iw_account w)(iw_next w \<mapsto> i),
               iw_next := Suc (iw_next w)\<rparr>)"

definition reconcile_watchers :: "(go_error + sync_account list) \<Rightarrow> idle_watcher \<Rightarrow> idle_watcher" where
  "reconcile_watchers listed w = (case listed of
      Inl _ \<Rightarrow> w
    | Inr accounts \<Rightarrow>
        (let want = wanted accounts in fold (start_watch want) (map sy_id accounts) (drop_stale want w)))"

definition stop_all :: "idle_watcher \<Rightarrow> idle_watcher" where
  "stop_all w = w\<lparr>iw_states := Map.empty, iw_cancelled := iw_cancelled w \<union> {n. \<exists>i s. iw_states w i = Some (n, s)}\<rparr>"

section \<open>The loop of one watcher\<close>

text \<open>One turn with the outcome of the IDLE session under a live context: whether a synchronization is triggered, how long
  to wait, and the next delay.\<close>

definition watch_turn :: "go_error + bool \<Rightarrow> int \<Rightarrow> bool \<times> int \<times> int" where
  "watch_turn outcome backoff = (case outcome of
      Inl _ \<Rightarrow> (False, backoff, if backoff < idle_max_backoff then backoff * 2 else backoff)
    | Inr triggered \<Rightarrow> (triggered, 0, idle_min_backoff))"

fun watch_delays :: "(go_error + bool) list \<Rightarrow> int \<Rightarrow> int list" where
  "watch_delays [] backoff = []"
| "watch_delays (r # rs) backoff = fst (snd (watch_turn r backoff)) # watch_delays rs (snd (snd (watch_turn r backoff)))"

text \<open>The end of \<open>watchAccount\<close>: whatever watcher the account has now is cancelled and forgotten.\<close>

definition watch_exit :: "nat \<Rightarrow> idle_watcher \<Rightarrow> idle_watcher" where
  "watch_exit n w = (if n \<notin> iw_cancelled w then w else case iw_account w n of
      None \<Rightarrow> w
    | Some i \<Rightarrow>
        (let w1 = w\<lparr>iw_account := (iw_account w)(n := None)\<rparr>
         in case iw_states w1 i of
             None \<Rightarrow> w1
           | Some (m, _) \<Rightarrow> w1\<lparr>iw_cancelled := insert m (iw_cancelled w1), iw_states := (iw_states w1)(i := None)\<rparr>))"

text \<open>\<open>idleTrigger\<close>: whether a notification starts an incremental run.\<close>

definition idle_trigger :: "run_query \<Rightarrow> (string \<Rightarrow> bool) \<Rightarrow> sync_account \<Rightarrow> bool" where
  "idle_trigger latest running a = (case latest (sy_id a) True of
      Inl _ \<Rightarrow> False
    | Inr r \<Rightarrow> sr_kind r \<noteq> ''initial'' \<and> \<not> running (sy_id a))"

section \<open>After a reconciliation\<close>

lemma wanted_find: "wanted accounts i = find (\<lambda>a. sy_id a = i) (rev (filter watchable accounts))"
  by (simp add: wanted_def fold_upd split: option.split)

lemma wanted_id: "wanted accounts i = Some a \<Longrightarrow> sy_id a = i \<and> a \<in> set accounts \<and> watchable a"
  using find_some [of "\<lambda>a. sy_id a = i" "rev (filter watchable accounts)" a] by (simp add: wanted_find)

lemma start_watch_states:
  "iw_states (start_watch want i w) k =
     (case iw_states w k of Some x \<Rightarrow> Some x | None \<Rightarrow> if k = i then map_option (\<lambda>a. (iw_next w, idle_signature a)) (want i) else None)"
  by (auto simp: start_watch_def split: option.split)

lemma start_all_signature:
  "map_option snd (iw_states (fold (start_watch want) is w) k) =
     (case iw_states w k of Some x \<Rightarrow> Some (snd x) | None \<Rightarrow> if k \<in> set is then map_option idle_signature (want k) else None)"
  by (induction "is" arbitrary: w) (auto simp: start_watch_states comp_def split: option.splits)

text \<open>Behind a reconciliation every account with a host, a user and a password has a watcher bound to its present
  configuration, and no other account has one.\<close>

theorem reconciled_watchers:
  "map_option snd (iw_states (reconcile_watchers (Inr accounts) w) i) = map_option idle_signature (wanted accounts i)"
proof -
  have mem: "i \<in> sy_id ` set accounts" if "wanted accounts i = Some a" for a using wanted_id [OF that] by blast
  show ?thesis
    by (cases "wanted accounts i") (auto simp: reconcile_watchers_def Let_def start_all_signature drop_stale_def stale_watch_def mem split: option.splits)
qed

section \<open>A watcher that was replaced\<close>

lemma start_keeps: "iw_cancelled (fold (start_watch want) is w) = iw_cancelled w"
  by (induction "is" arbitrary: w) (simp_all add: start_watch_def split: option.split)

text \<open>C30. When the configuration of an account changes, the goroutine of the old watcher ends by cancelling and forgetting
  the watcher that has just been started for the new configuration: it looks up its account and not itself.  The account
  is then not watched until the next reconciliation.\<close>

theorem old_watcher_stops_new:
  assumes "iw_states w i = Some (n, old)" "iw_account w n = Some i" "wanted accounts i = Some a" "old \<noteq> idle_signature a"
    "n < iw_next w"
  shows "\<exists>m. iw_states (reconcile_watchers (Inr accounts) w) i = Some (m, idle_signature a) \<and>
     m \<in> iw_cancelled (watch_exit n (reconcile_watchers (Inr accounts) w)) \<and>
     iw_states (watch_exit n (reconcile_watchers (Inr accounts) w)) i = None"
proof -
  let ?w = "reconcile_watchers (Inr accounts) w"
  have "map_option snd (iw_states ?w i) = Some (idle_signature a)" using reconciled_watchers [of accounts w i] assms(3) by simp
  then obtain m where m: "iw_states ?w i = Some (m, idle_signature a)" by auto
  have c: "n \<in> iw_cancelled ?w"
    using assms by (auto simp: reconcile_watchers_def Let_def start_keeps drop_stale_def stale_watch_def)
  have keep: "iw_account (fold (start_watch want) js v) n = iw_account v n \<and> iw_next v \<le> iw_next (fold (start_watch want) js v)"
    if "n < iw_next v" for js v and want :: "string \<rightharpoonup> sync_account"
    using that
  proof (induction js arbitrary: v)
    case (Cons j js)
    have "n < iw_next (start_watch want j v)" "iw_account (start_watch want j v) n = iw_account v n" "iw_next v \<le> iw_next (start_watch want j v)"
      using Cons.prems by (auto simp: start_watch_def split: option.split)
    with Cons.IH [of "start_watch want j v"] show ?case by simp
  qed simp
  have "iw_account ?w n = Some i"
    using keep [of "drop_stale (wanted accounts) w"] assms(2,5) by (simp add: reconcile_watchers_def Let_def drop_stale_def)
  with m c show ?thesis by (auto simp: watch_exit_def Let_def)
qed

section \<open>Retry delays\<close>

lemma backoff_powers:
  "backoff \<in> {minute, 2 * minute, 4 * minute, 8 * minute, 16 * minute} \<Longrightarrow>
     set (watch_delays rs backoff) \<subseteq> {0, minute, 2 * minute, 4 * minute, 8 * minute, 16 * minute}"
proof (induction rs arbitrary: backoff)
  case (Cons r rs)
  have "snd (snd (watch_turn r backoff)) \<in> {minute, 2 * minute, 4 * minute, 8 * minute, 16 * minute}"
    using Cons.prems by (auto simp: watch_turn_def idle_min_backoff_def idle_max_backoff_def minute_def split: sum.split)
  from Cons.IH [OF this] Cons.prems show ?case
    by (auto simp: watch_turn_def split: sum.split)
qed simp

text \<open>A watcher never waits longer than sixteen minutes before it connects again, and five failures in a row make it wait
  that long, which is longer than the declared maximum of ten minutes: the delay is doubled while it is below the maximum
  and not cut back to it.\<close>

theorem retry_delay_bounds:
  "(\<forall>rs. list_all (\<lambda>d. 0 \<le> d \<and> d \<le> 16 * minute) (watch_delays rs idle_min_backoff)) \<and>
   last (watch_delays (replicate 5 (Inl e)) idle_min_backoff) = 16 * minute \<and> idle_max_backoff < 16 * minute"
proof (intro conjI allI)
  fix rs
  have "set (watch_delays rs idle_min_backoff) \<subseteq> {0, minute, 2 * minute, 4 * minute, 8 * minute, 16 * minute}"
    by (rule backoff_powers) (simp add: idle_min_backoff_def)
  then show "list_all (\<lambda>d. 0 \<le> d \<and> d \<le> 16 * minute) (watch_delays rs idle_min_backoff)"
    by (auto simp: list_all_iff minute_def)
qed (simp_all add: watch_turn_def idle_min_backoff_def idle_max_backoff_def minute_def numeral_eq_Suc)

section \<open>An account that changes its host\<close>

definition demo_watch :: sync_account where
  "demo_watch = \<lparr>sy_id = ''a'', sy_user = ''u'', sy_host = ''h'', sy_port = 1, sy_login = ''l'', sy_security = [],
     sy_password = ''p'', sy_version = 1, sy_interval = 5, sy_reconcile = 0, sy_cutoff = None, sy_retention = None\<rparr>"

lemma demo_signatures: "idle_signature demo_watch \<noteq> idle_signature (demo_watch\<lparr>sy_host := ''k''\<rparr>)"
  by (simp add: idle_signature_def demo_watch_def)

text \<open>The replacement of its watcher.\<close>

theorem old_watcher_stops_new_witness:
  "\<exists>m. iw_states (reconcile_watchers (Inr [demo_watch\<lparr>sy_host := ''k''\<rparr>]) (reconcile_watchers (Inr [demo_watch]) new_idle_watcher)) ''a'' =
      Some (m, idle_signature (demo_watch\<lparr>sy_host := ''k''\<rparr>)) \<and>
     iw_states (watch_exit 0 (reconcile_watchers (Inr [demo_watch\<lparr>sy_host := ''k''\<rparr>]) (reconcile_watchers (Inr [demo_watch]) new_idle_watcher))) ''a'' = None"
proof -
  have w: "reconcile_watchers (Inr [demo_watch]) new_idle_watcher =
      \<lparr>iw_states = [''a'' \<mapsto> (0, idle_signature demo_watch)], iw_account = [0 \<mapsto> ''a''], iw_cancelled = {}, iw_next = 1\<rparr>"
    by (simp add: reconcile_watchers_def Let_def wanted_def watchable_def demo_watch_def new_idle_watcher_def start_watch_def
        drop_stale_def stale_watch_def)
  have "wanted [demo_watch\<lparr>sy_host := ''k''\<rparr>] ''a'' = Some (demo_watch\<lparr>sy_host := ''k''\<rparr>)"
    by (simp add: wanted_def watchable_def demo_watch_def)
  from old_watcher_stops_new [of "reconcile_watchers (Inr [demo_watch]) new_idle_watcher" "''a''" 0 _ "[demo_watch\<lparr>sy_host := ''k''\<rparr>]",
      OF _ _ this demo_signatures] show ?thesis by (fastforce simp: w)
qed

end
