(* ===== verification/Mbsync_State.thy ===== *)
theory Mbsync_State
  imports Operation_Errors "HOL-Library.Word"
begin

text \<open>
  The mapping that mbsync keeps beside a Maildir (\<open>parseMBSyncFolderState\<close> and \<open>maildirNearUID\<close> in
  internal/mailsync/service.go): the parser, which fails closed, and the local number in a Maildir file name.
  UIDs and UIDVALIDITY values are 32-bit words.
\<close>

section \<open>Package strings\<close>

text \<open>\<open>strings.Index\<close>, \<open>strings.Count\<close> of a non-empty text and \<open>strings.Split\<close> at one byte.\<close>

fun index_sub :: "string \<Rightarrow> string \<Rightarrow> nat option" where
  "index_sub p [] = (if p = [] then Some 0 else None)"
| "index_sub p (c # cs) = (if has_prefix (c # cs) p then Some 0 else map_option Suc (index_sub p cs))"

function count_sub :: "string \<Rightarrow> string \<Rightarrow> nat" where
  "count_sub p s =
     (if p = [] \<or> s = [] then 0
      else if has_prefix s p then Suc (count_sub p (drop (length p) s)) else count_sub p (tl s))"
  by pat_completeness auto
termination
  by (relation "measure (\<lambda>(p, s). length s)") auto

declare count_sub.simps [simp del]

fun split_at :: "char \<Rightarrow> string \<Rightarrow> string list" where
  "split_at c [] = [[]]"
| "split_at c (x # xs) =
     (if x = c then [] # split_at c xs else (case split_at c xs of [] \<Rightarrow> [[x]] | l # ls \<Rightarrow> (x # l) # ls))"

text \<open>\<open>strings.ReplaceAll(s, "\r\n", "\n")\<close>.\<close>

fun replace_crlf :: "string \<Rightarrow> string" where
  "replace_crlf (a # b # s) =
     (if a = CHR 0x0D \<and> b = CHR 0x0A then b # replace_crlf s else a # replace_crlf (b # s))"
| "replace_crlf s = s"

text \<open>\<open>strings.Fields\<close>; the second argument is the field so far.\<close>

function fields_from :: "string \<Rightarrow> string \<Rightarrow> string list" where
  "fields_from s cur =
     (if s = [] then (if cur = [] then [] else [cur])
      else (let (r, w) = decode_rune s
            in if is_space r then (if cur = [] then [] else [cur]) @ fields_from (drop w s) []
               else fields_from (drop w s) (cur @ take w s)))"
  by pat_completeness auto
termination
  by (relation "measure (\<lambda>(s, cur). length s)") (auto simp: length_drop_decode dest: sym, (metis length_drop_decode length_drop snd_conv)+)

declare fields_from.simps [simp del]

definition string_fields :: "string \<Rightarrow> string list" where
  "string_fields s = fields_from s []"

text \<open>\<open>strconv.ParseUint(s, 10, 32)\<close>.\<close>

definition parse_uint32 :: "string \<Rightarrow> 32 word option" where
  "parse_uint32 s = (if s \<noteq> [] \<and> list_all is_digit s \<and> digits_val s < 2 ^ 32 then Some (word_of_nat (digits_val s)) else None)"

section \<open>The state file\<close>

record folder_state =
  fs_available :: bool
  fs_far_validity :: "32 word"
  fs_near_to_far :: "32 word \<rightharpoonup> 32 word"

datatype state_error =
  Malformed_header | Invalid_header string | Duplicate_header string | No_terminator | No_validity | Zero_validity
| Malformed_mapping | Invalid_mapping | Duplicate_near | Duplicate_far

fun parse_header :: "string list \<Rightarrow> (string \<rightharpoonup> 32 word) \<Rightarrow> state_error + (string \<rightharpoonup> 32 word)" where
  "parse_header [] h = Inr h"
| "parse_header (line # ls) h = (case string_fields line of
      [name, value] \<Rightarrow> (case parse_uint32 value of
          None \<Rightarrow> Inl (Invalid_header name)
        | Some v \<Rightarrow> if h name \<noteq> None then Inl (Duplicate_header name) else parse_header ls (h(name \<mapsto> v)))
    | _ \<Rightarrow> Inl Malformed_header)"

text \<open>The mapping from the near side to the far side, and the far sides seen.\<close>

definition map_line :: "string list \<Rightarrow> (32 word \<rightharpoonup> 32 word) \<Rightarrow> 32 word set \<Rightarrow> state_error + (32 word \<times> 32 word)" where
  "map_line fs m seen =
     (if length fs < 2 \<or> length fs > 3 then Inl Malformed_mapping
      else case (parse_uint32 (fs ! 0), parse_uint32 (fs ! 1)) of
          (Some far, Some near) \<Rightarrow>
            if far = 0 \<or> near = 0 then Inl Invalid_mapping
            else if m near \<noteq> None then Inl Duplicate_near
            else if far \<in> seen then Inl Duplicate_far
            else Inr (far, near)
        | _ \<Rightarrow> Inl Invalid_mapping)"

fun parse_mappings :: "string list \<Rightarrow> (32 word \<rightharpoonup> 32 word) \<Rightarrow> 32 word set \<Rightarrow> state_error + (32 word \<rightharpoonup> 32 word)" where
  "parse_mappings [] m seen = Inr m"
| "parse_mappings (line # ls) m seen =
     (if trim_space line = [] then parse_mappings ls m seen
      else case map_line (string_fields line) m seen of
          Inl e \<Rightarrow> Inl e
        | Inr (far, near) \<Rightarrow> parse_mappings ls (m(near \<mapsto> far)) (insert far seen))"

definition parse_folder_state :: "string \<Rightarrow> state_error + folder_state" where
  "parse_folder_state content =
     (let ls = split_at CHR 0x0A (replace_crlf content);
          head = takeWhile (\<lambda>l. l \<noteq> []) ls;
          rest = dropWhile (\<lambda>l. l \<noteq> []) ls
      in case parse_header head Map.empty of
          Inl e \<Rightarrow> Inl e
        | Inr h \<Rightarrow>
            if rest = [] then Inl No_terminator
            else (case (h ''FarUidValidity'', h ''NearUidValidity'') of
                (Some far, Some near) \<Rightarrow>
                  if far = 0 \<or> near = 0 then Inl Zero_validity
                  else (case parse_mappings (tl rest) Map.empty {} of
                      Inl e \<Rightarrow> Inl e
                    | Inr m \<Rightarrow> Inr \<lparr>fs_available = True, fs_far_validity = far, fs_near_to_far = m\<rparr>)
              | _ \<Rightarrow> Inl No_validity))"

section \<open>Maildir names\<close>

text \<open>\<open>filepath.Base\<close>.\<close>

definition path_base :: "string \<Rightarrow> string" where
  "path_base path =
     (if path = [] then ''.''
      else (let p = rev (dropWhile (\<lambda>c. c = CHR ''/'') (rev path))
            in if p = [] then ''/'' else rev (takeWhile (\<lambda>c. c \<noteq> CHR ''/'') (rev p))))"

definition maildir_near_uid :: "string \<Rightarrow> 32 word option" where
  "maildir_near_uid path =
     (let name = path_base path; marker = '',U=''
      in if count_sub marker name \<noteq> 1 then None
         else (case index_sub marker name of
             None \<Rightarrow> None
           | Some i \<Rightarrow>
               (let value = drop (i + length marker) name
                in case index_sub '':2,'' value of
                    None \<Rightarrow> None
                  | Some e \<Rightarrow> if e = 0 then None
                      else (case parse_uint32 (take e value) of
                          Some uid \<Rightarrow> if uid = 0 then None else Some uid
                        | None \<Rightarrow> None))))"

section \<open>What the parser accepts\<close>

definition mapping_ok :: "(32 word \<rightharpoonup> 32 word) \<Rightarrow> 32 word set \<Rightarrow> bool" where
  "mapping_ok m seen \<longleftrightarrow> inj_on m (dom m) \<and> 0 \<notin> dom m \<and> ran m = seen \<and> 0 \<notin> seen \<and> finite (dom m)"

lemma mapping_ok_upd:
  assumes "mapping_ok m seen" "m near = None" "far \<notin> seen" "far \<noteq> 0" "near \<noteq> 0"
  shows "mapping_ok (m(near \<mapsto> far)) (insert far seen)"
proof -
  have "m k \<noteq> Some far" for k using assms(1,3) by (auto simp: mapping_ok_def ran_def)
  then have "inj_on (m(near \<mapsto> far)) (dom (m(near \<mapsto> far)))"
    using assms(1) by (auto simp: mapping_ok_def inj_on_def split: if_splits)
  then show ?thesis using assms by (auto simp: mapping_ok_def ran_map_upd)
qed

lemma parse_mappings_ok: "mapping_ok m seen \<Longrightarrow> parse_mappings ls m seen = Inr m' \<Longrightarrow> mapping_ok m' (ran m')"
proof (induction ls m seen rule: parse_mappings.induct)
  case (1 m seen)
  then show ?case by (simp add: mapping_ok_def)
next
  case (2 line ls m seen)
  show ?case
  proof (cases "trim_space line = []")
    case True
    then show ?thesis using 2 by simp
  next
    case False
    then obtain far near where l: "map_line (string_fields line) m seen = Inr (far, near)"
      using "2.prems"(2) by (auto split: sum.splits)
    then have "far \<noteq> 0" "near \<noteq> 0" "m near = None" "far \<notin> seen"
      by (auto simp: map_line_def split: if_splits option.splits)
    then have ok: "mapping_ok (m(near \<mapsto> far)) (insert far seen)" using "2.prems"(1) by (intro mapping_ok_upd)
    show ?thesis using "2.IH"(2) [OF False l refl ok] "2.prems"(2) False l by (simp add: fun_upd_def)
  qed
qed

text \<open>C37. A state file that is accepted gives a one-to-one mapping between local and remote numbers, none of them zero, under
  a UIDVALIDITY that is not zero.\<close>

theorem parsed_state_injective:
  assumes "parse_folder_state content = Inr st"
  shows "fs_available st \<and> fs_far_validity st \<noteq> 0 \<and> inj_on (fs_near_to_far st) (dom (fs_near_to_far st)) \<and>
     0 \<notin> dom (fs_near_to_far st) \<and> 0 \<notin> ran (fs_near_to_far st)"
proof -
  have e: "mapping_ok Map.empty {}" by (simp add: mapping_ok_def)
  obtain m h far near where p: "parse_mappings (tl (dropWhile (\<lambda>l. l \<noteq> []) (split_at CHR 0x0A (replace_crlf content)))) Map.empty {} = Inr m"
    "st = \<lparr>fs_available = True, fs_far_validity = far, fs_near_to_far = m\<rparr>" "far \<noteq> (0 :: 32 word)"
    using assms by (auto simp: parse_folder_state_def Let_def split: sum.splits if_splits option.splits)
  from parse_mappings_ok [OF e p(1)] p(2,3) show ?thesis by (auto simp: mapping_ok_def)
qed

section \<open>Reading back what mbsync writes\<close>

text \<open>ASCII text without white space.\<close>

definition dense :: "string \<Rightarrow> bool" where
  "dense s \<longleftrightarrow> list_all (\<lambda>c. 33 \<le> (byte c :: nat) \<and> byte c < (128 :: nat)) s"

lemma fields_from_dense: "dense w \<Longrightarrow> fields_from (w @ t) cur = fields_from t (cur @ w)"
proof (induction w arbitrary: cur)
  case (Cons c w)
  then have "\<not> is_space (byte c)" "byte c < (128 :: nat)" "dense w" by (auto simp: dense_def is_space_def)
  with Cons.IH [of "cur @ [c]"] show ?case by (subst fields_from.simps) (simp add: decode_rune_def)
qed simp

lemma fields_from_blank: "fields_from (CHR '' '' # t) cur = (if cur = [] then [] else [cur]) @ fields_from t []"
  by (subst fields_from.simps) (simp add: decode_rune_def is_space_def)

lemma fields_from_end: "fields_from [] cur = (if cur = [] then [] else [cur])"
  by (subst fields_from.simps) simp

lemma fields_two: "dense a \<Longrightarrow> dense b \<Longrightarrow> a \<noteq> [] \<Longrightarrow> b \<noteq> [] \<Longrightarrow> string_fields (a @ CHR '' '' # b) = [a, b]"
  using fields_from_dense [of a "CHR '' '' # b" "[]"] fields_from_dense [of b "[]" "[]"]
  by (simp add: string_fields_def fields_from_blank fields_from_end)

lemma dense_dec: "dense (dec n)"
  using dec_digits [of n] by (auto simp: dense_def is_digit_def list_all_iff)

lemma parse_uint32_dec: "parse_uint32 (dec (unat w)) = Some w"
proof -
  have "unat w < 2 ^ LENGTH(32)" by (rule unsigned_less)
  then show ?thesis using dec_digits [of "unat w"] by (simp add: parse_uint32_def)
qed

lemma split_line: "c \<notin> set l \<Longrightarrow> split_at c (l @ c # rest) = l # split_at c rest"
  by (induction l) auto

lemma replace_crlf_none: "CHR 0x0D \<notin> set s \<Longrightarrow> replace_crlf s = s"
  by (induction s rule: replace_crlf.induct) auto

lemma dense_chars: "dense s \<Longrightarrow> c \<in> set s \<Longrightarrow> 33 \<le> (byte c :: nat)"
  by (auto simp: dense_def list_all_iff)

definition render_line :: "32 word \<times> 32 word \<Rightarrow> string" where
  "render_line p = dec (unat (fst p)) @ '' '' @ dec (unat (snd p))"

definition render_state :: "32 word \<Rightarrow> 32 word \<Rightarrow> (32 word \<times> 32 word) list \<Rightarrow> string" where
  "render_state far near ms =
     ''FarUidValidity '' @ dec (unat far) @ [CHR 0x0A] @ ''NearUidValidity '' @ dec (unat near) @ [CHR 0x0A, CHR 0x0A] @
     concat (map (\<lambda>p. render_line p @ [CHR 0x0A]) ms)"

lemma dec_chars: "c \<in> set (dec n) \<Longrightarrow> 32 \<le> (byte c :: nat)"
  using dense_chars [OF dense_dec, of c n] by simp

lemma line_chars: "c \<in> set (render_line p) \<Longrightarrow> 32 \<le> (byte c :: nat)"
  using dec_chars [of c] by (auto simp: render_line_def)

lemma rendered_chars: "c \<in> set (render_state far near ms) \<Longrightarrow> c = CHR 0x0A \<or> 32 \<le> (byte c :: nat)"
  using dec_chars [of c] line_chars [of c] by (auto simp: render_state_def split: if_splits)

lemma dec_ne [simp]: "dec n \<noteq> []"
  using dec_digits by blast

lemma line_fields: "string_fields (render_line p) = [dec (unat (fst p)), dec (unat (snd p))]"
  using fields_two [OF dense_dec dense_dec] by (simp add: render_line_def)

lemma line_not_blank: "trim_space (render_line p) \<noteq> []"
proof -
  have "dense (dec (unat (fst p)))" "dense (dec (unat (snd p)))" by (rule dense_dec)+
  then have h: "33 \<le> (byte (hd (dec (unat (fst p)))) :: nat) \<and> byte (hd (dec (unat (fst p)))) < (128 :: nat)"
    and l: "33 \<le> (byte (last (dec (unat (snd p)))) :: nat) \<and> byte (last (dec (unat (snd p)))) < (128 :: nat)"
    by (simp_all add: dense_def list_all_iff)
  have "trim_space (render_line p) = render_line p"
    by (rule trim_plain) (use h l in \<open>auto simp: render_line_def is_space_def\<close>)
  then show ?thesis by (simp add: render_line_def)
qed

lemma split_lines: "split_at CHR 0x0A (concat (map (\<lambda>p. render_line p @ [CHR 0x0A]) ms)) = map render_line ms @ [[]]"
proof (induction ms)
  case (Cons p ms)
  have "CHR 0x0A \<notin> set (render_line p)" using line_chars [of "CHR 0x0A" p] by auto
  from split_line [OF this] Cons show ?case by simp
qed simp

lemma parse_rendered:
  assumes "distinct (map fst ms)" "distinct (map snd ms)" "0 \<notin> fst ` set ms" "0 \<notin> snd ` set ms"
    "dom m \<inter> snd ` set ms = {}" "seen \<inter> fst ` set ms = {}"
  shows "parse_mappings (map render_line ms @ [[]]) m seen = Inr (m ++ map_of (map (\<lambda>(far, near). (near, far)) ms))"
  using assms
proof (induction ms arbitrary: m seen)
  case Nil
  have "trim_space [] = []" by (simp add: trim_space_def trim_left.simps trim_right.simps)
  then show ?case by simp
next
  case (Cons p ms)
  obtain far near where p: "p = (far, near)" by (cases p)
  have l: "map_line (string_fields (render_line p)) m seen = Inr (far, near)"
    using Cons.prems by (auto simp: line_fields map_line_def parse_uint32_dec p split: option.splits)
  have near: "near \<notin> dom (map_of (map (\<lambda>(far, near). (near, far)) ms))"
    using Cons.prems(2) by (auto simp: p dom_map_of_conv_image_fst image_image split_beta)
  have "parse_mappings (map render_line ms @ [[]]) (m(near \<mapsto> far)) (insert far seen) =
      Inr (m(near \<mapsto> far) ++ map_of (map (\<lambda>(far, near). (near, far)) ms))"
  proof (rule Cons.IH)
    show "dom (m(near \<mapsto> far)) \<inter> snd ` set ms = {}" using Cons.prems by (simp add: p)
  qed (use Cons.prems in \<open>auto simp: p\<close>)
  moreover have "m(near \<mapsto> far) ++ map_of (map (\<lambda>(far, near). (near, far)) ms) = m ++ map_of (map (\<lambda>(far, near). (near, far)) (p # ms))"
    unfolding map_add_upd_left [OF near] by (simp add: p)
  ultimately show ?case using line_not_blank [of p] l by (simp only: list.map append_Cons parse_mappings.simps p sum.case prod.case if_False)
qed

lemma header_fields:
  "string_fields (''FarUidValidity '' @ dec n) = [''FarUidValidity'', dec n]"
  "string_fields (''NearUidValidity '' @ dec n) = [''NearUidValidity'', dec n]"
  using fields_two [OF _ dense_dec, of "''FarUidValidity''" n] fields_two [OF _ dense_dec, of "''NearUidValidity''" n]
  by (simp_all add: dense_def)

lemma state_read_back:
  assumes "far \<noteq> 0" "near \<noteq> 0" "distinct (map fst ms)" "distinct (map snd ms)" "0 \<notin> fst ` set ms" "0 \<notin> snd ` set ms"
  shows "parse_folder_state (render_state far near ms) =
     Inr \<lparr>fs_available = True, fs_far_validity = far, fs_near_to_far = map_of (map (\<lambda>(f, n). (n, f)) ms)\<rparr>"
proof -
  have "CHR 0x0D \<notin> set (render_state far near ms)" using rendered_chars [of "CHR 0x0D" far near ms] by auto
  moreover have nl: "CHR 0x0A \<notin> set (''FarUidValidity '' @ dec n)" "CHR 0x0A \<notin> set (''NearUidValidity '' @ dec n)" for n
    using dense_chars [OF dense_dec, of "CHR 0x0A" n] by auto
  have "split_at CHR 0x0A (render_state far near ms) =
      (''FarUidValidity '' @ dec (unat far)) # (''NearUidValidity '' @ dec (unat near)) # [] # map render_line ms @ [[]]"
    using split_line [OF nl(1) [of "unat far"]] split_line [OF nl(2) [of "unat near"]]
    by (simp add: render_state_def split_lines)
  ultimately show ?thesis using assms parse_rendered [of ms Map.empty "{}"]
    by (simp add: parse_folder_state_def Let_def replace_crlf_none header_fields [simplified] parse_uint32_dec)
qed



text \<open>The mapping of the same file.\<close>

theorem parsed_state_injective_witness:
  "inj_on [1 \<mapsto> 5, 2 \<mapsto> (7 :: 32 word)] {1 :: 32 word, 2}"
  using parsed_state_injective [OF state_read_back [of 9 1 "[(5, 1), (7, 2)]"]] by (simp add: fun_upd_twist insert_commute)

section \<open>Maildir names\<close>

lemma path_base_slash: "CHR ''/'' \<notin> set name \<Longrightarrow> name \<noteq> [] \<Longrightarrow> path_base (dir @ ''/'' @ name) = name"
proof -
  assume n: "CHR ''/'' \<notin> set name" "name \<noteq> []"
  obtain x xs where r: "rev name = x # xs" using n(2) by (cases "rev name") auto
  have "x \<noteq> CHR ''/''" using n(1) r by (metis list.set_intros(1) set_rev)
  then have "dropWhile (\<lambda>c. c = CHR ''/'') (rev (dir @ ''/'' @ name)) = rev (dir @ ''/'' @ name)" by (simp add: r)
  moreover have "takeWhile (\<lambda>c. c \<noteq> CHR ''/'') (rev name @ ''/'' @ rev dir) = rev name"
    using n(1) by (subst takeWhile_append2) auto
  ultimately show ?thesis by (simp add: path_base_def Let_def)
qed

lemma prefix_other: "c \<noteq> d \<Longrightarrow> \<not> has_prefix (c # s) (d # t)"
  by (simp add: has_prefix_def)

lemma count_skip: "d \<notin> set s \<Longrightarrow> count_sub (d # p) (s @ t) = count_sub (d # p) t"
proof (induction s)
  case (Cons c s)
  then show ?case by (subst count_sub.simps) (auto simp: prefix_other)
qed simp

lemma index_skip: "d \<notin> set s \<Longrightarrow> index_sub (d # p) (s @ t) = map_option (\<lambda>i. length s + i) (index_sub (d # p) t)"
  by (induction s; cases "index_sub (d # p) t") (auto simp: prefix_other)

lemma count_none: "CHR ''='' \<notin> set s \<Longrightarrow> count_sub '',U='' s = 0"
proof (induction s)
  case Nil
  then show ?case by (subst count_sub.simps) simp
next
  case (Cons c s)
  have "\<not> has_prefix (c # s) '',U=''"
  proof
    assume "has_prefix (c # s) '',U=''"
    then have t: "take 3 (c # s) = '',U=''" by (simp add: has_prefix_def numeral_eq_Suc)
    have "CHR ''='' \<in> set (take 3 (c # s))" unfolding t by simp
    then show False using Cons.prems in_set_takeD by fastforce
  qed
  then show ?case using Cons by (subst count_sub.simps) simp
qed

lemma dec_plain: "c \<in> set (dec n) \<Longrightarrow> 48 \<le> (byte c :: nat) \<and> byte c \<le> (57 :: nat)"
  using dec_digits [of n] by (auto simp: list_all_iff is_digit_def)

lemma dec_no: "\<not> (48 \<le> (byte c :: nat) \<and> byte c \<le> (57 :: nat)) \<Longrightarrow> c \<notin> set (dec n)"
  using dec_plain by blast

text \<open>The local number that mbsync writes into a Maildir file name is read back, whatever the directory, the unique part and
  the flags around it.\<close>

theorem near_uid_roundtrip:
  assumes "uid \<noteq> 0" "CHR '','' \<notin> set unique" "CHR ''/'' \<notin> set unique" "CHR ''='' \<notin> set flags" "CHR ''/'' \<notin> set flags"
  shows "maildir_near_uid (dir @ ''/'' @ unique @ '',U='' @ dec (unat uid) @ '':2,'' @ flags) = Some uid"
proof -
  let ?d = "dec (unat uid)"
  have d: "CHR ''/'' \<notin> set ?d" "CHR '':'' \<notin> set ?d" "CHR ''='' \<notin> set ?d" by (simp_all add: dec_no)
  let ?name = "unique @ '',U='' @ ?d @ '':2,'' @ flags"
  have b: "path_base (dir @ ''/'' @ ?name) = ?name" using assms d by (intro path_base_slash) auto
  have "count_sub '',U='' (?d @ '':2,'' @ flags) = 0" by (rule count_none) (use assms(4) d in auto)
  then have c: "count_sub '',U='' ?name = 1"
    unfolding count_skip [OF assms(2)] by (subst count_sub.simps) (simp add: has_prefix_def)
  have i: "index_sub '',U='' ?name = Some (length unique)"
    unfolding index_skip [OF assms(2)] by (simp add: has_prefix_def)
  have e: "index_sub '':2,'' (?d @ '':2,'' @ flags) = Some (length ?d)"
    unfolding index_skip [OF d(2)] by (simp add: has_prefix_def)
  have v: "drop (length unique + 3) ?name = ?d @ '':2,'' @ flags" by simp
  show ?thesis unfolding maildir_near_uid_def b Let_def c i
    using assms(1) e by (simp add: parse_uint32_dec)
qed

text \<open>The name of a message read on a phone.\<close>

theorem near_uid_roundtrip_witness:
  "maildir_near_uid (''/mail/a/cur'' @ ''/'' @ ''1.host'' @ '',U='' @ dec (unat (7 :: 32 word)) @ '':2,'' @ ''S'') = Some 7"
  by (rule near_uid_roundtrip) simp_all

end
