(* ===== verification/Folder_Policy.thy ===== *)
theory Folder_Policy
  imports Speech_Text
begin

text \<open>
  The owner's selection of logical mailboxes (internal/folderpolicy/policy.go): the check of a whole policy
  before it is stored, and the lookups of browsing.  Each \<open>fmt.Errorf\<close> of \<open>Validate\<close> is a value of
  \<open>policy_error\<close>; simple case folding is in the record \<open>unicode\<close>.
\<close>

section \<open>Policies\<close>

record mailbox_group =
  gr_id :: string
  gr_name :: string
  gr_primary :: string
  gr_folders :: "string list"

record folder_policy =
  po_groups :: "mailbox_group list"
  po_excluded :: "string list"

datatype policy_error =
  Too_many_selections | Not_available string | Selected_twice string | Bad_identity | Bad_group_name | Too_few_folders string
| No_primary string

definition group_key :: "mailbox_group \<Rightarrow> string" where
  "group_key g = ''/groups/'' @ gr_id g"

definition valid_name :: "string \<Rightarrow> bool" where
  "valid_name value \<longleftrightarrow> value \<noteq> [] \<and> trim_space value = value \<and>
     CHR 0x00 \<notin> set value \<and> CHR 0x0D \<notin> set value \<and> CHR 0x0A \<notin> set value \<and> length value \<le> 1024"

definition remote_key :: "unicode \<Rightarrow> string \<Rightarrow> string" where
  "remote_key U value = (if equal_fold U value ''INBOX'' then ''INBOX'' else value)"

definition identity_rune :: "rune \<Rightarrow> bool" where
  "identity_rune r \<longleftrightarrow> 97 \<le> r \<and> r \<le> 122 \<or> 65 \<le> r \<and> r \<le> 90 \<or> 48 \<le> r \<and> r \<le> 57 \<or> r = 45 \<or> r = 95"

definition valid_identity :: "string \<Rightarrow> bool" where
  "valid_identity i \<longleftrightarrow> length i \<noteq> 0 \<and> length i \<le> 64 \<and> list_all identity_rune (runes i)"

section \<open>Validation\<close>

text \<open>The closure \<open>claim\<close>, with the set of claimed keys.\<close>

definition claim_folder :: "unicode \<Rightarrow> string set \<Rightarrow> string \<Rightarrow> string set \<Rightarrow> policy_error + string set" where
  "claim_folder U known folder claimed =
     (let key = remote_key U folder
      in if \<not> valid_name folder \<or> key \<notin> known then Inl (Not_available folder)
         else if key \<in> claimed then Inl (Selected_twice folder)
         else Inr (insert key claimed))"

fun claim_folders :: "unicode \<Rightarrow> string set \<Rightarrow> string list \<Rightarrow> string set \<Rightarrow> policy_error + string set" where
  "claim_folders U known [] claimed = Inr claimed"
| "claim_folders U known (f # fs) claimed = (case claim_folder U known f claimed of
      Inl e \<Rightarrow> Inl e | Inr claimed' \<Rightarrow> claim_folders U known fs claimed')"

fun check_groups :: "unicode \<Rightarrow> string set \<Rightarrow> string set \<Rightarrow> string set \<Rightarrow> mailbox_group list \<Rightarrow> string set \<Rightarrow> policy_error + string set" where
  "check_groups U known ids names [] claimed = Inr claimed"
| "check_groups U known ids names (g # gs) claimed =
     (if \<not> valid_identity (gr_id g) \<or> gr_id g \<in> ids then Inl Bad_identity
      else if \<not> valid_name (gr_name g) \<or> gr_name g \<in> names then Inl Bad_group_name
      else if length (gr_folders g) < 2 \<or> length (gr_folders g) > 4096 then Inl (Too_few_folders (gr_name g))
      else case claim_folders U known (gr_folders g) claimed of
          Inl e \<Rightarrow> Inl e
        | Inr claimed' \<Rightarrow>
            if \<not> valid_name (gr_primary g) \<or> \<not> list_ex (\<lambda>f. remote_key U f = remote_key U (gr_primary g)) (gr_folders g)
            then Inl (No_primary (gr_name g))
            else check_groups U known (insert (gr_id g) ids) (insert (gr_name g) names) gs claimed')"

definition validate_policy :: "unicode \<Rightarrow> string list \<Rightarrow> folder_policy \<Rightarrow> policy_error option" where
  "validate_policy U available p =
     (if length (po_groups p) > 256 \<or> length (po_excluded p) > 4096 then Some Too_many_selections
      else
        (let known = set (map (remote_key U) available)
         in case check_groups U known {} {} (po_groups p) {} of
             Inl e \<Rightarrow> Some e
           | Inr claimed \<Rightarrow> (case claim_folders U known (po_excluded p) claimed of Inl e \<Rightarrow> Some e | Inr _ \<Rightarrow> None)))"

section \<open>Lookups\<close>

definition membership :: "unicode \<Rightarrow> folder_policy \<Rightarrow> string \<Rightarrow> string \<times> bool" where
  "membership U p remote =
     (if list_ex (\<lambda>f. remote_key U f = remote_key U remote) (po_excluded p) then ([], True)
      else case find (\<lambda>g. list_ex (\<lambda>f. remote_key U f = remote_key U remote) (gr_folders g)) (po_groups p) of
          Some g \<Rightarrow> (group_key g, False)
        | None \<Rightarrow> ([], False))"

definition group_for_key :: "folder_policy \<Rightarrow> string \<Rightarrow> mailbox_group option" where
  "group_for_key p key = find (\<lambda>g. group_key g = key) (po_groups p)"

section \<open>What validation accepts\<close>

text \<open>Every folder a policy selects, in the order of the check.\<close>

definition selected :: "folder_policy \<Rightarrow> string list" where
  "selected p = concat (map gr_folders (po_groups p)) @ po_excluded p"

lemma claim_folders_iff:
  "claim_folders U known fs claimed = Inr claimed' \<longleftrightarrow>
     (\<forall>f \<in> set fs. valid_name f \<and> remote_key U f \<in> known) \<and> distinct (map (remote_key U) fs) \<and>
     set (map (remote_key U) fs) \<inter> claimed = {} \<and> claimed' = set (map (remote_key U) fs) \<union> claimed"
  by (induction U known fs claimed rule: claim_folders.induct) (auto simp: claim_folder_def Let_def)

lemma claim_folders_append:
  "claim_folders U known (fs @ gs) claimed = (case claim_folders U known fs claimed of
      Inl e \<Rightarrow> Inl e | Inr claimed' \<Rightarrow> claim_folders U known gs claimed')"
  by (induction U known fs claimed rule: claim_folders.induct) (auto split: sum.split)

definition group_ok :: "unicode \<Rightarrow> mailbox_group \<Rightarrow> bool" where
  "group_ok U g \<longleftrightarrow> valid_identity (gr_id g) \<and> valid_name (gr_name g) \<and>
     2 \<le> length (gr_folders g) \<and> length (gr_folders g) \<le> 4096 \<and> valid_name (gr_primary g) \<and>
     list_ex (\<lambda>f. remote_key U f = remote_key U (gr_primary g)) (gr_folders g)"

lemma check_groups_iff:
  "check_groups U known ids names gs claimed = Inr claimed' \<longleftrightarrow>
     (\<forall>g \<in> set gs. group_ok U g \<and> gr_id g \<notin> ids \<and> gr_name g \<notin> names) \<and>
     distinct (map gr_id gs) \<and> distinct (map gr_name gs) \<and>
     claim_folders U known (concat (map gr_folders gs)) claimed = Inr claimed'"
proof (induction U known ids names gs claimed rule: check_groups.induct)
  case (1 U known ids names claimed)
  then show ?case by auto
next
  case (2 U known ids names g gs claimed)
  show ?case
  proof (cases "claim_folders U known (gr_folders g) claimed")
    case (Inl e)
    then show ?thesis by (auto simp: claim_folders_append)
  next
    case (Inr c)
    with Inr 2 [of c] show ?thesis by (auto simp: claim_folders_append group_ok_def) (metis image_eqI)+
  qed
qed

text \<open>C17. Validation accepts exactly the policies with at most 256 groups and 4096 exclusions in which each group has an
  identity of its own, a clean name of its own, 2 to 4096 folders and a primary among them, and in which every
  selected folder is known to the account and selected once, INBOX compared without case.\<close>

theorem validate_policy_spec:
  "validate_policy U available p = None \<longleftrightarrow>
     length (po_groups p) \<le> 256 \<and> length (po_excluded p) \<le> 4096 \<and>
     list_all (group_ok U) (po_groups p) \<and> distinct (map gr_id (po_groups p)) \<and> distinct (map gr_name (po_groups p)) \<and>
     list_all (\<lambda>f. valid_name f \<and> remote_key U f \<in> set (map (remote_key U) available)) (selected p) \<and>
     distinct (map (remote_key U) (selected p))"
proof -
  let ?known = "set (map (remote_key U) available)"
  have "(\<exists>c. claim_folders U ?known (selected p) {} = Inr c) \<longleftrightarrow>
     list_all (\<lambda>f. valid_name f \<and> remote_key U f \<in> ?known) (selected p) \<and> distinct (map (remote_key U) (selected p))"
    by (simp add: claim_folders_iff list_all_iff)
  moreover have "validate_policy U available p = None \<longleftrightarrow>
     length (po_groups p) \<le> 256 \<and> length (po_excluded p) \<le> 4096 \<and>
     list_all (group_ok U) (po_groups p) \<and> distinct (map gr_id (po_groups p)) \<and> distinct (map gr_name (po_groups p)) \<and>
     (\<exists>c. claim_folders U ?known (selected p) {} = Inr c)"
  proof (cases "check_groups U ?known {} {} (po_groups p) {}")
    case (Inl e)
    then have "check_groups U ?known {} {} (po_groups p) {} \<noteq> Inr c" for c by simp
    then show ?thesis using Inl unfolding check_groups_iff
      by (auto simp: validate_policy_def selected_def claim_folders_append list_all_iff split: sum.splits)
  next
    case (Inr c)
    then show ?thesis using check_groups_iff [of U ?known "{}" "{}" "po_groups p" "{}" c]
      by (auto simp: validate_policy_def selected_def claim_folders_append list_all_iff split: sum.splits)
  qed
  ultimately show ?thesis by simp
qed

lemma find_unique:
  "x \<in> set xs \<Longrightarrow> P x \<Longrightarrow> (\<And>y. y \<in> set xs \<Longrightarrow> P y \<Longrightarrow> y = x) \<Longrightarrow> find P xs = Some x"
proof (induction xs)
  case (Cons a xs)
  show ?case
  proof (cases "P a")
    case True
    then show ?thesis using Cons.prems(3) [of a] by simp
  next
    case False
    then have "x \<in> set xs" using Cons.prems(1,2) by auto
    from Cons.IH [OF this Cons.prems(2)] Cons.prems(3) False show ?thesis by simp
  qed
qed simp

lemma distinct_concat_shared:
  "distinct (concat (map f xs)) \<Longrightarrow> x \<in> set xs \<Longrightarrow> y \<in> set xs \<Longrightarrow> z \<in> set (f x) \<Longrightarrow> z \<in> set (f y) \<Longrightarrow> x = y"
  by (induction xs) auto

lemma list_ex_key: "list_ex (\<lambda>x. f x = y) xs \<longleftrightarrow> y \<in> f ` set xs"
  by (auto simp: list_ex_iff)

lemma selected_keys:
  assumes "validate_policy U available p = None"
  shows "distinct (concat (map (\<lambda>g. map (remote_key U) (gr_folders g)) (po_groups p)))"
    and "g \<in> set (po_groups p) \<Longrightarrow> f \<in> set (gr_folders g) \<Longrightarrow> remote_key U f \<notin> set (map (remote_key U) (po_excluded p))"
proof -
  have "distinct (map (remote_key U) (concat (map gr_folders (po_groups p))) @ map (remote_key U) (po_excluded p))"
    using assms [unfolded validate_policy_spec] by (simp add: selected_def)
  then have d: "distinct (map (remote_key U) (concat (map gr_folders (po_groups p))))"
    and disj: "set (map (remote_key U) (concat (map gr_folders (po_groups p)))) \<inter> set (map (remote_key U) (po_excluded p)) = {}"
    unfolding distinct_append by blast+
  show "distinct (concat (map (\<lambda>g. map (remote_key U) (gr_folders g)) (po_groups p)))"
    using d by (simp add: map_concat comp_def)
  assume "g \<in> set (po_groups p)" "f \<in> set (gr_folders g)"
  then have "remote_key U f \<in> set (map (remote_key U) (concat (map gr_folders (po_groups p))))" by auto
  with disj show "remote_key U f \<notin> set (map (remote_key U) (po_excluded p))" by blast
qed

lemma group_of_folder:
  assumes "validate_policy U available p = None" "g \<in> set (po_groups p)" "f \<in> set (gr_folders g)" "remote_key U r = remote_key U f"
  shows "membership U p r = (group_key g, False)"
proof -
  have one: "h = g" if "h \<in> set (po_groups p)" "list_ex (\<lambda>x. remote_key U x = remote_key U r) (gr_folders h)" for h
  proof -
    have "remote_key U f \<in> set (map (remote_key U) (gr_folders h))" using that(2) assms(4) by (simp add: list_ex_key)
    from distinct_concat_shared [OF selected_keys(1) [OF assms(1)] that(1) assms(2) this] assms(3) show ?thesis by simp
  qed
  have "find (\<lambda>g. list_ex (\<lambda>x. remote_key U x = remote_key U r) (gr_folders g)) (po_groups p) = Some g"
  proof (rule find_unique)
    show "list_ex (\<lambda>x. remote_key U x = remote_key U r) (gr_folders g)"
      unfolding list_ex_key by (metis assms(3,4) image_eqI)
  qed (use assms(2) one in blast)+
  moreover have "\<not> list_ex (\<lambda>x. remote_key U x = remote_key U r) (po_excluded p)"
    using selected_keys(2) [OF assms(1-3)] assms(4) by (simp add: list_ex_key)
  ultimately show ?thesis by (simp add: membership_def)
qed

lemma group_of_key:
  assumes "validate_policy U available p = None" "g \<in> set (po_groups p)"
  shows "group_for_key p (group_key g) = Some g"
proof -
  have "inj_on gr_id (set (po_groups p))" using assms(1) [unfolded validate_policy_spec] by (simp add: distinct_map)
  then show ?thesis unfolding group_for_key_def
    by (intro find_unique) (use assms(2) in \<open>auto simp: group_key_def inj_on_def\<close>)
qed

text \<open>C34. In a valid policy the lookups are exact: a folder of a group is found under the key of that group and of no
  other, the key finds the group again, an excluded folder is excluded, and a folder that was not selected is
  visible on its own.\<close>

theorem membership_exact:
  assumes "validate_policy U available p = None"
  shows "(\<forall>g \<in> set (po_groups p). group_for_key p (group_key g) = Some g \<and>
      (\<forall>f \<in> set (gr_folders g). \<forall>r. remote_key U r = remote_key U f \<longrightarrow> membership U p r = (group_key g, False))) \<and>
    (\<forall>f \<in> set (po_excluded p). \<forall>r. remote_key U r = remote_key U f \<longrightarrow> membership U p r = ([], True)) \<and>
    (\<forall>r. remote_key U r \<notin> set (map (remote_key U) (selected p)) \<longrightarrow> membership U p r = ([], False))"
proof (intro conjI)
  show "\<forall>g \<in> set (po_groups p). group_for_key p (group_key g) = Some g \<and>
      (\<forall>f \<in> set (gr_folders g). \<forall>r. remote_key U r = remote_key U f \<longrightarrow> membership U p r = (group_key g, False))"
    using group_of_folder [OF assms] group_of_key [OF assms] by blast
  show "\<forall>f \<in> set (po_excluded p). \<forall>r. remote_key U r = remote_key U f \<longrightarrow> membership U p r = ([], True)"
    by (auto simp: membership_def list_ex_key)
  show "\<forall>r. remote_key U r \<notin> set (map (remote_key U) (selected p)) \<longrightarrow> membership U p r = ([], False)"
  proof (intro allI impI)
    fix r assume "remote_key U r \<notin> set (map (remote_key U) (selected p))"
    then have "remote_key U r \<notin> remote_key U ` set (po_excluded p)"
      and "\<forall>g \<in> set (po_groups p). remote_key U r \<notin> remote_key U ` set (gr_folders g)"
      by (auto simp: selected_def)
    then show "membership U p r = ([], False)" by (simp add: membership_def list_ex_key find_None_iff [THEN iffD2])
  qed
qed

section \<open>A policy\<close>

definition plain_unicode :: unicode where
  "plain_unicode = \<lparr>u_letter = \<lambda>_. False, u_latin = \<lambda>_. False, u_script = \<lambda>_ _. False, u_upper = \<lambda>r. r, u_lower = \<lambda>r. r,
     u_fold = \<lambda>r. r\<rparr>"

definition demo_policy :: folder_policy where
  "demo_policy = \<lparr>po_groups = [\<lparr>gr_id = ''g'', gr_name = ''Both'', gr_primary = ''A'', gr_folders = [''A'', ''B'']\<rparr>],
     po_excluded = [''C'']\<rparr>"

lemma demo_names:
  "remote_key plain_unicode [c] = [c]" if "ascii c"
  using that by (simp add: remote_key_def equal_fold_def plain_unicode_def ascii_def del: runes.simps)

lemma demo_name_valid: "valid_name s" if "list_all (\<lambda>c. 33 \<le> (byte c :: nat) \<and> byte c < (128 :: nat)) s" "s \<noteq> []" "length s \<le> 1024"
proof -
  have "33 \<le> (byte (hd s) :: nat) \<and> byte (hd s) < (128 :: nat)" "33 \<le> (byte (last s) :: nat) \<and> byte (last s) < (128 :: nat)"
    using that(1,2) by (auto simp: list_all_iff)
  then have "trim_space s = s" using that(2) by (intro trim_plain) (auto simp: is_space_def)
  moreover have "c \<noteq> CHR 0x00 \<and> c \<noteq> CHR 0x0D \<and> c \<noteq> CHR 0x0A" if "c \<in> set s" for c
    using that \<open>list_all _ s\<close> by (auto simp: list_all_iff)
  ultimately show ?thesis using that(2,3) by (auto simp: valid_name_def)
qed

lemma demo_policy_valid: "validate_policy plain_unicode [''A'', ''B'', ''C'', ''D''] demo_policy = None"
  unfolding validate_policy_spec
  by (simp add: demo_policy_def selected_def group_ok_def demo_names demo_name_valid ascii_def valid_identity_def
      identity_rune_def del: runes.simps)

text \<open>Two folders of the demonstration's account are read as one, and the third is hidden.\<close>

theorem membership_exact_witness:
  "membership plain_unicode demo_policy ''B'' = (''/groups/g'', False) \<and> membership plain_unicode demo_policy ''C'' = ([], True)"
  using membership_exact [OF demo_policy_valid] by (simp add: demo_policy_def group_key_def)

end
