(* ===== verification/Sync_Reconcile.thy ===== *)
theory Sync_Reconcile
  imports Mbsync_State Folder_Policy
begin

text \<open>
  Reconciliation with the provider (\<open>reconcileRemoteIdentity\<close>, \<open>reconcileIndexedMessages\<close> and
  \<open>cleanupStaleIndexedMessage\<close> in internal/mailsync/service.go): the walk over every remote folder, the snapshot of what
  the provider holds, and the removal of local copies it no longer holds.  The connection, the store, the file
  system and the clean-up directory answer through the record \<open>remote_env\<close>.
\<close>

section \<open>Identities\<close>

record remote_identity =
  ri_message_id :: string
  ri_uid :: "32 word"
  ri_validity :: "32 word"
  ri_flags :: "string list"

definition message_id_key :: "string \<Rightarrow> string \<Rightarrow> string" where
  "message_id_key folder message_id = trim_space folder @ [CHR 0x00] @ ''message-id'' @ [CHR 0x00] @ trim_space message_id"

definition identity_key :: "string \<Rightarrow> remote_identity \<Rightarrow> string" where
  "identity_key folder i =
     (if ri_uid i \<noteq> 0 \<and> ri_validity i \<noteq> 0
      then trim_space folder @ [CHR 0x00] @ ''uid'' @ [CHR 0x00] @ dec (unat (ri_validity i)) @ [CHR 0x00] @ dec (unat (ri_uid i))
      else message_id_key (trim_space folder) (ri_message_id i))"

definition retain_identity :: "string list \<Rightarrow> remote_identity \<Rightarrow> string set \<Rightarrow> string set" where
  "retain_identity folders i snapshot =
     fold (\<lambda>f snap. insert (identity_key f i)
        (if trim_space (ri_message_id i) \<noteq> [] then insert (message_id_key f (ri_message_id i)) snap else snap)) folders snapshot"

section \<open>Local changes that the provider may not show yet\<close>

record read_change =
  rc_message_id :: string
  rc_uid :: "32 word"
  rc_validity :: "32 word"

definition uid_key :: "32 word \<Rightarrow> 32 word \<Rightarrow> string" where
  "uid_key uid validity = ''uid:'' @ dec (unat uid) @ '':'' @ dec (unat validity)"

definition add_pending_read :: "read_change \<Rightarrow> string set \<Rightarrow> string set" where
  "add_pending_read c pending =
     (let p1 = (if rc_uid c \<noteq> 0 \<and> rc_validity c \<noteq> 0 then insert (uid_key (rc_uid c) (rc_validity c)) pending else pending)
      in if trim_space (rc_message_id c) \<noteq> [] then insert (''mid:'' @ rc_message_id c) p1 else p1)"

definition keep_local_read :: "string set \<Rightarrow> remote_identity \<Rightarrow> bool" where
  "keep_local_read pending i \<longleftrightarrow>
     uid_key (ri_uid i) (ri_validity i) \<in> pending \<or>
     trim_space (ri_message_id i) \<noteq> [] \<and> ''mid:'' @ trim_space (ri_message_id i) \<in> pending"

section \<open>The environment\<close>

record index_row =
  ix_id :: int
  ix_path :: string
  ix_folder :: string
  ix_message_id :: string
  ix_uid :: "32 word"
  ix_validity :: "32 word"

text \<open>A queue of the journal is asked for only when the snapshot of the journal is positive (\<open>rm_watermark\<close>).  The clean-up
  directory, when there is one, is prepared for a path; \<open>rm_relative\<close> is the check of the path relative to the root.\<close>

record remote_env =
  rm_credentials :: bool
  rm_open :: "go_error option"
  rm_watermark :: int
  rm_pending :: "go_error + read_change list"
  rm_recent :: "go_error + read_change list"
  rm_roles :: "go_error + (string \<Rightarrow> string)"
  rm_folders :: "go_error + string list"
  rm_mapping :: "string \<Rightarrow> string"
  rm_upsert :: "string \<Rightarrow> go_error option"
  rm_list :: "string \<Rightarrow> go_error + remote_identity list"
  rm_physical :: "string \<Rightarrow> go_error + string list"
  rm_update :: "string \<Rightarrow> remote_identity \<Rightarrow> go_error option"
  rm_rows :: "go_error + index_row list"
  rm_under_root :: "string \<Rightarrow> bool"
  rm_state :: "string \<Rightarrow> go_error + folder_state"
  rm_hydrate :: "int \<Rightarrow> go_error option"
  rm_relative :: "string \<Rightarrow> bool"
  rm_quarantine :: "(string \<Rightarrow> go_error option) option"
  rm_audit :: "int \<Rightarrow> go_error option"
  rm_move :: "string \<Rightarrow> go_error option"
  rm_delete :: "int \<Rightarrow> go_error option"
  rm_prune :: "go_error option"

datatype remote_act =
  Upsert_folder string string string
| Update_identity string remote_identity bool
| Hydrate_uid int "32 word" "32 word"
| Audit_cleanup int string
| Quarantine_file string
| Remove_file string
| Delete_row int
| Prune_folders "string list"

section \<open>The walk over the remote folders\<close>

definition pending_reads :: "remote_env \<Rightarrow> string set" where
  "pending_reads en =
     (let queued = (if rm_watermark en > 0 then (case rm_pending en of Inl _ \<Rightarrow> [] | Inr cs \<Rightarrow> cs) else []);
          recent = (case rm_recent en of Inl _ \<Rightarrow> [] | Inr cs \<Rightarrow> cs)
      in fold add_pending_read (queued @ recent) {})"

definition local_folder :: "unicode \<Rightarrow> remote_env \<Rightarrow> string \<Rightarrow> string" where
  "local_folder U en folder =
     (let mapped = rm_mapping en folder
      in if mapped = [] \<and> equal_fold U folder ''INBOX'' then ''Inbox'' else if mapped = [] then folder else mapped)"

fun update_identities :: "remote_env \<Rightarrow> string set \<Rightarrow> string \<Rightarrow> remote_identity list \<Rightarrow> remote_act list \<times> go_error option" where
  "update_identities en pending target [] = ([], None)"
| "update_identities en pending target (i # is) =
     (let act = Update_identity target i (keep_local_read pending i)
      in case rm_update en target i of
          Some e \<Rightarrow> ([act], Some e)
        | None \<Rightarrow> (case update_identities en pending target is of (acts, err) \<Rightarrow> (act # acts, err)))"

text \<open>One folder: the acts, and the snapshot with what the folder holds.\<close>

definition walk_folder :: "unicode \<Rightarrow> remote_env \<Rightarrow> string set \<Rightarrow> (string \<Rightarrow> string) \<Rightarrow> string \<Rightarrow> string set \<Rightarrow>
    remote_act list \<times> (go_error + string set)" where
  "walk_folder U en pending roles folder snapshot =
     (let target = local_folder U en folder; up = Upsert_folder folder target (roles folder)
      in case rm_upsert en folder of
          Some e \<Rightarrow> ([up], Inl e)
        | None \<Rightarrow> (case rm_list en folder of
              Inl e \<Rightarrow> ([up], Inl (Wrapped ''reconcile IMAP folder: '' e))
            | Inr ids \<Rightarrow> (case rm_physical en folder of
                  Inl e \<Rightarrow> ([up], Inl e)
                | Inr physical \<Rightarrow> (case update_identities en pending target ids of
                      (acts, Some e) \<Rightarrow> (up # acts, Inl e)
                    | (acts, None) \<Rightarrow> (up # acts, Inr (fold (retain_identity physical) ids snapshot))))))"

fun walk_folders :: "unicode \<Rightarrow> remote_env \<Rightarrow> string set \<Rightarrow> (string \<Rightarrow> string) \<Rightarrow> string list \<Rightarrow> string set \<Rightarrow>
    remote_act list \<times> (go_error + string set)" where
  "walk_folders U en pending roles [] snapshot = ([], Inr snapshot)"
| "walk_folders U en pending roles (f # fs) snapshot =
     (case walk_folder U en pending roles f snapshot of
        (acts, Inl e) \<Rightarrow> (acts, Inl e)
      | (acts, Inr snapshot') \<Rightarrow> (case walk_folders U en pending roles fs snapshot' of (acts', r) \<Rightarrow> (acts @ acts', r)))"

section \<open>Rows of the index\<close>

datatype row_identity = Unreadable | Unknown | From_state "32 word" "32 word" | No_state

text \<open>\<open>mbsyncIdentityForPath\<close>, with the cache of the states read so far.\<close>

definition identity_for_path :: "remote_env \<Rightarrow> index_row \<Rightarrow> (string \<rightharpoonup> folder_state) \<Rightarrow> row_identity \<times> (string \<rightharpoonup> folder_state)" where
  "identity_for_path en row cache =
     (if \<not> rm_under_root en (ix_path row) then (Unknown, cache)
      else
        (case (case cache (ix_folder row) of Some st \<Rightarrow> Inr (st, cache)
               | None \<Rightarrow> (case rm_state en (ix_folder row) of Inl e \<Rightarrow> Inl e | Inr st \<Rightarrow> Inr (st, cache(ix_folder row \<mapsto> st)))) of
           Inl _ \<Rightarrow> (Unreadable, cache)
         | Inr (st, cache') \<Rightarrow>
             (if \<not> fs_available st then No_state
              else case maildir_near_uid (ix_path row) of
                  None \<Rightarrow> Unknown
                | Some near \<Rightarrow> (case fs_near_to_far st near of None \<Rightarrow> Unknown | Some far \<Rightarrow> From_state far (fs_far_validity st)), cache')))"

text \<open>What is done with one row: its numbers are taken over from the state, and it is stale when the snapshot has no key of it.\<close>

definition judge_row :: "remote_env \<Rightarrow> string set \<Rightarrow> index_row \<Rightarrow> row_identity \<Rightarrow> index_row option \<times> index_row option" where
  "judge_row en snapshot row r = (case r of
      Unreadable \<Rightarrow> (None, None)
    | Unknown \<Rightarrow> (None, None)
    | From_state uid validity \<Rightarrow>
        (let row' = row\<lparr>ix_uid := uid, ix_validity := validity\<rparr>;
             key = identity_key (ix_folder row) \<lparr>ri_message_id = [], ri_uid = uid, ri_validity = validity, ri_flags = []\<rparr>
         in (Some row',
             if uid = 0 \<and> validity = 0 \<and> trim_space (ix_message_id row) = [] then None
             else if key \<notin> snapshot \<and> rm_under_root en (ix_path row) then Some row' else None))
    | No_state \<Rightarrow>
        (let key = identity_key (ix_folder row)
               \<lparr>ri_message_id = ix_message_id row, ri_uid = ix_uid row, ri_validity = ix_validity row, ri_flags = []\<rparr>
         in (None,
             if ix_uid row = 0 \<and> ix_validity row = 0 \<and> trim_space (ix_message_id row) = [] then None
             else if key \<notin> snapshot \<and> rm_under_root en (ix_path row) then Some row else None)))"

fun judge_rows :: "remote_env \<Rightarrow> string set \<Rightarrow> index_row list \<Rightarrow> (string \<rightharpoonup> folder_state) \<Rightarrow> index_row list \<times> index_row list" where
  "judge_rows en snapshot [] cache = ([], [])"
| "judge_rows en snapshot (row # rows) cache =
     (case identity_for_path en row cache of (r, cache') \<Rightarrow>
        (case judge_row en snapshot row r of (h, s) \<Rightarrow>
           (case judge_rows en snapshot rows cache' of (hs, ss) \<Rightarrow>
              ((case h of None \<Rightarrow> hs | Some x \<Rightarrow> x # hs), (case s of None \<Rightarrow> ss | Some x \<Rightarrow> x # ss)))))"

section \<open>Removing a stale copy\<close>

text \<open>The decision is recorded before the file is touched, and the row goes last; a missing file is no failure (\<open>rm_move\<close>).\<close>

definition cleanup_stale :: "remote_env \<Rightarrow> index_row \<Rightarrow> remote_act list" where
  "cleanup_stale en row =
     (if \<not> rm_relative en (ix_path row) then []
      else if (case rm_quarantine en of None \<Rightarrow> False | Some prepare \<Rightarrow> prepare (ix_path row) \<noteq> None) then []
      else
        (let action = (if rm_quarantine en = None then ''remove'' else ''quarantine'');
             file = (if rm_quarantine en = None then Remove_file (ix_path row) else Quarantine_file (ix_path row))
         in if rm_audit en (ix_id row) \<noteq> None then [Audit_cleanup (ix_id row) action]
            else if rm_move en (ix_path row) \<noteq> None then [Audit_cleanup (ix_id row) action, file]
            else [Audit_cleanup (ix_id row) action, file, Delete_row (ix_id row)]))"

definition reconcile_indexed :: "remote_env \<Rightarrow> string set \<Rightarrow> remote_act list \<times> go_error option" where
  "reconcile_indexed en snapshot = (case rm_rows en of
      Inl e \<Rightarrow> ([], Some e)
    | Inr rows \<Rightarrow>
        (case judge_rows en snapshot rows Map.empty of (hydrated, stale) \<Rightarrow>
           (map (\<lambda>r. Hydrate_uid (ix_id r) (ix_uid r) (ix_validity r)) hydrated @ concat (map (cleanup_stale en) stale), None)))"

section \<open>The whole pass\<close>

definition reconcile_remote :: "unicode \<Rightarrow> remote_env \<Rightarrow> remote_act list \<times> go_error option" where
  "reconcile_remote U en =
     (if \<not> rm_credentials en then ([], None)
      else case rm_open en of
          Some e \<Rightarrow> ([], Some e)
        | None \<Rightarrow> (case rm_roles en of
              Inl e \<Rightarrow> ([], Some e)
            | Inr roles \<Rightarrow> (case rm_folders en of
                  Inl e \<Rightarrow> ([], Some (Wrapped ''discover IMAP folders for reconciliation: '' e))
                | Inr fs \<Rightarrow> (case walk_folders U en (pending_reads en) roles fs {} of
                      (acts, Inl e) \<Rightarrow> (acts, Some e)
                    | (acts, Inr snapshot) \<Rightarrow> (case reconcile_indexed en snapshot of
                          (acts', Some e) \<Rightarrow> (acts @ acts', Some (Wrapped ''reconcile stale indexed messages: '' e))
                        | (acts', None) \<Rightarrow>
                            (acts @ acts' @ [Prune_folders fs], map_option (Wrapped ''prune stale IMAP folders: '') (rm_prune en)))))))"

section \<open>Trimming twice\<close>

lemma decode_prefix: "u \<noteq> [] \<Longrightarrow> fst (decode_rune u) = rune_error \<or> decode_rune (u @ v) = decode_rune u"
  by (auto simp: decode_rune_def Let_def split: list.splits)

lemma trim_left_done: "trim_left s = [] \<or> \<not> is_space (fst (decode_rune (trim_left s)))"
proof (induction s rule: trim_left.induct)
  case (1 s)
  then show ?case by (subst (1 2) trim_left.simps) auto
qed

lemma trim_right_prefix: "\<exists>v. s = trim_right s @ v"
proof (induction s rule: trim_right.induct)
  case (1 s)
  show ?case
  proof (cases "s \<noteq> [] \<and> is_space (fst (decode_last_rune s)) \<and> 0 < snd (decode_last_rune s)")
    case True
    let ?n = "length s - snd (decode_last_rune s)"
    obtain v where "take ?n s = trim_right (take ?n s) @ v" using 1 True by blast
    then have "s = trim_right (take ?n s) @ v @ drop ?n s" by (metis append_assoc append_take_drop_id)
    then show ?thesis using True by (subst trim_right.simps) auto
  next
    case False
    then show ?thesis by (subst trim_right.simps) auto
  qed
qed

lemma trim_right_twice: "trim_right (trim_right s) = trim_right s"
proof (induction s rule: trim_right.induct)
  case (1 s)
  then show ?case
    by (cases "s \<noteq> [] \<and> is_space (fst (decode_last_rune s)) \<and> 0 < snd (decode_last_rune s)")
      (auto simp: trim_right.simps [of s])
qed

lemma trim_twice [simp]: "trim_space (trim_space s) = trim_space s"
proof -
  obtain v where v: "trim_left s = trim_space s @ v" using trim_right_prefix [of "trim_left s"] by (auto simp: trim_space_def)
  have "trim_left (trim_space s) = trim_space s"
  proof (cases "trim_space s = []")
    case True
    then show ?thesis by (simp add: trim_left.simps)
  next
    case False
    then have "\<not> is_space (fst (decode_rune (trim_space s)))"
    proof (cases "fst (decode_rune (trim_space s)) = rune_error")
      case True
      then show ?thesis by (simp add: is_space_def rune_error_def)
    next
      case wide: False
      have "trim_left s \<noteq> []" using False v by simp
      moreover have "decode_rune (trim_left s) = decode_rune (trim_space s)" unfolding v using decode_prefix [OF False, of v] wide by blast
      ultimately show ?thesis using trim_left_done [of s] by simp
    qed
    then show ?thesis by (subst trim_left.simps) simp
  qed
  then show ?thesis by (simp add: trim_space_def trim_right_twice)
qed

section \<open>The cache of states\<close>

definition cache_ok :: "remote_env \<Rightarrow> (string \<rightharpoonup> folder_state) \<Rightarrow> bool" where
  "cache_ok en cache \<longleftrightarrow> (\<forall>f st. cache f = Some st \<longrightarrow> rm_state en f = Inr st)"

lemma cache_same: "cache_ok en cache \<Longrightarrow> fst (identity_for_path en row cache) = fst (identity_for_path en row Map.empty)"
  by (auto simp: identity_for_path_def cache_ok_def split: option.splits sum.splits)

lemma cache_kept: "cache_ok en cache \<Longrightarrow> cache_ok en (snd (identity_for_path en row cache))"
  by (auto simp: identity_for_path_def cache_ok_def split: option.splits sum.splits if_splits)

definition judged :: "remote_env \<Rightarrow> string set \<Rightarrow> index_row \<Rightarrow> index_row option \<times> index_row option" where
  "judged en snapshot row = judge_row en snapshot row (fst (identity_for_path en row Map.empty))"

lemma judge_rows_plain:
  "cache_ok en cache \<Longrightarrow> judge_rows en snapshot rows cache =
     (List.map_filter (fst \<circ> judged en snapshot) rows, List.map_filter (snd \<circ> judged en snapshot) rows)"
proof (induction rows arbitrary: cache)
  case (Cons row rows)
  obtain r c where i: "identity_for_path en row cache = (r, c)" by (cases "identity_for_path en row cache")
  then have "r = fst (identity_for_path en row Map.empty)" "cache_ok en c"
    using cache_same [OF Cons.prems, of row] cache_kept [OF Cons.prems, of row] by simp_all
  with Cons.IH [of c] i show ?case
    by (auto simp: judged_def map_filter_simps split: prod.split option.split)
qed (simp add: map_filter_simps)

section \<open>What the snapshot holds\<close>

lemma retain_cons: "retain_identity (g # fs) i snapshot = retain_identity fs i (insert (identity_key g i)
    (if trim_space (ri_message_id i) \<noteq> [] then insert (message_id_key g (ri_message_id i)) snapshot else snapshot))"
  by (simp add: retain_identity_def)

lemma retain_nil: "retain_identity [] i snapshot = snapshot"
  by (simp add: retain_identity_def)

lemma retain_one_mono: "x \<in> snapshot \<Longrightarrow> x \<in> retain_identity fs i snapshot"
  by (induction fs arbitrary: snapshot) (simp_all add: retain_nil retain_cons)

lemma retain_mem: "x \<in> snapshot \<Longrightarrow> x \<in> fold (retain_identity ph) ids snapshot"
  by (induction ids arbitrary: snapshot) (simp_all add: retain_one_mono)

lemma retain_mono: "snapshot \<subseteq> fold (retain_identity ph) ids snapshot"
  using retain_mem by blast

lemma retain_keys:
  "f \<in> set fs \<Longrightarrow> identity_key f i \<in> retain_identity fs i snapshot \<and>
     (trim_space (ri_message_id i) \<noteq> [] \<longrightarrow> message_id_key f (ri_message_id i) \<in> retain_identity fs i snapshot)"
proof (induction fs arbitrary: snapshot)
  case (Cons g fs)
  show ?case
  proof (cases "f = g")
    case True
    then show ?thesis by (simp add: retain_cons retain_one_mono)
  next
    case False
    then show ?thesis using Cons by (simp add: retain_cons)
  qed
qed simp

lemma retain_all:
  "i \<in> set ids \<Longrightarrow> f \<in> set ph \<Longrightarrow> identity_key f i \<in> fold (retain_identity ph) ids snapshot \<and>
     (trim_space (ri_message_id i) \<noteq> [] \<longrightarrow> message_id_key f (ri_message_id i) \<in> fold (retain_identity ph) ids snapshot)"
proof (induction ids arbitrary: snapshot)
  case (Cons j ids)
  show ?case
  proof (cases "i = j")
    case True
    then show ?thesis
      using retain_keys [OF Cons.prems(2), of i snapshot] subsetD [OF retain_mono [of "retain_identity ph i snapshot" ph ids]] by auto
  next
    case False
    then show ?thesis using Cons by simp
  qed
qed simp

definition deletes :: "remote_act \<Rightarrow> bool" where
  "deletes act = (case act of Upsert_folder _ _ _ \<Rightarrow> False | Update_identity _ _ _ \<Rightarrow> False | Hydrate_uid _ _ _ \<Rightarrow> False
     | Audit_cleanup _ _ \<Rightarrow> False | _ \<Rightarrow> True)"

lemma update_deletes: "act \<in> set (fst (update_identities en pending t ids)) \<Longrightarrow> \<not> deletes act"
  by (induction ids) (auto simp: deletes_def Let_def split: option.splits prod.splits)

lemma walk_folder_deletes: "act \<in> set (fst (walk_folder U en pending roles f snapshot)) \<Longrightarrow> \<not> deletes act"
proof -
  assume "act \<in> set (fst (walk_folder U en pending roles f snapshot))"
  then have "act = Upsert_folder f (local_folder U en f) (roles f) \<or> (\<exists>ids. act \<in> set (fst (update_identities en pending (local_folder U en f) ids)))"
    by (auto simp: walk_folder_def Let_def split: option.splits sum.splits prod.splits) (metis fst_conv)+
  then show ?thesis using update_deletes by (auto simp: deletes_def)
qed

lemma walk_acts:
  "act \<in> set (fst (walk_folders U en pending roles fs snapshot)) \<Longrightarrow> \<exists>f s. act \<in> set (fst (walk_folder U en pending roles f s))"
proof (induction fs arbitrary: snapshot)
  case (Cons f fs)
  obtain acts r where w: "walk_folder U en pending roles f snapshot = (acts, r)" by (cases "walk_folder U en pending roles f snapshot")
  show ?case
  proof (cases "act \<in> set acts")
    case True
    then show ?thesis using w by (metis fst_conv)
  next
    case False
    then obtain s where "r = Inr s" "act \<in> set (fst (walk_folders U en pending roles fs s))"
      using Cons.prems w by (cases r) (auto split: prod.splits)
    then show ?thesis using Cons.IH by blast
  qed
qed simp

lemma walk_deletes: "act \<in> set (fst (walk_folders U en pending roles fs snapshot)) \<Longrightarrow> \<not> deletes act"
  using walk_acts walk_folder_deletes by metis

lemma walk_folder_snapshot:
  assumes "snd (walk_folder U en pending roles f snapshot) = Inr snapshot'"
  shows "\<exists>ids ph. rm_list en f = Inr ids \<and> rm_physical en f = Inr ph \<and> snapshot' = fold (retain_identity ph) ids snapshot"
  using assms by (auto simp: walk_folder_def Let_def split: option.splits sum.splits prod.splits)

lemma walk_snapshot:
  "snd (walk_folders U en pending roles fs snapshot) = Inr snapshot' \<Longrightarrow> snapshot \<subseteq> snapshot' \<and>
     (\<forall>f \<in> set fs. \<exists>ids ph. rm_list en f = Inr ids \<and> rm_physical en f = Inr ph \<and> (\<exists>s. fold (retain_identity ph) ids s \<subseteq> snapshot'))"
proof (induction fs arbitrary: snapshot)
  case (Cons f fs)
  obtain s where s: "snd (walk_folder U en pending roles f snapshot) = Inr s" "snd (walk_folders U en pending roles fs s) = Inr snapshot'"
    using Cons.prems by (auto split: prod.splits sum.splits)
  obtain ids ph where f: "rm_list en f = Inr ids" "rm_physical en f = Inr ph" "s = fold (retain_identity ph) ids snapshot"
    using walk_folder_snapshot [OF s(1)] by blast
  then show ?case using Cons.IH [OF s(2)] retain_mono [of snapshot ph ids] by auto
qed simp

section \<open>Only absent messages are removed\<close>

text \<open>Whether an identity listed by the provider is the message of a row: by its numbers, or, for a row without numbers, by
  its Message-ID.\<close>

definition same_message :: "remote_env \<Rightarrow> index_row \<Rightarrow> remote_identity \<Rightarrow> bool" where
  "same_message en row i = (case fst (identity_for_path en row Map.empty) of
      From_state uid validity \<Rightarrow> uid \<noteq> 0 \<and> validity \<noteq> 0 \<and> ri_uid i = uid \<and> ri_validity i = validity
    | No_state \<Rightarrow>
        if ix_uid row \<noteq> 0 \<and> ix_validity row \<noteq> 0 then ri_uid i = ix_uid row \<and> ri_validity i = ix_validity row
        else trim_space (ri_message_id i) \<noteq> [] \<and> trim_space (ri_message_id i) = trim_space (ix_message_id row)
    | _ \<Rightarrow> True)"

definition provider_holds :: "remote_env \<Rightarrow> index_row \<Rightarrow> string \<Rightarrow> bool" where
  "provider_holds en row f = (case (rm_list en f, rm_physical en f) of
      (Inr ids, Inr physical) \<Rightarrow> ix_folder row \<in> set physical \<and> list_ex (same_message en row) ids
    | _ \<Rightarrow> True)"

lemma stale_absent:
  assumes "snd (judged en snapshot row) = Some row'" "same_message en row i"
    "identity_key (ix_folder row) i \<in> snapshot"
    "trim_space (ri_message_id i) \<noteq> [] \<longrightarrow> message_id_key (ix_folder row) (ri_message_id i) \<in> snapshot"
  shows False
  using assms
  by (auto simp: judged_def judge_row_def same_message_def identity_key_def message_id_key_def Let_def
      split: row_identity.splits if_splits)

lemma stale_row:
  assumes "snd (judged en snapshot row) = Some row'"
  shows "ix_id row' = ix_id row \<and> ix_path row' = ix_path row \<and> rm_under_root en (ix_path row)"
  using assms by (auto simp: judged_def judge_row_def Let_def split: row_identity.splits if_splits)

lemma map_filter_mem: "y \<in> set (List.map_filter g xs) \<Longrightarrow> \<exists>x \<in> set xs. g x = Some y"
  by (auto simp: List.map_filter_def)

lemma cleanup_deletes: "Delete_row n \<in> set (cleanup_stale en row) \<Longrightarrow> n = ix_id row \<and> rm_relative en (ix_path row)"
  by (auto simp: cleanup_stale_def Let_def split: if_splits)

lemma indexed_deletes:
  assumes "Delete_row n \<in> set (fst (reconcile_indexed en snapshot))"
  shows "\<exists>rows row row'. rm_rows en = Inr rows \<and> row \<in> set rows \<and> ix_id row = n \<and> snd (judged en snapshot row) = Some row' \<and>
     rm_relative en (ix_path row)"
proof -
  obtain rows where r: "rm_rows en = Inr rows" using assms by (auto simp: reconcile_indexed_def split: sum.splits)
  have "cache_ok en Map.empty" by (simp add: cache_ok_def)
  from judge_rows_plain [OF this, of snapshot rows] obtain row' where
    "row' \<in> set (List.map_filter (snd \<circ> judged en snapshot) rows)" "Delete_row n \<in> set (cleanup_stale en row')"
    using assms r by (auto simp: reconcile_indexed_def)
  then show ?thesis using map_filter_mem [of row' "snd \<circ> judged en snapshot" rows] stale_row cleanup_deletes r by fastforce
qed


section \<open>Recent local changes win\<close>

lemma pending_mono: "pending \<subseteq> fold add_pending_read cs pending"
proof (induction cs arbitrary: pending)
  case (Cons c cs)
  have "pending \<subseteq> add_pending_read c pending" by (auto simp: add_pending_read_def Let_def)
  with Cons.IH [of "add_pending_read c pending"] show ?case by simp
qed simp

lemma pending_has:
  "c \<in> set cs \<Longrightarrow> rc_uid c \<noteq> 0 \<Longrightarrow> rc_validity c \<noteq> 0 \<Longrightarrow> uid_key (rc_uid c) (rc_validity c) \<in> fold add_pending_read cs pending"
proof (induction cs arbitrary: pending)
  case (Cons d cs)
  show ?case
  proof (cases "c = d")
    case True
    then have "uid_key (rc_uid c) (rc_validity c) \<in> add_pending_read d pending"
      using Cons.prems by (simp add: add_pending_read_def Let_def)
    then show ?thesis using pending_mono [of "add_pending_read d pending" cs] by auto
  next
    case False
    then show ?thesis using Cons by simp
  qed
qed simp

lemma update_keeps: "Update_identity t i k \<in> set (fst (update_identities en pending t' ids)) \<Longrightarrow> k = keep_local_read pending i"
  by (induction ids) (auto simp: Let_def split: option.splits prod.splits)

lemma walk_folder_keeps:
  "Update_identity t i k \<in> set (fst (walk_folder U en pending roles f snapshot)) \<Longrightarrow> k = keep_local_read pending i"
  using update_keeps [of t i k en pending "local_folder U en f"]
  by (auto simp: walk_folder_def Let_def split: option.splits sum.splits prod.splits) (metis fst_conv)+

lemma walk_keeps:
  "Update_identity t i k \<in> set (fst (walk_folders U en pending roles fs snapshot)) \<Longrightarrow> k = keep_local_read pending i"
  using walk_acts walk_folder_keeps by metis

lemma indexed_updates: "Update_identity t i k \<notin> set (fst (reconcile_indexed en snapshot))"
  by (auto simp: reconcile_indexed_def cleanup_stale_def Let_def split: sum.splits prod.splits if_splits)


section \<open>A provider\<close>

definition demo_identity :: remote_identity where
  "demo_identity = \<lparr>ri_message_id = [], ri_uid = 1, ri_validity = 9, ri_flags = []\<rparr>"

definition demo_remote :: "remote_identity list \<Rightarrow> remote_env" where
  "demo_remote ids = \<lparr>rm_credentials = True, rm_open = None, rm_watermark = 0, rm_pending = Inr [],
     rm_recent = Inr [\<lparr>rc_message_id = [], rc_uid = 1, rc_validity = 9\<rparr>], rm_roles = Inr (\<lambda>_. []), rm_folders = Inr [''A''],
     rm_mapping = (\<lambda>_. ''B''), rm_upsert = (\<lambda>_. None), rm_list = (\<lambda>_. Inr ids), rm_physical = (\<lambda>_. Inr [''B'']),
     rm_update = (\<lambda>_ _. None),
     rm_rows = Inr [\<lparr>ix_id = 7, ix_path = ''/m/B/cur/x'', ix_folder = ''B'', ix_message_id = [], ix_uid = 1, ix_validity = 9\<rparr>],
     rm_under_root = (\<lambda>_. True),
     rm_state = (\<lambda>_. Inr \<lparr>fs_available = False, fs_far_validity = 0, fs_near_to_far = Map.empty\<rparr>), rm_hydrate = (\<lambda>_. None),
     rm_relative = (\<lambda>_. True), rm_quarantine = None, rm_audit = (\<lambda>_. None), rm_move = (\<lambda>_. None), rm_delete = (\<lambda>_. None),
     rm_prune = None\<rparr>"

lemma demo_empty_walk: "Delete_row 7 \<in> set (fst (reconcile_remote U (demo_remote [])))"
  by (simp add: reconcile_remote_def demo_remote_def walk_folder_def local_folder_def Let_def reconcile_indexed_def identity_for_path_def
      judge_row_def cleanup_stale_def)



end
