(* ===== verification/Speech_Pool.thy ===== *)
theory Speech_Pool
  imports Mbsync_State
begin

text \<open>
  The pool of speech runtimes (internal/speech/lifecycle.go): a runtime for each voice and speed while a call uses it,
  one engine for each model shared by its runtimes, leases, and voices that are kept warm.  Every critical
  section of the code is an operation here; the engine processes, the voice files and the fingerprints of models
  are parameters.
\<close>

section \<open>Keys\<close>

definition normalize_speed :: "int \<Rightarrow> int" where
  "normalize_speed speed = (if speed < 1 \<or> speed > 5 then 3 else speed)"

text \<open>\<open>filepath.Ext\<close> looks for the last dot of the last element; \<open>strings.TrimSuffix\<close>; \<open>poolVoiceKey\<close>.\<close>

definition last_element :: "string \<Rightarrow> string" where
  "last_element name = (case last_index_byte name CHR ''/'' of None \<Rightarrow> name | Some i \<Rightarrow> drop (Suc i) name)"

definition path_ext :: "string \<Rightarrow> string" where
  "path_ext name = (case last_index_byte (last_element name) CHR ''.'' of None \<Rightarrow> [] | Some i \<Rightarrow> drop i (last_element name))"

definition trim_suffix :: "string \<Rightarrow> string \<Rightarrow> string" where
  "trim_suffix s e = (if e \<noteq> [] \<and> drop (length s - length e) s = e then take (length s - length e) s else s)"

definition pool_voice_key :: "string \<Rightarrow> string" where
  "pool_voice_key voice =
     (let name = trim_space voice
      in if name = [] then ''en_US-hfc_male-medium'' else trim_suffix (path_base name) (path_ext name))"

text \<open>What \<open>Activate\<close> computes first: the key of the runtime, the key of its engine and the display name.  \<open>resolve\<close> gives
  the path of a voice and the fingerprint of its model, empty when there is none.\<close>

definition activation_keys :: "(string \<Rightarrow> string \<times> string) \<Rightarrow> string \<Rightarrow> int \<Rightarrow> string \<times> string \<times> string" where
  "activation_keys resolve voice speed =
     (let original = (if voice = [] then ''en_US-hfc_male-medium'' else voice);
          (model, found) = resolve original;
          digest = (if found = [] then ''unavailable'' else found)
      in (trim_space original @ ''|'' @ digest @ ''|'' @ itoa (normalize_speed speed),
          (if digest = ''unavailable'' then model else digest), pool_voice_key original))"

section \<open>State\<close>

record speech_runtime =
  rt_key :: string
  rt_refs :: nat
  rt_ready :: "nat option"
  rt_worker :: "nat option"
  rt_release :: "string option"

record pooled_worker =
  pw_engine :: nat
  pw_voice :: string
  pw_resident :: bool
  pw_refs :: nat

text \<open>The warm-up of one period of use, named by its \<open>ready\<close> channel: the engine it tries, with whether it started the
  engine itself.\<close>

record warm_up =
  wm_runtime :: nat
  wm_engine :: "(nat \<times> bool) option"
  wm_installed :: bool

record speech_pool =
  sp_runtimes :: "string \<rightharpoonup> nat"
  sp_objects :: "nat \<rightharpoonup> speech_runtime"
  sp_workers :: "string \<rightharpoonup> pooled_worker"
  sp_leases :: "nat \<rightharpoonup> nat"
  sp_pinned :: "string \<rightharpoonup> nat"
  sp_warming :: "nat \<rightharpoonup> warm_up"
  sp_started :: "nat set"
  sp_closed :: "nat set"
  sp_next :: nat

definition new_pool :: speech_pool where
  "new_pool = \<lparr>sp_runtimes = Map.empty, sp_objects = Map.empty, sp_workers = Map.empty, sp_leases = Map.empty, sp_pinned = Map.empty,
     sp_warming = Map.empty, sp_started = {}, sp_closed = {}, sp_next = 0\<rparr>"

datatype engine_start = Resident_engine | Cli_engine | No_engine

definition close_engine :: "nat \<Rightarrow> speech_pool \<Rightarrow> speech_pool" where
  "close_engine e p = p\<lparr>sp_closed := insert e (sp_closed p)\<rparr>"

definition upd_runtime :: "nat \<Rightarrow> (speech_runtime \<Rightarrow> speech_runtime) \<Rightarrow> speech_pool \<Rightarrow> speech_pool" where
  "upd_runtime r f p = (case sp_objects p r of None \<Rightarrow> p | Some rt \<Rightarrow> p\<lparr>sp_objects := (sp_objects p)(r \<mapsto> f rt)\<rparr>)"

section \<open>Activation\<close>

text \<open>The three critical sections of \<open>RuntimePool.Activate\<close>: the runtime of the key, the engine of the model, and its
  assignment to a new runtime.\<close>

definition pool_lookup :: "string \<Rightarrow> speech_pool \<Rightarrow> nat \<times> bool \<times> speech_pool" where
  "pool_lookup key p = (case sp_runtimes p key of
      Some r \<Rightarrow> (r, False, p)
    | None \<Rightarrow>
        (let r = sp_next p
         in (r, True, p\<lparr>sp_runtimes := (sp_runtimes p)(key \<mapsto> r), sp_next := Suc r,
               sp_objects := (sp_objects p)(r \<mapsto> \<lparr>rt_key = key, rt_refs = 0, rt_ready = None, rt_worker = None, rt_release = None\<rparr>)\<rparr>)))"

definition worker_for :: "engine_start \<Rightarrow> string \<Rightarrow> string \<Rightarrow> speech_pool \<Rightarrow> nat option \<times> speech_pool" where
  "worker_for start k voice p = (case sp_workers p k of
      Some w \<Rightarrow> (Some (pw_engine w), p\<lparr>sp_workers := (sp_workers p)(k \<mapsto> w\<lparr>pw_refs := Suc (pw_refs w)\<rparr>)\<rparr>)
    | None \<Rightarrow>
        if start = No_engine then (None, p)
        else
          (let e = sp_next p
           in (Some e, p\<lparr>sp_workers := (sp_workers p)(k \<mapsto> \<lparr>pw_engine = e, pw_voice = voice, pw_resident = (start = Resident_engine), pw_refs = 1\<rparr>),
                 sp_started := insert e (sp_started p), sp_next := Suc e\<rparr>)))"

definition assign_worker :: "nat \<Rightarrow> string \<Rightarrow> nat option \<Rightarrow> speech_pool \<Rightarrow> speech_pool" where
  "assign_worker r k engine p = (case engine of
      None \<Rightarrow> p
    | Some e \<Rightarrow> upd_runtime r (\<lambda>rt. rt\<lparr>rt_worker := Some e, rt_release := Some k\<rparr>) p)"

text \<open>\<open>Runtime.Activate\<close>: the first reference makes a new \<open>ready\<close> channel and starts a warm-up.\<close>

definition runtime_activate :: "nat \<Rightarrow> speech_pool \<Rightarrow> nat \<times> speech_pool" where
  "runtime_activate r p = (case sp_objects p r of
      None \<Rightarrow> (0, p)
    | Some rt \<Rightarrow>
        (let l = sp_next p; c = Suc l;
             p1 = p\<lparr>sp_leases := (sp_leases p)(l \<mapsto> r), sp_next := Suc c,
               sp_objects := (sp_objects p)(r \<mapsto> rt\<lparr>rt_refs := Suc (rt_refs rt), rt_ready := (if rt_refs rt = 0 then Some c else rt_ready rt)\<rparr>)\<rparr>
         in (l, if rt_refs rt = 0
                then p1\<lparr>sp_warming := (sp_warming p1)(c \<mapsto> \<lparr>wm_runtime = r, wm_engine = None, wm_installed = False\<rparr>)\<rparr> else p1)))"

definition pool_activate :: "engine_start \<Rightarrow> string \<Rightarrow> string \<Rightarrow> string \<Rightarrow> speech_pool \<Rightarrow> nat \<times> speech_pool" where
  "pool_activate start key k voice p = (case pool_lookup key p of (r, created, p1) \<Rightarrow>
     (if created then (case worker_for start k voice p1 of (engine, p2) \<Rightarrow> runtime_activate r (assign_worker r k engine p2))
      else runtime_activate r p1))"

section \<open>Release\<close>

text \<open>The closure of \<open>releaseWorkerLocked\<close>.\<close>

definition release_worker :: "string \<Rightarrow> speech_pool \<Rightarrow> speech_pool" where
  "release_worker k p = (case sp_workers p k of
      None \<Rightarrow> p
    | Some w \<Rightarrow>
        if pw_refs w - 1 > 0 then p\<lparr>sp_workers := (sp_workers p)(k \<mapsto> w\<lparr>pw_refs := pw_refs w - 1\<rparr>)\<rparr>
        else close_engine (pw_engine w) (p\<lparr>sp_workers := (sp_workers p)(k := None)\<rparr>))"

text \<open>\<open>Lease.Release\<close> under the lock of the runtime; the result tells whose \<open>onZero\<close> is to be called.\<close>

definition lease_release :: "nat \<Rightarrow> speech_pool \<Rightarrow> nat option \<times> speech_pool" where
  "lease_release l p = (case sp_leases p l of
      None \<Rightarrow> (None, p)
    | Some r \<Rightarrow>
        (let p1 = p\<lparr>sp_leases := (sp_leases p)(l := None)\<rparr>
         in case sp_objects p1 r of
             None \<Rightarrow> (None, p1)
           | Some rt \<Rightarrow>
               if rt_refs rt - 1 > 0 then (None, upd_runtime r (\<lambda>rt. rt\<lparr>rt_refs := rt_refs rt - 1\<rparr>) p1)
               else
                 (let p2 = upd_runtime r (\<lambda>rt. rt\<lparr>rt_refs := 0, rt_ready := None, rt_worker := None\<rparr>) p1
                  in (Some r, case rt_worker rt of
                        Some e \<Rightarrow> if rt_release rt = None then close_engine e p2 else p2
                      | None \<Rightarrow> p2))))"

definition on_zero :: "nat \<Rightarrow> speech_pool \<Rightarrow> speech_pool" where
  "on_zero r p = (case sp_objects p r of
      None \<Rightarrow> p
    | Some rt \<Rightarrow>
        if rt_refs rt > 0 \<or> sp_runtimes p (rt_key rt) \<noteq> Some r then p
        else
          (let p1 = p\<lparr>sp_runtimes := (sp_runtimes p)(rt_key rt := None)\<rparr>
           in case rt_release rt of
               None \<Rightarrow> p1
             | Some k \<Rightarrow> release_worker k (upd_runtime r (\<lambda>rt. rt\<lparr>rt_release := None\<rparr>) p1)))"

definition pool_release :: "nat \<Rightarrow> speech_pool \<Rightarrow> speech_pool" where
  "pool_release l p = (case lease_release l p of (None, p1) \<Rightarrow> p1 | (Some r, p1) \<Rightarrow> on_zero r p1)"

section \<open>Warming up\<close>

text \<open>\<open>acquireWorker\<close>, the installation of its engine, and the end of the trial synthesis.\<close>

definition warm_acquire :: "nat \<Rightarrow> bool \<Rightarrow> speech_pool \<Rightarrow> speech_pool" where
  "warm_acquire c available p = (case sp_warming p c of
      None \<Rightarrow> p
    | Some w \<Rightarrow>
        if wm_engine w \<noteq> None then p
        else
          (case (case sp_objects p (wm_runtime w) of None \<Rightarrow> None | Some rt \<Rightarrow> rt_worker rt) of
             Some e \<Rightarrow> p\<lparr>sp_warming := (sp_warming p)(c \<mapsto> w\<lparr>wm_engine := Some (e, False)\<rparr>)\<rparr>
           | None \<Rightarrow>
               if \<not> available then p\<lparr>sp_warming := (sp_warming p)(c := None)\<rparr>
               else p\<lparr>sp_warming := (sp_warming p)(c \<mapsto> w\<lparr>wm_engine := Some (sp_next p, True)\<rparr>),
                      sp_started := insert (sp_next p) (sp_started p), sp_next := Suc (sp_next p)\<rparr>))"

definition warm_install :: "nat \<Rightarrow> speech_pool \<Rightarrow> speech_pool" where
  "warm_install c p = (case sp_warming p c of
      None \<Rightarrow> p
    | Some w \<Rightarrow> (case wm_engine w of
          None \<Rightarrow> p
        | Some (e, owned) \<Rightarrow>
            if wm_installed w then p
            else if (case sp_objects p (wm_runtime w) of None \<Rightarrow> False
                | Some rt \<Rightarrow> rt_ready rt = Some c \<and> (rt_worker rt = None \<or> rt_worker rt = Some e))
            then upd_runtime (wm_runtime w) (\<lambda>rt. rt\<lparr>rt_worker := Some e\<rparr>)
              (p\<lparr>sp_warming := (sp_warming p)(c \<mapsto> w\<lparr>wm_installed := True\<rparr>)\<rparr>)
            else
              (let p1 = p\<lparr>sp_warming := (sp_warming p)(c := None)\<rparr>
               in if owned then close_engine e p1 else p1)))"

definition warm_end :: "nat \<Rightarrow> bool \<Rightarrow> speech_pool \<Rightarrow> speech_pool" where
  "warm_end c ok p = (case sp_warming p c of
      None \<Rightarrow> p
    | Some w \<Rightarrow> (case wm_engine w of
          None \<Rightarrow> p
        | Some (e, owned) \<Rightarrow>
            if \<not> wm_installed w then p
            else
              (let p1 = p\<lparr>sp_warming := (sp_warming p)(c := None)\<rparr>
               in if ok \<or> \<not> owned then p1
                  else upd_runtime (wm_runtime w)
                    (\<lambda>rt. if rt_ready rt = Some c \<and> rt_worker rt = Some e then rt\<lparr>rt_worker := None\<rparr> else rt) (close_engine e p1))))"

section \<open>Voices kept warm\<close>

definition keep_warm :: "engine_start \<Rightarrow> string \<Rightarrow> string \<Rightarrow> string \<Rightarrow> speech_pool \<Rightarrow> speech_pool" where
  "keep_warm start key k voice p = (case pool_activate start key k voice p of (l, p1) \<Rightarrow>
     (if sp_pinned p1 voice \<noteq> None then pool_release l p1 else p1\<lparr>sp_pinned := (sp_pinned p1)(voice \<mapsto> l)\<rparr>))"

definition release_keep_warm :: "string \<Rightarrow> speech_pool \<Rightarrow> bool \<times> speech_pool" where
  "release_keep_warm voice p = (case sp_pinned p voice of
      None \<Rightarrow> (False, p)
    | Some l \<Rightarrow> (True, pool_release l (p\<lparr>sp_pinned := (sp_pinned p)(voice := None)\<rparr>)))"

section \<open>Runs\<close>

datatype pool_event =
  Ev_activate engine_start string string string
| Ev_release nat
| Ev_keep_warm engine_start string string string
| Ev_release_keep_warm string
| Ev_warm_acquire nat bool
| Ev_warm_install nat
| Ev_warm_end nat bool

fun pool_step :: "pool_event \<Rightarrow> speech_pool \<Rightarrow> speech_pool" where
  "pool_step (Ev_activate start key k voice) p = snd (pool_activate start key k voice p)"
| "pool_step (Ev_release l) p = pool_release l p"
| "pool_step (Ev_keep_warm start key k voice) p = keep_warm start key k voice p"
| "pool_step (Ev_release_keep_warm voice) p = snd (release_keep_warm voice p)"
| "pool_step (Ev_warm_acquire c available) p = warm_acquire c available p"
| "pool_step (Ev_warm_install c) p = warm_install c p"
| "pool_step (Ev_warm_end c ok) p = warm_end c ok p"

section \<open>The invariant of undisturbed operations\<close>

text \<open>The runtimes that hold a share of the engine of a model.\<close>

definition sharers :: "(nat \<rightharpoonup> speech_runtime) \<Rightarrow> string \<Rightarrow> nat set" where
  "sharers objects k = {r. \<exists>rt. objects r = Some rt \<and> rt_release rt = Some k}"

definition leases_of :: "(nat \<rightharpoonup> nat) \<Rightarrow> nat \<Rightarrow> nat set" where
  "leases_of leases r = {l. leases l = Some r}"

definition runtime_ok :: "speech_pool \<Rightarrow> nat \<Rightarrow> speech_runtime \<Rightarrow> bool" where
  "runtime_ok p r rt \<longleftrightarrow> r < sp_next p \<and> rt_refs rt = card (leases_of (sp_leases p) r) \<and> (rt_refs rt > 0 \<longleftrightarrow> sp_runtimes p (rt_key rt) = Some r) \<and>
     (rt_refs rt = 0 \<longrightarrow> rt_ready rt = None \<and> rt_worker rt = None \<and> rt_release rt = None) \<and>
     (\<forall>k. rt_release rt = Some k \<longrightarrow> (\<exists>w. sp_workers p k = Some w \<and> rt_worker rt = Some (pw_engine w))) \<and>
     (\<forall>e. rt_worker rt = Some e \<longrightarrow> e < sp_next p) \<and> (\<forall>c. rt_ready rt = Some c \<longrightarrow> c < sp_next p) \<and>
     (\<forall>k w. rt_release rt = None \<longrightarrow> sp_workers p k = Some w \<longrightarrow> rt_worker rt \<noteq> Some (pw_engine w))"

definition worker_ok :: "speech_pool \<Rightarrow> string \<Rightarrow> pooled_worker \<Rightarrow> bool" where
  "worker_ok p k w \<longleftrightarrow> pw_refs w = card (sharers (sp_objects p) k) \<and> pw_refs w > 0 \<and> pw_engine w < sp_next p \<and> pw_engine w \<notin> sp_closed p \<and>
     (\<forall>j v. sp_workers p j = Some v \<and> pw_engine v = pw_engine w \<longrightarrow> j = k)"

text \<open>A warm-up tries an engine of its own, which is no engine of the pool, or the engine that its runtime has.\<close>

definition warm_ok :: "speech_pool \<Rightarrow> nat \<Rightarrow> warm_up \<Rightarrow> bool" where
  "warm_ok p c v \<longleftrightarrow> c < sp_next p \<and>
     (\<forall>e. wm_engine v = Some (e, True) \<longrightarrow> e < sp_next p \<and> (\<forall>k w. sp_workers p k = Some w \<longrightarrow> pw_engine w \<noteq> e)) \<and>
     (\<forall>e rt. wm_engine v = Some (e, False) \<longrightarrow> sp_objects p (wm_runtime v) = Some rt \<longrightarrow> rt_ready rt = Some c \<longrightarrow> rt_worker rt = Some e)"

definition pool_ok :: "speech_pool \<Rightarrow> bool" where
  "pool_ok p \<longleftrightarrow> (\<forall>r rt. sp_objects p r = Some rt \<longrightarrow> runtime_ok p r rt) \<and>
     (\<forall>key r. sp_runtimes p key = Some r \<longrightarrow> (\<exists>rt. sp_objects p r = Some rt \<and> rt_key rt = key)) \<and>
     (\<forall>l r. sp_leases p l = Some r \<longrightarrow> l < sp_next p \<and> (\<exists>rt. sp_objects p r = Some rt)) \<and>
     finite (dom (sp_leases p)) \<and> finite (dom (sp_objects p)) \<and>
     (\<forall>k w. sp_workers p k = Some w \<longrightarrow> worker_ok p k w) \<and> (\<forall>c v. sp_warming p c = Some v \<longrightarrow> warm_ok p c v) \<and>
     (\<forall>e \<in> sp_closed p. e < sp_next p)"

lemma finite_leases: "finite (dom (sp_leases p)) \<Longrightarrow> finite (leases_of (sp_leases p) r)"
  by (rule finite_subset [of _ "dom (sp_leases p)"]) (auto simp: leases_of_def)

lemma finite_sharers: "finite (dom (sp_objects p)) \<Longrightarrow> finite (sharers (sp_objects p) k)"
  by (rule finite_subset [of _ "dom (sp_objects p)"]) (auto simp: sharers_def)

lemma new_pool_ok: "pool_ok new_pool"
  by (simp add: pool_ok_def new_pool_def)

lemma pool_okD:
  assumes "pool_ok p"
  shows "sp_objects p r = Some rt \<Longrightarrow> runtime_ok p r rt"
    and "sp_runtimes p key = Some r \<Longrightarrow> \<exists>rt. sp_objects p r = Some rt \<and> rt_key rt = key"
    and "sp_leases p l = Some r \<Longrightarrow> l < sp_next p \<and> (\<exists>rt. sp_objects p r = Some rt)"
    and "finite (dom (sp_leases p))" "finite (dom (sp_objects p))"
    and "sp_workers p k = Some w \<Longrightarrow> worker_ok p k w"
    and "sp_warming p c = Some v \<Longrightarrow> warm_ok p c v"
    and "e \<in> sp_closed p \<Longrightarrow> e < sp_next p"
  using assms unfolding pool_ok_def by blast+

lemma pool_okI:
  assumes "\<And>r rt. sp_objects p r = Some rt \<Longrightarrow> runtime_ok p r rt"
    and "\<And>key r. sp_runtimes p key = Some r \<Longrightarrow> \<exists>rt. sp_objects p r = Some rt \<and> rt_key rt = key"
    and "\<And>l r. sp_leases p l = Some r \<Longrightarrow> l < sp_next p \<and> (\<exists>rt. sp_objects p r = Some rt)"
    and "finite (dom (sp_leases p))" "finite (dom (sp_objects p))"
    and "\<And>k w. sp_workers p k = Some w \<Longrightarrow> worker_ok p k w"
    and "\<And>c v. sp_warming p c = Some v \<Longrightarrow> warm_ok p c v"
    and "\<And>e. e \<in> sp_closed p \<Longrightarrow> e < sp_next p"
  shows "pool_ok p"
  unfolding pool_ok_def using assms by blast

lemma worker_okI:
  assumes "pw_refs w = card (sharers (sp_objects p) k)" "pw_refs w > 0" "pw_engine w < sp_next p" "pw_engine w \<notin> sp_closed p"
    "\<And>j v. sp_workers p j = Some v \<Longrightarrow> pw_engine v = pw_engine w \<Longrightarrow> j = k"
  shows "worker_ok p k w"
  unfolding worker_ok_def using assms by blast

lemma worker_okD:
  assumes "worker_ok p k w"
  shows "pw_refs w = card (sharers (sp_objects p) k)" "pw_refs w > 0" "pw_engine w < sp_next p" "pw_engine w \<notin> sp_closed p"
    "sp_workers p j = Some v \<Longrightarrow> pw_engine v = pw_engine w \<Longrightarrow> j = k"
  using assms unfolding worker_ok_def by blast+

lemma fresh_ids:
  assumes "pool_ok p"
  shows "sp_objects p (sp_next p + i) = None" "sp_leases p (sp_next p + i) = None" "sp_warming p (sp_next p + i) = None"
    "sp_next p + i \<notin> sp_closed p"
proof -
  show "sp_objects p (sp_next p + i) = None"
    using pool_okD(1) [OF assms, of "sp_next p + i"] by (cases "sp_objects p (sp_next p + i)") (auto simp: runtime_ok_def)
  show "sp_leases p (sp_next p + i) = None"
    using pool_okD(3) [OF assms, of "sp_next p + i"] by (cases "sp_leases p (sp_next p + i)") auto
  show "sp_warming p (sp_next p + i) = None"
    using pool_okD(7) [OF assms, of "sp_next p + i"] by (cases "sp_warming p (sp_next p + i)") (auto simp: warm_ok_def)
  show "sp_next p + i \<notin> sp_closed p" using pool_okD(8) [OF assms, of "sp_next p + i"] by auto
qed

lemma leases_add: "leases l = None \<Longrightarrow> leases_of (leases(l \<mapsto> r)) r' = (if r' = r then insert l (leases_of leases r) else leases_of leases r')"
  by (auto simp: leases_of_def)

lemma leases_drop: "leases l = Some r \<Longrightarrow> leases_of (leases(l := None)) r' = (if r' = r then leases_of leases r - {l} else leases_of leases r')"
  by (auto simp: leases_of_def)

lemma sharers_set: "sharers (objects(r \<mapsto> rt)) k =
    (if rt_release rt = Some k then insert r (sharers objects k) else sharers objects k - {r})"
  by (auto simp: sharers_def)

section \<open>Activation keeps it\<close>

lemma lease_again_ok:
  assumes p: "pool_ok p" and key: "sp_runtimes p key = Some r"
  shows "pool_ok (snd (pool_activate start key k voice p))"
proof -
  obtain rt where rt: "sp_objects p r = Some rt" "rt_key rt = key" using pool_okD(2) [OF p key] by blast
  then have refs: "rt_refs rt > 0" using pool_okD(1) [OF p rt(1)] key by (simp add: runtime_ok_def)
  define q where "q = snd (pool_activate start key k voice p)"
  have q: "q = p\<lparr>sp_leases := (sp_leases p)(sp_next p \<mapsto> r), sp_next := Suc (Suc (sp_next p)),
      sp_objects := (sp_objects p)(r \<mapsto> rt\<lparr>rt_refs := Suc (rt_refs rt)\<rparr>)\<rparr>"
    using key rt(1) refs by (simp add: q_def pool_activate_def pool_lookup_def runtime_activate_def Let_def)
  have nl: "sp_leases p (sp_next p) = None" using fresh_ids(2) [OF p, of 0] by simp
  have fresh: "sp_next p \<notin> leases_of (sp_leases p) r" using nl by (simp add: leases_of_def)
  have sh: "sharers ((sp_objects p)(r \<mapsto> rt\<lparr>rt_refs := n\<rparr>)) j = sharers (sp_objects p) j" for j n
    using rt(1) by (auto simp: sharers_def)
  have "pool_ok q"
  proof (rule pool_okI, goal_cases)
    case (1 r' rt')
    have "runtime_ok p r rt" by (rule pool_okD(1) [OF p rt(1)])
    with 1 show ?case using pool_okD(1) [OF p, of r' rt'] refs fresh finite_leases [OF pool_okD(4) [OF p], of r]
      by (auto simp: q runtime_ok_def leases_add [of "sp_leases p" "sp_next p", OF nl] split: if_splits)
  next
    case (2 key' r')
    then show ?case using pool_okD(2) [OF p, of key' r'] rt by (auto simp: q)
  next
    case (3 l' r')
    then show ?case using pool_okD(3) [OF p, of l' r'] rt(1) by (auto simp: q split: if_splits)
  next
    case (6 j w)
    then show ?case using pool_okD(6) [OF p, of j w] by (auto simp: q worker_ok_def sh)
  next
    case (7 c v)
    then show ?case using pool_okD(7) [OF p, of c v] rt(1) by (auto simp: q warm_ok_def split: if_splits)
  next
    case (8 e)
    then show ?case using pool_okD(8) [OF p, of e] by (simp add: q)
  qed (use pool_okD(4,5) [OF p] in \<open>simp_all add: q\<close>)
  then show ?thesis by (simp add: q_def)
qed

definition fresh_runtime :: "string \<Rightarrow> nat \<Rightarrow> (nat \<times> string) option \<Rightarrow> speech_runtime" where
  "fresh_runtime key c engine = \<lparr>rt_key = key, rt_refs = 1, rt_ready = Some c, rt_worker = map_option fst engine, rt_release = map_option snd engine\<rparr>"

text \<open>The pool after an activation that makes a new runtime: \<open>n\<close> is the number of its lease.\<close>

definition with_runtime :: "speech_pool \<Rightarrow> string \<Rightarrow> nat \<Rightarrow> (nat \<times> string) option \<Rightarrow> (string \<rightharpoonup> pooled_worker) \<Rightarrow> nat set \<Rightarrow> speech_pool" where
  "with_runtime p key n engine W started =
     p\<lparr>sp_runtimes := (sp_runtimes p)(key \<mapsto> sp_next p), sp_objects := (sp_objects p)(sp_next p \<mapsto> fresh_runtime key (Suc n) engine),
       sp_workers := W, sp_leases := (sp_leases p)(n \<mapsto> sp_next p),
       sp_warming := (sp_warming p)(Suc n \<mapsto> \<lparr>wm_runtime = sp_next p, wm_engine = None, wm_installed = False\<rparr>),
       sp_started := started, sp_next := Suc (Suc n)\<rparr>"

lemma runtime_ok_alone:
  "runtime_ok p r rt \<Longrightarrow> rt_release rt = None \<Longrightarrow> sp_workers p j = Some u \<Longrightarrow> rt_worker rt \<noteq> Some (pw_engine u)"
  by (simp add: runtime_ok_def)

lemma runtime_ok_bound: "runtime_ok p r rt \<Longrightarrow> rt_worker rt = Some e \<Longrightarrow> e < sp_next p"
  by (simp add: runtime_ok_def)

lemma with_runtime_ok:
  assumes p: "pool_ok p" and key: "sp_runtimes p key = None" and n: "sp_next p < n"
    and new: "\<And>j w. W j = Some w \<Longrightarrow> (\<exists>u. sp_workers p j = Some u \<and> pw_engine u = pw_engine w) \<or> sp_next p \<le> pw_engine w"
    and old: "\<And>j u. sp_workers p j = Some u \<Longrightarrow> \<exists>w. W j = Some w \<and> pw_engine w = pw_engine u"
    and engine: "\<And>e k. engine = Some (e, k) \<Longrightarrow> e < n \<and> (\<exists>w. W k = Some w \<and> pw_engine w = e)"
    and workers: "\<And>j w. W j = Some w \<Longrightarrow> worker_ok (with_runtime p key n engine W started) j w"
  shows "pool_ok (with_runtime p key n engine W started)"
proof -
  define r where "r = sp_next p"
  have nr: "sp_objects p r = None" using fresh_ids(1) [OF p, of 0] by (simp add: r_def)
  have nl: "sp_leases p n = None" using fresh_ids(2) [OF p, of "n - sp_next p"] n by simp
  have none: "leases_of (sp_leases p) r = {}" using pool_okD(3) [OF p] nr by (fastforce simp: leases_of_def)
  have same: "leases_of ((sp_leases p)(n \<mapsto> r)) r' = leases_of (sp_leases p) r'" if "r' \<noteq> r" for r'
    using that by (simp add: leases_add [of "sp_leases p" n, OF nl])
  show ?thesis
  proof (rule pool_okI, goal_cases)
    case (1 r' rt')
    show ?case
    proof (cases "r' = r")
      case True
      then have "rt' = fresh_runtime key (Suc n) engine" using 1 by (simp add: with_runtime_def r_def)
      then show ?thesis using True n none engine
        by (cases engine) (auto simp: runtime_ok_def with_runtime_def fresh_runtime_def r_def leases_add [of "sp_leases p" n, OF nl])
    next
      case False
      then have o: "sp_objects p r' = Some rt'" using 1 by (simp add: with_runtime_def r_def)
      have ok: "runtime_ok p r' rt'" by (rule pool_okD(1) [OF p o])
      have "rt_worker rt' \<noteq> Some (pw_engine w)" if "rt_release rt' = None" "W j = Some w" for j w
        using new [OF that(2)] runtime_ok_alone [OF ok that(1)] runtime_ok_bound [OF ok] by fastforce
      moreover have "\<exists>w. W k = Some w \<and> rt_worker rt' = Some (pw_engine w)" if "rt_release rt' = Some k" for k
        using ok that old by (fastforce simp: runtime_ok_def)
      moreover have "(rt_refs rt' > 0) = (((sp_runtimes p)(key \<mapsto> r)) (rt_key rt') = Some r')"
        using ok key False by (auto simp: runtime_ok_def)
      ultimately show ?thesis using ok False n same [OF False] by (auto simp: runtime_ok_def with_runtime_def r_def)
    qed
  next
    case (2 key' r')
    then show ?case using pool_okD(2) [OF p, of key' r'] nr by (auto simp: with_runtime_def r_def fresh_runtime_def split: if_splits)
  next
    case (3 l' r')
    then show ?case using pool_okD(3) [OF p, of l' r'] nr n by (auto simp: with_runtime_def r_def split: if_splits)
  next
    case (6 j w)
    then show ?case using workers by (simp add: with_runtime_def)
  next
    case (7 c v)
    show ?case
    proof (cases "c = Suc n")
      case True
      then show ?thesis using 7 by (auto simp: with_runtime_def warm_ok_def)
    next
      case False
      then have ok: "warm_ok p c v" using 7 pool_okD(7) [OF p, of c v] by (simp add: with_runtime_def)
      have "pw_engine w \<noteq> e" if "wm_engine v = Some (e, True)" "W j = Some w" for e j w
        using new [OF that(2)] ok that(1) by (auto simp: warm_ok_def)
      then show ?thesis using ok n by (auto simp: with_runtime_def warm_ok_def fresh_runtime_def)
    qed
  next
    case (8 e)
    then show ?case using pool_okD(8) [OF p, of e] n by (simp add: with_runtime_def)
  qed (use pool_okD(4,5) [OF p] in \<open>simp_all add: with_runtime_def\<close>)
qed

lemma new_sharers:
  assumes p: "pool_ok p"
  shows "sharers ((sp_objects p)(sp_next p \<mapsto> fresh_runtime key c engine)) k =
    (if map_option snd engine = Some k then insert (sp_next p) (sharers (sp_objects p) k) else sharers (sp_objects p) k)"
    "sp_next p \<notin> sharers (sp_objects p) k"
  using fresh_ids(1) [OF p, of 0] by (auto simp: sharers_def fresh_runtime_def)

lemma share_engine_ok:
  assumes p: "pool_ok p" and key: "sp_runtimes p key = None" and n: "sp_next p < n" and u: "sp_workers p k = Some u"
  shows "pool_ok (with_runtime p key n (Some (pw_engine u, k)) ((sp_workers p)(k \<mapsto> u\<lparr>pw_refs := Suc (pw_refs u)\<rparr>)) started)"
proof (rule with_runtime_ok [OF p key n], goal_cases)
  case (4 j w)
  have fin: "finite (sharers (sp_objects p) j)" for j by (rule finite_sharers [OF pool_okD(5) [OF p]])
  from 4 obtain v where v: "sp_workers p j = Some v" "pw_engine w = pw_engine v" and r: "pw_refs w = (if j = k then Suc (pw_refs v) else pw_refs v)"
    using u by (auto split: if_splits)
  note ok = worker_okD [OF pool_okD(6) [OF p v(1)]]
  show ?case
  proof (rule worker_okI, goal_cases)
    case 1
    then show ?case using ok(1) r fin [of j] new_sharers(2) [OF p, of j] by (auto simp: with_runtime_def new_sharers(1) [OF p])
  next
    case (5 i x)
    then show ?case using ok(5) [of i] u v(2) by (cases "i = k") (auto simp: with_runtime_def)
  qed (use ok v(2) r n in \<open>auto simp: with_runtime_def\<close>)
qed (use u worker_okD(3) [OF pool_okD(6) [OF p u]] n in \<open>auto split: if_splits\<close>)

lemma own_engine_ok:
  assumes p: "pool_ok p" and key: "sp_runtimes p key = None" and n: "sp_next p \<le> e" "e < n" and u: "sp_workers p k = None"
  shows "pool_ok (with_runtime p key n (Some (e, k)) ((sp_workers p)(k \<mapsto> \<lparr>pw_engine = e, pw_voice = voice, pw_resident = res, pw_refs = 1\<rparr>)) started)"
proof (rule with_runtime_ok [OF p key], goal_cases)
  case (5 j w)
  have empty: "sharers (sp_objects p) k = {}" using pool_okD(1) [OF p] u by (fastforce simp: sharers_def runtime_ok_def)
  show ?case
  proof (cases "j = k")
    case True
    show ?thesis
    proof (rule worker_okI, goal_cases)
      case 1
      then show ?case using 5 True empty by (auto simp: with_runtime_def new_sharers [OF p])
    next
      case (5 i x)
      then show ?case using True \<open>((sp_workers p)(k \<mapsto> _)) j = Some w\<close> worker_okD(3) [OF pool_okD(6) [OF p, of i x]] n
        by (cases "i = k") (auto simp: with_runtime_def)
    next
      case 4
      then show ?case using 5 True pool_okD(8) [OF p, of e] n by (auto simp: with_runtime_def)
    qed (use 5 True n in \<open>auto simp: with_runtime_def\<close>)
  next
    case False
    then have v: "sp_workers p j = Some w" using 5 by simp
    note ok = worker_okD [OF pool_okD(6) [OF p v]]
    show ?thesis
    proof (rule worker_okI, goal_cases)
      case 1
      then show ?case using ok(1) False by (simp add: with_runtime_def new_sharers [OF p])
    next
      case (5 i x)
      then show ?case using ok(3,5) n by (cases "i = k") (auto simp: with_runtime_def)
    qed (use ok n in \<open>auto simp: with_runtime_def\<close>)
  qed
qed (use u n in \<open>auto split: if_splits\<close>)

lemma no_engine_ok:
  assumes p: "pool_ok p" and key: "sp_runtimes p key = None" and n: "sp_next p < n"
  shows "pool_ok (with_runtime p key n None (sp_workers p) started)"
proof (rule with_runtime_ok [OF p key n], goal_cases)
  case (4 j w)
  then show ?case using pool_okD(6) [OF p, of j w] n by (auto simp: worker_ok_def with_runtime_def new_sharers [OF p])
qed auto

lemma activate_ok:
  assumes p: "pool_ok p"
  shows "pool_ok (snd (pool_activate start key k voice p))"
proof (cases "sp_runtimes p key")
  case (Some r)
  then show ?thesis by (rule lease_again_ok [OF p])
next
  case None
  note defs = pool_activate_def pool_lookup_def worker_for_def assign_worker_def runtime_activate_def upd_runtime_def with_runtime_def
    fresh_runtime_def Let_def
  show ?thesis
  proof (cases "sp_workers p k")
    case (Some u)
    have "snd (pool_activate start key k voice p) = with_runtime p key (Suc (sp_next p)) (Some (pw_engine u, k))
        ((sp_workers p)(k \<mapsto> u\<lparr>pw_refs := Suc (pw_refs u)\<rparr>)) (sp_started p)"
      using None Some by (simp add: defs)
    then show ?thesis using share_engine_ok [OF p None _ Some, of "Suc (sp_next p)" "sp_started p"] by simp
  next
    case w: None
    show ?thesis
    proof (cases "start = No_engine")
      case True
      have "snd (pool_activate start key k voice p) = with_runtime p key (Suc (sp_next p)) None (sp_workers p) (sp_started p)"
        using None w True by (simp add: defs)
      then show ?thesis using no_engine_ok [OF p None, of "Suc (sp_next p)" "sp_started p"] by simp
    next
      case False
      have "snd (pool_activate start key k voice p) = with_runtime p key (Suc (Suc (sp_next p))) (Some (Suc (sp_next p), k))
          ((sp_workers p)(k \<mapsto> \<lparr>pw_engine = Suc (sp_next p), pw_voice = voice, pw_resident = (start = Resident_engine), pw_refs = 1\<rparr>))
          (insert (Suc (sp_next p)) (sp_started p))"
        using None w False by (simp add: defs)
      then show ?thesis using own_engine_ok [OF p None _ _ w, of "Suc (sp_next p)" "Suc (Suc (sp_next p))"] by simp
    qed
  qed
qed

section \<open>Release keeps it\<close>

text \<open>The pool without a lease, of several, of a runtime; and after the last one.\<close>

lemma drop_lease_ok:
  assumes p: "pool_ok p" and l: "sp_leases p l = Some r" and r: "sp_objects p r = Some rt" "1 < rt_refs rt"
  shows "pool_ok (p\<lparr>sp_leases := (sp_leases p)(l := None), sp_objects := (sp_objects p)(r \<mapsto> rt\<lparr>rt_refs := rt_refs rt - 1\<rparr>)\<rparr>)"
proof (rule pool_okI, goal_cases)
  case (1 r' rt')
  have ok: "runtime_ok p r rt" by (rule pool_okD(1) [OF p r(1)])
  have "l \<in> leases_of (sp_leases p) r" using l by (simp add: leases_of_def)
  then have "card (leases_of (sp_leases p) r - {l}) = rt_refs rt - 1" using ok by (simp add: runtime_ok_def)
  then show ?case using 1 ok r(2) pool_okD(1) [OF p, of r' rt']
    by (cases "r' = r") (auto simp: runtime_ok_def leases_drop [of "sp_leases p" l, OF l])
next
  case (2 key r')
  then show ?case using pool_okD(2) [OF p, of key r'] r(1) by auto
next
  case (3 l' r')
  then show ?case using pool_okD(3) [OF p, of l' r'] by (auto split: if_splits)
next
  case (4)
  then show ?case using pool_okD(4) [OF p] by (simp add: dom_def) (rule finite_subset, auto)
next
  case (6 k w)
  have "sharers ((sp_objects p)(r \<mapsto> rt\<lparr>rt_refs := rt_refs rt - 1\<rparr>)) k = sharers (sp_objects p) k" using r(1) by (auto simp: sharers_def)
  then show ?case using pool_okD(6) [OF p, of k w] 6 by (simp add: worker_ok_def)
next
  case (7 c v)
  then show ?case using pool_okD(7) [OF p, of c v] r(1) by (auto simp: warm_ok_def split: if_splits)
next
  case (8 e)
  then show ?case using pool_okD(8) [OF p, of e] by simp
qed (use pool_okD(5) [OF p] in simp_all)

definition without_runtime :: "speech_pool \<Rightarrow> nat \<Rightarrow> nat \<Rightarrow> speech_runtime \<Rightarrow> (string \<rightharpoonup> pooled_worker) \<Rightarrow> nat set \<Rightarrow> speech_pool" where
  "without_runtime p l r rt W closed =
     p\<lparr>sp_runtimes := (sp_runtimes p)(rt_key rt := None), sp_leases := (sp_leases p)(l := None), sp_workers := W, sp_closed := closed,
       sp_objects := (sp_objects p)(r \<mapsto> rt\<lparr>rt_refs := 0, rt_ready := None, rt_worker := None, rt_release := None\<rparr>)\<rparr>"

lemma without_runtime_ok:
  assumes p: "pool_ok p" and l: "sp_leases p l = Some r" and r: "sp_objects p r = Some rt" "rt_refs rt = 1"
    and new: "\<And>j w. W j = Some w \<Longrightarrow> (\<exists>u. sp_workers p j = Some u \<and> pw_engine u = pw_engine w) \<and>
        pw_refs w = card (sharers (sp_objects p) j - {r}) \<and> pw_refs w > 0 \<and> pw_engine w \<notin> closed"
    and old: "\<And>j u. sp_workers p j = Some u \<Longrightarrow> (\<exists>w. W j = Some w \<and> pw_engine w = pw_engine u) \<or> sharers (sp_objects p) j - {r} = {}"
    and closed: "\<And>e. e \<in> closed \<Longrightarrow> e < sp_next p"
  shows "pool_ok (without_runtime p l r rt W closed)"
proof (rule pool_okI, goal_cases)
  case (1 r' rt')
  have ok: "runtime_ok p r rt" by (rule pool_okD(1) [OF p r(1)])
  show ?case
  proof (cases "r' = r")
    case True
    have "l \<in> leases_of (sp_leases p) r" using l by (simp add: leases_of_def)
    then have "card (leases_of (sp_leases p) r - {l}) = 0" using ok r(2) by (simp add: runtime_ok_def)
    moreover have "sp_leases (without_runtime p l r rt W closed) = (sp_leases p)(l := None)" by (simp add: without_runtime_def)
    ultimately have "0 = card (leases_of (sp_leases (without_runtime p l r rt W closed)) r)" by (simp add: leases_drop [of "sp_leases p" l, OF l])
    then show ?thesis using 1 True ok by (auto simp: runtime_ok_def without_runtime_def)
  next
    case False
    then have o: "sp_objects p r' = Some rt'" using 1 by (simp add: without_runtime_def)
    have ok': "runtime_ok p r' rt'" by (rule pool_okD(1) [OF p o])
    have "rt_worker rt' \<noteq> Some (pw_engine w)" if "rt_release rt' = None" "W j = Some w" for j w
      using new [OF that(2)] runtime_ok_alone [OF ok' that(1)] by fastforce
    moreover have "\<exists>w. W k = Some w \<and> rt_worker rt' = Some (pw_engine w)" if k: "rt_release rt' = Some k" for k
    proof -
      obtain u where u: "sp_workers p k = Some u" "rt_worker rt' = Some (pw_engine u)" using ok' k by (auto simp: runtime_ok_def)
      have "r' \<in> sharers (sp_objects p) k - {r}" using o k False by (simp add: sharers_def)
      then show ?thesis using old [OF u(1)] u(2) by auto
    qed
    moreover have "(rt_refs rt' > 0) = (((sp_runtimes p)(rt_key rt := None)) (rt_key rt') = Some r')"
      using ok' ok r(2) False by (auto simp: runtime_ok_def)
    ultimately show ?thesis using ok' False by (auto simp: runtime_ok_def without_runtime_def leases_drop [of "sp_leases p" l, OF l])
  qed
next
  case (2 key r')
  then show ?case using pool_okD(2) [OF p, of key r'] r(1) by (auto simp: without_runtime_def split: if_splits)
next
  case (3 l' r')
  then show ?case using pool_okD(3) [OF p, of l' r'] by (auto simp: without_runtime_def split: if_splits)
next
  case (6 k w)
  then have w: "W k = Some w" by (simp add: without_runtime_def)
  obtain u where u: "sp_workers p k = Some u" "pw_engine u = pw_engine w" using new [OF w] by blast
  show ?case
  proof (rule worker_okI, goal_cases)
    case 1
    then show ?case using new [OF w] by (simp add: without_runtime_def sharers_set)
  next
    case (5 i x)
    then have x: "W i = Some x" by (simp add: without_runtime_def)
    then obtain y where "sp_workers p i = Some y" "pw_engine y = pw_engine x" using new [OF x] by blast
    then show ?case using worker_okD(5) [OF pool_okD(6) [OF p u(1)], of i y] u(2) 5 by simp
  qed (use new [OF w] u worker_okD(3) [OF pool_okD(6) [OF p u(1)]] in \<open>simp_all add: without_runtime_def\<close>)
next
  case (7 c v)
  then have ok: "warm_ok p c v" using pool_okD(7) [OF p, of c v] by (simp add: without_runtime_def)
  have "pw_engine w \<noteq> e" if "wm_engine v = Some (e, True)" "W j = Some w" for e j w
    using new [OF that(2)] ok that(1) by (auto simp: warm_ok_def)
  then show ?case using ok by (auto simp: warm_ok_def without_runtime_def)
next
  case (8 e)
  then show ?case using closed by (simp add: without_runtime_def)
qed (use pool_okD(4,5) [OF p] in \<open>simp_all add: without_runtime_def\<close>)

lemma last_lease_ok:
  assumes p: "pool_ok p" and l: "sp_leases p l = Some r" and r: "sp_objects p r = Some rt" "rt_refs rt = 1"
  shows "pool_ok (pool_release l p)"
proof -
  have ok: "runtime_ok p r rt" by (rule pool_okD(1) [OF p r(1)])
  then have key: "sp_runtimes p (rt_key rt) = Some r" using r(2) by (simp add: runtime_ok_def)
  note defs = pool_release_def lease_release_def on_zero_def upd_runtime_def release_worker_def close_engine_def without_runtime_def Let_def
  have fin: "finite (sharers (sp_objects p) j)" for j by (rule finite_sharers [OF pool_okD(5) [OF p]])
  show ?thesis
  proof (cases "rt_release rt")
    case None
    have nos: "sharers (sp_objects p) j - {r} = sharers (sp_objects p) j" for j using r(1) None by (auto simp: sharers_def)
    have same: "rt\<lparr>rt_refs := 0, rt_ready := None, rt_worker := None, rt_release := None\<rparr> = rt\<lparr>rt_refs := 0, rt_ready := None, rt_worker := None\<rparr>"
      using None by (cases rt) simp
    let ?C = "case rt_worker rt of None \<Rightarrow> sp_closed p | Some e \<Rightarrow> insert e (sp_closed p)"
    have "pool_release l p = without_runtime p l r rt (sp_workers p) ?C"
      using l r key None by (cases "rt_worker rt") (simp_all add: defs same)
    moreover have "pool_ok (without_runtime p l r rt (sp_workers p) ?C)"
    proof (rule without_runtime_ok [OF p l r], goal_cases)
      case (1 j w)
      note w = worker_okD [OF pool_okD(6) [OF p 1]]
      have "pw_engine w \<notin> ?C" using w(4) runtime_ok_alone [OF ok None 1] by (auto split: option.split)
      then show ?case using 1 w(1,2) nos by simp
    next
      case (3 e)
      then show ?case using pool_okD(8) [OF p, of e] runtime_ok_bound [OF ok] by (auto split: option.splits)
    qed auto
    ultimately show ?thesis by simp
  next
    case (Some k)
    then obtain u where u: "sp_workers p k = Some u" "rt_worker rt = Some (pw_engine u)" using ok by (auto simp: runtime_ok_def)
    note uok = worker_okD [OF pool_okD(6) [OF p u(1)]]
    have mem: "r \<in> sharers (sp_objects p) k" using r(1) Some by (simp add: sharers_def)
    have nos: "sharers (sp_objects p) j - {r} = sharers (sp_objects p) j" if "j \<noteq> k" for j using r(1) Some that by (auto simp: sharers_def)
    have card: "card (sharers (sp_objects p) k - {r}) = pw_refs u - 1" using mem uok(1) by simp
    show ?thesis
    proof (cases "pw_refs u - 1 > 0")
      case True
      have "pool_release l p = without_runtime p l r rt ((sp_workers p)(k \<mapsto> u\<lparr>pw_refs := pw_refs u - 1\<rparr>)) (sp_closed p)"
        using l r key Some u True by (simp add: defs)
      moreover have "pool_ok \<dots>"
      proof (rule without_runtime_ok [OF p l r], goal_cases)
        case (1 j w)
        show ?case
        proof (cases "j = k")
          case True
          then show ?thesis using 1 card u(1) uok(4) \<open>pw_refs u - 1 > 0\<close> by auto
        next
          case False
          then have w: "sp_workers p j = Some w" using 1 by simp
          note ok = worker_okD [OF pool_okD(6) [OF p w]]
          show ?thesis using w ok(1,2,4) nos [OF False] by simp
        qed
      next
        case (3 e)
        then show ?case using pool_okD(8) [OF p, of e] by simp
      qed (use u(1) in \<open>auto split: if_splits\<close>)
      ultimately show ?thesis by simp
    next
      case False
      have "pool_release l p = without_runtime p l r rt ((sp_workers p)(k := None)) (insert (pw_engine u) (sp_closed p))"
        using l r key Some u False by (simp add: defs)
      moreover have "pool_ok \<dots>"
      proof (rule without_runtime_ok [OF p l r], goal_cases)
        case (1 j w)
        then have w: "sp_workers p j = Some w" "j \<noteq> k" by (auto split: if_splits)
        note ok = worker_okD [OF pool_okD(6) [OF p w(1)]]
        show ?case using w ok(1,2,4) nos [OF w(2)] uok(5) [OF w(1)] by auto
      next
        case (2 j v)
        have "sharers (sp_objects p) k - {r} = {}" using card False fin [of k] by (simp add: card_eq_0_iff del: card_Diff_insert)
        then show ?case using 2 by (cases "j = k") auto
      next
        case (3 e)
        then show ?case using pool_okD(8) [OF p, of e] uok(3) by auto
      qed
      ultimately show ?thesis by simp
    qed
  qed
qed

lemma release_ok:
  assumes p: "pool_ok p"
  shows "pool_ok (pool_release l p)"
proof (cases "sp_leases p l")
  case None
  then show ?thesis using p by (simp add: pool_release_def lease_release_def)
next
  case (Some r)
  then obtain rt where rt: "sp_objects p r = Some rt" using pool_okD(3) [OF p] by blast
  have "l \<in> leases_of (sp_leases p) r" using Some by (simp add: leases_of_def)
  then have "rt_refs rt \<noteq> 0" using pool_okD(1) [OF p rt] finite_leases [OF pool_okD(4) [OF p], of r] by (auto simp: runtime_ok_def)
  then consider "rt_refs rt = 1" | "1 < rt_refs rt" by linarith
  then show ?thesis
  proof cases
    case 1
    then show ?thesis by (rule last_lease_ok [OF p Some rt])
  next
    case 2
    then have "pool_release l p = p\<lparr>sp_leases := (sp_leases p)(l := None), sp_objects := (sp_objects p)(r \<mapsto> rt\<lparr>rt_refs := rt_refs rt - 1\<rparr>)\<rparr>"
      using Some rt by (simp add: pool_release_def lease_release_def upd_runtime_def)
    then show ?thesis using drop_lease_ok [OF p Some rt 2] by simp
  qed
qed

section \<open>Warm-ups keep it\<close>

lemma warm_acquire_ok:
  assumes p: "pool_ok p"
  shows "pool_ok (warm_acquire c available p)"
proof (cases "sp_warming p c")
  case None
  then show ?thesis using p by (simp add: warm_acquire_def)
next
  case (Some v)
  define own where "own = (case sp_objects p (wm_runtime v) of None \<Rightarrow> None | Some rt \<Rightarrow> rt_worker rt)"
  have vo: "warm_ok p c v" by (rule pool_okD(7) [OF p Some])
  have base: "pool_ok (p\<lparr>sp_warming := M, sp_started := S, sp_next := n\<rparr>)"
    if "sp_next p \<le> n" "\<And>c v. M c = Some v \<Longrightarrow> warm_ok (p\<lparr>sp_warming := M, sp_started := S, sp_next := n\<rparr>) c v" for M S n
  proof (rule pool_okI, goal_cases)
    case (1 r rt)
    then show ?case using pool_okD(1) [OF p, of r rt] that(1) by (auto simp: runtime_ok_def)
  next
    case (2 key r)
    then show ?case using pool_okD(2) [OF p, of key r] by simp
  next
    case (3 l r)
    then show ?case using pool_okD(3) [OF p, of l r] that(1) by auto
  next
    case (6 k w)
    then show ?case using pool_okD(6) [OF p, of k w] that(1) by (auto simp: worker_ok_def)
  next
    case (7 c v)
    then show ?case using that(2) by simp
  next
    case (8 e)
    then show ?case using pool_okD(8) [OF p, of e] that(1) by simp
  qed (use pool_okD(4,5) [OF p] in simp_all)
  have old: "warm_ok (p\<lparr>sp_warming := M, sp_started := S, sp_next := n\<rparr>) i u" if "sp_next p \<le> n" "sp_warming p i = Some u" for M S n i u
    using pool_okD(7) [OF p that(2)] that(1) by (auto simp: warm_ok_def)
  consider "wm_engine v \<noteq> None" | (have_one) e where "wm_engine v = None" "own = Some e" | (none) "wm_engine v = None" "own = None" "\<not> available"
    | (start) "wm_engine v = None" "own = None" "available" by fastforce
  then show ?thesis
  proof cases
    case 1
    then show ?thesis using p Some by (simp add: warm_acquire_def)
  next
    case have_one
    let ?M = "(sp_warming p)(c \<mapsto> v\<lparr>wm_engine := Some (e, False)\<rparr>)"
    have "pool_ok (p\<lparr>sp_warming := ?M, sp_started := sp_started p, sp_next := sp_next p\<rparr>)"
    proof (rule base)
      fix i u assume "?M i = Some u"
      then show "warm_ok (p\<lparr>sp_warming := ?M, sp_started := sp_started p, sp_next := sp_next p\<rparr>) i u"
        using vo have_one(2) old [of "sp_next p" i u] by (auto simp: warm_ok_def own_def split: if_splits option.splits)
    qed simp
    then show ?thesis using Some have_one by (simp add: warm_acquire_def own_def)
  next
    case none
    let ?M = "(sp_warming p)(c := None)"
    have "pool_ok (p\<lparr>sp_warming := ?M, sp_started := sp_started p, sp_next := sp_next p\<rparr>)"
    proof (rule base)
      fix i u assume "?M i = Some u"
      then show "warm_ok (p\<lparr>sp_warming := ?M, sp_started := sp_started p, sp_next := sp_next p\<rparr>) i u"
        using old [of "sp_next p" i u] by (auto simp: warm_ok_def split: if_splits)
    qed simp
    then show ?thesis using Some none by (simp add: warm_acquire_def own_def)
  next
    case start
    let ?M = "(sp_warming p)(c \<mapsto> v\<lparr>wm_engine := Some (sp_next p, True)\<rparr>)" and ?S = "insert (sp_next p) (sp_started p)"
    have new: "pw_engine w \<noteq> sp_next p" if "sp_workers p k = Some w" for k w using worker_okD(3) [OF pool_okD(6) [OF p that]] by simp
    have "pool_ok (p\<lparr>sp_warming := ?M, sp_started := ?S, sp_next := Suc (sp_next p)\<rparr>)"
    proof (rule base)
      fix i u assume i: "?M i = Some u"
      show "warm_ok (p\<lparr>sp_warming := ?M, sp_started := ?S, sp_next := Suc (sp_next p)\<rparr>) i u"
      proof (cases "i = c")
        case True
        then have "u = v\<lparr>wm_engine := Some (sp_next p, True)\<rparr>" using i by simp
        then show ?thesis using True vo new by (auto simp: warm_ok_def)
      next
        case False
        then show ?thesis using i old [of "Suc (sp_next p)" i u] by simp
      qed
    qed simp
    then show ?thesis using Some start by (simp add: warm_acquire_def own_def)
  qed
qed

text \<open>Closing an engine of a warm-up, and forgetting the warm-up.\<close>

lemma forget_warm_ok:
  assumes p: "pool_ok p" and c: "\<And>e. e \<in> closed \<Longrightarrow> e \<in> sp_closed p \<or> (\<exists>v. sp_warming p c = Some v \<and> wm_engine v = Some (e, True))"
  shows "pool_ok (p\<lparr>sp_warming := (sp_warming p)(c := None), sp_closed := closed\<rparr>)"
proof (rule pool_okI, goal_cases)
  case (1 r rt)
  then show ?case using pool_okD(1) [OF p, of r rt] by (auto simp: runtime_ok_def)
next
  case (2 key r)
  then show ?case using pool_okD(2) [OF p, of key r] by simp
next
  case (3 l r)
  then show ?case using pool_okD(3) [OF p, of l r] by auto
next
  case (6 k w)
  then have w: "sp_workers p k = Some w" by simp
  have "pw_engine w \<notin> closed" using c [of "pw_engine w"] worker_okD(4) [OF pool_okD(6) [OF p w]] pool_okD(7) [OF p, of c] w by (auto simp: warm_ok_def)
  then show ?case using pool_okD(6) [OF p w] by (auto simp: worker_ok_def)
next
  case (7 i v)
  then show ?case using pool_okD(7) [OF p, of i v] by (auto simp: warm_ok_def split: if_splits)
next
  case (8 e)
  then show ?case using c [of e] pool_okD(8) [OF p, of e] pool_okD(7) [OF p, of c] by (auto simp: warm_ok_def)
qed (use pool_okD(4,5) [OF p] in simp_all)

text \<open>Changing the engine of a runtime that holds no share of the pool.\<close>

lemma set_worker_ok:
  assumes p: "pool_ok p" and r: "sp_objects p r = Some rt" "rt_release rt = None" "rt_refs rt > 0"
    and e: "\<And>e. engine = Some e \<Longrightarrow> e < sp_next p \<and> (\<forall>k w. sp_workers p k = Some w \<longrightarrow> pw_engine w \<noteq> e)"
    and warm: "\<And>c v e. sp_warming p c = Some v \<Longrightarrow> wm_engine v = Some (e, False) \<Longrightarrow> wm_runtime v = r \<Longrightarrow> rt_ready rt = Some c \<Longrightarrow> engine = Some e"
  shows "pool_ok (p\<lparr>sp_objects := (sp_objects p)(r \<mapsto> rt\<lparr>rt_worker := engine\<rparr>)\<rparr>)"
proof (rule pool_okI, goal_cases)
  case (1 r' rt')
  then show ?case using pool_okD(1) [OF p, of r' rt'] pool_okD(1) [OF p r(1)] r(2,3) e by (fastforce simp: runtime_ok_def split: if_splits)
next
  case (2 key r')
  then show ?case using pool_okD(2) [OF p, of key r'] r(1) by auto
next
  case (3 l r')
  then show ?case using pool_okD(3) [OF p, of l r'] by auto
next
  case (6 k w)
  have "sharers ((sp_objects p)(r \<mapsto> rt\<lparr>rt_worker := engine\<rparr>)) k = sharers (sp_objects p) k" using r(1,2) by (auto simp: sharers_def)
  then show ?case using pool_okD(6) [OF p, of k w] 6 by (simp add: worker_ok_def)
next
  case (7 c v)
  then show ?case using pool_okD(7) [OF p, of c v] warm [of c v] by (auto simp: warm_ok_def split: if_splits)
next
  case (8 e)
  then show ?case using pool_okD(8) [OF p, of e] by simp
qed (use pool_okD(4,5) [OF p] in simp_all)

lemma mark_installed_ok:
  assumes p: "pool_ok p" and c: "sp_warming p c = Some v"
  shows "pool_ok (p\<lparr>sp_warming := (sp_warming p)(c \<mapsto> v\<lparr>wm_installed := True\<rparr>)\<rparr>)"
proof (rule pool_okI, goal_cases)
  case (1 r rt)
  then show ?case using pool_okD(1) [OF p, of r rt] by (auto simp: runtime_ok_def)
next
  case (2 key r)
  then show ?case using pool_okD(2) [OF p, of key r] by simp
next
  case (3 l r)
  then show ?case using pool_okD(3) [OF p, of l r] by auto
next
  case (6 k w)
  then show ?case using pool_okD(6) [OF p, of k w] by (auto simp: worker_ok_def)
next
  case (7 i u)
  then show ?case using pool_okD(7) [OF p, of i u] pool_okD(7) [OF p c] by (fastforce simp: warm_ok_def split: if_splits)
next
  case (8 e)
  then show ?case using pool_okD(8) [OF p, of e] by simp
qed (use pool_okD(4,5) [OF p] in simp_all)

lemma worker_none_release: "pool_ok p \<Longrightarrow> sp_objects p r = Some rt \<Longrightarrow> rt_worker rt = None \<Longrightarrow> rt_release rt = None"
  using pool_okD(1) [of p r rt] by (cases "rt_release rt") (auto simp: runtime_ok_def)

lemma ready_refs: "pool_ok p \<Longrightarrow> sp_objects p r = Some rt \<Longrightarrow> rt_ready rt = Some c \<Longrightarrow> rt_refs rt > 0"
  using pool_okD(1) [of p r rt] by (cases "rt_refs rt") (auto simp: runtime_ok_def)

lemma warm_install_ok:
  assumes p: "pool_ok p"
  shows "pool_ok (warm_install c p)"
proof (cases "\<exists>v e owned. sp_warming p c = Some v \<and> wm_engine v = Some (e, owned) \<and> \<not> wm_installed v")
  case False
  then have "warm_install c p = p" by (auto simp: warm_install_def split: option.split)
  then show ?thesis using p by simp
next
  case True
  then obtain v e owned where v: "sp_warming p c = Some v" "wm_engine v = Some (e, owned)" "\<not> wm_installed v" by blast
  have vo: "warm_ok p c v" by (rule pool_okD(7) [OF p v(1)])
  let ?q = "p\<lparr>sp_warming := (sp_warming p)(c \<mapsto> v\<lparr>wm_installed := True\<rparr>)\<rparr>"
  have q: "pool_ok ?q" by (rule mark_installed_ok [OF p v(1)])
  show ?thesis
  proof (cases "\<exists>rt. sp_objects p (wm_runtime v) = Some rt \<and> rt_ready rt = Some c \<and> (rt_worker rt = None \<or> rt_worker rt = Some e)")
    case True
    then obtain rt where rt: "sp_objects p (wm_runtime v) = Some rt" "rt_ready rt = Some c" "rt_worker rt = None \<or> rt_worker rt = Some e" by blast
    have i: "warm_install c p = ?q\<lparr>sp_objects := (sp_objects p)(wm_runtime v \<mapsto> rt\<lparr>rt_worker := Some e\<rparr>)\<rparr>"
      using v rt by (simp add: warm_install_def upd_runtime_def)
    show ?thesis
    proof (cases "rt_worker rt = Some e")
      case True
      then have "rt\<lparr>rt_worker := Some e\<rparr> = rt" by (cases rt) simp
      then have "(sp_objects p)(wm_runtime v \<mapsto> rt\<lparr>rt_worker := Some e\<rparr>) = sp_objects p" using rt(1) by (auto simp: fun_eq_iff)
      then have "warm_install c p = ?q" by (simp add: i)
      then show ?thesis using q by simp
    next
      case False
      then have none: "rt_worker rt = None" using rt(3) by blast
      then have owned: "owned" using vo v(2) rt(1,2) by (cases owned) (auto simp: warm_ok_def)
      have "pool_ok (?q\<lparr>sp_objects := (sp_objects ?q)(wm_runtime v \<mapsto> rt\<lparr>rt_worker := Some e\<rparr>)\<rparr>)"
      proof (rule set_worker_ok [OF q], goal_cases)
        case 1
        then show ?case using rt(1) by simp
      next
        case 2
        then show ?case using worker_none_release [OF p rt(1) none] .
      next
        case 3
        then show ?case using ready_refs [OF p rt(1,2)] .
      next
        case (4 e')
        then show ?case using vo v(2) owned by (auto simp: warm_ok_def)
      next
        case (5 c' v' e')
        then show ?case using v(2) owned rt(2) by (auto split: if_splits)
      qed
      then show ?thesis by (simp add: i)
    qed
  next
    case False
    then have "warm_install c p = p\<lparr>sp_warming := (sp_warming p)(c := None), sp_closed := (if owned then insert e (sp_closed p) else sp_closed p)\<rparr>"
      using v by (auto simp: warm_install_def close_engine_def Let_def split: option.split)
    moreover have "pool_ok (p\<lparr>sp_warming := (sp_warming p)(c := None), sp_closed := (if owned then insert e (sp_closed p) else sp_closed p)\<rparr>)"
      by (rule forget_warm_ok [OF p]) (use v in \<open>auto split: if_splits\<close>)
    ultimately show ?thesis by simp
  qed
qed

lemma warm_end_ok:
  assumes p: "pool_ok p"
  shows "pool_ok (warm_end c ok p)"
proof (cases "\<exists>v e owned. sp_warming p c = Some v \<and> wm_engine v = Some (e, owned) \<and> wm_installed v")
  case False
  then have "warm_end c ok p = p" by (auto simp: warm_end_def split: option.split)
  then show ?thesis using p by simp
next
  case True
  then obtain v e owned where v: "sp_warming p c = Some v" "wm_engine v = Some (e, owned)" "wm_installed v" by blast
  have vo: "warm_ok p c v" by (rule pool_okD(7) [OF p v(1)])
  show ?thesis
  proof (cases "ok \<or> \<not> owned")
    case True
    then have "warm_end c ok p = p\<lparr>sp_warming := (sp_warming p)(c := None), sp_closed := sp_closed p\<rparr>" using v by (simp add: warm_end_def)
    moreover have "pool_ok (p\<lparr>sp_warming := (sp_warming p)(c := None), sp_closed := sp_closed p\<rparr>)" by (rule forget_warm_ok [OF p]) simp
    ultimately show ?thesis by simp
  next
    case False
    let ?q = "p\<lparr>sp_warming := (sp_warming p)(c := None), sp_closed := insert e (sp_closed p)\<rparr>"
    have q: "pool_ok ?q" using v False by (auto intro!: forget_warm_ok [OF p])
    have w: "warm_end c ok p = upd_runtime (wm_runtime v)
        (\<lambda>rt. if rt_ready rt = Some c \<and> rt_worker rt = Some e then rt\<lparr>rt_worker := None\<rparr> else rt) ?q"
      using v False by (simp add: warm_end_def close_engine_def)
    show ?thesis
    proof (cases "\<exists>rt. sp_objects p (wm_runtime v) = Some rt \<and> rt_ready rt = Some c \<and> rt_worker rt = Some e")
      case True
      then obtain rt where rt: "sp_objects p (wm_runtime v) = Some rt" "rt_ready rt = Some c" "rt_worker rt = Some e" by blast
      have rel: "rt_release rt = None"
      proof (cases "rt_release rt")
        case (Some k)
        then show ?thesis using pool_okD(1) [OF p rt(1)] rt(3) vo v(2) False by (auto simp: runtime_ok_def warm_ok_def)
      qed simp
      have "pool_ok (?q\<lparr>sp_objects := (sp_objects ?q)(wm_runtime v \<mapsto> rt\<lparr>rt_worker := None\<rparr>)\<rparr>)"
      proof (rule set_worker_ok [OF q], goal_cases)
        case 1
        then show ?case using rt(1) by simp
      next
        case 2
        then show ?case using rel .
      next
        case 3
        then show ?case using ready_refs [OF p rt(1,2)] .
      next
        case (5 c' v' e')
        then show ?case using rt(2) by (auto split: if_splits)
      qed simp
      then show ?thesis using rt by (simp add: w upd_runtime_def)
    next
      case F: False
      have "warm_end c ok p = ?q"
      proof (cases "sp_objects p (wm_runtime v)")
        case (Some rt)
        moreover have "(sp_objects p)(wm_runtime v \<mapsto> rt) = sp_objects p" using Some by (auto simp: fun_eq_iff)
        ultimately show ?thesis using F by (auto simp: w upd_runtime_def)
      qed (simp add: w upd_runtime_def)
      then show ?thesis using q by simp
    qed
  qed
qed

section \<open>Runs of the pool\<close>

lemma pin_ok: "pool_ok (p\<lparr>sp_pinned := m\<rparr>) = pool_ok p"
  by (simp add: pool_ok_def runtime_ok_def worker_ok_def warm_ok_def)

lemma pool_step_ok: "pool_ok p \<Longrightarrow> pool_ok (pool_step e p)"
proof (cases e)
  case (Ev_keep_warm start key k voice)
  then show "pool_ok p \<Longrightarrow> ?thesis"
    using activate_ok [of p start key k voice] by (auto simp: keep_warm_def pin_ok split: prod.split intro: release_ok)
next
  case (Ev_release_keep_warm voice)
  then show "pool_ok p \<Longrightarrow> ?thesis" by (auto simp: release_keep_warm_def pin_ok split: option.split intro!: release_ok)
qed (simp_all add: activate_ok release_ok warm_acquire_ok warm_install_ok warm_end_ok)

interpretation speech_runs: machine pool_step pool_ok
  by unfold_locales (rule pool_step_ok)


section \<open>A lease taken while the last one is given back\<close>

lemmas pool_run_defs = pool_activate_def pool_lookup_def worker_for_def assign_worker_def runtime_activate_def upd_runtime_def new_pool_def
      lease_release_def on_zero_def pool_release_def release_worker_def close_engine_def warm_acquire_def warm_install_def warm_end_def

text \<open>The states of the run, one after each critical section.\<close>

definition leak_state0 :: speech_pool where
  "leak_state0 =
   \<lparr>sp_runtimes = [''a'' \<mapsto> 0], sp_objects = [0 \<mapsto> \<lparr>rt_key = ''a'', rt_refs = 1, rt_ready = Some 3, rt_worker = Some 1, rt_release = Some ''1''\<rparr>], sp_workers = [''1'' \<mapsto> \<lparr>pw_engine = 1, pw_voice = ''amy'', pw_resident = True, pw_refs = 1\<rparr>], sp_leases = [2 \<mapsto> 0], sp_pinned = Map.empty,
     sp_warming = [3 \<mapsto> \<lparr>wm_runtime = 0, wm_engine = None, wm_installed = False\<rparr>], sp_started = {1}, sp_closed = {}, sp_next = 4\<rparr>"

definition leak_state1 :: speech_pool where
  "leak_state1 =
   \<lparr>sp_runtimes = [''a'' \<mapsto> 0], sp_objects = [0 \<mapsto> \<lparr>rt_key = ''a'', rt_refs = 0, rt_ready = None, rt_worker = None, rt_release = Some ''1''\<rparr>], sp_workers = [''1'' \<mapsto> \<lparr>pw_engine = 1, pw_voice = ''amy'', pw_resident = True, pw_refs = 1\<rparr>], sp_leases = Map.empty, sp_pinned = Map.empty,
     sp_warming = [3 \<mapsto> \<lparr>wm_runtime = 0, wm_engine = None, wm_installed = False\<rparr>], sp_started = {1}, sp_closed = {}, sp_next = 4\<rparr>"

definition leak_state2 :: speech_pool where
  "leak_state2 =
   \<lparr>sp_runtimes = [''a'' \<mapsto> 0], sp_objects = [0 \<mapsto> \<lparr>rt_key = ''a'', rt_refs = 1, rt_ready = Some 5, rt_worker = None, rt_release = Some ''1''\<rparr>], sp_workers = [''1'' \<mapsto> \<lparr>pw_engine = 1, pw_voice = ''amy'', pw_resident = True, pw_refs = 1\<rparr>], sp_leases = [4 \<mapsto> 0], sp_pinned = Map.empty,
     sp_warming = [3 \<mapsto> \<lparr>wm_runtime = 0, wm_engine = None, wm_installed = False\<rparr>, 5 \<mapsto> \<lparr>wm_runtime = 0, wm_engine = None, wm_installed = False\<rparr>], sp_started = {1}, sp_closed = {}, sp_next = 6\<rparr>"

definition leak_state3 :: speech_pool where
  "leak_state3 =
   \<lparr>sp_runtimes = [''a'' \<mapsto> 0], sp_objects = [0 \<mapsto> \<lparr>rt_key = ''a'', rt_refs = 1, rt_ready = Some 5, rt_worker = None, rt_release = Some ''1''\<rparr>], sp_workers = [''1'' \<mapsto> \<lparr>pw_engine = 1, pw_voice = ''amy'', pw_resident = True, pw_refs = 1\<rparr>], sp_leases = [4 \<mapsto> 0], sp_pinned = Map.empty,
     sp_warming = [3 \<mapsto> \<lparr>wm_runtime = 0, wm_engine = None, wm_installed = False\<rparr>, 5 \<mapsto> \<lparr>wm_runtime = 0, wm_engine = None, wm_installed = False\<rparr>], sp_started = {1}, sp_closed = {}, sp_next = 6\<rparr>"

definition leak_state4 :: speech_pool where
  "leak_state4 =
   \<lparr>sp_runtimes = [''a'' \<mapsto> 0], sp_objects = [0 \<mapsto> \<lparr>rt_key = ''a'', rt_refs = 1, rt_ready = Some 5, rt_worker = None, rt_release = Some ''1''\<rparr>], sp_workers = [''1'' \<mapsto> \<lparr>pw_engine = 1, pw_voice = ''amy'', pw_resident = True, pw_refs = 1\<rparr>], sp_leases = [4 \<mapsto> 0], sp_pinned = Map.empty,
     sp_warming = [3 \<mapsto> \<lparr>wm_runtime = 0, wm_engine = None, wm_installed = False\<rparr>, 5 \<mapsto> \<lparr>wm_runtime = 0, wm_engine = Some (6, True), wm_installed = False\<rparr>], sp_started = {6, 1}, sp_closed = {}, sp_next = 7\<rparr>"

definition leak_state5 :: speech_pool where
  "leak_state5 =
   \<lparr>sp_runtimes = [''a'' \<mapsto> 0], sp_objects = [0 \<mapsto> \<lparr>rt_key = ''a'', rt_refs = 1, rt_ready = Some 5, rt_worker = Some 6, rt_release = Some ''1''\<rparr>], sp_workers = [''1'' \<mapsto> \<lparr>pw_engine = 1, pw_voice = ''amy'', pw_resident = True, pw_refs = 1\<rparr>], sp_leases = [4 \<mapsto> 0], sp_pinned = Map.empty,
     sp_warming = [3 \<mapsto> \<lparr>wm_runtime = 0, wm_engine = None, wm_installed = False\<rparr>, 5 \<mapsto> \<lparr>wm_runtime = 0, wm_engine = Some (6, True), wm_installed = True\<rparr>], sp_started = {6, 1}, sp_closed = {}, sp_next = 7\<rparr>"

definition leak_state6 :: speech_pool where
  "leak_state6 =
   \<lparr>sp_runtimes = [''a'' \<mapsto> 0], sp_objects = [0 \<mapsto> \<lparr>rt_key = ''a'', rt_refs = 1, rt_ready = Some 5, rt_worker = Some 6, rt_release = Some ''1''\<rparr>], sp_workers = [''1'' \<mapsto> \<lparr>pw_engine = 1, pw_voice = ''amy'', pw_resident = True, pw_refs = 1\<rparr>], sp_leases = [4 \<mapsto> 0], sp_pinned = Map.empty,
     sp_warming = [3 \<mapsto> \<lparr>wm_runtime = 0, wm_engine = None, wm_installed = False\<rparr>], sp_started = {6, 1}, sp_closed = {}, sp_next = 7\<rparr>"

definition leak_state7 :: speech_pool where
  "leak_state7 =
   \<lparr>sp_runtimes = Map.empty, sp_objects = [0 \<mapsto> \<lparr>rt_key = ''a'', rt_refs = 0, rt_ready = None, rt_worker = None, rt_release = None\<rparr>], sp_workers = Map.empty, sp_leases = Map.empty, sp_pinned = Map.empty,
     sp_warming = [3 \<mapsto> \<lparr>wm_runtime = 0, wm_engine = None, wm_installed = False\<rparr>], sp_started = {6, 1}, sp_closed = {1}, sp_next = 7\<rparr>"

lemma leak_step0: "snd (pool_activate Resident_engine ''a'' ''1'' ''amy'' new_pool) = leak_state0"
  by (simp add: leak_state0_def pool_run_defs fun_eq_iff)

lemma leak_step1: "snd (lease_release 2 leak_state0) = leak_state1"
  by (simp add: leak_state0_def leak_state1_def pool_run_defs fun_eq_iff)

lemma leak_step2: "snd (runtime_activate 0 leak_state1) = leak_state2"
  by (simp add: leak_state1_def leak_state2_def pool_run_defs fun_eq_iff)

lemma leak_step3: "on_zero 0 leak_state2 = leak_state3"
  by (simp add: leak_state2_def leak_state3_def pool_run_defs fun_eq_iff)

lemma leak_step4: "warm_acquire 5 True leak_state3 = leak_state4"
  by (simp add: leak_state3_def leak_state4_def pool_run_defs fun_eq_iff)

lemma leak_step5: "warm_install 5 leak_state4 = leak_state5"
  by (simp add: leak_state4_def leak_state5_def pool_run_defs fun_eq_iff)

lemma leak_step6: "warm_end 5 True leak_state5 = leak_state6"
  by (simp add: leak_state5_def leak_state6_def pool_run_defs fun_eq_iff)

lemma leak_step7: "pool_release 4 leak_state6 = leak_state7"
  by (simp add: leak_state6_def leak_state7_def pool_run_defs fun_eq_iff)


end
