(* ===== verification/Mail_Rows.thy ===== *)
theory Mail_Rows
  imports Mbsync_State Speech_Text Sync_Store
begin

text \<open>
  The index of messages (the table mail_messages with internal/store/mail\_index.go, mail\_path.go and the updates of
  mail.go) and the journal of mail changes that refers to it.  A table is the list of its rows in the order of their
  ids; a statement is a function on it, a transaction that fails leaves the tables as they were.  NULL and 0 are the
  same number of a message here, as in every statement that reads one.  Clock readings are parameters.
\<close>

section \<open>Tables\<close>

record acct_row =
  ar_id :: string
  ar_user :: string
  ar_deleting :: bool
  ar_folder_map :: "(string \<times> string) list option"
  ar_version :: int

record msg_row =
  ms_id :: int
  ms_account :: string
  ms_folder :: string
  ms_path :: string
  ms_message_id :: string
  ms_sender :: string
  ms_recipients :: string
  ms_cc :: string
  ms_subject :: string
  ms_date :: string
  ms_date_utc :: "int option"
  ms_read :: bool
  ms_attachments :: int
  ms_uid :: "32 word"
  ms_validity :: "32 word"
  ms_flags :: string
  ms_alerted :: int
  ms_attempts :: int
  ms_updated :: string
  ms_scan :: string
  ms_size :: int

record mutation_row =
  mu_id :: int
  mu_message :: int
  mu_user :: string
  mu_operation :: string
  mu_from :: string
  mu_to :: string
  mu_status :: string
  mu_error :: string
  mu_created :: string
  mu_desired :: "bool option"
  mu_uid :: "32 word"
  mu_validity :: "32 word"

record mail_db =
  md_accounts :: "acct_row list"
  md_rows :: "msg_row list"
  md_mutations :: "mutation_row list"

datatype store_error =
  No_rows | Not_found | Path_required | Identity_required | Account_required | Path_conflict string | Constraint_failed | Not_for_user

text \<open>SQLite gives a new row the greatest id plus one, and 1 in an empty table.  \<open>MAX\<close> of no rows is NULL, read as 0.\<close>

definition next_id :: "int list \<Rightarrow> int" where
  "next_id ids = (case ids of [] \<Rightarrow> 1 | i # is \<Rightarrow> fold max is i + 1)"

definition sql_max :: "int list \<Rightarrow> int" where
  "sql_max xs = (case xs of [] \<Rightarrow> 0 | x # xs \<Rightarrow> fold max xs x)"

definition sql_trim :: "string \<Rightarrow> string" where
  "sql_trim s = rev (dropWhile (\<lambda>c. c = CHR '' '') (rev (dropWhile (\<lambda>c. c = CHR '' '') s)))"

text \<open>\<open>LIKE\<close> with the escape character backslash: ASCII letters match in either case.\<close>

fun sql_like :: "string \<Rightarrow> string \<Rightarrow> bool" where
  "sql_like [] s \<longleftrightarrow> s = []"
| "sql_like (c # p) s \<longleftrightarrow>
     (if c = CHR ''%'' then sql_like p s \<or> (case s of [] \<Rightarrow> False | _ # t \<Rightarrow> sql_like (c # p) t)
      else if c = CHR ''_'' then s \<noteq> [] \<and> sql_like p (drop (snd (decode_rune s)) s)
      else if c = CHR 0x5C then (case p of [] \<Rightarrow> False | d # q \<Rightarrow> (case s of [] \<Rightarrow> False | x # t \<Rightarrow> sql_lower d = sql_lower x \<and> sql_like q t))
      else (case s of [] \<Rightarrow> False | x # t \<Rightarrow> sql_lower c = sql_lower x \<and> sql_like p t))"

section \<open>Names of Maildir files\<close>

definition maildir_base_name :: "string \<Rightarrow> string" where
  "maildir_base_name p =
     (let name = (case last_index_byte p (CHR ''/'') of None \<Rightarrow> p | Some i \<Rightarrow> drop (i + 1) p);
          colon = index_byte name (CHR '':''); comma = index_byte name (CHR '','');
          cut = (case comma of None \<Rightarrow> colon | Some c \<Rightarrow> (case colon of None \<Rightarrow> Some c | Some i \<Rightarrow> if c < i then Some c else Some i))
      in case cut of None \<Rightarrow> name | Some i \<Rightarrow> take i name)"

definition maildir_flags_read :: "string \<Rightarrow> bool" where
  "maildir_flags_read p = (case index_sub p '':2,'' of None \<Rightarrow> False | Some i \<Rightarrow> CHR ''S'' \<in> set (drop (i + 3) p))"

definition escape_like :: "string \<Rightarrow> string" where
  "escape_like s = concat (map (\<lambda>c. if c = CHR 0x5C \<or> c = CHR ''%'' \<or> c = CHR ''_'' then [CHR 0x5C, c] else [c]) s)"

definition maildir_base_like :: "string \<Rightarrow> string list" where
  "maildir_base_like base =
     [''%/'' @ escape_like base, ''%/'' @ escape_like base @ '',%'', ''%/'' @ escape_like base @ '':%'']"

section \<open>Small statements\<close>

definition owned_by :: "mail_db \<Rightarrow> string \<Rightarrow> string \<Rightarrow> bool" where
  "owned_by db user a \<longleftrightarrow> list_ex (\<lambda>r. ar_id r = a \<and> ar_user r = user) (md_accounts db)"

definition update_rows :: "(msg_row \<Rightarrow> bool) \<Rightarrow> (msg_row \<Rightarrow> msg_row) \<Rightarrow> mail_db \<Rightarrow> mail_db" where
  "update_rows sel f db = db\<lparr>md_rows := map (\<lambda>r. if sel r then f r else r) (md_rows db)\<rparr>"

text \<open>Deleting a message takes its journal rows with it (ON DELETE CASCADE).\<close>

definition delete_rows :: "(msg_row \<Rightarrow> bool) \<Rightarrow> mail_db \<Rightarrow> mail_db" where
  "delete_rows sel db =
     db\<lparr>md_rows := filter (\<lambda>r. \<not> sel r) (md_rows db),
       md_mutations := filter (\<lambda>m. \<not> list_ex (\<lambda>r. sel r \<and> ms_id r = mu_message m) (md_rows db)) (md_mutations db)\<rparr>"

definition affected :: "(msg_row \<Rightarrow> bool) \<Rightarrow> mail_db \<Rightarrow> nat" where
  "affected sel db = length (filter sel (md_rows db))"

definition mark_mail_read :: "string \<Rightarrow> string \<Rightarrow> int \<Rightarrow> bool \<Rightarrow> mail_db \<Rightarrow> store_error option \<times> mail_db" where
  "mark_mail_read now user i read db =
     (let sel = (\<lambda>r. ms_id r = i \<and> owned_by db user (ms_account r))
      in (if affected sel db \<noteq> 1 then Some Not_found else None, update_rows sel (\<lambda>r. r\<lparr>ms_read := read, ms_updated := now\<rparr>) db))"

definition delete_mail_index :: "string \<Rightarrow> int \<Rightarrow> mail_db \<Rightarrow> mail_db" where
  "delete_mail_index user i db = delete_rows (\<lambda>r. ms_id r = i \<and> owned_by db user (ms_account r)) db"

definition update_indexed_uid :: "string \<Rightarrow> string \<Rightarrow> int \<Rightarrow> 32 word \<Rightarrow> 32 word \<Rightarrow> mail_db \<Rightarrow> mail_db" where
  "update_indexed_uid now a i uid validity db =
     update_rows (\<lambda>r. ms_id r = i \<and> ms_account r = a) (\<lambda>r. r\<lparr>ms_uid := uid, ms_validity := validity, ms_updated := now\<rparr>) db"

definition delete_indexed_mail :: "string \<Rightarrow> int \<Rightarrow> mail_db \<Rightarrow> mail_db" where
  "delete_indexed_mail a i db = delete_rows (\<lambda>r. ms_id r = i \<and> ms_account r = a) db"

text \<open>\<open>MarkMailIndexSeenBatch\<close> works in chunks of 500 paths.\<close>

fun seen_batches :: "nat \<Rightarrow> string \<Rightarrow> string \<Rightarrow> string list \<Rightarrow> mail_db \<Rightarrow> nat \<times> mail_db" where
  "seen_batches 0 a scan paths db = (0, db)"
| "seen_batches (Suc n) a scan paths db =
     (if paths = [] then (0, db)
      else
        (let chunk = take 500 paths; sel = (\<lambda>r. ms_account r = a \<and> ms_path r \<in> set chunk);
             (count, db') = seen_batches n a scan (drop 500 paths) (update_rows sel (\<lambda>r. r\<lparr>ms_scan := scan\<rparr>) db)
         in (affected sel db + count, db')))"

definition mark_seen_batch :: "string \<Rightarrow> string \<Rightarrow> string list \<Rightarrow> mail_db \<Rightarrow> nat \<times> mail_db" where
  "mark_seen_batch a scan paths db = seen_batches (length paths) a scan paths db"

definition purge_unseen :: "string \<Rightarrow> string \<Rightarrow> string \<Rightarrow> mail_db \<Rightarrow> mail_db" where
  "purge_unseen a scan pattern db = delete_rows (\<lambda>r. ms_account r = a \<and> ms_scan r \<noteq> scan \<and> sql_like pattern (ms_path r)) db"

section \<open>Changing a path\<close>

text \<open>\<open>mergeMailPathCollision\<close>: the row of the same account that already has the path is merged into the row of the message.\<close>

definition merge_collision :: "string \<Rightarrow> int \<Rightarrow> string \<Rightarrow> mail_db \<Rightarrow> store_error + mail_db" where
  "merge_collision a i p db = (case find (\<lambda>r. ms_account r = a \<and> ms_path r = p \<and> ms_id r \<noteq> i) (md_rows db) of
      None \<Rightarrow> Inr db
    | Some c \<Rightarrow> (case find (\<lambda>r. ms_id r = i \<and> ms_account r = a) (md_rows db) of
          None \<Rightarrow> Inl No_rows
        | Some r \<Rightarrow>
            if ms_message_id r \<noteq> [] \<and> ms_message_id c \<noteq> [] \<and> ms_message_id r \<noteq> ms_message_id c then Inl (Path_conflict p)
            else
              Inr (delete_rows (\<lambda>r. ms_id r = ms_id c \<and> ms_account r = a)
                (update_rows (\<lambda>r. ms_id r = i)
                  (\<lambda>r. r\<lparr>ms_alerted := max (ms_alerted r) (ms_alerted c), ms_attempts := max (ms_attempts r) (ms_attempts c),
                      ms_message_id := (if ms_message_id r = [] then ms_message_id c else ms_message_id r)\<rparr>) db))))"

text \<open>An update of one row that sets its path: the table refuses a path that another row has.\<close>

definition set_path :: "(msg_row \<Rightarrow> bool) \<Rightarrow> string \<Rightarrow> (msg_row \<Rightarrow> msg_row) \<Rightarrow> store_error \<Rightarrow> mail_db \<Rightarrow> store_error + mail_db" where
  "set_path sel p f none db =
     (if affected sel db = 0 then Inl none
      else if list_ex (\<lambda>r. ms_path r = p \<and> \<not> sel r) (md_rows db) then Inl Constraint_failed
      else if affected sel db \<noteq> 1 then Inl none
      else Inr (update_rows sel (\<lambda>r. f (r\<lparr>ms_path := p\<rparr>)) db))"

definition account_of_message :: "string \<Rightarrow> int \<Rightarrow> mail_db \<Rightarrow> string option" where
  "account_of_message user i db = map_option ms_account (find (\<lambda>r. ms_id r = i \<and> owned_by db user (ms_account r)) (md_rows db))"

definition mark_read_at_path :: "string \<Rightarrow> string \<Rightarrow> int \<Rightarrow> bool \<Rightarrow> string \<Rightarrow> mail_db \<Rightarrow> store_error + mail_db" where
  "mark_read_at_path now user i read p db =
     (if trim_space p = [] then Inl Path_required
      else case account_of_message user i db of
          None \<Rightarrow> Inl Not_found
        | Some a \<Rightarrow> (case merge_collision a i p db of
              Inl e \<Rightarrow> Inl e
            | Inr db' \<Rightarrow> set_path (\<lambda>r. ms_id r = i \<and> ms_account r = a) p (\<lambda>r. r\<lparr>ms_read := read, ms_updated := now\<rparr>) Not_found db'))"

definition move_mail_index :: "string \<Rightarrow> string \<Rightarrow> int \<Rightarrow> string \<Rightarrow> string \<Rightarrow> mail_db \<Rightarrow> store_error + mail_db" where
  "move_mail_index now user i folder p db = (case account_of_message user i db of
      None \<Rightarrow> Inl Not_found
    | Some a \<Rightarrow> (case merge_collision a i p db of
          Inl e \<Rightarrow> Inl e
        | Inr db' \<Rightarrow> set_path (\<lambda>r. ms_id r = i \<and> ms_account r = a) p (\<lambda>r. r\<lparr>ms_folder := folder, ms_updated := now\<rparr>) Not_found db'))"

text \<open>\<open>MarkConfirmedReadAtPath\<close> refuses a message that moved or changed since \<open>item\<close> was read.\<close>

definition mark_confirmed_read :: "msg_row \<Rightarrow> bool \<Rightarrow> string \<Rightarrow> mail_db \<Rightarrow> store_error + mail_db" where
  "mark_confirmed_read item read p db = (case merge_collision (ms_account item) (ms_id item) p db of
      Inl e \<Rightarrow> Inl e
    | Inr db' \<Rightarrow>
        set_path (\<lambda>r. ms_id r = ms_id item \<and> ms_account r = ms_account item \<and> ms_folder r = ms_folder item \<and> ms_path r = ms_path item \<and>
            ms_uid r = ms_uid item \<and> ms_validity r = ms_validity item) p (\<lambda>r. r\<lparr>ms_read := read\<rparr>) No_rows db')"

section \<open>Identities from the provider\<close>

definition seen_flag :: "unicode \<Rightarrow> string list \<Rightarrow> bool" where
  "seen_flag U flags = list_ex (\<lambda>f. equal_fold U (trim_space f) (CHR 0x5C # ''Seen'')) flags"

definition set_identity :: "unicode \<Rightarrow> string \<Rightarrow> 32 word \<Rightarrow> 32 word \<Rightarrow> string list \<Rightarrow> bool \<Rightarrow> msg_row \<Rightarrow> msg_row" where
  "set_identity U now uid validity flags keep r =
     r\<lparr>ms_uid := uid, ms_validity := validity, ms_flags := join flags '' '',
       ms_read := (if keep then ms_read r else seen_flag U flags), ms_updated := now\<rparr>"

text \<open>\<open>UpdateMailIdentity\<close> prefers a row of the folder and never chooses between several rows.\<close>

definition update_mail_identity :: "unicode \<Rightarrow> string \<Rightarrow> string \<Rightarrow> string \<Rightarrow> string \<Rightarrow> 32 word \<Rightarrow> 32 word \<Rightarrow> string list \<Rightarrow> bool \<Rightarrow> mail_db \<Rightarrow> mail_db" where
  "update_mail_identity U now a folder mid uid validity flags keep db =
     (if a = [] \<or> folder = [] \<or> mid = [] \<or> uid = 0 \<or> validity = 0 then db
      else
        (let here = filter (\<lambda>r. ms_account r = a \<and> ms_folder r = folder \<and> ms_message_id r = mid) (md_rows db);
             rows = (if here = [] then filter (\<lambda>r. ms_account r = a \<and> ms_message_id r = mid) (md_rows db) else here)
         in case rows of
             [r] \<Rightarrow>
               if ms_id r = 0 then db
               else update_rows (\<lambda>x. ms_id x = ms_id r \<and> ms_account x = a) (\<lambda>x. (set_identity U now uid validity flags keep x)\<lparr>ms_folder := folder\<rparr>) db
           | _ \<Rightarrow> db))"

definition update_identity_by_uid :: "unicode \<Rightarrow> string \<Rightarrow> string \<Rightarrow> string \<Rightarrow> 32 word \<Rightarrow> 32 word \<Rightarrow> string list \<Rightarrow> bool \<Rightarrow> mail_db \<Rightarrow> mail_db" where
  "update_identity_by_uid U now a folder uid validity flags keep db =
     (if a = [] \<or> folder = [] \<or> uid = 0 \<or> validity = 0 then db
      else update_rows (\<lambda>r. ms_account r = a \<and> ms_folder r = folder \<and> ms_uid r = uid \<and> ms_validity r = validity)
        (set_identity U now uid validity flags keep) db)"

section \<open>Indexing a file\<close>

record index_input =
  in_account :: string
  in_folder :: string
  in_path :: string
  in_message_id :: string
  in_sender :: string
  in_recipients :: string
  in_cc :: string
  in_subject :: string
  in_date :: string
  in_date_utc :: "int option"
  in_read :: bool
  in_attachments :: int
  in_updated :: string
  in_scan :: string
  in_size :: int
  in_alerted :: int
  in_attempts :: int
  in_live :: "(string \<Rightarrow> bool) option"

text \<open>The rows of other paths that may be the same message: the same Message-ID, or a path whose name only adds an info
  field or flags.\<close>

definition same_identity :: "index_input \<Rightarrow> msg_row \<Rightarrow> bool" where
  "same_identity i r \<longleftrightarrow> ms_account r = in_account i \<and> ms_folder r = in_folder i \<and> ms_path r \<noteq> in_path i \<and>
     (in_message_id i \<noteq> [] \<and> ms_message_id r = in_message_id i \<or>
      list_ex (\<lambda>p. sql_like p (ms_path r)) (maildir_base_like (maildir_base_name (in_path i))))"

definition carry_alerts :: "mail_db \<Rightarrow> index_input \<Rightarrow> index_input" where
  "carry_alerts db i =
     (if in_live i \<noteq> None \<or> trim_space (in_message_id i) \<noteq> []
      then
        (let same = filter (same_identity i) (md_rows db); alerted = sql_max (map ms_alerted same); attempts = sql_max (map ms_attempts same)
         in if alerted \<noteq> 0 \<or> attempts > 0 then i\<lparr>in_alerted := alerted, in_attempts := attempts\<rparr> else i)
      else i)"

text \<open>\<open>ORDER BY updated_at DESC\<close>; rows with the same time stay in the order of the table.\<close>

fun insert_by :: "('a \<Rightarrow> 'a \<Rightarrow> bool) \<Rightarrow> 'a \<Rightarrow> 'a list \<Rightarrow> 'a list" where
  "insert_by before x [] = [x]"
| "insert_by before x (y # ys) = (if before y x then y # insert_by before x ys else x # y # ys)"

definition sort_by :: "('a \<Rightarrow> 'a \<Rightarrow> bool) \<Rightarrow> 'a list \<Rightarrow> 'a list" where
  "sort_by before xs = foldr (insert_by before) xs []"

definition stale_rows :: "mail_db \<Rightarrow> index_input \<Rightarrow> msg_row list" where
  "stale_rows db i = (case in_live i of
      None \<Rightarrow> []
    | Some live \<Rightarrow>
        if list_ex (\<lambda>r. ms_path r = in_path i) (md_rows db) then []
        else filter (\<lambda>r. \<not> live (ms_path r)) (sort_by (\<lambda>x y. str_less (ms_updated y) (ms_updated x)) (filter (same_identity i) (md_rows db))))"

text \<open>The stale row takes the new path; the further stale rows go.\<close>

definition rehome :: "index_input \<Rightarrow> bool \<Rightarrow> msg_row \<Rightarrow> msg_row" where
  "rehome i dead_read r =
     r\<lparr>ms_path := in_path i, ms_message_id := (if sql_trim (in_message_id i) \<noteq> [] then in_message_id i else ms_message_id r),
       ms_sender := in_sender i, ms_recipients := in_recipients i, ms_cc := in_cc i, ms_subject := in_subject i, ms_date := in_date i,
       ms_date_utc := in_date_utc i, ms_read := dead_read, ms_alerted := in_alerted i, ms_attempts := in_attempts i,
       ms_attachments := in_attachments i, ms_updated := in_updated i, ms_scan := in_scan i, ms_size := in_size i\<rparr>"

definition new_row :: "int \<Rightarrow> index_input \<Rightarrow> msg_row" where
  "new_row n i = \<lparr>ms_id = n, ms_account = in_account i, ms_folder = in_folder i, ms_path = in_path i, ms_message_id = in_message_id i,
     ms_sender = in_sender i, ms_recipients = in_recipients i, ms_cc = in_cc i, ms_subject = in_subject i, ms_date = in_date i,
     ms_date_utc = in_date_utc i, ms_read = in_read i, ms_attachments = in_attachments i, ms_uid = 0, ms_validity = 0, ms_flags = [],
     ms_alerted = in_alerted i, ms_attempts = in_attempts i, ms_updated = in_updated i, ms_scan = in_scan i, ms_size = in_size i\<rparr>"

text \<open>\<open>ON CONFLICT(path)\<close>: the alert state and the account of the row stay.\<close>

definition reindexed :: "index_input \<Rightarrow> msg_row \<Rightarrow> msg_row" where
  "reindexed i r =
     r\<lparr>ms_folder := in_folder i, ms_message_id := in_message_id i, ms_sender := in_sender i, ms_recipients := in_recipients i,
       ms_cc := in_cc i, ms_subject := in_subject i, ms_date := in_date i, ms_date_utc := in_date_utc i, ms_read := in_read i,
       ms_attachments := in_attachments i, ms_updated := in_updated i, ms_scan := in_scan i, ms_size := in_size i\<rparr>"

definition upsert_mail_index :: "index_input \<Rightarrow> mail_db \<Rightarrow> store_error + int \<times> mail_db" where
  "upsert_mail_index input db =
     (if trim_space (in_account input) = [] \<or> trim_space (in_path input) = [] then Inl Path_required
      else
        (let i = carry_alerts db input
         in case stale_rows db i of
             s # others \<Rightarrow>
               Inr (ms_id s, delete_rows (\<lambda>r. ms_id r \<in> set (map ms_id others) \<and> ms_account r = in_account i)
                 (update_rows (\<lambda>r. ms_id r = ms_id s) (rehome i (in_read i \<or> list_ex ms_read (s # others))) db))
           | [] \<Rightarrow>
               (case find (\<lambda>r. ms_path r = in_path i) (md_rows db) of
                  Some r \<Rightarrow> Inr (ms_id r, update_rows (\<lambda>x. ms_path x = in_path i) (reindexed i) db)
                | None \<Rightarrow> let n = next_id (map ms_id (md_rows db)) in Inr (n, db\<lparr>md_rows := md_rows db @ [new_row n i]\<rparr>))))"

section \<open>Duplicates of a file\<close>

text \<open>\<open>mergeMaildirPathDuplicates\<close>: the rows of a group are those of one account, folder and immutable name.\<close>

definition duplicate_key :: "msg_row \<Rightarrow> string" where
  "duplicate_key r = ms_account r @ [CHR 0x00] @ ms_folder r @ [CHR 0x00] @ maildir_base_name (ms_path r)"

definition duplicate_rank :: "(string \<Rightarrow> bool) \<Rightarrow> msg_row \<Rightarrow> nat" where
  "duplicate_rank live r = (if live (ms_path r) then 4 else 0) + (if index_sub (ms_path r) '':2,'' \<noteq> None then 1 else 0)"

definition better_duplicate :: "(string \<Rightarrow> bool) \<Rightarrow> msg_row \<Rightarrow> msg_row \<Rightarrow> msg_row" where
  "better_duplicate live r s =
     (if duplicate_rank live s < duplicate_rank live r \<or> duplicate_rank live r = duplicate_rank live s \<and> str_less (ms_updated s) (ms_updated r)
      then r else s)"

definition absorb :: "msg_row \<Rightarrow> msg_row \<Rightarrow> msg_row" where
  "absorb r s =
     s\<lparr>ms_alerted := max (ms_alerted s) (ms_alerted r), ms_attempts := max (ms_attempts s) (ms_attempts r),
       ms_message_id := (if ms_message_id s = [] then ms_message_id r else ms_message_id s)\<rparr>"

definition merge_group :: "(string \<Rightarrow> bool) \<Rightarrow> msg_row list \<Rightarrow> mail_db \<Rightarrow> mail_db" where
  "merge_group live rows db = (case rows of
      [] \<Rightarrow> db
    | g # rest \<Rightarrow>
        if rest = [] then db
        else
          (let survivor = fold (better_duplicate live) rest g
           in fold (\<lambda>r db. delete_rows (\<lambda>x. ms_id x = ms_id r) (update_rows (\<lambda>x. ms_id x = ms_id survivor) (absorb r) db))
                (filter (\<lambda>r. ms_id r \<noteq> ms_id survivor) rows) db))"

definition merge_duplicates :: "(string \<Rightarrow> bool) \<Rightarrow> mail_db \<Rightarrow> mail_db" where
  "merge_duplicates live db =
     (let named = filter (\<lambda>r. maildir_base_name (ms_path r) \<noteq> []) (md_rows db)
      in fold (\<lambda>k. merge_group live (filter (\<lambda>r. duplicate_key r = k) named)) (remdups (map duplicate_key named)) db)"

section \<open>The tables stay consistent\<close>

text \<open>Ids and paths are unique, and no journal row refers to a message that is gone.\<close>

definition rows_ok :: "mail_db \<Rightarrow> bool" where
  "rows_ok db \<longleftrightarrow> distinct (map ms_id (md_rows db)) \<and> distinct (map ms_path (md_rows db)) \<and>
     set (map mu_message (md_mutations db)) \<subseteq> set (map ms_id (md_rows db))"

lemma rows_okI:
  "distinct (map ms_id (md_rows db)) \<Longrightarrow> distinct (map ms_path (md_rows db)) \<Longrightarrow>
   set (map mu_message (md_mutations db)) \<subseteq> set (map ms_id (md_rows db)) \<Longrightarrow> rows_ok db"
  by (simp add: rows_ok_def)

lemma same_id: "rows_ok db \<Longrightarrow> r \<in> set (md_rows db) \<Longrightarrow> s \<in> set (md_rows db) \<Longrightarrow> ms_id r = ms_id s \<Longrightarrow> r = s"
  by (auto simp: rows_ok_def distinct_map inj_on_def)

lemma same_path: "rows_ok db \<Longrightarrow> r \<in> set (md_rows db) \<Longrightarrow> s \<in> set (md_rows db) \<Longrightarrow> ms_path r = ms_path s \<Longrightarrow> r = s"
  by (auto simp: rows_ok_def distinct_map inj_on_def)

lemma update_rows_other [simp]: "md_mutations (update_rows sel f db) = md_mutations db" "md_accounts (update_rows sel f db) = md_accounts db"
  by (simp_all add: update_rows_def)

lemma update_rows_rows: "md_rows (update_rows sel f db) = map (\<lambda>r. if sel r then f r else r) (md_rows db)"
  by (simp add: update_rows_def)

lemma delete_rows_rows: "md_rows (delete_rows sel db) = filter (\<lambda>r. \<not> sel r) (md_rows db)"
  by (simp add: delete_rows_def)

lemma update_ids: "(\<And>r. ms_id (f r) = ms_id r) \<Longrightarrow> map ms_id (md_rows (update_rows sel f db)) = map ms_id (md_rows db)"
  by (simp add: update_rows_def)

lemma update_rows_ok:
  assumes "rows_ok db" "\<And>r. ms_id (f r) = ms_id r" "\<And>r. ms_path (f r) = ms_path r"
  shows "rows_ok (update_rows sel f db)"
proof -
  have "map ms_path (md_rows (update_rows sel f db)) = map ms_path (md_rows db)" using assms(3) by (simp add: update_rows_def)
  then show ?thesis using assms(1) update_ids [of f sel db, OF assms(2)] unfolding rows_ok_def by simp
qed

lemma delete_rows_ok:
  assumes "rows_ok db"
  shows "rows_ok (delete_rows sel db)"
proof (rule rows_okI)
  show "distinct (map ms_id (md_rows (delete_rows sel db)))" "distinct (map ms_path (md_rows (delete_rows sel db)))"
    using assms by (auto simp: rows_ok_def delete_rows_def distinct_map_filter)
  show "set (map mu_message (md_mutations (delete_rows sel db))) \<subseteq> set (map ms_id (md_rows (delete_rows sel db)))"
    using assms by (fastforce simp: rows_ok_def delete_rows_def list_ex_iff)
qed

text \<open>One row takes a path that no other row has.\<close>

lemma distinct_paths_set:
  assumes "distinct (map ms_id rows)" "distinct (map ms_path rows)"
    and "\<And>r s. r \<in> set rows \<Longrightarrow> s \<in> set rows \<Longrightarrow> sel r \<Longrightarrow> sel s \<Longrightarrow> r = s"
    and "\<And>r. r \<in> set rows \<Longrightarrow> ms_path r = p \<Longrightarrow> sel r"
    and "\<And>r. sel r \<Longrightarrow> ms_path (f r) = p"
  shows "distinct (map ms_path (map (\<lambda>r. if sel r then f r else r) rows))"
proof -
  have d: "distinct rows" using assms(1) by (simp add: distinct_map)
  have path: "\<And>r s. r \<in> set rows \<Longrightarrow> s \<in> set rows \<Longrightarrow> ms_path r = ms_path s \<Longrightarrow> r = s"
    using assms(2) by (auto simp: distinct_map inj_on_def)
  have "inj_on (\<lambda>r. ms_path (if sel r then f r else r)) (set rows)"
  proof (rule inj_onI)
    fix x y assume xy: "x \<in> set rows" "y \<in> set rows" "ms_path (if sel x then f x else x) = ms_path (if sel y then f y else y)"
    show "x = y"
      using xy assms(3) [OF xy(1,2)] assms(3) [OF xy(2,1)] path [OF xy(1,2)] assms(4) [OF xy(1)] assms(4) [OF xy(2)] assms(5)
      by (cases "sel x"; cases "sel y") auto
  qed
  then show ?thesis using d by (simp add: distinct_map comp_def)
qed

lemma set_path_ok:
  assumes db: "rows_ok db" and r: "set_path sel p f none db = Inr db'" and f: "\<And>r. ms_id (f r) = ms_id r" "\<And>r. ms_path (f r) = ms_path r"
  shows "rows_ok db'"
proof -
  have one: "affected sel db = 1" and free: "\<not> list_ex (\<lambda>r. ms_path r = p \<and> \<not> sel r) (md_rows db)"
    and db': "db' = update_rows sel (\<lambda>r. f (r\<lparr>ms_path := p\<rparr>)) db" using r by (auto simp: set_path_def split: if_splits)
  obtain x where x: "filter sel (md_rows db) = [x]" using one by (auto simp: affected_def length_Suc_conv)
  have unique: "r = s" if "r \<in> set (md_rows db)" "s \<in> set (md_rows db)" "sel r" "sel s" for r s
  proof -
    have "r \<in> set (filter sel (md_rows db))" "s \<in> set (filter sel (md_rows db))" using that by auto
    then show ?thesis by (simp add: x)
  qed
  have eq: "md_rows db' = map (\<lambda>r. if sel r then f (r\<lparr>ms_path := p\<rparr>) else r) (md_rows db)" by (simp add: db' update_rows_def)
  have "distinct (map ms_path (md_rows db'))" unfolding eq
    by (rule distinct_paths_set [of _ sel p "\<lambda>r. f (r\<lparr>ms_path := p\<rparr>)"]) (use db unique free f in \<open>auto simp: rows_ok_def list_ex_iff\<close>)
  moreover have "map ms_id (md_rows db') = map ms_id (md_rows db)" unfolding db' by (rule update_ids) (simp add: f)
  ultimately show ?thesis using db unfolding rows_ok_def db' by (simp del: set_map)
qed

lemma merge_collision_ok: "rows_ok db \<Longrightarrow> merge_collision a i p db = Inr db' \<Longrightarrow> rows_ok db'"
  by (auto simp: merge_collision_def split: option.splits if_splits intro!: delete_rows_ok update_rows_ok)

lemma set_insert_by: "set (insert_by before x xs) = insert x (set xs)"
  by (induction xs) auto

lemma set_sort_by [simp]: "set (sort_by before xs) = set xs"
  by (induction xs) (auto simp: sort_by_def set_insert_by)

lemma distinct_insert_by: "distinct (map g (insert_by before x xs)) \<longleftrightarrow> distinct (map g (x # xs))"
  by (induction xs) (auto simp: set_insert_by)

lemma distinct_sort_by: "distinct (map g (sort_by before xs)) \<longleftrightarrow> distinct (map g xs)"
proof (induction xs)
  case (Cons x xs)
  have "set (map g (foldr (insert_by before) xs [])) = set (map g xs)" using set_sort_by [of before xs] by (simp add: sort_by_def)
  then show ?case using Cons by (simp add: sort_by_def distinct_insert_by)
qed (simp add: sort_by_def)

lemma stale_members:
  assumes "stale_rows db i = s # others"
  shows "s \<in> set (md_rows db)" "set others \<subseteq> set (md_rows db)" "\<not> list_ex (\<lambda>r. ms_path r = in_path i) (md_rows db)"
    "\<And>r. r \<in> set (s # others) \<Longrightarrow> same_identity i r"
  using assms set_sort_by by (auto simp: stale_rows_def split: option.splits if_splits dest!: arg_cong [of _ _ set])

lemma carry_alerts_fields [simp]:
  "in_path (carry_alerts db i) = in_path i" "in_account (carry_alerts db i) = in_account i" "in_folder (carry_alerts db i) = in_folder i"
  "in_message_id (carry_alerts db i) = in_message_id i" "in_live (carry_alerts db i) = in_live i" "in_read (carry_alerts db i) = in_read i"
  by (simp_all add: carry_alerts_def Let_def)

lemma same_identity_carry [simp]: "same_identity (carry_alerts db i) = same_identity i"
  by (simp add: same_identity_def fun_eq_iff)

lemma stale_carry [simp]: "stale_rows db (carry_alerts db i) = stale_rows db i"
  by (simp add: stale_rows_def split: option.split)

lemma next_id_fresh: "i \<in> set is \<Longrightarrow> i < next_id is"
  using fold_max_ge [of i "hd is" "tl is"] by (cases "is") (auto simp: next_id_def)

lemma new_row_ok:
  assumes db: "rows_ok db" and p: "\<not> list_ex (\<lambda>r. ms_path r = in_path i) (md_rows db)"
  shows "rows_ok (db\<lparr>md_rows := md_rows db @ [new_row (next_id (map ms_id (md_rows db))) i]\<rparr>)"
proof -
  have "next_id (map ms_id (md_rows db)) \<notin> ms_id ` set (md_rows db)" using next_id_fresh [of _ "map ms_id (md_rows db)"] by fastforce
  then show ?thesis using db p by (auto simp: rows_ok_def new_row_def list_ex_iff)
qed

lemma rehome_ok:
  assumes db: "rows_ok db" and s: "s \<in> set (md_rows db)" and p: "\<not> list_ex (\<lambda>r. ms_path r = in_path i) (md_rows db)"
  shows "rows_ok (update_rows (\<lambda>r. ms_id r = ms_id s) (rehome i read) db)"
proof -
  have eq: "md_rows (update_rows (\<lambda>r. ms_id r = ms_id s) (rehome i read) db) =
      map (\<lambda>r. if ms_id r = ms_id s then rehome i read r else r) (md_rows db)" by (simp add: update_rows_def)
  have "distinct (map ms_path (map (\<lambda>r. if ms_id r = ms_id s then rehome i read r else r) (md_rows db)))"
    by (rule distinct_paths_set [of _ _ "in_path i"])
      (use db p same_id [OF db] in \<open>auto simp: rows_ok_def list_ex_iff rehome_def\<close>)
  moreover have "map ms_id (md_rows (update_rows (\<lambda>r. ms_id r = ms_id s) (rehome i read) db)) = map ms_id (md_rows db)"
    by (rule update_ids) (simp add: rehome_def)
  ultimately show ?thesis using db unfolding rows_ok_def eq by (simp del: set_map map_map)
qed

lemma upsert_ok:
  assumes db: "rows_ok db" and u: "upsert_mail_index i db = Inr (n, db')"
  shows "rows_ok db'"
proof (cases "stale_rows db i")
  case Nil
  show ?thesis
  proof (cases "find (\<lambda>r. ms_path r = in_path i) (md_rows db)")
    case None
    then have "db' = db\<lparr>md_rows := md_rows db @ [new_row (next_id (map ms_id (md_rows db))) (carry_alerts db i)]\<rparr>"
      using u Nil by (auto simp: upsert_mail_index_def Let_def split: if_splits)
    moreover have "\<not> list_ex (\<lambda>r. ms_path r = in_path (carry_alerts db i)) (md_rows db)" using None by (simp add: find_None_iff list_ex_iff)
    ultimately show ?thesis using new_row_ok [OF db] by blast
  next
    case (Some r)
    then have "db' = update_rows (\<lambda>x. ms_path x = in_path i) (reindexed (carry_alerts db i)) db"
      using u Nil by (simp add: upsert_mail_index_def Let_def split: if_splits)
    then show ?thesis using db by (simp add: update_rows_ok reindexed_def)
  qed
next
  case (Cons s others)
  then have "db' = delete_rows (\<lambda>r. ms_id r \<in> ms_id ` set others \<and> ms_account r = in_account i)
      (update_rows (\<lambda>r. ms_id r = ms_id s) (rehome (carry_alerts db i) (in_read i \<or> list_ex ms_read (s # others))) db)"
    using u by (auto simp: upsert_mail_index_def Let_def split: if_splits)
  then show ?thesis using rehome_ok [OF db stale_members(1) [OF Cons]] stale_members(3) [OF Cons] by (simp add: delete_rows_ok)
qed

lemma absorb_keeps: "ms_id (absorb r s) = ms_id s" "ms_path (absorb r s) = ms_path s"
  by (simp_all add: absorb_def)

lemma absorb_all_ok:
  "rows_ok db \<Longrightarrow> rows_ok (fold (\<lambda>r db. delete_rows (\<lambda>x. ms_id x = ms_id r) (update_rows (\<lambda>x. ms_id x = n) (absorb r) db)) rs db)"
proof (induction rs arbitrary: db)
  case (Cons r rs)
  have "rows_ok (delete_rows (\<lambda>x. ms_id x = ms_id r) (update_rows (\<lambda>x. ms_id x = n) (absorb r) db))"
    by (intro delete_rows_ok update_rows_ok absorb_keeps Cons.prems)
  then show ?case by (simp add: Cons.IH)
qed simp

lemma merge_group_ok: "rows_ok db \<Longrightarrow> rows_ok (merge_group live rs db)"
  unfolding merge_group_def Let_def by (rule list.split [THEN iffD2]) (use absorb_all_ok in presburger)

lemma merge_groups_ok: "rows_ok db \<Longrightarrow> rows_ok (fold (\<lambda>k. merge_group live (g k)) ks db)"
proof (induction ks arbitrary: db)
  case (Cons k ks)
  show ?case using Cons.IH [OF merge_group_ok [OF Cons.prems]] by simp
qed simp

lemma merge_duplicates_ok: "rows_ok db \<Longrightarrow> rows_ok (merge_duplicates live db)"
  unfolding merge_duplicates_def Let_def by (rule merge_groups_ok)

text \<open>The statements as events of one table; a refused one changes nothing.\<close>

datatype mail_op =
  Op_mark_read string string int bool
| Op_read_at string string int bool string
| Op_move string string int string string
| Op_confirm msg_row bool string
| Op_identity string string string string "32 word" "32 word" "string list" bool
| Op_identity_uid string string string "32 word" "32 word" "string list" bool
| Op_upsert index_input
| Op_delete string int
| Op_delete_indexed string int
| Op_uid string string int "32 word" "32 word"
| Op_seen string string "string list"
| Op_purge string string string
| Op_merge "string \<Rightarrow> bool"

definition keep_ok :: "mail_db \<Rightarrow> store_error + mail_db \<Rightarrow> mail_db" where
  "keep_ok db r = (case r of Inl _ \<Rightarrow> db | Inr db' \<Rightarrow> db')"

fun mail_step :: "unicode \<Rightarrow> mail_op \<Rightarrow> mail_db \<Rightarrow> mail_db" where
  "mail_step U (Op_mark_read now user i read) db = snd (mark_mail_read now user i read db)"
| "mail_step U (Op_read_at now user i read p) db = keep_ok db (mark_read_at_path now user i read p db)"
| "mail_step U (Op_move now user i folder p) db = keep_ok db (move_mail_index now user i folder p db)"
| "mail_step U (Op_confirm item read p) db = keep_ok db (mark_confirmed_read item read p db)"
| "mail_step U (Op_identity now a folder mid uid validity flags keep) db = update_mail_identity U now a folder mid uid validity flags keep db"
| "mail_step U (Op_identity_uid now a folder uid validity flags keep) db = update_identity_by_uid U now a folder uid validity flags keep db"
| "mail_step U (Op_upsert i) db = (case upsert_mail_index i db of Inl _ \<Rightarrow> db | Inr (_, db') \<Rightarrow> db')"
| "mail_step U (Op_delete user i) db = delete_mail_index user i db"
| "mail_step U (Op_delete_indexed a i) db = delete_indexed_mail a i db"
| "mail_step U (Op_uid now a i uid validity) db = update_indexed_uid now a i uid validity db"
| "mail_step U (Op_seen a scan paths) db = snd (mark_seen_batch a scan paths db)"
| "mail_step U (Op_purge a scan pattern) db = purge_unseen a scan pattern db"
| "mail_step U (Op_merge live) db = merge_duplicates live db"

lemma seen_batches_ok: "rows_ok db \<Longrightarrow> rows_ok (snd (seen_batches n a scan paths db))"
  by (induction n arbitrary: paths db) (simp_all add: Let_def update_rows_ok case_prod_beta)

lemma set_identity_keeps: "ms_id (set_identity U now uid validity flags keep r) = ms_id r" "ms_path (set_identity U now uid validity flags keep r) = ms_path r"
  by (simp_all add: set_identity_def)

lemma mail_step_ok: "rows_ok db \<Longrightarrow> rows_ok (mail_step U e db)"
proof (cases e)
  case (Op_read_at now user i read p)
  then show "rows_ok db \<Longrightarrow> ?thesis"
    by (auto simp: keep_ok_def mark_read_at_path_def split: sum.split if_splits option.splits intro: set_path_ok merge_collision_ok)
next
  case (Op_move now user i folder p)
  then show "rows_ok db \<Longrightarrow> ?thesis"
    by (auto simp: keep_ok_def move_mail_index_def split: sum.split option.splits intro: set_path_ok merge_collision_ok)
next
  case (Op_confirm item read p)
  then show "rows_ok db \<Longrightarrow> ?thesis"
    by (auto simp: keep_ok_def mark_confirmed_read_def split: sum.split intro: set_path_ok merge_collision_ok)
next
  case (Op_identity now a folder mid uid validity flags keep)
  then show "rows_ok db \<Longrightarrow> ?thesis"
    by (auto simp: update_mail_identity_def Let_def split: list.split intro!: update_rows_ok simp: set_identity_keeps)
qed (auto simp: Let_def mark_mail_read_def update_identity_by_uid_def delete_mail_index_def delete_indexed_mail_def update_indexed_uid_def
    mark_seen_batch_def purge_unseen_def merge_duplicates_ok set_identity_keeps seen_batches_ok
    split: sum.split prod.split intro: update_rows_ok delete_rows_ok upsert_ok)

interpretation mail_table: machine "mail_step U" rows_ok for U
  by unfold_locales (rule mail_step_ok)

end
