(* ===== verification/Read_Journal.thy ===== *)
theory Read_Journal
  imports Mail_Rows Sync_Reconcile
begin

text \<open>
  The journal of mail changes: the table message\_mutations with internal/store/queued\_reads.go and mail.go.  Copies are
  read only for a message with a number and an epoch, so a number that is NULL or 0 never matches there.
\<close>

section \<open>Statements on the journal\<close>

record queued_read =
  qr_mutation :: int
  qr_cache_read :: bool
  qr_id :: int
  qr_account :: string
  qr_folder :: string
  qr_path :: string
  qr_message_id :: string
  qr_read :: bool
  qr_uid :: "32 word"
  qr_validity :: "32 word"

definition add_mutation :: "mutation_row \<Rightarrow> mail_db \<Rightarrow> mail_db" where
  "add_mutation m db = db\<lparr>md_mutations := md_mutations db @ [m\<lparr>mu_id := next_id (map mu_id (md_mutations db))\<rparr>]\<rparr>"

definition record_mutation :: "string \<Rightarrow> int \<Rightarrow> string \<Rightarrow> string \<Rightarrow> string \<Rightarrow> string \<Rightarrow> string \<Rightarrow> string \<Rightarrow> mail_db \<Rightarrow> store_error option \<times> mail_db" where
  "record_mutation now i user operation from dest status error db =
     (if i = 0 \<or> user = [] \<or> operation = [] \<or> status = [] then (Some Identity_required, db)
      else case find (\<lambda>r. ms_id r = i \<and> owned_by db user (ms_account r)) (md_rows db) of
          None \<Rightarrow> (Some Not_for_user, db)
        | Some r \<Rightarrow>
            (None, add_mutation \<lparr>mu_id = 0, mu_message = i, mu_user = user, mu_operation = operation, mu_from = from, mu_to = dest,
               mu_status = status, mu_error = error, mu_created = now, mu_desired = Some (ms_read r), mu_uid = ms_uid r,
               mu_validity = ms_validity r\<rparr> db))"

definition record_queued_read :: "string \<Rightarrow> string \<Rightarrow> queued_read \<Rightarrow> bool \<Rightarrow> mail_db \<Rightarrow> store_error option \<times> mail_db" where
  "record_queued_read now user item read db =
     (case find (\<lambda>r. ms_id r = qr_id item \<and> owned_by db user (ms_account r) \<and> ms_account r = qr_account item \<and> ms_folder r = qr_folder item \<and>
          ms_path r = qr_path item \<and> (qr_uid item = 0 \<or> ms_uid r = qr_uid item) \<and> (qr_validity item = 0 \<or> ms_validity r = qr_validity item)) (md_rows db) of
        None \<Rightarrow> (Some No_rows, db)
      | Some r \<Rightarrow>
          (None, add_mutation \<lparr>mu_id = 0, mu_message = ms_id r, mu_user = user, mu_operation = ''mark_read'', mu_from = ms_folder r,
             mu_to = ms_folder r, mu_status = ''queued'', mu_error = [], mu_created = now, mu_desired = Some read,
             mu_uid = (if qr_uid item \<noteq> 0 then qr_uid item else ms_uid r),
             mu_validity = (if qr_validity item \<noteq> 0 then qr_validity item else ms_validity r)\<rparr> db))"

definition wanted_read :: "mutation_row \<Rightarrow> msg_row \<Rightarrow> bool" where
  "wanted_read q m = (case mu_desired q of None \<Rightarrow> ms_read m | Some b \<Rightarrow> b)"

definition wanted_uid :: "mutation_row \<Rightarrow> msg_row \<Rightarrow> 32 word" where
  "wanted_uid q m = (if mu_uid q \<noteq> 0 then mu_uid q else ms_uid m)"

definition wanted_validity :: "mutation_row \<Rightarrow> msg_row \<Rightarrow> 32 word" where
  "wanted_validity q m = (if mu_validity q \<noteq> 0 then mu_validity q else ms_validity m)"

definition settled_or_queued :: "mutation_row \<Rightarrow> bool" where
  "settled_or_queued q \<longleftrightarrow> mu_status q \<in> {''queued'', ''synchronized'', ''success''}"

text \<open>The join of the journal with the messages, in the order of the journal.\<close>

definition joined_reads :: "mail_db \<Rightarrow> (mutation_row \<times> msg_row) list" where
  "joined_reads db = concat (map (\<lambda>q. map (Pair q) (filter (\<lambda>m. ms_id m = mu_message q) (md_rows db)))
     (filter (\<lambda>q. mu_operation q = ''mark_read'') (md_mutations db)))"

definition to_queued :: "mutation_row \<times> msg_row \<Rightarrow> queued_read" where
  "to_queued = (\<lambda>(q, m). \<lparr>qr_mutation = mu_id q, qr_cache_read = ms_read m, qr_id = ms_id m, qr_account = ms_account m, qr_folder = ms_folder m,
     qr_path = ms_path m, qr_message_id = ms_message_id m, qr_read = wanted_read q m, qr_uid = wanted_uid q m, qr_validity = wanted_validity q m\<rparr>)"

definition newest_queued :: "mail_db \<Rightarrow> int \<Rightarrow> int \<Rightarrow> int" where
  "newest_queued db watermark i = sql_max (map mu_id (filter (\<lambda>p. mu_message p = i \<and> mu_operation p = ''mark_read'' \<and> mu_status p = ''queued'' \<and>
     mu_id p \<le> watermark) (md_mutations db)))"

definition queued_read_mutations :: "string \<Rightarrow> int \<Rightarrow> mail_db \<Rightarrow> queued_read list" where
  "queued_read_mutations a watermark db =
     map to_queued (filter (\<lambda>(q, m). ms_account m = a \<and> mu_status q = ''queued'' \<and> mu_from q = ms_folder m \<and> mu_id q \<le> watermark \<and>
       mu_id q = newest_queued db watermark (ms_id m)) (joined_reads db))"

definition recent_read_mutations :: "string \<Rightarrow> string \<Rightarrow> mail_db \<Rightarrow> queued_read list" where
  "recent_read_mutations a since db =
     map to_queued (filter (\<lambda>(q, m). ms_account m = a \<and> settled_or_queued q \<and> \<not> str_less (mu_created q) since) (joined_reads db))"

text \<open>\<open>LatestReadForIdentity\<close>: \<open>ORDER BY q.id DESC LIMIT 1\<close>.\<close>

definition identity_reads :: "string \<Rightarrow> string list \<Rightarrow> 32 word \<Rightarrow> 32 word \<Rightarrow> mail_db \<Rightarrow> (mutation_row \<times> msg_row) list" where
  "identity_reads a folders uid epoch db =
     filter (\<lambda>(q, m). ms_account m = a \<and> settled_or_queued q \<and> mu_from q = ms_folder m \<and> wanted_uid q m = uid \<and> wanted_validity q m = epoch \<and>
       ms_uid m = uid \<and> ms_validity m = epoch \<and> ms_folder m \<in> set folders) (joined_reads db)"

definition latest_read_for_identity :: "string \<Rightarrow> string list \<Rightarrow> 32 word \<Rightarrow> 32 word \<Rightarrow> mail_db \<Rightarrow> queued_read option" where
  "latest_read_for_identity a folders uid epoch db =
     (if folders = [] \<or> uid = 0 \<or> epoch = 0 then None
      else let reads = identity_reads a folders uid epoch db
        in map_option to_queued (find (\<lambda>(q, m). mu_id q = sql_max (map (\<lambda>(q, m). mu_id q) reads)) reads))"

definition update_mutations :: "(mutation_row \<Rightarrow> bool) \<Rightarrow> (mutation_row \<Rightarrow> mutation_row) \<Rightarrow> mail_db \<Rightarrow> mail_db" where
  "update_mutations sel f db = db\<lparr>md_mutations := map (\<lambda>q. if sel q then f q else q) (md_mutations db)\<rparr>"

definition finish_queued_read :: "queued_read \<Rightarrow> string option \<Rightarrow> mail_db \<Rightarrow> mail_db" where
  "finish_queued_read item error db =
     update_mutations (\<lambda>q. mu_message q = qr_id item \<and> mu_id q \<le> qr_mutation item \<and> mu_status q = ''queued'' \<and> mu_operation q = ''mark_read'' \<and>
         mu_from q = qr_folder item \<and> (mu_uid q = 0 \<or> mu_uid q = qr_uid item) \<and> (mu_validity q = 0 \<or> mu_validity q = qr_validity item) \<and>
         list_ex (\<lambda>m. ms_id m = mu_message q \<and> ms_account m = qr_account item \<and> ms_folder m = qr_folder item \<and> ms_read m = qr_read item \<and>
           ms_uid m = qr_uid item \<and> ms_validity m = qr_validity item) (md_rows db))
       (\<lambda>q. q\<lparr>mu_status := (if error = None then ''synchronized'' else ''queued''), mu_error := (case error of None \<Rightarrow> [] | Some e \<Rightarrow> e)\<rparr>) db"

definition read_identity_copies :: "string \<Rightarrow> string list \<Rightarrow> 32 word \<Rightarrow> 32 word \<Rightarrow> mail_db \<Rightarrow> msg_row list" where
  "read_identity_copies a folders uid epoch db =
     (if folders = [] then [] else filter (\<lambda>r. ms_account r = a \<and> ms_uid r = uid \<and> ms_validity r = epoch \<and> ms_folder r \<in> set folders) (md_rows db))"

definition queued_watermark :: "string \<Rightarrow> mail_db \<Rightarrow> int" where
  "queued_watermark a db = sql_max (map mu_id (filter (\<lambda>q. mu_status q = ''queued'' \<and>
     list_ex (\<lambda>r. ms_id r = mu_message q \<and> ms_account r = a) (md_rows db)) (md_mutations db)))"

text \<open>\<open>MarkQueuedMutationsSynchronized\<close>: the newest action on the message up to the watermark wants what the index has.\<close>

definition newest_action :: "int \<Rightarrow> int \<Rightarrow> mail_db \<Rightarrow> mutation_row option" where
  "newest_action watermark i db =
     (let qs = filter (\<lambda>q. mu_message q = i \<and> mu_operation q = ''mark_read'' \<and> settled_or_queued q \<and> mu_id q \<le> watermark) (md_mutations db)
      in find (\<lambda>q. mu_id q = sql_max (map mu_id qs)) qs)"

definition carried_by_run :: "int \<Rightarrow> string \<Rightarrow> string list option \<Rightarrow> mail_db \<Rightarrow> mutation_row \<Rightarrow> bool" where
  "carried_by_run watermark a folders db q \<longleftrightarrow> mu_status q = ''queued'' \<and> mu_operation q = ''mark_read'' \<and> mu_id q \<le> watermark \<and>
     list_ex (\<lambda>m. ms_id m = mu_message q \<and> ms_account m = a \<and> ms_folder m = mu_from q \<and> (mu_uid q = 0 \<or> mu_uid q = ms_uid m) \<and>
       (mu_validity q = 0 \<or> mu_validity q = ms_validity m) \<and>
       (case newest_action watermark (ms_id m) db of None \<Rightarrow> False | Some n \<Rightarrow> wanted_read n m = ms_read m)) (md_rows db) \<and>
     (case folders of None \<Rightarrow> True | Some fs \<Rightarrow> mu_from q \<in> set fs)"

definition mark_synchronized :: "string \<Rightarrow> int \<Rightarrow> string list option \<Rightarrow> mail_db \<Rightarrow> store_error option \<times> mail_db" where
  "mark_synchronized a watermark folders db =
     (if trim_space a = [] then (Some Account_required, db)
      else if watermark \<le> 0 \<or> folders = Some [] then (None, db)
      else (None, update_mutations (carried_by_run watermark a folders db) (\<lambda>q. q\<lparr>mu_status := ''synchronized'', mu_error := []\<rparr>) db))"

definition list_message_mutations :: "string \<Rightarrow> string \<Rightarrow> int \<Rightarrow> mail_db \<Rightarrow> store_error + mutation_row list" where
  "list_message_mutations user a limit db =
     (if trim_space user = [] then Inl Identity_required
      else Inr (take (if limit \<le> 0 \<or> 100 < limit then 20 else nat limit) (sort_by (\<lambda>x y. mu_id y < mu_id x)
        (filter (\<lambda>q. mu_user q = user \<and> list_ex (\<lambda>m. ms_id m = mu_message q \<and> owned_by db user (ms_account m) \<and>
            (trim_space a = [] \<or> ms_account m = a)) (md_rows db)) (md_mutations db)))))"

section \<open>The journal stays consistent\<close>

definition journal_ok :: "mail_db \<Rightarrow> bool" where
  "journal_ok db \<longleftrightarrow> rows_ok db \<and> distinct (map mu_id (md_mutations db))"

datatype journal_op =
  J_mail mail_op
| J_record string int string string string string string string
| J_queue string string queued_read bool
| J_finish queued_read "string option"
| J_synchronized string int "string list option"

fun journal_step :: "unicode \<Rightarrow> journal_op \<Rightarrow> mail_db \<Rightarrow> mail_db" where
  "journal_step U (J_mail e) db = mail_step U e db"
| "journal_step U (J_record now i user operation from dest status error) db = snd (record_mutation now i user operation from dest status error db)"
| "journal_step U (J_queue now user item read) db = snd (record_queued_read now user item read db)"
| "journal_step U (J_finish item error) db = finish_queued_read item error db"
| "journal_step U (J_synchronized a watermark folders) db = snd (mark_synchronized a watermark folders db)"

text \<open>Statements on messages only drop journal rows.\<close>

definition drops_mutations :: "mail_db \<Rightarrow> mail_db \<Rightarrow> bool" where
  "drops_mutations db db' \<longleftrightarrow> (\<exists>P. md_mutations db' = filter P (md_mutations db))"

lemma drops_refl [intro, simp]: "drops_mutations db db"
  unfolding drops_mutations_def by (rule exI [of _ "\<lambda>_. True"]) simp

lemma drops_trans [trans]: "drops_mutations a b \<Longrightarrow> drops_mutations b c \<Longrightarrow> drops_mutations a c"
  by (auto simp: drops_mutations_def)

lemma drops_update [intro, simp]: "drops_mutations db (update_rows sel f db)"
  unfolding drops_mutations_def by (rule exI [of _ "\<lambda>_. True"]) simp

lemma drops_delete [intro, simp]: "drops_mutations db (delete_rows sel db)"
  by (auto simp: drops_mutations_def delete_rows_def)

lemma drops_insert [intro, simp]: "drops_mutations db (db\<lparr>md_rows := rows\<rparr>)"
  unfolding drops_mutations_def by (rule exI [of _ "\<lambda>_. True"]) simp

lemma drops_merge_collision: "merge_collision a i p db = Inr db' \<Longrightarrow> drops_mutations db db'"
  by (auto simp: merge_collision_def split: option.splits if_splits intro: drops_trans [OF drops_update drops_delete])

lemma drops_set_path: "set_path sel p f none db = Inr db' \<Longrightarrow> drops_mutations db db'"
  by (auto simp: set_path_def split: if_splits)

lemma drops_merged_path: "merge_collision a i p db = Inr db1 \<Longrightarrow> set_path sel p f none db1 = Inr db' \<Longrightarrow> drops_mutations db db'"
  using drops_merge_collision drops_set_path drops_trans by blast

lemma drops_fold: "(\<And>x db. drops_mutations db (f x db)) \<Longrightarrow> drops_mutations db (fold f xs db)"
  by (induction xs arbitrary: db) (auto intro: drops_trans)

lemma drops_absorb: "drops_mutations db (fold (\<lambda>r db. delete_rows (\<lambda>x. ms_id x = ms_id r) (update_rows (\<lambda>x. ms_id x = n) (absorb r) db)) rs db)"
  by (intro drops_fold) (rule drops_trans [OF drops_update drops_delete])

lemma drops_merge_group: "drops_mutations db (merge_group live rows db)"
  unfolding merge_group_def Let_def by (rule list.split [THEN iffD2]) (use drops_absorb drops_refl in presburger)

lemma drops_seen: "drops_mutations db (snd (seen_batches n a scan paths db))"
  by (induction n arbitrary: paths db) (auto simp: Let_def case_prod_beta intro: drops_trans [OF drops_update])

lemma drops_mail_step: "drops_mutations db (mail_step U e db)"
  by (cases e) (auto simp: Let_def mark_mail_read_def update_identity_by_uid_def delete_mail_index_def delete_indexed_mail_def
      update_indexed_uid_def mark_seen_batch_def purge_unseen_def merge_duplicates_def keep_ok_def mark_read_at_path_def move_mail_index_def
      mark_confirmed_read_def update_mail_identity_def upsert_mail_index_def drops_seen drops_merged_path
      split: sum.split prod.split list.split option.split intro!: drops_fold drops_merge_group intro: drops_trans [OF drops_update drops_delete])

lemma drops_distinct: "drops_mutations db db' \<Longrightarrow> distinct (map mu_id (md_mutations db)) \<Longrightarrow> distinct (map mu_id (md_mutations db'))"
  by (auto simp: drops_mutations_def distinct_map_filter)

lemma update_mutations_fields [simp]:
  "md_rows (update_mutations sel f db) = md_rows db" "md_accounts (update_mutations sel f db) = md_accounts db"
  "md_mutations (update_mutations sel f db) = map (\<lambda>q. if sel q then f q else q) (md_mutations db)"
  by (simp_all add: update_mutations_def)

lemma update_mutations_ok:
  assumes "journal_ok db" "\<And>q. mu_id (f q) = mu_id q" "\<And>q. mu_message (f q) = mu_message q"
  shows "journal_ok (update_mutations sel f db)"
proof -
  have "map mu_id (md_mutations (update_mutations sel f db)) = map mu_id (md_mutations db)"
    "map mu_message (md_mutations (update_mutations sel f db)) = map mu_message (md_mutations db)" using assms(2,3) by simp_all
  then show ?thesis using assms(1) unfolding journal_ok_def rows_ok_def by (simp only: update_mutations_fields(1))
qed

lemma add_mutation_ok:
  assumes "journal_ok db" "mu_message m \<in> ms_id ` set (md_rows db)"
  shows "journal_ok (add_mutation m db)"
proof -
  have "next_id (map mu_id (md_mutations db)) \<notin> mu_id ` set (md_mutations db)" using next_id_fresh [of _ "map mu_id (md_mutations db)"] by fastforce
  then show ?thesis using assms by (auto simp: journal_ok_def rows_ok_def add_mutation_def)
qed

text \<open>The two statements that add a row add it for a message of the index; the other two only settle rows.\<close>

definition adds_one :: "mail_db \<Rightarrow> mail_db \<Rightarrow> bool" where
  "adds_one db db' \<longleftrightarrow> db' = db \<or> (\<exists>m. mu_message m \<in> ms_id ` set (md_rows db) \<and> db' = add_mutation m db)"

lemma adds_one_add [intro]: "r \<in> set (md_rows db) \<Longrightarrow> ms_id r = mu_message m \<Longrightarrow> adds_one db (add_mutation m db)"
  unfolding adds_one_def by (metis image_eqI)

lemma adds_one_refl [intro, simp]: "adds_one db db"
  by (simp add: adds_one_def)

lemma record_adds: "adds_one db (snd (record_mutation now i user operation from dest status error db))"
  by (auto simp: record_mutation_def split: option.split dest!: find_some intro!: adds_one_add)

lemma queue_adds: "adds_one db (snd (record_queued_read now user item read db))"
  by (auto simp: record_queued_read_def split: option.split dest!: find_some intro!: adds_one_add)

lemma adds_one_ok: "adds_one db db' \<Longrightarrow> journal_ok db \<Longrightarrow> journal_ok db'"
  by (auto simp: adds_one_def intro: add_mutation_ok)

lemma journal_step_ok: "journal_ok db \<Longrightarrow> journal_ok (journal_step U e db)"
proof (cases e)
  case (J_mail m)
  then show "journal_ok db \<Longrightarrow> ?thesis" using mail_step_ok drops_distinct [OF drops_mail_step] by (auto simp: journal_ok_def)
next
  case (J_record now i user operation origin dest status error)
  then show "journal_ok db \<Longrightarrow> ?thesis" using adds_one_ok [OF record_adds] by simp
next
  case (J_queue now user item read)
  then show "journal_ok db \<Longrightarrow> ?thesis" using adds_one_ok [OF queue_adds] by simp
qed (auto simp: finish_queued_read_def mark_synchronized_def intro: update_mutations_ok)

interpretation mail_journal: machine "journal_step U" journal_ok for U
  by unfold_locales (rule journal_step_ok)


section \<open>What a run acknowledges\<close>

definition touches_journal :: "journal_op \<Rightarrow> bool" where
  "touches_journal e = (case e of J_mail _ \<Rightarrow> False | _ \<Rightarrow> True)"

text \<open>\<open>after db0 db\<close>: the rows of \<open>db0\<close> are still there and every further row has a greater id.\<close>

definition after :: "mail_db \<Rightarrow> mail_db \<Rightarrow> bool" where
  "after db0 db \<longleftrightarrow> mu_id ` set (md_mutations db0) \<subseteq> mu_id ` set (md_mutations db) \<and>
     (\<forall>q \<in> set (md_mutations db). mu_id q \<in> mu_id ` set (md_mutations db0) \<or> (\<forall>p \<in> set (md_mutations db0). mu_id p < mu_id q))"

lemma after_add: "after db0 db \<Longrightarrow> after db0 (add_mutation m db)"
proof -
  assume a: "after db0 db"
  let ?n = "next_id (map mu_id (md_mutations db))"
  have "mu_id p < ?n" if "p \<in> set (md_mutations db0)" for p
  proof -
    have "mu_id p \<in> mu_id ` set (md_mutations db)" using a that unfolding after_def by blast
    then show ?thesis using next_id_fresh [of "mu_id p" "map mu_id (md_mutations db)"] by simp
  qed
  then show ?thesis using a unfolding after_def add_mutation_def by auto
qed

lemma after_adds: "adds_one db db' \<Longrightarrow> after db0 db \<Longrightarrow> after db0 db'"
  by (auto simp: adds_one_def intro: after_add)

lemma after_update:
  assumes "after db0 db" "\<And>q. mu_id (f q) = mu_id q"
  shows "after db0 (update_mutations sel f db)"
proof -
  have "mu_id ` set (map (\<lambda>q. if sel q then f q else q) qs) = mu_id ` set qs" for qs using assms(2) by (induction qs) auto
  then have ids: "mu_id ` set (md_mutations (update_mutations sel f db)) = mu_id ` set (md_mutations db)" by simp
  show ?thesis unfolding after_def
  proof (intro conjI ballI)
    show "mu_id ` set (md_mutations db0) \<subseteq> mu_id ` set (md_mutations (update_mutations sel f db))" using assms(1) unfolding ids by (simp add: after_def)
  next
    fix q assume "q \<in> set (md_mutations (update_mutations sel f db))"
    then obtain p where "p \<in> set (md_mutations db)" "mu_id q = mu_id p" using ids by (metis imageE imageI)
    then show "mu_id q \<in> mu_id ` set (md_mutations db0) \<or> (\<forall>p\<in>set (md_mutations db0). mu_id p < mu_id q)" using assms(1) by (simp add: after_def)
  qed
qed

lemma after_step: "after db0 db \<Longrightarrow> touches_journal e \<Longrightarrow> after db0 (journal_step U e db)"
proof (cases e)
  case (J_record now i user operation origin dest status error)
  then show "after db0 db \<Longrightarrow> ?thesis" using after_adds [OF record_adds] by simp
next
  case (J_queue now user item read)
  then show "after db0 db \<Longrightarrow> ?thesis" using after_adds [OF queue_adds] by simp
qed (auto simp: touches_journal_def finish_queued_read_def mark_synchronized_def intro: after_update)

lemma after_steps: "after db0 db \<Longrightarrow> list_all touches_journal es \<Longrightarrow> after db0 (fold (journal_step U) es db)"
  by (induction es arbitrary: db) (auto intro: after_step)

lemma sql_max_in: "xs \<noteq> [] \<Longrightarrow> sql_max xs \<in> set xs"
proof (induction xs)
  case (Cons x xs)
  have "fold max xs x \<in> insert x (set xs)" for x
    by (induction xs arbitrary: x) (auto simp: max_def split: if_splits)
  then show ?case by (simp add: sql_max_def)
qed simp

lemma watermark_bound: "0 < queued_watermark a db \<Longrightarrow> queued_watermark a db \<in> mu_id ` set (md_mutations db)"
proof -
  let ?ids = "map mu_id (filter (\<lambda>q. mu_status q = ''queued'' \<and> list_ex (\<lambda>r. ms_id r = mu_message q \<and> ms_account r = a) (md_rows db)) (md_mutations db))"
  assume "0 < queued_watermark a db"
  then have "?ids \<noteq> []" by (auto simp: queued_watermark_def sql_max_def)
  then show ?thesis using sql_max_in [of ?ids] by (auto simp: queued_watermark_def)
qed


section \<open>A number used twice\<close>

definition plain_row :: "int \<Rightarrow> string \<Rightarrow> msg_row" where
  "plain_row i p = \<lparr>ms_id = i, ms_account = ''a'', ms_folder = ''inbox'', ms_path = p, ms_message_id = p, ms_sender = [], ms_recipients = [],
     ms_cc = [], ms_subject = [], ms_date = [], ms_date_utc = None, ms_read = False, ms_attachments = 0, ms_uid = 7, ms_validity = 1,
     ms_flags = [], ms_alerted = 0, ms_attempts = 0, ms_updated = [], ms_scan = [], ms_size = 1\<rparr>"

definition read_item :: "int \<Rightarrow> string \<Rightarrow> queued_read" where
  "read_item i p = \<lparr>qr_mutation = 0, qr_cache_read = False, qr_id = i, qr_account = ''a'', qr_folder = ''inbox'', qr_path = p, qr_message_id = p,
     qr_read = True, qr_uid = 7, qr_validity = 1\<rparr>"

definition read_row :: "int \<Rightarrow> int \<Rightarrow> string \<Rightarrow> mutation_row" where
  "read_row n i t = \<lparr>mu_id = n, mu_message = i, mu_user = ''u'', mu_operation = ''mark_read'', mu_from = ''inbox'', mu_to = ''inbox'',
     mu_status = ''queued'', mu_error = [], mu_created = t, mu_desired = Some True, mu_uid = 7, mu_validity = 1\<rparr>"

definition demo_owner :: acct_row where
  "demo_owner = \<lparr>ar_id = ''a'', ar_user = ''u'', ar_deleting = False, ar_folder_map = Some [], ar_version = 1\<rparr>"

text \<open>Two messages; the second has a change that waits for the run.\<close>

definition two_messages :: mail_db where
  "two_messages = snd (record_queued_read ''t1'' ''u'' (read_item 2 ''/q'') True
     \<lparr>md_accounts = [demo_owner], md_rows = [plain_row 1 ''/p'', plain_row 2 ''/q''], md_mutations = []\<rparr>)"

lemma two_messages_eq: "two_messages = \<lparr>md_accounts = [demo_owner], md_rows = [plain_row 1 ''/p'', plain_row 2 ''/q''], md_mutations = [read_row 1 2 ''t1'']\<rparr>"
  by (simp add: two_messages_def record_queued_read_def owned_by_def demo_owner_def plain_row_def read_item_def read_row_def
      add_mutation_def next_id_def)

definition dropped_and_toggled :: mail_db where
  "dropped_and_toggled = snd (record_queued_read ''t2'' ''u'' (read_item 1 ''/p'') True
     (snd (mark_mail_read ''t2'' ''u'' 1 True (delete_mail_index ''u'' 2 two_messages))))"



end
