(* ===== verification/Mail_Merge.thy ===== *)
theory Mail_Merge
  imports Mail_Rows Folder_Policy
begin

text \<open>
  Properties of the index of messages: what the patterns for Maildir names match, that re-indexing keeps the alert
  state, and which rows a change of path may merge.
\<close>

section \<open>What the patterns match\<close>

lemma byte_lower: "byte (sql_lower x) = (if 65 \<le> byte x \<and> byte x \<le> 90 then byte x + 32 else byte x :: nat)"
  using byte_char_of [of "byte x + 32"] by (simp add: sql_lower_def)

lemma lower_slash: "sql_lower CHR ''/'' = sql_lower x \<longleftrightarrow> x = CHR ''/''"
proof
  assume a: "sql_lower CHR ''/'' = sql_lower x"
  have "byte (sql_lower CHR ''/'') = 47" by (simp add: byte_lower)
  then have "byte x = 47" using byte_lower [of x] unfolding a by (simp split: if_splits)
  then have "byte x = byte CHR ''/''" by simp
  then show "x = CHR ''/''" by (simp only: of_char_eq_iff)
qed simp

lemma like_percent: "sql_like (CHR ''%'' # p) s \<longleftrightarrow> (\<exists>u v. s = u @ v \<and> sql_like p v)"
proof (induction s)
  case (Cons x s)
  have "sql_like (CHR ''%'' # p) (x # s) \<longleftrightarrow> sql_like p (x # s) \<or> (\<exists>u v. s = u @ v \<and> sql_like p v)" using Cons.IH by simp
  also have "\<dots> \<longleftrightarrow> (\<exists>u v. x # s = u @ v \<and> sql_like p v)" by (metis append_Cons append_Nil list.inject neq_Nil_conv)
  finally show ?case .
qed simp

lemma like_plain:
  "c \<notin> {CHR ''%'', CHR ''_'', CHR 0x5C} \<Longrightarrow> sql_like (c # p) s \<longleftrightarrow> (\<exists>x t. s = x # t \<and> sql_lower c = sql_lower x \<and> sql_like p t)"
  by (cases s) auto

lemma like_escaped: "sql_like (CHR 0x5C # c # p) s \<longleftrightarrow> (\<exists>x t. s = x # t \<and> sql_lower c = sql_lower x \<and> sql_like p t)"
  by (cases s) auto

lemma like_char: "sql_like (escape_like [c] @ p) s \<longleftrightarrow> (\<exists>x t. s = x # t \<and> sql_lower c = sql_lower x \<and> sql_like p t)"
proof (cases "c \<in> {CHR ''%'', CHR ''_'', CHR 0x5C}")
  case True
  then have "escape_like [c] = [CHR 0x5C, c]" by (auto simp: escape_like_def)
  then show ?thesis using like_escaped [of c p s] by (simp del: sql_like.simps)
next
  case False
  then have "escape_like [c] = [c]" by (auto simp: escape_like_def)
  then show ?thesis using like_plain [OF False, of p s] by (simp del: sql_like.simps)
qed

lemma escape_like_Cons: "escape_like (c # b) = escape_like [c] @ escape_like b"
  by (simp add: escape_like_def)

lemma like_literal: "sql_like (escape_like b @ p) s \<longleftrightarrow> (\<exists>u v. s = u @ v \<and> map sql_lower u = map sql_lower b \<and> sql_like p v)"
proof (induction b arbitrary: s)
  case Nil
  then show ?case by (simp add: escape_like_def)
next
  case (Cons c b)
  have "sql_like (escape_like (c # b) @ p) s \<longleftrightarrow> (\<exists>x t. s = x # t \<and> sql_lower c = sql_lower x \<and> sql_like (escape_like b @ p) t)"
    by (simp only: escape_like_Cons [of c b] append_assoc like_char)
  also have "\<dots> \<longleftrightarrow> (\<exists>x u v. s = x # u @ v \<and> sql_lower c = sql_lower x \<and> map sql_lower u = map sql_lower b \<and> sql_like p v)"
    by (simp only: Cons.IH) blast
  also have "\<dots> \<longleftrightarrow> (\<exists>u v. s = u @ v \<and> map sql_lower u = map sql_lower (c # b) \<and> sql_like p v)" (is "?l = ?r")
  proof
    assume ?l
    then obtain x u v where "s = (x # u) @ v" "map sql_lower (x # u) = map sql_lower (c # b)" "sql_like p v" by auto
    then show ?r by blast
  next
    assume ?r
    then obtain u v where s: "s = u @ v" "map sql_lower u = map sql_lower (c # b)" "sql_like p v" by blast
    then show ?l by (cases u) auto
  qed
  finally show ?case .
qed

lemma like_suffix: "sql_like (''%/'' @ escape_like b @ p) s \<longleftrightarrow>
    (\<exists>u v w. s = u @ ''/'' @ v @ w \<and> map sql_lower v = map sql_lower b \<and> sql_like p w)"
proof -
  have slash: "sql_like (CHR ''/'' # q) t \<longleftrightarrow> (\<exists>r. t = CHR ''/'' # r \<and> sql_like q r)" for q t
    using like_plain [of "CHR ''/''" q t] by (simp add: lower_slash del: sql_like.simps)
  have "sql_like (''%/'' @ escape_like b @ p) s \<longleftrightarrow> (\<exists>u t. s = u @ CHR ''/'' # t \<and> sql_like (escape_like b @ p) t)"
    using like_percent [of "CHR ''/'' # escape_like b @ p" s] by (simp add: slash del: sql_like.simps) blast
  then show ?thesis by (simp only: like_literal) auto
qed

text \<open>The three patterns for a Maildir name match, up to the case of ASCII letters, exactly the paths whose last part starts
  at a slash with the name and ends there or goes on with a comma or a colon; nothing in the name acts as a wildcard.\<close>

theorem base_like_exact:
  "list_ex (\<lambda>p. sql_like p s) (maildir_base_like base) \<longleftrightarrow>
     (\<exists>dir name rest. s = dir @ ''/'' @ name @ rest \<and> map sql_lower name = map sql_lower base \<and> take 1 rest \<in> {[], '','', '':''})"
proof -
  have sep: "sql_lower c = sql_lower x \<longleftrightarrow> x = c" if "c = CHR '','' \<or> c = CHR '':''" for c x
  proof
    assume a: "sql_lower c = sql_lower x"
    have "byte (sql_lower c) = byte c" "byte c < 65" using that by (auto simp: byte_lower)
    then have "byte x = byte c" using byte_lower [of x] unfolding a by (simp split: if_splits)
    then show "x = c" by (simp only: of_char_eq_iff)
  qed simp
  have tail: "sql_like [c, CHR ''%''] w \<longleftrightarrow> take 1 w = [c]" if c: "c = CHR '','' \<or> c = CHR '':''" for c w
  proof -
    have plain: "c \<notin> {CHR ''%'', CHR ''_'', CHR 0x5C}" using c by auto
    have any: "sql_like ''%'' v" for v using like_percent [of "[]" v] by simp
    show ?thesis using like_plain [OF plain, of "''%''" w] sep [OF c] any by (cases w) (auto simp del: sql_like.simps)
  qed
  have "list_ex (\<lambda>p. sql_like p s) (maildir_base_like base) \<longleftrightarrow>
      (\<exists>u v w. s = u @ ''/'' @ v @ w \<and> map sql_lower v = map sql_lower base \<and> (w = [] \<or> take 1 w = '','' \<or> take 1 w = '':''))"
  proof -
    have "sql_like (''%/'' @ escape_like base) s \<longleftrightarrow> (\<exists>u v w. s = u @ ''/'' @ v @ w \<and> map sql_lower v = map sql_lower base \<and> w = [])"
      using like_suffix [of base "[]" s] by (simp only: append_Nil2 sql_like.simps(1))
    moreover have "sql_like (''%/'' @ escape_like base @ '',%'') s \<longleftrightarrow>
        (\<exists>u v w. s = u @ ''/'' @ v @ w \<and> map sql_lower v = map sql_lower base \<and> take 1 w = '','')"
      using like_suffix [of base "'',%''" s] tail [of "CHR '',''"] by (simp only: simp_thms)
    moreover have "sql_like (''%/'' @ escape_like base @ '':%'') s \<longleftrightarrow>
        (\<exists>u v w. s = u @ ''/'' @ v @ w \<and> map sql_lower v = map sql_lower base \<and> take 1 w = '':'')"
      using like_suffix [of base "'':%''" s] tail [of "CHR '':''"] by (simp only: simp_thms)
    ultimately show ?thesis unfolding maildir_base_like_def list_ex_iff list.set by blast
  qed
  then show ?thesis by simp
qed

section \<open>Re-indexing keeps the alert state\<close>

lemma sql_max_ge: "x \<in> set xs \<Longrightarrow> x \<le> sql_max xs"
  using fold_max_ge [of x "hd xs" "tl xs"] by (cases xs) (auto simp: sql_max_def)

lemma carried_alerts:
  assumes "r \<in> set (md_rows db)" "same_identity i r" "in_live i \<noteq> None \<or> trim_space (in_message_id i) \<noteq> []"
    and "0 \<le> in_alerted i" "0 \<le> in_attempts i"
  shows "ms_alerted r \<le> in_alerted (carry_alerts db i) \<and> ms_attempts r \<le> in_attempts (carry_alerts db i)"
proof -
  let ?same = "filter (same_identity i) (md_rows db)"
  have "ms_alerted r \<le> sql_max (map ms_alerted ?same)" "ms_attempts r \<le> sql_max (map ms_attempts ?same)"
    using assms(1,2) by (auto intro!: sql_max_ge)
  then show ?thesis using assms(3-5) by (auto simp: carry_alerts_def Let_def)
qed

lemma trim_left_spaces: "list_all (\<lambda>c. c = CHR '' '') s \<Longrightarrow> trim_left s = []"
  by (induction s) (simp_all add: trim_left.simps decode_rune_def is_space_def)

lemma sql_trim_ne: "trim_space s \<noteq> [] \<Longrightarrow> sql_trim s \<noteq> []"
proof
  assume s: "trim_space s \<noteq> []" "sql_trim s = []"
  let ?t = "dropWhile (\<lambda>c. c = CHR '' '') s"
  have "dropWhile (\<lambda>c. c = CHR '' '') (rev ?t) = []" using s(2) unfolding sql_trim_def by (simp only: rev_is_Nil_conv)
  then have "\<forall>c \<in> set ?t. c = CHR '' ''" by (simp only: dropWhile_eq_Nil_conv set_rev)
  then have "?t = []" using hd_dropWhile [of "\<lambda>c. c = CHR '' ''" s] hd_in_set [of ?t] by blast
  then have "list_all (\<lambda>c. c = CHR '' '') s" by (simp add: dropWhile_eq_Nil_conv list_all_iff)
  then show False using s(1) by (simp add: trim_space_def trim_left_spaces trim_right.simps)
qed

lemma upsert_stale:
  assumes "upsert_mail_index i db = Inr (n, db')" "stale_rows db i = s # others"
  shows "md_rows db' = filter (\<lambda>r. \<not> (ms_id r \<in> ms_id ` set others \<and> ms_account r = in_account i))
      (map (\<lambda>r. if ms_id r = ms_id s then rehome (carry_alerts db i) (in_read i \<or> list_ex ms_read (s # others)) r else r) (md_rows db))"
proof -
  let ?f = "rehome (carry_alerts db i) (in_read i \<or> list_ex ms_read (s # others))"
  have "db' = delete_rows (\<lambda>r. ms_id r \<in> ms_id ` set others \<and> ms_account r = in_account i) (update_rows (\<lambda>r. ms_id r = ms_id s) ?f db)"
    using assms by (auto simp: upsert_mail_index_def Let_def split: if_splits)
  then show ?thesis by (simp only: delete_rows_rows update_rows_rows)
qed


section \<open>A change of path merges only copies of the message\<close>

lemma set_path_row:
  assumes "set_path sel p f none db = Inr db'" "r \<in> set (md_rows db)" "\<And>r. ms_id (f r) = ms_id r"
  shows "\<exists>r'. r' \<in> set (md_rows db') \<and> ms_id r' = ms_id r"
proof -
  have "md_rows db' = map (\<lambda>r. if sel r then f (r\<lparr>ms_path := p\<rparr>) else r) (md_rows db)"
    using assms(1) by (auto simp: set_path_def update_rows_def split: if_splits)
  then have "(if sel r then f (r\<lparr>ms_path := p\<rparr>) else r) \<in> set (md_rows db')" using assms(2) by auto
  then show ?thesis using assms(3) by (cases "sel r") (auto simp: assms(3))
qed

lemma merge_collision_row:
  assumes db: "rows_ok db" and m: "merge_collision a i p db = Inr db'" and r: "r \<in> set (md_rows db)"
    and x: "x \<in> set (md_rows db)" "ms_id x = i" "ms_account x = a"
  shows "(\<exists>r'. r' \<in> set (md_rows db') \<and> ms_id r' = ms_id r) \<or>
    ms_path r = p \<and> ms_account r = a \<and> (ms_message_id r = [] \<or> ms_message_id x = [] \<or> ms_message_id r = ms_message_id x)"
proof (cases "find (\<lambda>r. ms_account r = a \<and> ms_path r = p \<and> ms_id r \<noteq> i) (md_rows db)")
  case None
  then show ?thesis using m r by (auto simp: merge_collision_def)
next
  case (Some c)
  then have c: "c \<in> set (md_rows db)" "ms_account c = a" "ms_path c = p" "ms_id c \<noteq> i" by (auto dest: find_some)
  show ?thesis
  proof (cases "find (\<lambda>r. ms_id r = i \<and> ms_account r = a) (md_rows db)")
    case None
    then show ?thesis using x by (auto simp: find_None_iff)
  next
    case (Some y)
    then have "y = x" using same_id [OF db _ x(1)] x(2) by (auto dest: find_some)
    show ?thesis
    proof (cases "ms_id r = ms_id c")
      case True
      then have "r = c" using same_id [OF db r c(1)] by simp
      then show ?thesis using m Some \<open>find _ _ = Some c\<close> c \<open>y = x\<close> by (auto simp: merge_collision_def split: if_splits)
    next
      case False
      define f :: "msg_row \<Rightarrow> msg_row" where "f r = r\<lparr>ms_alerted := max (ms_alerted r) (ms_alerted c), ms_attempts := max (ms_attempts r) (ms_attempts c),
          ms_message_id := (if ms_message_id r = [] then ms_message_id c else ms_message_id r)\<rparr>" for r
      have "db' = delete_rows (\<lambda>r. ms_id r = ms_id c \<and> ms_account r = a) (update_rows (\<lambda>r. ms_id r = i) f db)"
        using m Some \<open>find _ _ = Some c\<close> by (simp add: merge_collision_def f_def [abs_def] split: if_splits)
      then have "md_rows db' = filter (\<lambda>r. \<not> (ms_id r = ms_id c \<and> ms_account r = a)) (map (\<lambda>r. if ms_id r = i then f r else r) (md_rows db))"
        by (simp only: delete_rows_rows update_rows_rows)
      moreover have "ms_id (f r) = ms_id r" by (simp add: f_def)
      ultimately have "(if ms_id r = i then f r else r) \<in> set (md_rows db')" using r False by auto
      then show ?thesis using \<open>ms_id (f r) = ms_id r\<close> by (cases "ms_id r = i") auto
    qed
  qed
qed

text \<open>C38. When the path of a message changes with its read flag, the message ends with the path and the flag, and a row of another
  message is dropped only if it claimed that path and one of the two has no Message-ID or both have the same.\<close>

theorem path_change_merges_copies:
  assumes db: "rows_ok db" and m: "mark_read_at_path now user i read p db = Inr db'" and r: "r \<in> set (md_rows db)"
    and x: "x \<in> set (md_rows db)" "ms_id x = i"
  shows "(\<exists>x'. x' \<in> set (md_rows db') \<and> ms_id x' = i \<and> ms_path x' = p \<and> ms_read x' = read) \<and>
    ((\<exists>r'. r' \<in> set (md_rows db') \<and> ms_id r' = ms_id r) \<or>
     ms_path r = p \<and> ms_account r = ms_account x \<and> (ms_message_id r = [] \<or> ms_message_id x = [] \<or> ms_message_id r = ms_message_id x))"
proof -
  obtain a where a: "account_of_message user i db = Some a" using m by (auto simp: mark_read_at_path_def split: if_splits option.splits)
  then obtain z where z: "find (\<lambda>r. ms_id r = i \<and> owned_by db user (ms_account r)) (md_rows db) = Some z" "ms_account z = a"
    by (auto simp: account_of_message_def)
  have ax: "ms_account x = a" using same_id [OF db x(1), of z] x(2) z(2) find_some [OF z(1)] by simp
  obtain db1 where db1: "merge_collision a i p db = Inr db1"
    and s: "set_path (\<lambda>r. ms_id r = i \<and> ms_account r = a) p (\<lambda>r. r\<lparr>ms_read := read, ms_updated := now\<rparr>) Not_found db1 = Inr db'"
    using m a by (auto simp: mark_read_at_path_def split: if_splits sum.splits)
  have "\<exists>x'. x' \<in> set (md_rows db') \<and> ms_id x' = i \<and> ms_path x' = p \<and> ms_read x' = read"
  proof -
    have "affected (\<lambda>r. ms_id r = i \<and> ms_account r = a) db1 \<noteq> 0" using s by (auto simp: set_path_def split: if_splits)
    then obtain y where "y \<in> set (md_rows db1)" "ms_id y = i" "ms_account y = a" by (auto simp: affected_def filter_empty_conv)
    moreover have "md_rows db' = map (\<lambda>r. if ms_id r = i \<and> ms_account r = a then r\<lparr>ms_path := p, ms_read := read, ms_updated := now\<rparr> else r) (md_rows db1)"
      using s by (auto simp: set_path_def update_rows_def split: if_splits)
    ultimately show ?thesis by (auto intro!: exI [of _ "y\<lparr>ms_path := p, ms_read := read, ms_updated := now\<rparr>"] rev_image_eqI)
  qed
  moreover have remains: "\<exists>r''. r'' \<in> set (md_rows db') \<and> ms_id r'' = ms_id r" if "r' \<in> set (md_rows db1)" "ms_id r' = ms_id r" for r'
    using set_path_row [OF s that(1)] that(2) by simp
  moreover have "(\<exists>r'. r' \<in> set (md_rows db') \<and> ms_id r' = ms_id r) \<or>
     ms_path r = p \<and> ms_account r = ms_account x \<and> (ms_message_id r = [] \<or> ms_message_id x = [] \<or> ms_message_id r = ms_message_id x)"
    using merge_collision_row [OF db db1 r x ax] remains unfolding ax by metis
  ultimately show ?thesis by blast
qed

section \<open>Examples\<close>

definition demo_mail :: "int \<Rightarrow> string \<Rightarrow> int \<Rightarrow> msg_row" where
  "demo_mail i p alerted = \<lparr>ms_id = i, ms_account = ''a'', ms_folder = ''inbox'', ms_path = p, ms_message_id = ''<m>'', ms_sender = [],
     ms_recipients = [], ms_cc = [], ms_subject = [], ms_date = [], ms_date_utc = None, ms_read = False, ms_attachments = 0, ms_uid = 7,
     ms_validity = 1, ms_flags = [], ms_alerted = alerted, ms_attempts = 2, ms_updated = [], ms_scan = [], ms_size = 1\<rparr>"

definition demo_input :: "string \<Rightarrow> index_input" where
  "demo_input p = \<lparr>in_account = ''a'', in_folder = ''inbox'', in_path = p, in_message_id = ''<m>'', in_sender = [], in_recipients = [],
     in_cc = [], in_subject = [], in_date = [], in_date_utc = None, in_read = False, in_attachments = 0, in_updated = [], in_scan = [],
     in_size = 1, in_alerted = 0, in_attempts = 0, in_live = Some (\<lambda>p. p = ''/n'')\<rparr>"

definition demo_tables :: mail_db where
  "demo_tables = \<lparr>md_accounts = [\<lparr>ar_id = ''a'', ar_user = ''u'', ar_deleting = False, ar_folder_map = Some [], ar_version = 1\<rparr>],
     md_rows = [demo_mail 1 ''/o'' 1, demo_mail 2 ''/p'' 0], md_mutations = []\<rparr>"

lemma demo_tables_ok: "rows_ok demo_tables"
  by (simp add: rows_ok_def demo_tables_def demo_mail_def)

lemma demo_plain: "trim_space ''a'' = ''a''" "trim_space ''/n'' = ''/n''" "trim_space ''/o'' = ''/o''" "trim_space ''/p'' = ''/p''" "trim_space ''<m>'' = ''<m>''"
  by (rule trim_plain; simp add: is_space_def)+

lemma upsert_total:
  assumes "trim_space (in_account i) \<noteq> []" "trim_space (in_path i) \<noteq> []"
  shows "\<exists>n db'. upsert_mail_index i db = Inr (n, db')"
  using assms by (cases "stale_rows db i"; cases "find (\<lambda>r. ms_path r = in_path i) (md_rows db)") (simp_all add: upsert_mail_index_def Let_def)


theorem path_change_merges_copies_witness:
  "\<exists>r. r \<in> set (md_rows (mail_step plain_unicode (Op_read_at ''t'' ''u'' 1 True ''/p'') demo_tables)) \<and> ms_id r = 1 \<and> ms_path r = ''/p'' \<and> ms_read r"
proof -
  obtain db' where m: "mark_read_at_path ''t'' ''u'' 1 True ''/p'' demo_tables = Inr db'"
  proof -
    have "trim_space ''/p'' \<noteq> []" by (simp add: demo_plain)
    then show ?thesis using that
      by (auto simp: mark_read_at_path_def demo_tables_def demo_mail_def account_of_message_def owned_by_def merge_collision_def
          set_path_def affected_def delete_rows_def update_rows_def)
  qed
  have "demo_mail 1 ''/o'' 1 \<in> set (md_rows demo_tables)" "demo_mail 2 ''/p'' 0 \<in> set (md_rows demo_tables)" by (simp_all add: demo_tables_def)
  then show ?thesis using path_change_merges_copies [OF demo_tables_ok m, of "demo_mail 2 ''/p'' 0" "demo_mail 1 ''/o'' 1"] m
    by (auto simp: keep_ok_def demo_mail_def)
qed

end
