(* ===== verification/Read_Retry.thy ===== *)
theory Read_Retry
  imports Read_Journal Mail_Merge
begin

text \<open>
  The retry of read flags that mbsync could not carry (internal/mailsync/queued\_reads.go and read\_cache.go).  The mail
  server, the lookup of folders, the renaming of files and what users do meanwhile are parameters.
\<close>

section \<open>Retrying the retained read changes\<close>

datatype read_failure = Missing_identity | Uncertain | Not_applied | Lookup_failed | Connection_failed | Server_refused | Cache_failed

datatype seen_state = Applied | Not_yet_applied | Unclear

text \<open>\<open>rd_server\<close> answers the n-th request to set a flag, \<open>rd_open\<close> the n-th connection, \<open>rd_confirm\<close> the n-th question whether an
  uncertain write arrived; \<open>rd_meanwhile\<close> is what users and indexer do while the request runs.\<close>

record read_env =
  rd_remote :: "string \<Rightarrow> string option"
  rd_physical :: "string \<Rightarrow> string list option"
  rd_open :: "nat \<Rightarrow> bool"
  rd_server :: "nat \<Rightarrow> read_failure option"
  rd_confirm :: "nat \<Rightarrow> read_failure + seen_state"
  rd_meanwhile :: "nat \<Rightarrow> mail_db \<Rightarrow> mail_db"
  rd_root :: "string option"
  rd_inside :: "string \<Rightarrow> bool"
  rd_rename :: "string \<Rightarrow> bool \<Rightarrow> string option"
  rd_text :: "read_failure \<Rightarrow> string"

datatype server_act = Set_seen string "32 word" "32 word" bool | Confirm_seen string "32 word" "32 word" bool | Open_connection | Close_connection

record retry_state =
  rs_db :: mail_db
  rs_connected :: bool
  rs_requests :: nat
  rs_log :: "server_act list"

definition retained_reads :: "string list option \<Rightarrow> string \<Rightarrow> int \<Rightarrow> mail_db \<Rightarrow> queued_read list" where
  "retained_reads folders a watermark db = (case folders of
      None \<Rightarrow> []
    | Some fs \<Rightarrow> filter (\<lambda>item. qr_folder item \<notin> set fs \<or> qr_read item \<noteq> qr_cache_read item) (queued_read_mutations a watermark db))"

definition retry_open :: "read_env \<Rightarrow> retry_state \<Rightarrow> read_failure option \<times> retry_state" where
  "retry_open en s =
     (let s' = s\<lparr>rs_requests := Suc (rs_requests s)\<rparr>
      in if rs_connected s then (None, s)
         else if rd_open en (rs_requests s) then (None, s'\<lparr>rs_connected := True, rs_log := rs_log s @ [Open_connection]\<rparr>)
         else (Some Connection_failed, s'))"

definition retry_close :: "retry_state \<Rightarrow> retry_state" where
  "retry_close s = (if rs_connected s then s\<lparr>rs_connected := False, rs_log := rs_log s @ [Close_connection]\<rparr> else s)"

text \<open>An uncertain write is not repeated: a new connection only asks whether it arrived.\<close>

definition confirm_write :: "read_env \<Rightarrow> string \<Rightarrow> queued_read \<Rightarrow> bool \<Rightarrow> retry_state \<Rightarrow> read_failure option \<times> retry_state" where
  "confirm_write en folder item flag s = (case retry_open en (retry_close s) of
      (Some e, s1) \<Rightarrow> (Some Uncertain, s1)
    | (None, s1) \<Rightarrow>
        (let s2 = s1\<lparr>rs_requests := Suc (rs_requests s1), rs_log := rs_log s1 @ [Confirm_seen folder (qr_uid item) (qr_validity item) flag]\<rparr>
         in case rd_confirm en (rs_requests s1) of
             Inl e \<Rightarrow> (Some e, s2)
           | Inr Applied \<Rightarrow> (None, s2)
           | Inr Not_yet_applied \<Rightarrow> (Some Not_applied, s2)
           | Inr Unclear \<Rightarrow> (Some Uncertain, s2)))"

definition send_flag :: "read_env \<Rightarrow> string \<Rightarrow> queued_read \<Rightarrow> bool \<Rightarrow> retry_state \<Rightarrow> read_failure option \<times> retry_state" where
  "send_flag en folder item flag s = (case retry_open en s of
      (Some e, s1) \<Rightarrow> (Some e, s1)
    | (None, s1) \<Rightarrow>
        (let n = rs_requests s1;
             s2 = s1\<lparr>rs_requests := Suc n, rs_db := rd_meanwhile en n (rs_db s1), rs_log := rs_log s1 @ [Set_seen folder (qr_uid item) (qr_validity item) flag]\<rparr>
         in if rd_server en n = Some Uncertain then confirm_write en folder item flag s2 else (rd_server en n, s2)))"

text \<open>\<open>alignConfirmedRead\<close>, one critical section of the lock of read states: \<open>None\<close> for an error, else whether the copies were set.\<close>

fun align_copies :: "read_env \<Rightarrow> bool \<Rightarrow> msg_row list \<Rightarrow> mail_db \<Rightarrow> bool \<times> mail_db" where
  "align_copies en flag [] db = (True, db)"
| "align_copies en flag (c # cs) db =
     (if \<not> rd_inside en (ms_path c) then (False, db)
      else case rd_rename en (ms_path c) flag of
          None \<Rightarrow> (False, db)
        | Some target \<Rightarrow> (case mark_confirmed_read c flag target db of
              Inl _ \<Rightarrow> (False, db)
            | Inr db' \<Rightarrow> align_copies en flag cs db'))"

definition align_confirmed_read :: "read_env \<Rightarrow> string \<Rightarrow> string \<Rightarrow> queued_read \<Rightarrow> mail_db \<Rightarrow> bool option \<times> mail_db" where
  "align_confirmed_read en a remote action db = (case rd_root en of
      None \<Rightarrow> (Some False, db)
    | Some _ \<Rightarrow> (case rd_physical en remote of
          None \<Rightarrow> (None, db)
        | Some folders \<Rightarrow> (case latest_read_for_identity a folders (qr_uid action) (qr_validity action) db of
              None \<Rightarrow> (None, db)
            | Some latest \<Rightarrow>
                if qr_mutation latest \<noteq> qr_mutation action then (Some False, db)
                else (case align_copies en (qr_read action) (read_identity_copies a folders (qr_uid action) (qr_validity action) db) db of
                    (ok, db') \<Rightarrow> (if ok then Some True else None, db')))))"

text \<open>The body of the loop of \<open>confirmRetainedReads\<close>.\<close>

definition newest_of :: "string \<Rightarrow> string list \<Rightarrow> queued_read \<Rightarrow> mail_db \<Rightarrow> queued_read" where
  "newest_of a folders item db = (case latest_read_for_identity a folders (qr_uid item) (qr_validity item) db of
      None \<Rightarrow> item
    | Some latest \<Rightarrow> if qr_mutation item < qr_mutation latest then latest else item)"

definition attempt_read :: "read_env \<Rightarrow> string \<Rightarrow> queued_read \<Rightarrow> retry_state \<Rightarrow> read_failure option \<times> string \<times> queued_read \<times> retry_state" where
  "attempt_read en a item s =
     (if qr_uid item = 0 \<or> qr_validity item = 0 then (Some Missing_identity, [], item, s)
      else case rd_remote en (qr_folder item) of
          None \<Rightarrow> (Some Lookup_failed, [], item, s)
        | Some remote \<Rightarrow> (case rd_physical en remote of
              None \<Rightarrow> (Some Lookup_failed, remote, item, s)
            | Some folders \<Rightarrow>
                (let action = newest_of a folders item (rs_db s); (e, s') = send_flag en remote item (qr_read action) s
                 in (e, remote, action, s'))))"

definition confirm_read :: "read_env \<Rightarrow> string \<Rightarrow> queued_read \<Rightarrow> retry_state \<Rightarrow> bool \<times> retry_state" where
  "confirm_read en a item s = (case attempt_read en a item s of (e, remote, action, s1) \<Rightarrow>
     (let (e', aligned, db) = (if e = None
            then (case align_confirmed_read en a remote action (rs_db s1) of (None, db) \<Rightarrow> (Some Cache_failed, False, db) | (Some b, db) \<Rightarrow> (None, b, db))
            else (e, False, rs_db s1));
          item' = (if aligned then item\<lparr>qr_read := qr_read action\<rparr> else item);
          failure = map_option (rd_text en) e';
          db1 = (if qr_mutation action \<noteq> qr_mutation item then finish_queued_read action failure db else db);
          s2 = s1\<lparr>rs_db := finish_queued_read item' failure db1\<rparr>
      in (e' = None, if e' = None then s2 else retry_close s2)))"

definition confirm_retained_reads :: "read_env \<Rightarrow> string \<Rightarrow> queued_read list \<Rightarrow> mail_db \<Rightarrow> bool \<times> retry_state" where
  "confirm_retained_reads en a pending db =
     (case fold (\<lambda>item (ok, s). case confirm_read en a item s of (b, s') \<Rightarrow> (ok \<and> b, s')) pending
         (True, \<lparr>rs_db = db, rs_connected = False, rs_requests = 0, rs_log = []\<rparr>) of
       (ok, s) \<Rightarrow> (ok, retry_close s))"

definition retry_retained_reads :: "read_env \<Rightarrow> string list option \<Rightarrow> string \<Rightarrow> int \<Rightarrow> mail_db \<Rightarrow> bool \<times> retry_state" where
  "retry_retained_reads en folders a watermark db = confirm_retained_reads en a (retained_reads folders a watermark db) db"

section \<open>What is sent\<close>

definition writes :: "server_act list \<Rightarrow> server_act list" where
  "writes log = filter (\<lambda>x. case x of Set_seen _ _ _ _ \<Rightarrow> True | _ \<Rightarrow> False) log"

lemma writes_append [simp]: "writes (xs @ ys) = writes xs @ writes ys"
  by (simp add: writes_def)

lemma writes_simps [simp]:
  "writes [] = []" "writes (Set_seen f u e b # log) = Set_seen f u e b # writes log" "writes (Confirm_seen f u e b # log) = writes log"
  "writes (Open_connection # log) = writes log" "writes (Close_connection # log) = writes log"
  by (simp_all add: writes_def)

lemma close_log: "writes (rs_log (retry_close s)) = writes (rs_log s)" "rs_db (retry_close s) = rs_db s"
  by (simp_all add: retry_close_def)

lemma open_log: "retry_open en s = (e, s') \<Longrightarrow> writes (rs_log s') = writes (rs_log s) \<and> rs_db s' = rs_db s"
  by (auto simp: retry_open_def Let_def split: if_splits)

lemma confirm_log:
  assumes "confirm_write en folder item flag s = (e, s')"
  shows "writes (rs_log s') = writes (rs_log s) \<and> rs_db s' = rs_db s"
proof -
  obtain e1 s1 where 1: "retry_open en (retry_close s) = (e1, s1)" by fastforce
  show ?thesis using assms open_log [OF 1] close_log [of s]
    by (auto simp: confirm_write_def 1 Let_def split: option.splits sum.splits seen_state.splits)
qed

lemma send_log:
  assumes "send_flag en folder item flag s = (e, s')"
  shows "writes (rs_log s') = writes (rs_log s) \<or> writes (rs_log s') = writes (rs_log s) @ [Set_seen folder (qr_uid item) (qr_validity item) flag]"
proof -
  obtain e1 s1 where 1: "retry_open en s = (e1, s1)" by fastforce
  show ?thesis using assms open_log [OF 1] by (auto simp: send_flag_def 1 Let_def split: option.splits if_splits dest: confirm_log)
qed

lemma attempt_log:
  assumes "attempt_read en a item s = (e, remote, action, s')"
  shows "writes (rs_log s') = writes (rs_log s) \<or>
    (\<exists>folders. qr_uid item \<noteq> 0 \<and> qr_validity item \<noteq> 0 \<and> rd_remote en (qr_folder item) = Some remote \<and> rd_physical en remote = Some folders \<and>
       action = newest_of a folders item (rs_db s) \<and>
       writes (rs_log s') = writes (rs_log s) @ [Set_seen remote (qr_uid item) (qr_validity item) (qr_read action)])"
  using assms by (auto simp: attempt_read_def Let_def split: if_splits option.splits prod.splits dest!: send_log)

lemma confirm_read_log:
  assumes "attempt_read en a item s = (e, remote, action, s1)"
  shows "writes (rs_log (snd (confirm_read en a item s))) = writes (rs_log s1)"
  by (simp add: confirm_read_def assms Let_def close_log case_prod_beta)

lemma newest_of_newest:
  assumes db: "journal_ok db" and q: "(q, m) \<in> set (identity_reads a folders (qr_uid item) (qr_validity item) db)"
    and max: "\<And>p. p \<in> set (identity_reads a folders (qr_uid item) (qr_validity item) db) \<Longrightarrow> mu_id (fst p) \<le> mu_id q"
    and i: "qr_uid item \<noteq> 0" "qr_validity item \<noteq> 0" "qr_mutation item < mu_id q"
  shows "newest_of a folders item db = to_queued (q, m)"
proof -
  let ?reads = "identity_reads a folders (qr_uid item) (qr_validity item) db"
  have ids: "mu_id q \<in> set (map (\<lambda>(q, m). mu_id q) ?reads)" using q by (auto intro: rev_image_eqI)
  then have ne: "map (\<lambda>(q, m). mu_id q) ?reads \<noteq> []" by auto
  have "sql_max (map (\<lambda>(q, m). mu_id q) ?reads) = mu_id q"
    using sql_max_in [OF ne] sql_max_ge [OF ids] max by (fastforce simp: case_prod_beta)
  moreover have "find (\<lambda>(q', m). mu_id q' = mu_id q) ?reads = Some (q, m)"
  proof -
    obtain p where p: "find (\<lambda>(q', m). mu_id q' = mu_id q) ?reads = Some p"
      using q by (cases "find (\<lambda>(q', m). mu_id q' = mu_id q) ?reads") (auto simp: find_None_iff)
    then have in_reads: "p \<in> set ?reads" and same: "mu_id (fst p) = mu_id q" by (auto dest: find_some)
    have "fst p \<in> set (md_mutations db)" "q \<in> set (md_mutations db)" using in_reads q by (auto simp: identity_reads_def joined_reads_def)
    then have "fst p = q" using db same by (auto simp: journal_ok_def distinct_map inj_on_def)
    moreover have "snd p \<in> set (md_rows db)" "ms_id (snd p) = mu_message (fst p)" using in_reads by (auto simp: identity_reads_def joined_reads_def)
    moreover have "m \<in> set (md_rows db)" "ms_id m = mu_message q" using q by (auto simp: identity_reads_def joined_reads_def)
    ultimately have "p = (q, m)" using same_id [of db "snd p" m] db by (auto simp: journal_ok_def prod_eq_iff)
    then show ?thesis using p by simp
  qed
  moreover have "folders \<noteq> []" using q by (auto simp: identity_reads_def)
  ultimately have "latest_read_for_identity a folders (qr_uid item) (qr_validity item) db = Some (to_queued (q, m))"
    using i(1,2) by (simp add: latest_read_for_identity_def Let_def)
  then show ?thesis using i(3) by (simp add: newest_of_def to_queued_def)
qed


section \<open>What is acknowledged\<close>

text \<open>\<open>same_status db db'\<close>: every journal row of \<open>db'\<close> is one of \<open>db\<close> in the same state.\<close>

definition same_status :: "mail_db \<Rightarrow> mail_db \<Rightarrow> bool" where
  "same_status db db' \<longleftrightarrow> (\<lambda>q. (mu_id q, mu_status q)) ` set (md_mutations db') \<subseteq> (\<lambda>q. (mu_id q, mu_status q)) ` set (md_mutations db)"

lemma same_status_refl [simp]: "same_status db db"
  by (simp add: same_status_def)

lemma same_status_trans: "same_status a b \<Longrightarrow> same_status b c \<Longrightarrow> same_status a c"
  by (auto simp: same_status_def)

lemma drops_same_status: "drops_mutations db db' \<Longrightarrow> same_status db db'"
  by (auto simp: drops_mutations_def same_status_def)

lemma confirmed_same_status: "mark_confirmed_read c flag p db = Inr db' \<Longrightarrow> same_status db db'"
  by (auto simp: mark_confirmed_read_def split: sum.splits intro!: drops_same_status drops_merged_path)

lemma align_copies_status: "align_copies en flag cs db = (ok, db') \<Longrightarrow> same_status db db'"
proof (induction cs arbitrary: db)
  case (Cons c cs)
  then show ?case by (auto split: if_splits option.splits sum.splits intro: same_status_trans confirmed_same_status)
qed simp

lemma align_status: "align_confirmed_read en a remote action db = (r, db') \<Longrightarrow> same_status db db'"
  by (auto simp: align_confirmed_read_def split: option.splits if_splits prod.splits intro: align_copies_status)

lemma update_same_status:
  assumes "\<And>q. sel q \<Longrightarrow> mu_id (f q) = mu_id q \<and> mu_status (f q) = mu_status q"
  shows "same_status db (update_mutations sel f db)"
proof -
  have "(mu_id (if sel q then f q else q), mu_status (if sel q then f q else q)) = (mu_id q, mu_status q)" for q using assms by simp
  then show ?thesis unfolding same_status_def update_mutations_fields set_map image_image by simp
qed

lemma failed_finish_status: "same_status db (finish_queued_read item (Some e) db)"
  unfolding finish_queued_read_def by (rule update_same_status) simp

lemma send_db:
  assumes "send_flag en folder item flag s = (e, s')" "\<And>n db. rd_meanwhile en n db = db"
  shows "rs_db s' = rs_db s"
proof -
  obtain e1 s1 where 1: "retry_open en s = (e1, s1)" by fastforce
  show ?thesis using assms open_log [OF 1] by (auto simp: send_flag_def 1 Let_def split: option.splits if_splits dest: confirm_log)
qed

lemma attempt_db:
  assumes "attempt_read en a item s = (e, remote, action, s')" "\<And>n db. rd_meanwhile en n db = db"
  shows "rs_db s' = rs_db s"
  using assms by (auto simp: attempt_read_def Let_def split: if_splits option.splits prod.splits dest: send_db)

text \<open>C32. A retry that fails, whether at the lookup, the connection, the server or the local files, acknowledges no change: every
  journal row left is as queued or settled as before.\<close>

theorem failed_retry_acknowledges_nothing:
  assumes failed: "\<not> fst (confirm_read en a item s)" and quiet: "\<And>n db. rd_meanwhile en n db = db"
  shows "(\<lambda>q. (mu_id q, mu_status q)) ` set (md_mutations (rs_db (snd (confirm_read en a item s)))) \<subseteq>
    (\<lambda>q. (mu_id q, mu_status q)) ` set (md_mutations (rs_db s))"
proof -
  obtain e remote action s1 where 1: "attempt_read en a item s = (e, remote, action, s1)" using prod_cases4 by blast
  define r where "r = (if e = None
            then (case align_confirmed_read en a remote action (rs_db s1) of (None, db) \<Rightarrow> (Some Cache_failed, False, db) | (Some b, db) \<Rightarrow> (None, b, db))
            else (e, False, rs_db s1))"
  obtain e' aligned db where r: "r = (e', aligned, db)" using prod_cases3 by blast
  have db: "same_status (rs_db s) db" using r attempt_db [OF 1 quiet] unfolding r_def
    by (auto split: if_splits prod.splits option.splits dest: align_status)
  obtain f where f: "e' = Some f" using failed by (auto simp: confirm_read_def 1 Let_def r [unfolded r_def] split: if_splits)
  have "rs_db (snd (confirm_read en a item s)) = finish_queued_read (if aligned then item\<lparr>qr_read := qr_read action\<rparr> else item) (Some (rd_text en f))
      (if qr_mutation action \<noteq> qr_mutation item then finish_queued_read action (Some (rd_text en f)) db else db)"
    by (simp add: confirm_read_def 1 Let_def r [unfolded r_def] f close_log)
  moreover have "same_status db (if qr_mutation action \<noteq> qr_mutation item then finish_queued_read action (Some (rd_text en f)) db else db)"
    using failed_finish_status by simp
  ultimately have "same_status (rs_db s) (rs_db (snd (confirm_read en a item s)))"
    using db failed_finish_status same_status_trans by metis
  then show ?thesis by (simp only: same_status_def)
qed

section \<open>Examples\<close>

definition demo_retry_env :: "(nat \<Rightarrow> read_failure option) \<Rightarrow> read_env" where
  "demo_retry_env server = \<lparr>rd_remote = \<lambda>_. Some ''INBOX'', rd_physical = \<lambda>_. Some [''inbox''], rd_open = \<lambda>_. True, rd_server = server,
     rd_confirm = \<lambda>_. Inr Not_yet_applied, rd_meanwhile = \<lambda>_ db. db, rd_root = None, rd_inside = \<lambda>_. True, rd_rename = \<lambda>p _. Some p,
     rd_text = \<lambda>_. ''failed''\<rparr>"

definition undone_change :: mutation_row where
  "undone_change = (read_row 2 1 ''t2'')\<lparr>mu_desired := Some False\<rparr>"

definition two_changes :: retry_state where
  "two_changes = \<lparr>rs_db = \<lparr>md_accounts = [demo_owner], md_rows = [plain_row 1 ''/p''], md_mutations = [read_row 1 1 ''t1'', undone_change]\<rparr>,
     rs_connected = False, rs_requests = 0, rs_log = []\<rparr>"

definition first_change :: queued_read where
  "first_change = (read_item 1 ''/p'')\<lparr>qr_mutation := 1\<rparr>"

lemma two_changes_reads:
  "identity_reads ''a'' [''inbox''] 7 1 (rs_db two_changes) =
     [(read_row 1 1 ''t1'', plain_row 1 ''/p''), (undone_change, plain_row 1 ''/p'')]"
  by (simp add: two_changes_def identity_reads_def joined_reads_def undone_change_def read_row_def plain_row_def settled_or_queued_def
      wanted_uid_def wanted_validity_def)

lemma two_changes_newest: "newest_of ''a'' [''inbox''] first_change (rs_db two_changes) = to_queued (undone_change, plain_row 1 ''/p'')"
  by (simp add: newest_of_def latest_read_for_identity_def first_change_def read_item_def two_changes_reads Let_def)
    (simp add: sql_max_def undone_change_def read_row_def to_queued_def)

lemma two_changes_ok: "journal_ok (rs_db two_changes)"
  by (simp add: journal_ok_def rows_ok_def two_changes_def undone_change_def read_row_def plain_row_def)

lemma first_change_ids: "qr_uid first_change = 7" "qr_validity first_change = 1" "qr_mutation first_change = 1"
  by (simp_all add: first_change_def read_item_def)

lemma two_changes_attempt:
  "attempt_read (demo_retry_env (\<lambda>_. r)) ''a'' first_change two_changes = (e, remote, action, s1) \<Longrightarrow> r \<noteq> Some Uncertain \<Longrightarrow>
     e = r \<and> rs_log s1 = [Open_connection, Set_seen ''INBOX'' 7 1 False]"
proof -
  have flag: "qr_read (to_queued (undone_change, plain_row 1 ''/p'')) = False" by (simp add: to_queued_def wanted_read_def undone_change_def)
  assume "attempt_read (demo_retry_env (\<lambda>_. r)) ''a'' first_change two_changes = (e, remote, action, s1)" "r \<noteq> Some Uncertain"
  then show ?thesis
    by (auto simp: attempt_read_def first_change_ids demo_retry_env_def two_changes_newest flag Let_def send_flag_def retry_open_def
        split: prod.splits) (auto simp: two_changes_def first_change_ids flag)
qed


theorem failed_retry_acknowledges_nothing_witness:
  "mu_status ` set (md_mutations (rs_db (snd (confirm_read (demo_retry_env (\<lambda>_. Some Server_refused)) ''a'' first_change two_changes)))) \<subseteq> {''queued''}"
proof -
  let ?en = "demo_retry_env (\<lambda>_. Some Server_refused)"
  obtain e remote action s1 where 1: "attempt_read ?en ''a'' first_change two_changes = (e, remote, action, s1)" using prod_cases4 by blast
  have "\<not> fst (confirm_read ?en ''a'' first_change two_changes)" using two_changes_attempt [OF 1] by (simp add: confirm_read_def 1 Let_def)
  then have "(\<lambda>q. (mu_id q, mu_status q)) ` set (md_mutations (rs_db (snd (confirm_read ?en ''a'' first_change two_changes)))) \<subseteq>
      (\<lambda>q. (mu_id q, mu_status q)) ` set (md_mutations (rs_db two_changes))"
    by (rule failed_retry_acknowledges_nothing) (simp add: demo_retry_env_def)
  then show ?thesis by (auto simp: two_changes_def undone_change_def read_row_def)
qed

end
