(* ===== verification/Folder_Names.thy ===== *)
theory Folder_Names
  imports Folder_Policy Mbsync_State Mail_Rows
begin

text \<open>
  Names of folders (internal/store/accounts.go, mail.go and folder\_policy.go): the check of the folder map of an account,
  the cleaning of local names, the directory of a remote folder and the check of the folder roles.  A Go map is the list
  of its pairs in the order of iteration; the theorems hold for every order.  A column with JSON is the value it encodes,
  \<open>None\<close> for a text that encodes none.
\<close>

section \<open>Paths\<close>

definition has_sub :: "string \<Rightarrow> string \<Rightarrow> bool" where
  "has_sub s sub \<longleftrightarrow> index_sub s sub \<noteq> None"

definition slashed :: "string \<Rightarrow> string" where
  "slashed s = map (\<lambda>c. if c = CHR 0x5C then CHR ''/'' else c) s"

definition has_control :: "string \<Rightarrow> bool" where
  "has_control s \<longleftrightarrow> CHR 0x00 \<in> set s \<or> CHR 0x0D \<in> set s \<or> CHR 0x0A \<in> set s"

text \<open>\<open>path.Clean\<close>: \<open>..\<close> removes the part before it, at the root it is dropped.\<close>

definition clean_part :: "bool \<Rightarrow> string \<Rightarrow> string list \<Rightarrow> string list" where
  "clean_part rooted part out =
     (if part = [] \<or> part = ''.'' then out
      else if part = ''..'' then (if out \<noteq> [] \<and> last out \<noteq> ''..'' then butlast out else if rooted then out else out @ [part])
      else out @ [part])"

definition path_clean :: "string \<Rightarrow> string" where
  "path_clean p =
     (let rooted = take 1 p = ''/''; cleaned = (if rooted then ''/'' else []) @ join (fold (clean_part rooted) (split_at (CHR ''/'') p) []) ''/''
      in if cleaned = [] then ''.'' else cleaned)"

definition clean_folder :: "string \<Rightarrow> string" where
  "clean_folder raw =
     (let v = trim_space (slashed raw)
      in if v = [] \<or> v = ''.'' \<or> has_prefix v ''/'' \<or> has_control v then ''Inbox''
         else
           (let parts = split_at (CHR ''/'') (trim_slashes v); kept = filter (\<lambda>p. p \<noteq> [] \<and> p \<noteq> ''.'') parts
            in if ''..'' \<in> set parts \<or> kept = [] then ''Inbox'' else join kept ''/''))"

section \<open>The folder map of an account\<close>

datatype folder_error =
  Account_missing | Version_conflict | Invalid_config | Unknown_mailbox | Invalid_role | Role_missing | Not_owner | Policy_invalid policy_error

definition bad_mapping :: "string \<Rightarrow> string \<Rightarrow> bool" where
  "bad_mapping remote lcl \<longleftrightarrow> remote = [] \<or> lcl = [] \<or> path_clean (slashed lcl) = ''.'' \<or> has_control (remote @ lcl) \<or>
     has_sub remote ''..'' \<or> has_sub lcl ''..'' \<or> has_prefix remote ''/'' \<or> has_prefix (slashed lcl) ''/''"

definition local_key :: "unicode \<Rightarrow> string \<Rightarrow> string" where
  "local_key U lcl = to_lower (u_lower U) (path_clean (slashed lcl))"

fun check_mappings :: "unicode \<Rightarrow> (string \<times> string) list \<Rightarrow> string set \<Rightarrow> string set \<Rightarrow> bool" where
  "check_mappings U [] remotes locals \<longleftrightarrow> True"
| "check_mappings U ((r, l) # m) remotes locals \<longleftrightarrow>
     (let remote = trim_space r; lcl = trim_space l
      in \<not> bad_mapping remote lcl \<and> remote_key U remote \<notin> remotes \<and> local_key U lcl \<notin> locals \<and>
         check_mappings U m (insert (remote_key U remote) remotes) (insert (local_key U lcl) locals))"

definition validate_folder_map :: "unicode \<Rightarrow> (string \<times> string) list option \<Rightarrow> folder_error + (string \<times> string) list" where
  "validate_folder_map U raw = (case raw of
      None \<Rightarrow> Inl Invalid_config
    | Some m \<Rightarrow> if check_mappings U m {} {} then Inr m else Inl Invalid_config)"

definition mapped_inbox_folder :: "unicode \<Rightarrow> (string \<times> string) list \<Rightarrow> string" where
  "mapped_inbox_folder U m = (case find (\<lambda>(r, l). equal_fold U (trim_space r) ''INBOX'' \<and> trim_space l \<noteq> []) m of
      None \<Rightarrow> ''Inbox'' | Some (_, l) \<Rightarrow> trim_space l)"

definition inbox_folder_legacy :: "unicode \<Rightarrow> (string \<times> string) list option \<Rightarrow> string" where
  "inbox_folder_legacy U raw = (case raw of
      None \<Rightarrow> ''Inbox''
    | Some m \<Rightarrow> (case find (\<lambda>(r, l). equal_fold U (trim_space r) ''INBOX'' \<and> trim_space l \<noteq> []) m of
        None \<Rightarrow> ''Inbox'' | Some (_, l) \<Rightarrow> clean_folder l))"

definition local_folder_path :: "unicode \<Rightarrow> (string \<times> string) list \<Rightarrow> string \<Rightarrow> string" where
  "local_folder_path U paths remote =
     (let direct = (case map_of paths remote of None \<Rightarrow> [] | Some l \<Rightarrow> l)
      in if direct \<noteq> [] then direct
         else if equal_fold U remote ''INBOX''
           then (case find (\<lambda>(n, l). equal_fold U n ''INBOX'' \<and> l \<noteq> []) paths of None \<Rightarrow> ''Inbox'' | Some (_, l) \<Rightarrow> l)
         else remote)"

section \<open>Folder roles\<close>

definition role_names :: "string list" where
  "role_names = [''inbox'', ''sent'', ''drafts'', ''spam'', ''trash'', ''archive'']"

fun role_aliases :: "unicode \<Rightarrow> (string \<times> string) list \<Rightarrow> (string \<times> string) list \<Rightarrow> (string \<times> string) list option" where
  "role_aliases U [] aliases = Some aliases"
| "role_aliases U ((r, l) # m) aliases =
     (let remote = trim_space r; key = remote_key U remote
      in if remote = [] \<or> has_control remote \<or> clean_folder l = ''Inbox'' \<and> trim_space l = [] then None
         else if map_of aliases key \<noteq> None then None
         else role_aliases U m (aliases @ [(key, trim_space l)]))"

record role_row =
  rr_role :: string
  rr_remote :: string
  rr_local :: string

fun check_roles :: "unicode \<Rightarrow> (string \<times> string) list \<Rightarrow> (string \<times> string) list \<Rightarrow> role_row list \<Rightarrow> folder_error + role_row list" where
  "check_roles U aliases [] done = Inr done"
| "check_roles U aliases ((raw, r) # roles) done =
     (let role = to_lower (u_lower U) (trim_space raw); remote = trim_space r; key = remote_key U remote;
          alias = (case map_of aliases key of None \<Rightarrow> [] | Some l \<Rightarrow> l); lcl = clean_folder alias
      in if role \<notin> set role_names \<or> remote = [] \<or> has_control remote then Inl Invalid_role
         else if role \<in> rr_role ` set done then Inl Invalid_role
         else if key \<in> (\<lambda>x. remote_key U (rr_remote x)) ` set done then Inl Invalid_role
         else if trim_space alias = [] \<or> lcl = [] then Inl Invalid_role
         else if to_lower (u_lower U) lcl \<in> (\<lambda>x. to_lower (u_lower U) (rr_local x)) ` set done then Inl Invalid_role
         else check_roles U aliases roles (done @ [\<lparr>rr_role = role, rr_remote = remote, rr_local = lcl\<rparr>]))"

definition validate_folder_roles :: "unicode \<Rightarrow> (string \<times> string) list \<Rightarrow> (string \<times> string) list \<Rightarrow> folder_error + role_row list" where
  "validate_folder_roles U roles mapping = (case role_aliases U mapping [] of
      None \<Rightarrow> Inl Invalid_role
    | Some aliases \<Rightarrow> check_roles U aliases roles [])"

end
