(* ===== verification/Folder_Store.thy ===== *)
theory Folder_Store
  imports Folder_Names
begin

text \<open>
  The folders of an account in the database (internal/store/folder\_policy.go, folder\_directories.go,
  folder\_destinations.go, folder\_discovery.go, sync\_folder\_bindings.go and the folder functions of mail.go): which
  directories belong to a remote folder, what a query of a folder reads, the logical mailboxes, and the checked changes
  of the configuration.
\<close>

section \<open>State\<close>

record remote_row =
  rf_account :: string
  rf_remote :: string
  rf_local :: string
  rf_parent :: string
  rf_depth :: nat
  rf_role :: string
  rf_display :: string
  rf_updated :: string

record folder_db =
  fd_mail :: mail_db
  fd_remotes :: "remote_row list"
  fd_discovery :: "(string \<times> string) list"
  fd_bindings :: "(string \<times> string \<times> string) list"
  fd_roles :: "(string \<times> role_row) list"
  fd_policies :: "(string \<times> folder_policy) list"

text \<open>A loop that stops at the first error and appends the lists it gets.\<close>

fun collect :: "('a \<Rightarrow> 'e + 'b list) \<Rightarrow> 'a list \<Rightarrow> 'e + 'b list" where
  "collect f [] = Inr []"
| "collect f (x # xs) = (case f x of Inl e \<Rightarrow> Inl e | Inr ys \<Rightarrow> (case collect f xs of Inl e \<Rightarrow> Inl e | Inr zs \<Rightarrow> Inr (ys @ zs)))"

definition live_account :: "folder_db \<Rightarrow> string \<Rightarrow> string \<Rightarrow> acct_row option" where
  "live_account db user a = find (\<lambda>r. ar_id r = a \<and> ar_user r = user \<and> \<not> ar_deleting r) (md_accounts (fd_mail db))"

definition folder_policy_snapshot :: "folder_db \<Rightarrow> string \<Rightarrow> string \<Rightarrow> folder_error + folder_policy \<times> int" where
  "folder_policy_snapshot db user a = (case live_account db user a of
      None \<Rightarrow> Inl Account_missing
    | Some r \<Rightarrow> Inr ((case map_of (fd_policies db) a of None \<Rightarrow> \<lparr>po_groups = [], po_excluded = []\<rparr> | Some p \<Rightarrow> p), ar_version r))"

section \<open>Directories of remote folders\<close>

definition add_discovered :: "unicode \<Rightarrow> string \<Rightarrow> (string \<times> string) list \<Rightarrow> (string \<times> string) list" where
  "add_discovered U remote paths =
     (if list_ex (\<lambda>(n, _). remote_key U n = remote_key U remote) paths then paths
      else paths @ [(remote, local_folder_path U paths remote)])"

definition add_observed :: "unicode \<Rightarrow> remote_row \<Rightarrow> (string \<times> string) list \<Rightarrow> (string \<times> string) list" where
  "add_observed U f paths =
     (if rf_local f = [] then paths
      else if list_ex (\<lambda>(n, _). remote_key U n = remote_key U (rf_remote f)) paths
        then map (\<lambda>(n, l). if remote_key U n = remote_key U (rf_remote f) then (n, rf_local f) else (n, l)) paths
      else paths @ [(rf_remote f, rf_local f)])"

definition observed_rows :: "folder_db \<Rightarrow> string \<Rightarrow> remote_row list" where
  "observed_rows db a =
     sort_by (\<lambda>x y. str_less (rf_updated x) (rf_updated y) \<or> rf_updated x = rf_updated y \<and> str_less (rf_remote x) (rf_remote y))
       (filter (\<lambda>f. rf_account f = a) (fd_remotes db))"

definition discovered :: "folder_db \<Rightarrow> string \<Rightarrow> string list" where
  "discovered db a = map snd (filter (\<lambda>(x, _). x = a) (fd_discovery db))"

definition remote_local_paths :: "unicode \<Rightarrow> folder_db \<Rightarrow> string \<Rightarrow> string \<Rightarrow> folder_error + (string \<times> string) list" where
  "remote_local_paths U db user a = (case live_account db user a of
      None \<Rightarrow> Inl Account_missing
    | Some r \<Rightarrow> (case validate_folder_map U (ar_folder_map r) of
        Inl e \<Rightarrow> Inl e
      | Inr paths \<Rightarrow> Inr (fold (add_observed U) (observed_rows db a) (fold (add_discovered U) (discovered db a) paths))))"

text \<open>The two maps of \<open>folderDirectories\<close> are one relation between the key of a remote folder and a directory.\<close>

type_synonym directories = "(string \<times> string) list"

definition has_mail :: "folder_db \<Rightarrow> string \<Rightarrow> string \<Rightarrow> bool" where
  "has_mail db a lcl \<longleftrightarrow> list_ex (\<lambda>m. ms_account m = a \<and> ms_folder m = lcl) (md_rows (fd_mail db))"

definition folder_directories :: "unicode \<Rightarrow> folder_db \<Rightarrow> string \<Rightarrow> (string \<times> string) list \<Rightarrow> directories" where
  "folder_directories U db a current =
     map (\<lambda>(r, l). (remote_key U r, l)) current @
     map (\<lambda>(_, l, r). (remote_key U r, l)) (filter (\<lambda>(x, l, _). x = a \<and> has_mail db a l) (fd_bindings db))"

definition owners :: "directories \<Rightarrow> string \<Rightarrow> string list" where
  "owners d lcl = remdups (map fst (filter (\<lambda>(_, l). l = lcl) d))"

definition for_remote :: "unicode \<Rightarrow> directories \<Rightarrow> string \<Rightarrow> string \<Rightarrow> folder_error + string list" where
  "for_remote U d remote fallback =
     (let key = remote_key U remote; selected = remdups (fallback # map snd (filter (\<lambda>(k, _). k = key) d))
      in if list_ex (\<lambda>l. list_ex (\<lambda>k. k \<noteq> key) (owners d l)) selected then Inl Invalid_config
         else Inr (sort_by str_less selected))"

definition locals_of :: "unicode \<Rightarrow> directories \<Rightarrow> (string \<times> string) list \<Rightarrow> string \<Rightarrow> folder_error + string list" where
  "locals_of U d paths remote = for_remote U d remote (local_folder_path U paths remote)"

definition physical_folders_for_remote :: "unicode \<Rightarrow> folder_db \<Rightarrow> string \<Rightarrow> string \<Rightarrow> string \<Rightarrow> folder_error + string list" where
  "physical_folders_for_remote U db user a remote = (case remote_local_paths U db user a of
      Inl e \<Rightarrow> Inl e
    | Inr paths \<Rightarrow>
        for_remote U (folder_directories U db a paths) remote
          (case find (\<lambda>(n, _). remote_key U n = remote_key U remote) paths of None \<Rightarrow> remote | Some (_, l) \<Rightarrow> l))"

definition bindings_for_preview :: "unicode \<Rightarrow> folder_db \<Rightarrow> string \<Rightarrow> string \<Rightarrow> folder_error + (string \<times> string) list" where
  "bindings_for_preview U db user a = (case remote_local_paths U db user a of
      Inl e \<Rightarrow> Inl e
    | Inr paths \<Rightarrow>
        (let d = folder_directories U db a paths
         in collect (\<lambda>l. case owners d l of [r] \<Rightarrow> Inr [(l, r)] | _ \<Rightarrow> Inl Invalid_config) (remdups (map snd d))))"

text \<open>\<open>claim\<close> of \<open>RemoteFolderForLocal\<close> keeps the last name and refuses a name with another key.\<close>

fun claim_remotes :: "unicode \<Rightarrow> string list \<Rightarrow> string \<Rightarrow> string option" where
  "claim_remotes U [] remote = Some remote"
| "claim_remotes U (n # ns) remote = (if remote \<noteq> [] \<and> remote_key U remote \<noteq> remote_key U n then None else claim_remotes U ns n)"

definition remote_folder_for_local :: "unicode \<Rightarrow> folder_db \<Rightarrow> string \<Rightarrow> string \<Rightarrow> string \<Rightarrow> folder_error + string" where
  "remote_folder_for_local U db user a lcl =
     (if has_prefix lcl ''/groups/'' then Inl Invalid_config
      else case remote_local_paths U db user a of
          Inl e \<Rightarrow> Inl e
        | Inr paths \<Rightarrow>
            (case claim_remotes U (map fst (filter (\<lambda>(_, l). l = lcl) paths) @
                (if live_account db user a = None then [] else map (\<lambda>(_, _, r). r) (filter (\<lambda>(x, l, _). x = a \<and> l = lcl) (fd_bindings db)))) [] of
               None \<Rightarrow> Inl Invalid_config
             | Some remote \<Rightarrow> if remote \<noteq> [] then Inr remote else if lcl = ''Inbox'' \<and> paths = [] then Inr ''INBOX'' else Inl Invalid_config))"

section \<open>Groups and roles\<close>

definition physical_group_folders :: "unicode \<Rightarrow> folder_db \<Rightarrow> string \<Rightarrow> string \<Rightarrow> string \<Rightarrow> folder_error + string list" where
  "physical_group_folders U db user a key = (case folder_policy_snapshot db user a of
      Inl e \<Rightarrow> Inl e
    | Inr (p, _) \<Rightarrow> (case group_for_key p key of
        None \<Rightarrow> Inl Unknown_mailbox
      | Some g \<Rightarrow> (case remote_local_paths U db user a of
          Inl e \<Rightarrow> Inl e
        | Inr paths \<Rightarrow> (case collect (locals_of U (folder_directories U db a paths) paths) (gr_folders g) of
            Inl e \<Rightarrow> Inl e
          | Inr ls \<Rightarrow> Inr (rev (remdups (rev ls)))))))"

definition group_destination :: "unicode \<Rightarrow> folder_db \<Rightarrow> string \<Rightarrow> string \<Rightarrow> string \<Rightarrow> folder_error + string \<times> string" where
  "group_destination U db user a key = (case folder_policy_snapshot db user a of
      Inl e \<Rightarrow> Inl e
    | Inr (p, _) \<Rightarrow> (case group_for_key p key of
        None \<Rightarrow> Inl Unknown_mailbox
      | Some g \<Rightarrow> (case remote_local_paths U db user a of
          Inl e \<Rightarrow> Inl e
        | Inr paths \<Rightarrow> Inr (gr_primary g, local_folder_path U paths (gr_primary g)))))"

definition resolve_role_policy :: "unicode \<Rightarrow> folder_db \<Rightarrow> string \<Rightarrow> string \<Rightarrow> role_row \<Rightarrow> folder_error + role_row" where
  "resolve_role_policy U db user a role = (case folder_policy_snapshot db user a of
      Inl e \<Rightarrow> Inl e
    | Inr (p, _) \<Rightarrow> (case membership U p (rr_remote role) of (key, excluded) \<Rightarrow>
        if excluded then Inl Role_missing
        else if key \<noteq> [] then
          (case group_destination U db user a key of Inl e \<Rightarrow> Inl e | Inr (remote, lcl) \<Rightarrow> Inr (role\<lparr>rr_remote := remote, rr_local := lcl\<rparr>))
        else (case remote_local_paths U db user a of
            Inl e \<Rightarrow> Inl e
          | Inr paths \<Rightarrow>
              Inr (if list_ex (\<lambda>(n, _). remote_key U n = remote_key U (rr_remote role)) paths
                then role\<lparr>rr_local := local_folder_path U paths (rr_remote role)\<rparr> else role))))"

definition inbox_folder :: "unicode \<Rightarrow> folder_db \<Rightarrow> acct_row \<Rightarrow> folder_error + string" where
  "inbox_folder U db acct = (case find (\<lambda>(x, r). x = ar_id acct \<and> rr_role r = ''inbox'') (fd_roles db) of
      None \<Rightarrow> Inr (inbox_folder_legacy U (ar_folder_map acct))
    | Some (_, r) \<Rightarrow>
        (let lcl = clean_folder (rr_local r)
         in case resolve_role_policy U db (ar_user acct) (ar_id acct) \<lparr>rr_role = ''inbox'', rr_remote = rr_remote r, rr_local = lcl\<rparr> of
             Inr role \<Rightarrow> Inr (rr_local role)
           | Inl e \<Rightarrow> if e = Role_missing then Inr lcl else Inl e))"

definition folder_role :: "unicode \<Rightarrow> folder_db \<Rightarrow> acct_row \<Rightarrow> string \<Rightarrow> folder_error + role_row" where
  "folder_role U db acct role = (case find (\<lambda>(x, r). x = ar_id acct \<and> rr_role r = to_lower (u_lower U) (trim_space role)) (fd_roles db) of
      Some (_, r) \<Rightarrow> resolve_role_policy U db (ar_user acct) (ar_id acct) (r\<lparr>rr_local := clean_folder (rr_local r)\<rparr>)
    | None \<Rightarrow>
        (case filter (\<lambda>(n, _). equal_fold U (trim_space n) role) (case ar_folder_map acct of None \<Rightarrow> [] | Some m \<Rightarrow> m) of
           [] \<Rightarrow> Inl Role_missing
         | [(n, l)] \<Rightarrow> resolve_role_policy U db (ar_user acct) (ar_id acct) \<lparr>rr_role = role, rr_remote = n, rr_local = clean_folder l\<rparr>
         | _ \<Rightarrow> Inl Invalid_role))"

definition owns_account :: "folder_db \<Rightarrow> string \<Rightarrow> string \<Rightarrow> bool" where
  "owns_account db user a \<longleftrightarrow> list_ex (\<lambda>r. ar_id r = a \<and> ar_user r = user) (md_accounts (fd_mail db))"

definition list_folder_roles_for_user :: "folder_db \<Rightarrow> string \<Rightarrow> (string \<times> role_row) list" where
  "list_folder_roles_for_user db user =
     sort_by (\<lambda>(a, r) (b, s). str_less a b \<or> a = b \<and> str_less (rr_role r) (rr_role s)) (filter (\<lambda>(a, _). owns_account db user a) (fd_roles db))"

definition list_folder_roles :: "folder_db \<Rightarrow> string \<Rightarrow> string \<Rightarrow> (string \<times> role_row) list" where
  "list_folder_roles db user a =
     sort_by (\<lambda>(_, r) (_, s). str_less (rr_role r) (rr_role s)) (filter (\<lambda>(x, _). owns_account db user x \<and> x = a) (fd_roles db))"

section \<open>What a query of a folder reads\<close>

text \<open>\<open>mailVisibilityPredicate\<close>: the hidden directories of each account of the user with exclusions.\<close>

definition hidden_folders :: "unicode \<Rightarrow> folder_db \<Rightarrow> string \<Rightarrow> string \<Rightarrow> folder_error + (string \<times> string list) list" where
  "hidden_folders U db user only =
     collect (\<lambda>(a, p). (case remote_local_paths U db user a of
         Inl e \<Rightarrow> Inl e
       | Inr paths \<Rightarrow> (case collect (locals_of U (folder_directories U db a paths) paths) (po_excluded p) of
           Inl e \<Rightarrow> Inl e | Inr ls \<Rightarrow> Inr [(a, ls)])))
       (filter (\<lambda>(a, p). live_account db user a \<noteq> None \<and> (only = [] \<or> a = only) \<and> po_excluded p \<noteq> []) (fd_policies db))"

definition visible :: "(string \<times> string list) list \<Rightarrow> msg_row \<Rightarrow> bool" where
  "visible hidden m \<longleftrightarrow> list_all (\<lambda>(a, ls). \<not> (ms_account m = a \<and> ms_folder m \<in> set ls)) hidden"

fun excluded_local :: "unicode \<Rightarrow> directories \<Rightarrow> (string \<times> string) list \<Rightarrow> string \<Rightarrow> string list \<Rightarrow> folder_error + bool" where
  "excluded_local U d paths folder [] = Inr False"
| "excluded_local U d paths folder (r # rs) = (case locals_of U d paths r of
      Inl e \<Rightarrow> Inl e
    | Inr ls \<Rightarrow> if folder \<in> set ls then Inr True else excluded_local U d paths folder rs)"

text \<open>The key of the last group with the folder.\<close>

fun group_of_local :: "unicode \<Rightarrow> directories \<Rightarrow> (string \<times> string) list \<Rightarrow> string \<Rightarrow> mailbox_group list \<Rightarrow> string \<Rightarrow> folder_error + string" where
  "group_of_local U d paths folder [] key = Inr key"
| "group_of_local U d paths folder (g # gs) key = (case collect (locals_of U d paths) (gr_folders g) of
      Inl e \<Rightarrow> Inl e
    | Inr ls \<Rightarrow> group_of_local U d paths folder gs (if folder \<in> set ls then group_key g else key))"

text \<open>\<open>mailFolderPredicate\<close>: the directories that a query for the folder reads; none for the predicate 0.\<close>

definition folder_locals :: "unicode \<Rightarrow> folder_db \<Rightarrow> string \<Rightarrow> string \<Rightarrow> string \<Rightarrow> folder_error + string list" where
  "folder_locals U db user a folder =
     (if a = [] then (if has_prefix folder ''/groups/'' then Inl Invalid_config else Inr [folder])
      else case folder_policy_snapshot db user a of
          Inl e \<Rightarrow> if e = Account_missing then Inr [] else Inl e
        | Inr (p, _) \<Rightarrow>
            if has_prefix folder ''/groups/'' then physical_group_folders U db user a folder
            else (case remote_local_paths U db user a of
                Inl e \<Rightarrow> Inl e
              | Inr paths \<Rightarrow>
                  (let d = folder_directories U db a paths
                   in case excluded_local U d paths folder (po_excluded p) of
                        Inl e \<Rightarrow> Inl e
                      | Inr True \<Rightarrow> Inr []
                      | Inr False \<Rightarrow> (case group_of_local U d paths folder (po_groups p) folder of
                            Inl e \<Rightarrow> Inl e
                          | Inr key \<Rightarrow>
                              if key \<noteq> folder then physical_group_folders U db user a key
                              else (case owners d folder of
                                  [] \<Rightarrow> Inr [folder]
                                | [r] \<Rightarrow> locals_of U d paths r
                                | _ \<Rightarrow> Inl Invalid_config)))))"

text \<open>\<open>ListMailFolders\<close>, also for an account that is being deleted.\<close>

definition list_mail_folders :: "folder_db \<Rightarrow> string \<Rightarrow> string \<Rightarrow> string list" where
  "list_mail_folders db user a =
     (if owned_by (fd_mail db) user a
      then sort_by str_less (remdups (map ms_folder (filter (\<lambda>m. ms_account m = a) (md_rows (fd_mail db))) @
        map rf_local (filter (\<lambda>f. rf_account f = a \<and> rf_local f \<noteq> []) (fd_remotes db))))
      else [])"

section \<open>Logical mailboxes\<close>

record logical_mailbox =
  lm_key :: string
  lm_name :: string
  lm_primary_remote :: string
  lm_primary_local :: string
  lm_members :: "string list"

definition group_mailbox :: "unicode \<Rightarrow> (string \<times> string) list \<Rightarrow> mailbox_group \<Rightarrow> string list \<Rightarrow> logical_mailbox" where
  "group_mailbox U paths g members = \<lparr>lm_key = group_key g, lm_name = gr_name g, lm_primary_remote = gr_primary g,
     lm_primary_local = local_folder_path U paths (gr_primary g), lm_members = members\<rparr>"

fun group_mailboxes :: "unicode \<Rightarrow> directories \<Rightarrow> (string \<times> string) list \<Rightarrow> mailbox_group list \<Rightarrow> string set \<Rightarrow>
    folder_error + logical_mailbox list \<times> string set" where
  "group_mailboxes U d paths [] hidden = Inr ([], hidden)"
| "group_mailboxes U d paths (g # gs) hidden = (case collect (locals_of U d paths) (gr_folders g) of
      Inl e \<Rightarrow> Inl e
    | Inr ls \<Rightarrow> (case group_mailboxes U d paths gs (hidden \<union> set ls) of
        Inl e \<Rightarrow> Inl e
      | Inr (boxes, h) \<Rightarrow> Inr (group_mailbox U paths g (rev (remdups (rev (filter (\<lambda>l. l \<notin> hidden) ls)))) # boxes, h)))"

fun single_mailboxes :: "unicode \<Rightarrow> directories \<Rightarrow> (string \<times> string) list \<Rightarrow> string list \<Rightarrow> string set \<Rightarrow> folder_error + logical_mailbox list" where
  "single_mailboxes U d paths [] hidden = Inr []"
| "single_mailboxes U d paths (l # ls) hidden =
     (if l = [] \<or> l \<in> hidden then single_mailboxes U d paths ls hidden
      else if length (owners d l) > 1 then Inl Invalid_config
      else
        (let owner = (case owners d l of [] \<Rightarrow> l | r # _ \<Rightarrow> r); remote = (if l = ''Inbox'' \<and> owner = l then ''INBOX'' else owner);
             current = local_folder_path U paths remote
         in case for_remote U d remote current of
              Inl e \<Rightarrow> Inl e
            | Inr members \<Rightarrow> (case single_mailboxes U d paths ls (insert l hidden \<union> set members) of
                Inl e \<Rightarrow> Inl e
              | Inr boxes \<Rightarrow> Inr (\<lparr>lm_key = current, lm_name = current, lm_primary_remote = remote, lm_primary_local = current,
                  lm_members = members\<rparr> # boxes))))"

definition mailbox_before :: "logical_mailbox \<Rightarrow> logical_mailbox \<Rightarrow> bool" where
  "mailbox_before x y \<longleftrightarrow> str_less (lm_name x) (lm_name y) \<or> lm_name x = lm_name y \<and> str_less (lm_key x) (lm_key y)"

definition list_logical_mailboxes :: "unicode \<Rightarrow> folder_db \<Rightarrow> string \<Rightarrow> string \<Rightarrow> folder_error + logical_mailbox list" where
  "list_logical_mailboxes U db user a = (case folder_policy_snapshot db user a of
      Inl e \<Rightarrow> Inl e
    | Inr (p, _) \<Rightarrow> (case remote_local_paths U db user a of
        Inl e \<Rightarrow> Inl e
      | Inr paths \<Rightarrow>
          (let d = folder_directories U db a paths
           in case collect (locals_of U d paths) (po_excluded p) of
                Inl e \<Rightarrow> Inl e
              | Inr gone \<Rightarrow> (case group_mailboxes U d paths (po_groups p) (set gone) of
                  Inl e \<Rightarrow> Inl e
                | Inr (boxes, hidden) \<Rightarrow> (case single_mailboxes U d paths (list_mail_folders db user a @ map snd paths) hidden of
                    Inl e \<Rightarrow> Inl e
                  | Inr singles \<Rightarrow> Inr (sort_by mailbox_before (boxes @ singles)))))))"

section \<open>Changes of the configuration\<close>

text \<open>\<open>validateFolderDestinationsTx\<close>: the directory of every remote folder must be free of other remote folders.\<close>

text \<open>The wildcard channel of mbsync also downloads provider folders without a mapping.\<close>

definition add_available :: "unicode \<Rightarrow> string \<Rightarrow> (string \<times> string) list \<Rightarrow> (string \<times> string) list" where
  "add_available U r m = (if list_ex (\<lambda>(k, _). k = remote_key U r) m then m else m @ [(remote_key U r, local_folder_path U [] r)])"

definition available_folders :: "unicode \<Rightarrow> folder_db \<Rightarrow> string \<Rightarrow> (string \<times> string) list \<Rightarrow> (string \<times> string) list" where
  "available_folders U db a proposed =
     (let named = map (\<lambda>(r, l). (remote_key U r, l)) proposed;
          base = (if list_ex (\<lambda>(k, _). k = ''INBOX'') named then named else (''INBOX'', local_folder_path U proposed ''INBOX'') # named);
          others = map rf_remote (filter (\<lambda>f. rf_account f = a) (fd_remotes db)) @ discovered db a @
            map (\<lambda>(_, _, r). r) (filter (\<lambda>(x, _, _). x = a) (fd_bindings db))
      in fold (add_available U) others base)"

definition occupied_folders :: "folder_db \<Rightarrow> string \<Rightarrow> (string \<times> string) list \<Rightarrow> (string \<times> string) list" where
  "occupied_folders db a old =
     old @ map (\<lambda>f. (rf_remote f, rf_local f)) (filter (\<lambda>f. rf_account f = a \<and> rf_local f \<noteq> []) (fd_remotes db)) @
     map (\<lambda>(_, l, r). (r, l)) (filter (\<lambda>(x, l, _). x = a \<and> l \<noteq> []) (fd_bindings db))"

definition destination_key :: "unicode \<Rightarrow> string \<Rightarrow> string" where
  "destination_key U lcl = to_lower (u_lower U) (clean_folder lcl)"

definition validate_destinations :: "unicode \<Rightarrow> folder_db \<Rightarrow> string \<Rightarrow> (string \<times> string) list \<Rightarrow> bool" where
  "validate_destinations U db a proposed = (case find (\<lambda>r. ar_id r = a) (md_accounts (fd_mail db)) of
      Some r \<Rightarrow> (case ar_folder_map r of
          None \<Rightarrow> False
        | Some old \<Rightarrow>
            (let available = available_folders U db a proposed; occupied = occupied_folders db a old @ available
             in \<not> list_ex (\<lambda>(r, l). list_ex (\<lambda>(x, y). remote_key U x \<noteq> remote_key U r \<and> destination_key U y = destination_key U l) occupied) available))
    | None \<Rightarrow>
        (let available = available_folders U db a proposed; occupied = occupied_folders db a [] @ available
         in \<not> list_ex (\<lambda>(r, l). list_ex (\<lambda>(x, y). remote_key U x \<noteq> remote_key U r \<and> destination_key U y = destination_key U l) occupied) available))"

definition save_folder_roles :: "unicode \<Rightarrow> string \<Rightarrow> string \<Rightarrow> (string \<times> string) list \<Rightarrow> (string \<times> string) list \<Rightarrow> folder_db \<Rightarrow> folder_error + folder_db" where
  "save_folder_roles U user a roles mapping db =
     (if a = [] then Inl Account_missing
      else case find (\<lambda>r. ar_id r = a) (md_accounts (fd_mail db)) of
          None \<Rightarrow> Inl Account_missing
        | Some r \<Rightarrow>
            if ar_user r \<noteq> user then Inl Not_owner
            else (case validate_folder_roles U roles mapping of
                Inl e \<Rightarrow> Inl e
              | Inr rows \<Rightarrow> Inr (db\<lparr>fd_roles := filter (\<lambda>(x, _). x \<noteq> a) (fd_roles db) @ map (Pair a) rows\<rparr>)))"

definition set_account :: "string \<Rightarrow> (acct_row \<Rightarrow> acct_row) \<Rightarrow> folder_db \<Rightarrow> folder_db" where
  "set_account a f db = db\<lparr>fd_mail := (fd_mail db)\<lparr>md_accounts := map (\<lambda>r. if ar_id r = a then f r else r) (md_accounts (fd_mail db))\<rparr>\<rparr>"

definition save_policy_row :: "string \<Rightarrow> folder_policy \<Rightarrow> folder_db \<Rightarrow> folder_db" where
  "save_policy_row a p db = db\<lparr>fd_policies :=
     (if list_ex (\<lambda>(x, _). x = a) (fd_policies db) then map (\<lambda>(x, q). (x, if x = a then p else q)) (fd_policies db)
      else fd_policies db @ [(a, p)])\<rparr>"

definition save_folder_configuration :: "unicode \<Rightarrow> string \<Rightarrow> string \<Rightarrow> int \<Rightarrow> folder_policy \<Rightarrow> (string \<times> string) list option \<Rightarrow>
    (string \<times> string) list option \<Rightarrow> folder_db \<Rightarrow> folder_error + folder_db" where
  "save_folder_configuration U user a version p mapping roles db =
     (if (mapping = None) \<noteq> (roles = None) then Inl Invalid_config
      else case live_account db user a of
          None \<Rightarrow> Inl Account_missing
        | Some acct \<Rightarrow>
            if version < 1 \<or> version \<noteq> ar_version acct then Inl Version_conflict
            else (case validate_folder_map U (ar_folder_map acct) of
                Inl e \<Rightarrow> Inl e
              | Inr old \<Rightarrow>
                  (let available = map fst old @ map rf_remote (filter (\<lambda>f. rf_account f = a) (fd_remotes db)) @ discovered db a;
                       changed = (case mapping of
                           None \<Rightarrow> Inr db
                         | Some m \<Rightarrow>
                             if list_ex (\<lambda>(r, _). remote_key U r \<notin> set (map (remote_key U) available)) m then Inl Invalid_config
                             else (case validate_folder_map U (Some m) of
                                 Inl e \<Rightarrow> Inl e
                               | Inr _ \<Rightarrow>
                                   if \<not> validate_destinations U db a m then Inl Invalid_config
                                   else (case save_folder_roles U user a (case roles of None \<Rightarrow> [] | Some r \<Rightarrow> r) m db of
                                       Inl e \<Rightarrow> Inl e
                                     | Inr db' \<Rightarrow> Inr (set_account a (\<lambda>r. r\<lparr>ar_folder_map := Some m\<rparr>) db'))))
                   in case changed of
                        Inl e \<Rightarrow> Inl e
                      | Inr db1 \<Rightarrow> (case validate_policy U available p of
                          Some e \<Rightarrow> Inl (Policy_invalid e)
                        | None \<Rightarrow> Inr (set_account a (\<lambda>r. r\<lparr>ar_version := ar_version r + 1\<rparr>) (save_policy_row a p db1))))))"

definition insert_pair :: "'a \<Rightarrow> 'a list \<Rightarrow> 'a list" where
  "insert_pair x xs = (if x \<in> set xs then xs else xs @ [x])"

text \<open>Of several spellings of INBOX a map keeps the last.\<close>

definition last_name :: "unicode \<Rightarrow> string list \<Rightarrow> string \<Rightarrow> string" where
  "last_name U names k = last (filter (\<lambda>n. remote_key U n = k) names)"

definition record_folder_discovery :: "unicode \<Rightarrow> string \<Rightarrow> string \<Rightarrow> int \<Rightarrow> string list \<Rightarrow> folder_db \<Rightarrow> folder_error + folder_db" where
  "record_folder_discovery U user a version folders db =
     (if length folders > 4096 \<or> list_ex (\<lambda>f. \<not> check_mappings U [(f, ''Discovered'')] {} {}) folders then Inl Invalid_config
      else case live_account db user a of
          None \<Rightarrow> Inl Account_missing
        | Some r \<Rightarrow>
            if version < 1 \<or> ar_version r \<noteq> version then Inl Version_conflict
            else Inr (db\<lparr>fd_discovery := fold (\<lambda>f. insert_pair (a, f))
              (map (last_name U folders) (remdups (map (remote_key U) folders))) (fd_discovery db)\<rparr>))"

text \<open>The remote folders of a run.\<close>

definition sync_names :: "folder_db \<Rightarrow> string \<Rightarrow> (string \<times> string) list \<Rightarrow> string list" where
  "sync_names db a mapping = ''INBOX'' # map fst mapping @ map rf_remote (filter (\<lambda>f. rf_account f = a) (fd_remotes db)) @ discovered db a"

definition bind_sync_folders :: "unicode \<Rightarrow> string \<Rightarrow> string \<Rightarrow> int \<Rightarrow> folder_db \<Rightarrow> folder_error + folder_db" where
  "bind_sync_folders U user a version db = (case live_account db user a of
      None \<Rightarrow> Inl Account_missing
    | Some r \<Rightarrow>
        if version < 1 \<or> ar_version r \<noteq> version then Inl Version_conflict
        else (case validate_folder_map U (ar_folder_map r) of
            Inl e \<Rightarrow> Inl e
          | Inr mapping \<Rightarrow>
              if \<not> validate_destinations U db a mapping then Inl Invalid_config
              else
                (let names = sync_names db a mapping
                 in Inr (db\<lparr>fd_bindings := fold (\<lambda>k. insert_pair (a, clean_folder (local_folder_path U mapping (last_name U names k)), k))
                     (remdups (map (remote_key U) names)) (fd_bindings db)\<rparr>))))"

definition upsert_remote_folder :: "unicode \<Rightarrow> string \<Rightarrow> string \<Rightarrow> string \<Rightarrow> string \<Rightarrow> string \<Rightarrow> folder_db \<Rightarrow> folder_error + folder_db" where
  "upsert_remote_folder U now a raw raw_local role db =
     (let remote = remote_key U (trim_space raw); lcl = clean_folder raw_local; slash = last_index_byte (slashed remote) (CHR ''/'');
          parent = (case slash of Some i \<Rightarrow> if 0 < i then take i remote else [] | None \<Rightarrow> []);
          depth = (if parent = [] then 0 else length (filter (\<lambda>c. c = CHR ''/'') (slashed remote)));
          display = (case slash of Some i \<Rightarrow> if i + 1 < length remote then drop (i + 1) remote else remote | None \<Rightarrow> remote);
          row = \<lparr>rf_account = a, rf_remote = remote, rf_local = lcl, rf_parent = parent, rf_depth = depth, rf_role = role, rf_display = display,
            rf_updated = now\<rparr>;
          spelling = (\<lambda>f. rf_account f = a \<and> (rf_remote f = remote \<or> remote = ''INBOX'' \<and> map sql_lower (rf_remote f) = ''inbox''));
          kept = filter (\<lambda>f. \<not> (rf_account f = a \<and> rf_remote f \<noteq> remote \<and> remote = ''INBOX'' \<and> map sql_lower (rf_remote f) = ''inbox'')) (fd_remotes db)
      in if a = [] \<or> remote = [] then Inl Invalid_config
         else Inr (db\<lparr>fd_bindings := insert_pair (a, lcl, remote)
               (fold (\<lambda>f. insert_pair (a, rf_local f, if map sql_lower (rf_remote f) = ''inbox'' then ''INBOX'' else rf_remote f))
                 (filter (\<lambda>f. spelling f \<and> rf_local f \<noteq> []) (fd_remotes db)) (fd_bindings db)),
             fd_remotes := (if list_ex (\<lambda>f. rf_account f = a \<and> rf_remote f = remote) kept
               then map (\<lambda>f. if rf_account f = a \<and> rf_remote f = remote then row else f) kept else kept @ [row])\<rparr>))"

definition prune_remote_folders :: "string \<Rightarrow> string list \<Rightarrow> folder_db \<Rightarrow> folder_error + folder_db" where
  "prune_remote_folders a remotes db =
     (if a = [] then Inl Invalid_config
      else Inr (db\<lparr>fd_remotes := filter (\<lambda>f. \<not> (rf_account f = a \<and> rf_remote f \<notin> set remotes)) (fd_remotes db)\<rparr>))"

end
