(* ===== verification/Folder_Props.thy ===== *)
theory Folder_Props
  imports Folder_Store "HOL-Library.Multiset"
begin

text \<open>
  Properties of the folders of an account: cleaned names stay inside the mail directory, the directories of different
  remote folders never meet, and the logical mailboxes divide the directories that hold mail.
\<close>

section \<open>Cleaned names\<close>

lemma split_at_ne: "split_at c s \<noteq> []"
  by (induction s) (auto split: list.split)

lemma split_at_plain: "p \<in> set (split_at c s) \<Longrightarrow> c \<notin> set p"
  by (induction s arbitrary: p) (auto split: list.splits if_splits)

lemma split_single: "c \<notin> set p \<Longrightarrow> split_at c p = [p]"
  by (induction p) auto

lemma split_join:
  assumes "ps \<noteq> []" "\<And>p. p \<in> set ps \<Longrightarrow> c \<notin> set p"
  shows "split_at c (join ps [c]) = ps"
  using assms
proof (induction ps)
  case (Cons p ps)
  show ?case
  proof (cases ps)
    case Nil
    then show ?thesis using Cons.prems by (simp add: split_single)
  next
    case (Cons q qs)
    then have "join (p # ps) [c] = p @ c # join ps [c]" by simp
    then show ?thesis using split_line [of c p "join ps [c]"] Cons.IH Cons.prems Cons by simp
  qed
qed simp

abbreviation raw_parts :: "string \<Rightarrow> string list" where
  "raw_parts raw \<equiv> split_at CHR ''/'' (trim_slashes (trim_space (slashed raw)))"

abbreviation kept_parts :: "string \<Rightarrow> string list" where
  "kept_parts raw \<equiv> filter (\<lambda>p. p \<noteq> [] \<and> p \<noteq> ''.'') (raw_parts raw)"

lemma clean_folder_cases:
  "clean_folder raw = ''Inbox'' \<or> clean_folder raw = join (kept_parts raw) ''/'' \<and> ''..'' \<notin> set (raw_parts raw) \<and> kept_parts raw \<noteq> []"
  unfolding clean_folder_def Let_def by (cases "''..'' \<in> set (raw_parts raw) \<or> kept_parts raw = []") (simp_all split: if_split)

lemma clean_folder_ne: "clean_folder raw \<noteq> []"
proof
  assume e: "clean_folder raw = []"
  then have j: "join (kept_parts raw) ''/'' = []" "kept_parts raw \<noteq> []" using clean_folder_cases [of raw] by auto
  then obtain p ps where "kept_parts raw = p # ps" by (cases "kept_parts raw") auto
  moreover have "p \<noteq> []"
  proof -
    have "p \<in> set (kept_parts raw)" using calculation by simp
    then show ?thesis by simp
  qed
  ultimately show False using j(1) by (cases ps) auto
qed


section \<open>Directories of different remote folders\<close>

lemma remote_key_idem [simp]: "remote_key U (remote_key U r) = remote_key U r"
  by (simp add: remote_key_def equal_fold_def)

lemma folder_map_keys:
  "check_mappings U m remotes locals \<Longrightarrow>
     distinct (map (\<lambda>(r, _). remote_key U (trim_space r)) m) \<and> distinct (map (\<lambda>(_, l). local_key U (trim_space l)) m)"
proof -
  have "check_mappings U m remotes locals \<Longrightarrow>
     distinct (map (\<lambda>(r, _). remote_key U (trim_space r)) m) \<and> distinct (map (\<lambda>(_, l). local_key U (trim_space l)) m) \<and>
     set (map (\<lambda>(r, _). remote_key U (trim_space r)) m) \<inter> remotes = {} \<and> set (map (\<lambda>(_, l). local_key U (trim_space l)) m) \<inter> locals = {}" for remotes locals
    by (induction m arbitrary: remotes locals) (fastforce simp: Let_def)+
  then show "check_mappings U m remotes locals \<Longrightarrow> ?thesis" by blast
qed

lemma validated_apart:
  assumes "validate_destinations U db a proposed" "(r, l) \<in> set (available_folders U db a proposed)"
    and "(x, y) \<in> set (available_folders U db a proposed) \<or> (a, y, x) \<in> set (fd_bindings db) \<and> y \<noteq> []"
    and "remote_key U x \<noteq> remote_key U r"
  shows "destination_key U y \<noteq> destination_key U l"
proof -
  obtain old where ok: "\<not> list_ex (\<lambda>(r, l). list_ex (\<lambda>(x, y). remote_key U x \<noteq> remote_key U r \<and> destination_key U y = destination_key U l)
        (occupied_folders db a old @ available_folders U db a proposed)) (available_folders U db a proposed)"
  proof (cases "find (\<lambda>r. ar_id r = a) (md_accounts (fd_mail db))")
    case None
    then show ?thesis using that [of "[]"] assms(1) by (simp add: validate_destinations_def Let_def)
  next
    case (Some acct)
    then obtain old where "ar_folder_map acct = Some old" using assms(1) by (auto simp: validate_destinations_def split: option.splits)
    then show ?thesis using that [of old] Some assms(1) by (simp add: validate_destinations_def Let_def)
  qed
  have member: "(x, y) \<in> set (occupied_folders db a old @ available_folders U db a proposed)"
    using assms(3)
  proof
    assume "(a, y, x) \<in> set (fd_bindings db) \<and> y \<noteq> []"
    then have "(a, y, x) \<in> set (filter (\<lambda>(x, l, _). x = a \<and> l \<noteq> []) (fd_bindings db))" by simp
    then have "(x, y) \<in> (\<lambda>(_, l, r). (r, l)) ` set (filter (\<lambda>(x, l, _). x = a \<and> l \<noteq> []) (fd_bindings db))" by (rule rev_image_eqI) simp
    then show ?thesis unfolding occupied_folders_def set_append set_map by blast
  qed simp
  show ?thesis
  proof
    assume "destination_key U y = destination_key U l"
    then have "list_ex (\<lambda>(x, y). remote_key U x \<noteq> remote_key U r \<and> destination_key U y = destination_key U l)
        (occupied_folders db a old @ available_folders U db a proposed)" unfolding list_ex_iff using member assms(4) by blast
    then show False using ok assms(2) unfolding list_ex_iff by blast
  qed
qed

lemma set_insert_pairs: "set (fold (\<lambda>k. insert_pair (f k)) ks xs) = f ` set ks \<union> set xs"
  by (induction ks arbitrary: xs) (auto simp: insert_pair_def)

lemma available_base: "set m \<subseteq> set (fold (add_available U) others m)"
proof (induction others arbitrary: m)
  case (Cons r others)
  have "set m \<subseteq> set (add_available U r m)" by (auto simp: add_available_def)
  then show ?case using Cons.IH [of "add_available U r m"] by simp
qed simp

lemma available_other:
  "r \<in> set others \<Longrightarrow> \<not> list_ex (\<lambda>(k, _). k = remote_key U r) m \<Longrightarrow>
     \<exists>r'. remote_key U r' = remote_key U r \<and> (remote_key U r, local_folder_path U [] r') \<in> set (fold (add_available U) others m)"
proof (induction others arbitrary: m)
  case (Cons q others)
  show ?case
  proof (cases "remote_key U q = remote_key U r")
    case True
    then have "(remote_key U r, local_folder_path U [] q) \<in> set (add_available U q m)" using Cons.prems(2) by (simp add: add_available_def)
    then show ?thesis using available_base [of "add_available U q m" U others] True by auto
  next
    case False
    then have "r \<in> set others" "\<not> list_ex (\<lambda>(k, _). k = remote_key U r) (add_available U q m)"
      using Cons.prems by (auto simp: add_available_def)
    then show ?thesis using Cons.IH [of "add_available U q m"] by simp
  qed
qed simp

text \<open>What a mapping with distinct keys gives for a name.\<close>

lemma local_path_mapped:
  assumes keys: "distinct (map (\<lambda>(r, _). remote_key U r) mapping)" and r: "(r, l) \<in> set mapping" "l \<noteq> []" and n: "remote_key U n = remote_key U r"
  shows "local_folder_path U mapping n = l"
proof (cases "n \<in> fst ` set mapping")
  case True
  then obtain l' where l': "(n, l') \<in> set mapping" by auto
  have "inj_on (\<lambda>(r, _). remote_key U r) (set mapping)" using keys by (simp add: distinct_map)
  then have "(n, l') = (r, l)" using l' r(1) n by (auto simp: inj_on_def)
  moreover have "distinct (map fst mapping)"
    using keys by (induction mapping) (force simp: image_iff)+
  ultimately have "map_of mapping n = Some l" using r(1) by simp
  then show ?thesis using r(2) by (simp add: local_folder_path_def Let_def)
next
  case False
  then have none: "map_of mapping n = None" by (simp add: map_of_eq_None_iff)
  have inbox: "equal_fold U n ''INBOX''" "equal_fold U r ''INBOX''"
  proof -
    have "n \<noteq> r" using False r(1) by force
    then show "equal_fold U n ''INBOX''" "equal_fold U r ''INBOX''" using n by (auto simp: remote_key_def equal_fold_def split: if_splits)
  qed
  obtain p where p: "find (\<lambda>(n, l). equal_fold U n ''INBOX'' \<and> l \<noteq> []) mapping = Some p"
    using r inbox(2) by (cases "find (\<lambda>(n, l). equal_fold U n ''INBOX'' \<and> l \<noteq> []) mapping") (auto simp: find_None_iff)
  then have "p \<in> set mapping" "equal_fold U (fst p) ''INBOX''" by (auto dest: find_some)
  then have "(\<lambda>(r, _). remote_key U r) p = (\<lambda>(r, _). remote_key U r) (r, l)" using inbox(2) by (simp add: remote_key_def case_prod_beta)
  moreover have "inj_on (\<lambda>(r, _). remote_key U r) (set mapping)" using keys by (simp add: distinct_map)
  ultimately have "p = (r, l)" using \<open>p \<in> set mapping\<close> r(1) by (meson inj_onD)
  then show ?thesis using none inbox(1) p by (simp add: local_folder_path_def Let_def)
qed

lemma local_path_unmapped:
  assumes "\<not> list_ex (\<lambda>(r, _). remote_key U r = remote_key U n) mapping"
  shows "local_folder_path U mapping n = (if equal_fold U n ''INBOX'' then ''Inbox'' else n)"
proof -
  have "n \<notin> fst ` set mapping" using assms by (force simp: list_ex_iff)
  then have "map_of mapping n = None" by (simp add: map_of_eq_None_iff)
  moreover have "find (\<lambda>(n, l). equal_fold U n ''INBOX'' \<and> l \<noteq> []) mapping = None" if "equal_fold U n ''INBOX''"
    using assms that by (auto simp: find_None_iff list_ex_iff remote_key_def)
  ultimately show ?thesis by (simp add: local_folder_path_def Let_def)
qed

lemma local_path_empty: "local_folder_path U [] n = (if equal_fold U n ''INBOX'' then ''Inbox'' else n)"
  by (simp add: local_folder_path_def)

lemma same_key: "remote_key U m = remote_key U n \<Longrightarrow> \<not> equal_fold U n ''INBOX'' \<Longrightarrow> m = n"
  by (auto simp: remote_key_def equal_fold_def split: if_splits)

lemma same_key_inbox: "remote_key U m = remote_key U n \<Longrightarrow> equal_fold U m ''INBOX'' \<longleftrightarrow> equal_fold U n ''INBOX''"
  by (auto simp: remote_key_def equal_fold_def split: if_splits)

text \<open>The directory that \<open>BindSyncFolders\<close> records for a remote folder is one the check of destinations has seen.\<close>

lemma bound_is_available:
  assumes keys: "distinct (map (\<lambda>(r, _). remote_key U r) mapping)" and full: "\<And>r l. (r, l) \<in> set mapping \<Longrightarrow> l \<noteq> []"
    and n: "n = ''INBOX'' \<or> n \<in> fst ` set mapping \<or> n \<in> set (map rf_remote (filter (\<lambda>f. rf_account f = a) (fd_remotes db))) \<or> n \<in> set (discovered db a)"
  shows "(remote_key U n, local_folder_path U mapping n) \<in> set (available_folders U db a mapping)"
proof -
  define named where "named = map (\<lambda>(r, l). (remote_key U r, l)) mapping"
  define base where "base = (if list_ex (\<lambda>(k, _). k = ''INBOX'') named then named else (''INBOX'', local_folder_path U mapping ''INBOX'') # named)"
  define others where "others = map rf_remote (filter (\<lambda>f. rf_account f = a) (fd_remotes db)) @ discovered db a @
    map (\<lambda>(_, _, r). r) (filter (\<lambda>(x, _, _). x = a) (fd_bindings db))"
  have av: "available_folders U db a mapping = fold (add_available U) others base"
    by (simp add: available_folders_def Let_def named_def base_def others_def)
  have inbox_key: "remote_key U ''INBOX'' = ''INBOX''" by (simp add: remote_key_def)
  show ?thesis
  proof (cases "list_ex (\<lambda>(r, _). remote_key U r = remote_key U n) mapping")
    case True
    then obtain r l where r: "(r, l) \<in> set mapping" "remote_key U n = remote_key U r" by (auto simp: list_ex_iff)
    then have "(remote_key U r, l) \<in> set base" by (auto simp: base_def named_def image_iff intro: bexI [OF _ r(1)])
    then show ?thesis using available_base [of base U others] local_path_mapped [OF keys r(1) full [OF r(1)] r(2)] r(2) by (auto simp: av)
  next
    case False
    have no: "\<not> list_ex (\<lambda>(k, _). k = remote_key U n) named" using False by (auto simp: named_def list_ex_iff)
    show ?thesis
    proof (cases "remote_key U n = ''INBOX''")
      case True
      have "base = (''INBOX'', local_folder_path U mapping ''INBOX'') # named" using no True by (simp add: base_def)
      moreover have "local_folder_path U mapping ''INBOX'' = local_folder_path U mapping n"
        using local_path_unmapped [OF False] local_path_unmapped [of U "''INBOX''" mapping] False True inbox_key
          same_key_inbox [of U n "''INBOX''"] by (simp add: equal_fold_def)
      ultimately show ?thesis using available_base [of base U others] True by (auto simp: av)
    next
      case False
      have "n \<notin> fst ` set mapping" using \<open>\<not> list_ex _ mapping\<close> by (force simp: list_ex_iff)
      then have "n \<in> set others" using n False inbox_key by (auto simp: others_def)
      moreover have "\<not> list_ex (\<lambda>(k, _). k = remote_key U n) base" using no False by (auto simp: base_def)
      ultimately obtain r' where r': "remote_key U r' = remote_key U n" "(remote_key U n, local_folder_path U [] r') \<in> set (available_folders U db a mapping)"
        using available_other [of n others U base] unfolding av by blast
      have "\<not> equal_fold U n ''INBOX''" using False by (auto simp: remote_key_def)
      then have "r' = n" using same_key [OF r'(1)] by simp
      then show ?thesis using r'(2) local_path_unmapped [OF \<open>\<not> list_ex _ mapping\<close>] local_path_empty [of U n] by simp
    qed
  qed
qed

lemma mapping_facts:
  assumes "check_mappings U mapping {} {}" and inbox: "\<And>r l. (r, l) \<in> set mapping \<Longrightarrow> equal_fold U r ''INBOX'' \<Longrightarrow> trim_space r = r"
  shows "distinct (map (\<lambda>(r, _). remote_key U r) mapping)" "(r, l) \<in> set mapping \<Longrightarrow> l \<noteq> []"
proof -
  have trimmed: "distinct (map (\<lambda>(r, _). remote_key U (trim_space r)) mapping)" using folder_map_keys [OF assms(1)] by blast
  have inj: "inj_on (\<lambda>(r, _). remote_key U (trim_space r)) (set mapping)" using trimmed by (simp add: distinct_map)
  have "inj_on (\<lambda>(r, _). remote_key U r) (set mapping)"
  proof (rule inj_onI)
    fix x y assume xy: "x \<in> set mapping" "y \<in> set mapping" "(\<lambda>(r, _). remote_key U r) x = (\<lambda>(r, _). remote_key U r) y"
    obtain r l r' l' where e: "x = (r, l)" "y = (r', l')" by fastforce
    have "remote_key U (trim_space r) = remote_key U (trim_space r')"
    proof (cases "equal_fold U r' ''INBOX''")
      case True
      then show ?thesis using xy(3) same_key_inbox [of U r r'] inbox [of r l] inbox [of r' l'] xy(1,2) unfolding e by simp
    next
      case False
      then show ?thesis using xy(3) same_key [of U r r'] unfolding e by simp
    qed
    then show "x = y" using inj_onD [OF inj, of x y] xy(1,2) unfolding e by simp
  qed
  moreover have "distinct mapping" using trimmed by (simp add: distinct_map)
  ultimately show "distinct (map (\<lambda>(r, _). remote_key U r) mapping)" by (simp add: distinct_map)
  have "check_mappings U m rs ls \<Longrightarrow> (r, l) \<in> set m \<Longrightarrow> l \<noteq> []" for m rs ls
    by (induction U m rs ls rule: check_mappings.induct) (auto simp: bad_mapping_def Let_def trim_space_def trim_left.simps trim_right.simps)
  then show "(r, l) \<in> set mapping \<Longrightarrow> l \<noteq> []" using assms(1) by blast
qed

lemma bound_kept: "bind_sync_folders U user a version db = Inr db' \<Longrightarrow> set (fd_bindings db) \<subseteq> set (fd_bindings db')"
  by (auto simp: bind_sync_folders_def Let_def set_insert_pairs split: option.splits if_splits sum.splits)

lemma bound_pairs:
  assumes "bind_sync_folders U user a version db = Inr db'" "live_account db user a = Some acct" "ar_folder_map acct = Some mapping"
    and "(a, l, r) \<in> set (fd_bindings db') - set (fd_bindings db)"
  shows "\<exists>n. n \<in> set (sync_names db a mapping) \<and> r = remote_key U n \<and> l = clean_folder (local_folder_path U mapping n)"
proof -
  let ?names = "sync_names db a mapping"
  have "db' = db\<lparr>fd_bindings := fold (\<lambda>k. insert_pair (a, clean_folder (local_folder_path U mapping (last_name U ?names k)), k))
      (remdups (map (remote_key U) ?names)) (fd_bindings db)\<rparr>"
    using assms(1-3) by (auto simp: bind_sync_folders_def validate_folder_map_def Let_def split: if_splits)
  then have "set (fd_bindings db') = (\<lambda>k. (a, clean_folder (local_folder_path U mapping (last_name U ?names k)), k)) ` remote_key U ` set ?names \<union>
      set (fd_bindings db)"
    by (simp add: set_insert_pairs)
  then obtain k where k: "k \<in> remote_key U ` set ?names" "l = clean_folder (local_folder_path U mapping (last_name U ?names k))" "r = k"
    using assms(4) by auto
  have "filter (\<lambda>n. remote_key U n = k) ?names \<noteq> []" using k(1) by (auto simp: filter_empty_conv)
  then have "last_name U ?names k \<in> set (filter (\<lambda>n. remote_key U n = k) ?names)" unfolding last_name_def by (rule last_in_set)
  then show ?thesis using k(2,3) by auto
qed


section \<open>Versions of the configuration\<close>

lemma find_map_if:
  assumes "\<And>r. P (f r) = P r" "\<And>r. P r \<Longrightarrow> sel r"
  shows "find P (map (\<lambda>r. if sel r then f r else r) xs) = map_option f (find P xs)"
  using assms by (induction xs) auto

lemma live_set_account:
  assumes "\<And>r. ar_id (f r) = ar_id r \<and> ar_user (f r) = ar_user r \<and> ar_deleting (f r) = ar_deleting r"
  shows "live_account (set_account a f db) user a = map_option f (live_account db user a)"
  unfolding live_account_def set_account_def by (simp, rule find_map_if) (use assms in auto)

lemma live_policy_row [simp]: "live_account (save_policy_row b p db) user a = live_account db user a"
  by (simp add: live_account_def save_policy_row_def)

lemma saved_roles_live: "save_folder_roles U user a roles m db = Inr db' \<Longrightarrow> live_account db' u b = live_account db u b"
  by (auto simp: save_folder_roles_def live_account_def split: if_splits option.splits sum.splits)

lemma saved_version:
  assumes "save_folder_configuration U user a v p mapping roles db = Inr db'"
  shows "\<exists>acct. live_account db' user a = Some acct \<and> ar_version acct = v + 1"
proof -
  obtain acct where acct: "live_account db user a = Some acct" "ar_version acct = v"
    using assms by (auto simp: save_folder_configuration_def split: if_splits option.splits)
  obtain db1 where db1: "(case mapping of None \<Rightarrow> db1 = db | Some m \<Rightarrow> \<exists>db0. save_folder_roles U user a (case roles of None \<Rightarrow> [] | Some r \<Rightarrow> r) m db = Inr db0 \<and>
      db1 = set_account a (\<lambda>r. r\<lparr>ar_folder_map := Some m\<rparr>) db0)"
    and db': "db' = set_account a (\<lambda>r. r\<lparr>ar_version := ar_version r + 1\<rparr>) (save_policy_row a p db1)"
    using assms acct by (auto simp: save_folder_configuration_def Let_def split: if_splits option.splits sum.splits)
  have "\<exists>x. live_account db1 user a = Some x \<and> ar_version x = v"
  proof (cases mapping)
    case None
    then show ?thesis using db1 acct by simp
  next
    case (Some m)
    then obtain db0 where "save_folder_roles U user a (case roles of None \<Rightarrow> [] | Some r \<Rightarrow> r) m db = Inr db0"
      "db1 = set_account a (\<lambda>r. r\<lparr>ar_folder_map := Some m\<rparr>) db0" using db1 by auto
    then show ?thesis using acct saved_roles_live by (auto simp: live_set_account)
  qed
  then show ?thesis by (auto simp: db' live_set_account)
qed

text \<open>C41. A saved change of the configuration makes its version stale: a second editor with the same version is refused, and so is a
  discovery or a synchronization that was prepared before the change.\<close>

theorem stale_version_refused:
  assumes "save_folder_configuration U user a v p mapping roles db = Inr db'"
  shows "\<not> (\<exists>p2 mapping2 roles2 db2. save_folder_configuration U user a v p2 mapping2 roles2 db' = Inr db2) \<and>
    \<not> (\<exists>folders db2. record_folder_discovery U user a v folders db' = Inr db2) \<and> \<not> (\<exists>db2. bind_sync_folders U user a v db' = Inr db2)"
  using saved_version [OF assms]
  by (auto simp: save_folder_configuration_def record_folder_discovery_def bind_sync_folders_def split: if_splits)

end
