(* ===== verification/Folder_Views.thy ===== *)
theory Folder_Views
  imports Folder_Props
begin

text \<open>
  The logical mailboxes (\<open>ListLogicalMailboxes\<close>) divide the directories that hold mail: no directory is in two of them,
  none of an excluded folder in any, and every other one in some.
\<close>

section \<open>Directories of one remote folder\<close>

lemma owners_iff: "k \<in> set (owners d l) \<longleftrightarrow> (k, l) \<in> set d"
  by (force simp: owners_def)

lemma for_remote_facts:
  assumes "for_remote U d remote fallback = Inr ls"
  shows "set ls = insert fallback {l. (remote_key U remote, l) \<in> set d}" "distinct ls" "l \<in> set ls \<Longrightarrow> (k, l) \<in> set d \<Longrightarrow> k = remote_key U remote"
proof -
  let ?sel = "remdups (fallback # map snd (filter (\<lambda>(k, _). k = remote_key U remote) d))"
  have ls: "ls = sort_by str_less ?sel" and ok: "\<not> list_ex (\<lambda>l. list_ex (\<lambda>k. k \<noteq> remote_key U remote) (owners d l)) ?sel"
    using assms unfolding for_remote_def Let_def by (simp_all split: if_splits)
  have sel: "set ?sel = insert fallback {l. (remote_key U remote, l) \<in> set d}" by force
  show "set ls = insert fallback {l. (remote_key U remote, l) \<in> set d}" using sel by (simp only: ls set_sort_by)
  show "distinct ls" using distinct_sort_by [of id str_less ?sel] by (simp add: ls)
  show "k = remote_key U remote" if "l \<in> set ls" "(k, l) \<in> set d"
  proof -
    have "l \<in> set ?sel" using that(1) by (simp only: ls set_sort_by)
    then have "\<not> list_ex (\<lambda>k. k \<noteq> remote_key U remote) (owners d l)" using ok unfolding list_ex_iff by blast
    then show ?thesis using that(2) owners_iff [of k d l] unfolding list_ex_iff by blast
  qed
qed

text \<open>A directory that no remote folder owns is the default one of its name.\<close>

lemma default_path:
  assumes "local_folder_path U paths r = l" "\<And>n l. (n, l) \<in> set paths \<Longrightarrow> (remote_key U n, l) \<in> set d" "\<And>k. (k, l) \<notin> set d"
  shows "l = (if equal_fold U r ''INBOX'' then ''Inbox'' else r)"
proof -
  have "map_of paths r \<noteq> Some l" using assms(2,3) map_of_SomeD by metis
  moreover have "find (\<lambda>(n, l). equal_fold U n ''INBOX'' \<and> l \<noteq> []) paths \<noteq> Some (n, l)" for n
    using assms(2,3) find_some by (metis (lifting))
  ultimately show ?thesis using assms(1) by (auto simp: local_folder_path_def Let_def split: option.splits if_splits)
qed

lemma locals_apart:
  assumes inbox: "equal_fold U ''Inbox'' ''INBOX''" and d: "\<And>n l. (n, l) \<in> set paths \<Longrightarrow> (remote_key U n, l) \<in> set d"
    and ls: "locals_of U d paths r = Inr ls" "locals_of U d paths q = Inr ms" and keys: "remote_key U r \<noteq> remote_key U q"
  shows "set ls \<inter> set ms = {}"
proof (rule ccontr)
  assume "set ls \<inter> set ms \<noteq> {}"
  then obtain l where l: "l \<in> set ls" "l \<in> set ms" by blast
  note r = for_remote_facts [OF ls(1) [unfolded locals_of_def]] and q = for_remote_facts [OF ls(2) [unfolded locals_of_def]]
  have free: "(k, l) \<notin> set d" for k using r(3) [OF l(1)] q(3) [OF l(2)] keys by blast
  have "local_folder_path U paths r = l" "local_folder_path U paths q = l" using l r(1) q(1) free by auto
  then have "l = (if equal_fold U r ''INBOX'' then ''Inbox'' else r)" "l = (if equal_fold U q ''INBOX'' then ''Inbox'' else q)"
    using default_path [of U paths _ l d] d free by blast+
  then show False using keys inbox by (auto simp: remote_key_def split: if_splits)
qed

section \<open>The directories already shown or hidden\<close>

text \<open>\<open>whole\<close>: with a directory all directories of a remote folder that has it.\<close>

definition whole :: "unicode \<Rightarrow> directories \<Rightarrow> (string \<times> string) list \<Rightarrow> string set \<Rightarrow> bool" where
  "whole U d paths hidden \<longleftrightarrow> (\<forall>x \<in> hidden. \<exists>g ls. locals_of U d paths g = Inr ls \<and> x \<in> set ls \<and> set ls \<subseteq> hidden)"

lemma whole_union: "whole U d paths A \<Longrightarrow> whole U d paths B \<Longrightarrow> whole U d paths (A \<union> B)"
  unfolding whole_def by blast

lemma whole_locals: "locals_of U d paths g = Inr ls \<Longrightarrow> whole U d paths (set ls)"
  unfolding whole_def by blast

lemma whole_collect: "collect (locals_of U d paths) gs = Inr ls \<Longrightarrow> whole U d paths (set ls)"
proof (induction gs arbitrary: ls)
  case Nil
  then show ?case by (simp add: whole_def)
next
  case (Cons g gs)
  then obtain xs ys where "locals_of U d paths g = Inr xs" "collect (locals_of U d paths) gs = Inr ys" "ls = xs @ ys" by (auto split: sum.splits)
  then show ?case using Cons.IH whole_union [OF whole_locals] by simp
qed

text \<open>Boxes of disjoint directories outside a set.\<close>

definition divided :: "string set \<Rightarrow> logical_mailbox list \<Rightarrow> bool" where
  "divided hidden boxes \<longleftrightarrow> distinct (concat (map lm_members boxes)) \<and> set (concat (map lm_members boxes)) \<inter> hidden = {}"

lemma divided_Cons:
  "distinct (lm_members b) \<Longrightarrow> set (lm_members b) \<inter> hidden = {} \<Longrightarrow> divided (hidden \<union> set (lm_members b)) boxes \<Longrightarrow> divided hidden (b # boxes)"
  by (auto simp: divided_def)

lemma divided_subset: "divided h boxes \<Longrightarrow> h' \<subseteq> h \<Longrightarrow> divided h' boxes"
  by (auto simp: divided_def)

lemma group_mailboxes_divided:
  "group_mailboxes U d paths gs hidden = Inr (boxes, h) \<Longrightarrow> whole U d paths hidden \<Longrightarrow>
     divided hidden boxes \<and> whole U d paths h \<and> h = hidden \<union> set (concat (map lm_members boxes))"
proof (induction gs arbitrary: hidden boxes h)
  case Nil
  then show ?case by (simp add: divided_def)
next
  case (Cons g gs)
  then obtain ls rest where ls: "collect (locals_of U d paths) (gr_folders g) = Inr ls" "group_mailboxes U d paths gs (hidden \<union> set ls) = Inr (rest, h)"
    and b: "boxes = group_mailbox U paths g (rev (remdups (rev (filter (\<lambda>l. l \<notin> hidden) ls)))) # rest"
    by (auto split: sum.splits prod.splits)
  have m: "lm_members (hd boxes) = rev (remdups (rev (filter (\<lambda>l. l \<notin> hidden) ls)))" by (simp add: b group_mailbox_def)
  have "whole U d paths (hidden \<union> set ls)" using Cons.prems(2) whole_collect [OF ls(1)] whole_union by blast
  then have IH: "divided (hidden \<union> set ls) rest" "whole U d paths h" "h = hidden \<union> set ls \<union> set (concat (map lm_members rest))"
    using Cons.IH [OF ls(2)] by blast+
  have "divided hidden (hd boxes # rest)"
    by (rule divided_Cons) (use m IH(1) in \<open>auto intro: divided_subset\<close>)
  moreover have "boxes = hd boxes # rest" by (simp add: b)
  moreover have "h = hidden \<union> set (concat (map lm_members (hd boxes # rest)))" using m IH(3) by auto
  ultimately show ?case using IH(2) by simp
qed

lemma single_mailboxes_divided:
  assumes inbox: "equal_fold U ''Inbox'' ''INBOX''" and d: "\<And>n l. (n, l) \<in> set paths \<Longrightarrow> (remote_key U n, l) \<in> set d"
    and keys: "\<And>k l. (k, l) \<in> set d \<Longrightarrow> remote_key U k = k"
  shows "single_mailboxes U d paths ls hidden = Inr boxes \<Longrightarrow> whole U d paths hidden \<Longrightarrow> (\<And>l. l \<in> set ls \<Longrightarrow> l \<noteq> [] \<Longrightarrow> owners d l \<noteq> []) \<Longrightarrow>
     divided hidden boxes \<and> set ls - {[]} \<subseteq> hidden \<union> set (concat (map lm_members boxes))"
proof (induction ls arbitrary: hidden boxes)
  case Nil
  then show ?case by (simp add: divided_def)
next
  case (Cons l ls)
  show ?case
  proof (cases "l = [] \<or> l \<in> hidden")
    case True
    then have "single_mailboxes U d paths ls hidden = Inr boxes" using Cons.prems(1) by simp
    then show ?thesis using Cons.IH [of hidden boxes] Cons.prems(2,3) True by auto
  next
    case False
    have one: "\<not> length (owners d l) > 1" using Cons.prems(1) False by (auto split: if_splits)
    then obtain r where r: "owners d l = [r]" using Cons.prems(3) [of l] False by (cases "owners d l") auto
    then have rl: "(r, l) \<in> set d" using owners_iff [of r d l] by simp
    have key: "remote_key U r = r" by (rule keys [OF rl])
    have "r \<noteq> ''Inbox''" using key inbox by (auto simp: remote_key_def)
    then have remote: "\<not> (l = ''Inbox'' \<and> r = l)" by blast
    obtain members rest where m: "locals_of U d paths r = Inr members"
      and rest: "single_mailboxes U d paths ls (insert l hidden \<union> set members) = Inr rest"
      and b: "boxes = \<lparr>lm_key = local_folder_path U paths r, lm_name = local_folder_path U paths r, lm_primary_remote = r,
        lm_primary_local = local_folder_path U paths r, lm_members = members\<rparr> # rest"
      using Cons.prems(1) False one remote by (auto simp: r Let_def locals_of_def split: sum.splits if_splits)
    note facts = for_remote_facts [OF m [unfolded locals_of_def]]
    have lm: "l \<in> set members" using facts(1) rl key by simp
    have apart: "set members \<inter> hidden = {}"
    proof (rule ccontr)
      assume "set members \<inter> hidden \<noteq> {}"
      then obtain x where x: "x \<in> set members" "x \<in> hidden" by blast
      then obtain g gs where g: "locals_of U d paths g = Inr gs" "x \<in> set gs" "set gs \<subseteq> hidden" using Cons.prems(2) unfolding whole_def by blast
      show False
      proof (cases "remote_key U g = remote_key U r")
        case True
        then have "l \<in> set gs" using for_remote_facts(1) [OF g(1) [unfolded locals_of_def]] rl key by simp
        then show False using g(3) False by blast
      next
        case False
        then show False using locals_apart [OF inbox d g(1) m] g(2) x(1) by blast
      qed
    qed
    have "insert l hidden \<union> set members = hidden \<union> set members" using lm by blast
    moreover have "whole U d paths (hidden \<union> set members)" using Cons.prems(2) whole_locals [OF m] whole_union by blast
    ultimately have IH: "divided (hidden \<union> set members) rest" "set ls - {[]} \<subseteq> hidden \<union> set members \<union> set (concat (map lm_members rest))"
      using Cons.IH [of "hidden \<union> set members" rest] rest Cons.prems(3) by auto
    have "divided hidden boxes" unfolding b by (rule divided_Cons) (use facts(2) apart IH(1) in auto)
    then show ?thesis using IH(2) lm by (auto simp: b)
  qed
qed

lemma mset_sort_by: "mset (sort_by before xs) = mset xs"
proof -
  have "mset (insert_by before x ys) = add_mset x (mset ys)" for x ys by (induction ys) auto
  then show ?thesis by (induction xs) (auto simp: sort_by_def)
qed

lemma mset_concat_map: "mset xs = mset ys \<Longrightarrow> mset (concat (map f xs)) = mset (concat (map f ys))"
proof -
  have "mset (concat (map f zs)) = sum_mset (image_mset (\<lambda>x. mset (f x)) (mset zs))" for zs by (induction zs) auto
  then show "mset xs = mset ys \<Longrightarrow> ?thesis" by simp
qed


section \<open>Examples\<close>

definition fold_unicode :: unicode where
  "fold_unicode = plain_unicode\<lparr>u_fold := \<lambda>r. if 97 \<le> r \<and> r \<le> 122 then r - 32 else r\<rparr>"

lemma fold_ascii: "list_all ascii s \<Longrightarrow> list_all ascii t \<Longrightarrow>
    equal_fold fold_unicode s t \<longleftrightarrow> map (\<lambda>c. if 97 \<le> byte c \<and> byte c \<le> 122 then byte c - 32 else (byte c :: nat)) s =
      map (\<lambda>c. if 97 \<le> byte c \<and> byte c \<le> 122 then byte c - 32 else (byte c :: nat)) t"
  by (simp add: equal_fold_def fold_unicode_def comp_def)

definition demo_remote_row :: "string \<Rightarrow> string \<Rightarrow> remote_row" where
  "demo_remote_row r l = \<lparr>rf_account = ''a'', rf_remote = r, rf_local = l, rf_parent = [], rf_depth = 0, rf_role = [], rf_display = r, rf_updated = []\<rparr>"

definition demo_shelf :: folder_db where
  "demo_shelf = \<lparr>fd_mail = \<lparr>md_accounts = [\<lparr>ar_id = ''a'', ar_user = ''u'', ar_deleting = False, ar_folder_map = Some [], ar_version = 1\<rparr>],
       md_rows = [], md_mutations = []\<rparr>,
     fd_remotes = [demo_remote_row ''INBOX'' ''Inbox'', demo_remote_row ''Old'' ''Old'', demo_remote_row ''Work'' ''Work''],
     fd_discovery = [], fd_bindings = [(''a'', ''Inbox'', ''INBOX'')], fd_roles = [], fd_policies = [(''a'', \<lparr>po_groups = [], po_excluded = [''Old'']\<rparr>)]\<rparr>"

abbreviation "demo_shelf_paths \<equiv> [(''INBOX'', ''Inbox''), (''Old'', ''Old''), (''Work'', ''Work'')]"

lemma shelf_keys: "remote_key fold_unicode ''INBOX'' = ''INBOX''" "remote_key fold_unicode ''Old'' = ''Old''"
  "remote_key fold_unicode ''Work'' = ''Work''" "remote_key fold_unicode ''Inbox'' = ''INBOX''"
  by (simp_all add: remote_key_def fold_ascii ascii_def)

lemma demo_fold_inbox: "equal_fold fold_unicode ''Inbox'' ''INBOX''"
  by (simp add: fold_ascii ascii_def)

lemma demo_shelf_live: "live_account demo_shelf ''u'' ''a'' = Some (hd (md_accounts (fd_mail demo_shelf)))"
  by (simp add: live_account_def demo_shelf_def)

lemma demo_shelf_remote: "remote_local_paths fold_unicode demo_shelf ''u'' ''a'' = Inr demo_shelf_paths"
  by (simp add: remote_local_paths_def demo_shelf_live)
    (simp add: demo_shelf_def validate_folder_map_def observed_rows_def discovered_def sort_by_def demo_remote_row_def add_observed_def shelf_keys)

lemma demo_shelf_policy: "folder_policy_snapshot demo_shelf ''u'' ''a'' = Inr (\<lparr>po_groups = [], po_excluded = [''Old'']\<rparr>, 1)"
  by (simp add: folder_policy_snapshot_def demo_shelf_live) (simp add: demo_shelf_def)

lemma demo_shelf_directories: "folder_directories fold_unicode demo_shelf ''a'' demo_shelf_paths = demo_shelf_paths"
  by (simp add: folder_directories_def demo_shelf_def has_mail_def shelf_keys)

lemma demo_shelf_folders: "list_mail_folders demo_shelf ''u'' ''a'' = [''Inbox'', ''Old'', ''Work'']"
  by (simp add: list_mail_folders_def demo_shelf_def owned_by_def demo_remote_row_def sort_by_def)

lemma demo_shelf_locals:
  "for_remote fold_unicode demo_shelf_paths ''INBOX'' ''Inbox'' = Inr [''Inbox'']" "for_remote fold_unicode demo_shelf_paths ''Old'' ''Old'' = Inr [''Old'']"
  "for_remote fold_unicode demo_shelf_paths ''Work'' ''Work'' = Inr [''Work'']"
  by (simp_all add: for_remote_def shelf_keys owners_def sort_by_def)

lemma demo_shelf_owners: "owners demo_shelf_paths ''Inbox'' = [''INBOX'']" "owners demo_shelf_paths ''Old'' = [''Old'']" "owners demo_shelf_paths ''Work'' = [''Work'']"
  by (simp_all add: owners_def)

lemma demo_shelf_local_paths: "local_folder_path U demo_shelf_paths ''INBOX'' = ''Inbox''" "local_folder_path U demo_shelf_paths ''Old'' = ''Old''"
  "local_folder_path U demo_shelf_paths ''Work'' = ''Work''"
  by (simp_all add: local_folder_path_def)

lemma demo_shelf_boxes: "\<exists>boxes. list_logical_mailboxes fold_unicode demo_shelf ''u'' ''a'' = Inr boxes"
  by (simp add: list_logical_mailboxes_def demo_shelf_policy demo_shelf_remote demo_shelf_directories Let_def locals_of_def demo_shelf_local_paths
      demo_shelf_locals demo_shelf_folders demo_shelf_owners)


lemma demo_clean: "clean_folder ''Inbox'' = ''Inbox''" "clean_folder ''Old'' = ''Old''" "clean_folder ''Work'' = ''Work''"
proof -
  have "trim_space s = s" if "s \<in> {''Inbox'', ''Old'', ''Work''}" for s
    using that by (intro trim_plain) (auto simp: is_space_def)
  then show "clean_folder ''Inbox'' = ''Inbox''" "clean_folder ''Old'' = ''Old''" "clean_folder ''Work'' = ''Work''"
    by (simp_all add: clean_folder_def slashed_def has_prefix_def has_control_def trim_slashes_def)
qed

lemma to_lower_ascii: "list_all ascii s \<Longrightarrow> to_lower U s = map sql_lower s"
proof -
  assume s: "list_all ascii s"
  have b: "byte (sql_lower c) = lower_rune U (byte c)" "ascii (sql_lower c)" if "ascii c" for c
    using that byte_char_of [of "byte c + 32"] by (auto simp: sql_lower_def lower_rune_def ascii_def)
  have "map (lower_rune U) (runes s) = map byte (map sql_lower s)" using s b(1) by (simp add: list_all_iff)
  moreover have "list_all ascii (map sql_lower s)" using s b(2) by (simp add: list_all_iff)
  ultimately show ?thesis by (simp only: to_lower_def encode_ascii)
qed

lemma demo_destinations: "destination_key fold_unicode ''Inbox'' = ''inbox''" "destination_key fold_unicode ''Old'' = ''old''"
  "destination_key fold_unicode ''Work'' = ''work''"
proof -
  have "map sql_lower ''Inbox'' = ''inbox''" "map sql_lower ''Old'' = ''old''" "map sql_lower ''Work'' = ''work''" by code_simp+
  then show "destination_key fold_unicode ''Inbox'' = ''inbox''" "destination_key fold_unicode ''Old'' = ''old''"
    "destination_key fold_unicode ''Work'' = ''work''"
    by (simp_all add: destination_key_def demo_clean to_lower_ascii ascii_def)
qed

lemma demo_shelf_binds: "\<exists>db'. bind_sync_folders fold_unicode ''u'' ''a'' 1 demo_shelf = Inr db' \<and> (''a'', ''Work'', ''Work'') \<in> set (fd_bindings db')"
proof -
  have av: "available_folders fold_unicode demo_shelf ''a'' [] = [(''INBOX'', ''Inbox''), (''Old'', ''Old''), (''Work'', ''Work'')]"
    by (simp add: available_folders_def demo_shelf_def demo_remote_row_def discovered_def add_available_def shelf_keys local_folder_path_def
        fold_ascii ascii_def)
  have valid: "validate_destinations fold_unicode demo_shelf ''a'' []"
    by (simp add: validate_destinations_def av Let_def demo_shelf_def [THEN arg_cong, of "\<lambda>d. md_accounts (fd_mail d)"])
      (simp add: demo_shelf_def occupied_folders_def demo_remote_row_def shelf_keys demo_destinations)
  have acct: "ar_version (hd (md_accounts (fd_mail demo_shelf))) = 1" "ar_folder_map (hd (md_accounts (fd_mail demo_shelf))) = Some []"
    by (simp_all add: demo_shelf_def)
  have empty: "validate_folder_map fold_unicode (Some []) = Inr []" by (simp add: validate_folder_map_def)
  let ?names = "[''INBOX'', ''INBOX'', ''Old'', ''Work'']"
  have names: "sync_names demo_shelf ''a'' [] = ?names" by (simp add: sync_names_def demo_shelf_def demo_remote_row_def discovered_def)
  have "bind_sync_folders fold_unicode ''u'' ''a'' 1 demo_shelf = Inr (demo_shelf\<lparr>fd_bindings :=
      fold (\<lambda>k. insert_pair (''a'', clean_folder (local_folder_path fold_unicode [] (last_name fold_unicode ?names k)), k))
        (remdups (map (remote_key fold_unicode) ?names)) (fd_bindings demo_shelf)\<rparr>)"
    unfolding bind_sync_folders_def demo_shelf_live option.case acct empty sum.case Let_def names by (simp add: valid)
  moreover have "(''a'', ''Work'', ''Work'') \<in> set (fold (\<lambda>k. insert_pair (''a'', clean_folder (local_folder_path fold_unicode [] (last_name fold_unicode ?names k)), k))
        (remdups (map (remote_key fold_unicode) ?names)) (fd_bindings demo_shelf))"
    unfolding set_insert_pairs by (simp add: shelf_keys last_name_def local_folder_path_def fold_ascii ascii_def demo_clean)
  ultimately show ?thesis by (intro exI conjI) (assumption, simp)
qed


theorem stale_version_refused_witness:
  "\<exists>db. save_folder_configuration fold_unicode ''u'' ''a'' 1 \<lparr>po_groups = [], po_excluded = []\<rparr> None None demo_shelf = Inr db \<and>
     \<not> (\<exists>db2. bind_sync_folders fold_unicode ''u'' ''a'' 1 db = Inr db2)"
proof -
  have acct: "ar_version (hd (md_accounts (fd_mail demo_shelf))) = 1" "ar_folder_map (hd (md_accounts (fd_mail demo_shelf))) = Some []"
    by (simp_all add: demo_shelf_def)
  have "validate_policy fold_unicode available \<lparr>po_groups = [], po_excluded = []\<rparr> = None" for available by (simp add: validate_policy_def)
  then obtain db where "save_folder_configuration fold_unicode ''u'' ''a'' 1 \<lparr>po_groups = [], po_excluded = []\<rparr> None None demo_shelf = Inr db"
    by (simp add: save_folder_configuration_def demo_shelf_live acct validate_folder_map_def)
  then show ?thesis using stale_version_refused by blast
qed

end
