(* ===== verification/Mail_Lists.thy ===== *)
theory Mail_Lists
  imports Folder_Store
begin

text \<open>
  The lists of messages (internal/store/mail.go): the whole list of a user or an account, one page of it with its cursor,
  and the counts of unread messages.
\<close>

section \<open>Order and selection\<close>

text \<open>Messages with a date come first, the newest first; then those without, the last indexed first.\<close>

definition mail_before :: "msg_row \<Rightarrow> msg_row \<Rightarrow> bool" where
  "mail_before x y = (case (ms_date_utc x, ms_date_utc y) of
      (Some a, Some b) \<Rightarrow> b < a \<or> a = b \<and> ms_id y < ms_id x
    | (Some _, None) \<Rightarrow> True
    | (None, Some _) \<Rightarrow> False
    | (None, None) \<Rightarrow> ms_id y < ms_id x)"

definition list_accounts :: "folder_db \<Rightarrow> string \<Rightarrow> acct_row list" where
  "list_accounts db user = filter (\<lambda>r. ar_user r = user \<and> \<not> ar_deleting r) (md_accounts (fd_mail db))"

definition of_live_account :: "folder_db \<Rightarrow> string \<Rightarrow> msg_row \<Rightarrow> bool" where
  "of_live_account db user m \<longleftrightarrow> list_ex (\<lambda>r. ar_id r = ms_account m) (list_accounts db user)"

text \<open>The directories with the inbox of each account.\<close>

definition inbox_locals :: "unicode \<Rightarrow> folder_db \<Rightarrow> string \<Rightarrow> acct_row \<Rightarrow> folder_error + string list" where
  "inbox_locals U db user acct = (case inbox_folder U db acct of
      Inl e \<Rightarrow> Inl e
    | Inr inbox \<Rightarrow> folder_locals U db user (ar_id acct) inbox)"

definition inboxes :: "unicode \<Rightarrow> folder_db \<Rightarrow> string \<Rightarrow> folder_error + (string \<times> string list) list" where
  "inboxes U db user = collect (\<lambda>r. case inbox_locals U db user r of Inl e \<Rightarrow> Inl e | Inr ls \<Rightarrow> Inr [(ar_id r, ls)]) (list_accounts db user)"

definition in_inboxes :: "(string \<times> string list) list \<Rightarrow> msg_row \<Rightarrow> bool" where
  "in_inboxes boxes m \<longleftrightarrow> list_ex (\<lambda>(a, ls). ms_account m = a \<and> ms_folder m \<in> set ls) boxes"

definition select_rows :: "folder_db \<Rightarrow> (msg_row \<Rightarrow> bool) \<Rightarrow> msg_row list" where
  "select_rows db cond = sort_by mail_before (filter cond (md_rows (fd_mail db)))"

definition list_mail :: "unicode \<Rightarrow> folder_db \<Rightarrow> string \<Rightarrow> bool \<Rightarrow> folder_error + msg_row list" where
  "list_mail U db user unread = (case hidden_folders U db user [] of
      Inl e \<Rightarrow> Inl e
    | Inr hidden \<Rightarrow>
        if \<not> unread then Inr (select_rows db (\<lambda>m. of_live_account db user m \<and> visible hidden m))
        else if list_accounts db user = [] then Inr []
        else (case inboxes U db user of
            Inl e \<Rightarrow> Inl e
          | Inr boxes \<Rightarrow> Inr (select_rows db (\<lambda>m. of_live_account db user m \<and> visible hidden m \<and> in_inboxes boxes m \<and> \<not> ms_read m))))"

definition list_mail_for_account :: "unicode \<Rightarrow> folder_db \<Rightarrow> string \<Rightarrow> string \<Rightarrow> string \<Rightarrow> bool \<Rightarrow> folder_error + msg_row list" where
  "list_mail_for_account U db user a folder unread = (case hidden_folders U db user a of
      Inl e \<Rightarrow> Inl e
    | Inr hidden \<Rightarrow>
        (let inside = (if folder \<noteq> [] then map_sum id Some (folder_locals U db user a folder)
               else if unread then (case find (\<lambda>r. ar_id r = a) (list_accounts db user) of
                   None \<Rightarrow> map_sum id Some (folder_locals U db user a [])
                 | Some r \<Rightarrow> map_sum id Some (inbox_locals U db user r))
               else Inr None)
         in case inside of
              Inl e \<Rightarrow> Inl e
            | Inr locals \<Rightarrow> Inr (select_rows db (\<lambda>m. of_live_account db user m \<and> ms_account m = a \<and> visible hidden m \<and>
                (case locals of None \<Rightarrow> True | Some ls \<Rightarrow> ms_folder m \<in> set ls) \<and> (unread \<longrightarrow> \<not> ms_read m)))))"

section \<open>Pages\<close>

type_synonym mail_cursor = "int option \<times> int"

record mail_page =
  pg_messages :: "msg_row list"
  pg_next :: "mail_cursor option"

text \<open>What a page selects before its cursor; \<open>None\<close> for the early return of an empty page.\<close>

definition page_rows :: "unicode \<Rightarrow> folder_db \<Rightarrow> string \<Rightarrow> string \<Rightarrow> string \<Rightarrow> bool \<Rightarrow> folder_error + (msg_row \<Rightarrow> bool) option" where
  "page_rows U db user a folder unread = (case hidden_folders U db user a of
      Inl e \<Rightarrow> Inl e
    | Inr hidden \<Rightarrow>
        (let base = (\<lambda>m. of_live_account db user m \<and> visible hidden m \<and> (a = [] \<or> ms_account m = a) \<and> (unread \<longrightarrow> \<not> ms_read m))
         in if folder \<noteq> [] then (case folder_locals U db user a folder of
                Inl e \<Rightarrow> Inl e | Inr ls \<Rightarrow> Inr (Some (\<lambda>m. base m \<and> ms_folder m \<in> set ls)))
            else if \<not> unread then Inr (Some base)
            else if a \<noteq> [] then (case find (\<lambda>r. ar_id r = a) (list_accounts db user) of
                None \<Rightarrow> Inr None
              | Some r \<Rightarrow> (case inbox_locals U db user r of Inl e \<Rightarrow> Inl e | Inr ls \<Rightarrow> Inr (Some (\<lambda>m. base m \<and> ms_folder m \<in> set ls))))
            else if list_accounts db user = [] then Inr None
            else (case inboxes U db user of Inl e \<Rightarrow> Inl e | Inr boxes \<Rightarrow> Inr (Some (\<lambda>m. base m \<and> in_inboxes boxes m)))))"

definition after_cursor :: "mail_cursor option \<Rightarrow> msg_row \<Rightarrow> bool" where
  "after_cursor cursor m = (case cursor of
      None \<Rightarrow> True
    | Some (None, i) \<Rightarrow> ms_date_utc m = None \<and> ms_id m < i
    | Some (Some d, i) \<Rightarrow> (case ms_date_utc m of None \<Rightarrow> True | Some x \<Rightarrow> x < d \<or> x = d \<and> ms_id m < i))"

definition page_limit :: "int \<Rightarrow> nat" where
  "page_limit limit = (if limit \<le> 0 \<or> 100 < limit then 50 else nat limit)"

definition cut_page :: "nat \<Rightarrow> msg_row list \<Rightarrow> mail_page" where
  "cut_page n rows =
     (if n < length rows then \<lparr>pg_messages = take n rows, pg_next = (let l = last (take n rows) in Some (ms_date_utc l, ms_id l))\<rparr>
      else \<lparr>pg_messages = rows, pg_next = None\<rparr>)"

definition list_mail_page :: "unicode \<Rightarrow> folder_db \<Rightarrow> string \<Rightarrow> string \<Rightarrow> string \<Rightarrow> bool \<Rightarrow> mail_cursor option \<Rightarrow> int \<Rightarrow> folder_error + mail_page" where
  "list_mail_page U db user a folder unread cursor limit = (case page_rows U db user a folder unread of
      Inl e \<Rightarrow> Inl e
    | Inr None \<Rightarrow> Inr \<lparr>pg_messages = [], pg_next = None\<rparr>
    | Inr (Some cond) \<Rightarrow> Inr (cut_page (page_limit limit) (take (page_limit limit + 1) (select_rows db (\<lambda>m. cond m \<and> after_cursor cursor m)))))"

text \<open>A reader that follows the cursors.\<close>

fun read_pages :: "nat \<Rightarrow> unicode \<Rightarrow> folder_db \<Rightarrow> string \<Rightarrow> string \<Rightarrow> string \<Rightarrow> bool \<Rightarrow> int \<Rightarrow> mail_cursor option \<Rightarrow> (folder_error + msg_row list list) option" where
  "read_pages 0 U db user a folder unread limit cursor = None"
| "read_pages (Suc n) U db user a folder unread limit cursor = (case list_mail_page U db user a folder unread cursor limit of
      Inl e \<Rightarrow> Some (Inl e)
    | Inr page \<Rightarrow> (case pg_next page of
        None \<Rightarrow> Some (Inr [pg_messages page])
      | Some c \<Rightarrow> (case read_pages n U db user a folder unread limit (Some c) of
          None \<Rightarrow> None
        | Some (Inl e) \<Rightarrow> Some (Inl e)
        | Some (Inr pages) \<Rightarrow> Some (Inr (pg_messages page # pages)))))"

section \<open>Counts\<close>

definition count_unread_for_account :: "unicode \<Rightarrow> folder_db \<Rightarrow> string \<Rightarrow> string \<Rightarrow> folder_error + nat" where
  "count_unread_for_account U db user a = (case live_account db user a of
      None \<Rightarrow> Inr 0
    | Some r \<Rightarrow> (case inbox_folder U db r of
        Inl e \<Rightarrow> Inl e
      | Inr inbox \<Rightarrow> Inr (length (filter (\<lambda>m. ms_account m = a \<and> ms_folder m = inbox \<and> \<not> ms_read m) (md_rows (fd_mail db))))))"

definition count_unread :: "unicode \<Rightarrow> folder_db \<Rightarrow> string \<Rightarrow> folder_error + nat" where
  "count_unread U db user = (case collect (\<lambda>r. case count_unread_for_account U db user (ar_id r) of Inl e \<Rightarrow> Inl e | Inr n \<Rightarrow> Inr [n]) (list_accounts db user) of
      Inl e \<Rightarrow> Inl e
    | Inr ns \<Rightarrow> Inr (sum_list ns))"

section \<open>Sorting\<close>

lemma set_sorted [simp]: "set (sort_by before xs) = set xs" by simp

lemma before_trans: "mail_before x y \<Longrightarrow> mail_before y z \<Longrightarrow> mail_before x z"
  by (auto simp: mail_before_def split: option.splits)

lemma before_irrefl [simp]: "\<not> mail_before x x"
  by (auto simp: mail_before_def split: option.splits)

lemma before_total: "ms_id x \<noteq> ms_id y \<Longrightarrow> mail_before x y \<or> mail_before y x"
  by (auto simp: mail_before_def split: option.splits)

lemma sorted_insert:
  assumes "sorted_wrt mail_before ys" "\<And>y. y \<in> set ys \<Longrightarrow> ms_id y \<noteq> ms_id x"
  shows "sorted_wrt mail_before (insert_by mail_before x ys)"
  using assms
proof (induction ys)
  case (Cons y ys)
  show ?case
  proof (cases "mail_before y x")
    case True
    then show ?thesis using Cons by (auto simp: set_insert_by)
  next
    case False
    then have "mail_before x y" using before_total [of x y] Cons.prems(2) [of y] by auto
    then show ?thesis using Cons.prems(1) False before_trans by auto
  qed
qed simp

lemma sorted_sort:
  assumes "distinct (map ms_id xs)"
  shows "sorted_wrt mail_before (sort_by mail_before xs)"
  using assms
proof (induction xs)
  case (Cons x xs)
  have "set (foldr (insert_by mail_before) xs []) = set xs" using set_sort_by [of mail_before xs] by (simp add: sort_by_def)
  then show ?case using Cons unfolding sort_by_def by (auto intro!: sorted_insert) (metis image_eqI)
qed (simp add: sort_by_def)

lemma sorted_unique:
  "sorted_wrt mail_before xs \<Longrightarrow> sorted_wrt mail_before ys \<Longrightarrow> set xs = set ys \<Longrightarrow> xs = ys"
proof (induction xs arbitrary: ys)
  case (Cons x xs)
  then obtain y zs where ys: "ys = y # zs" by (cases ys) auto
  have "x = y"
  proof (rule ccontr)
    assume "x \<noteq> y"
    then have "mail_before x y" "mail_before y x" using Cons.prems ys by (metis insert_iff list.set(2) sorted_wrt.simps(2))+
    then show False using before_trans before_irrefl by blast
  qed
  moreover have "x \<notin> set xs" "y \<notin> set zs" using Cons.prems ys before_irrefl by auto
  ultimately have "set xs = set zs" using Cons.prems(3) ys by auto
  then show ?case using Cons ys \<open>x = y\<close> by simp
qed simp

lemma sorted_filter: "sorted_wrt mail_before xs \<Longrightarrow> sorted_wrt mail_before (filter P xs)"
  by (induction xs) auto

lemma distinct_rows_filter: "rows_ok db \<Longrightarrow> distinct (map ms_id (filter P (md_rows db)))"
  by (auto simp: rows_ok_def intro: distinct_map_filter)

lemma select_sorted: "rows_ok (fd_mail db) \<Longrightarrow> sorted_wrt mail_before (select_rows db cond)"
  unfolding select_rows_def by (intro sorted_sort distinct_rows_filter)

lemma select_filter: "rows_ok (fd_mail db) \<Longrightarrow> select_rows db (\<lambda>m. cond m \<and> P m) = filter P (select_rows db cond)"
proof -
  assume db: "rows_ok (fd_mail db)"
  show ?thesis by (rule sorted_unique [OF select_sorted [OF db] sorted_filter [OF select_sorted [OF db]]]) (auto simp: select_rows_def)
qed

section \<open>Following the cursors reads the list\<close>

lemma cursor_before: "after_cursor (Some (ms_date_utc l, ms_id l)) = mail_before l"
  by (rule ext) (auto simp: after_cursor_def mail_before_def split: option.splits)

lemma rest_after:
  assumes "sorted_wrt mail_before rows" "0 < n" "n < length rows"
  shows "filter (after_cursor (Some (ms_date_utc (last (take n rows)), ms_id (last (take n rows))))) rows = drop n rows"
proof -
  let ?l = "last (take n rows)"
  have split: "rows = take n rows @ drop n rows" by simp
  have ne: "take n rows \<noteq> []" using assms(2,3) by auto
  have s: "sorted_wrt mail_before (take n rows)" "\<And>x y. x \<in> set (take n rows) \<Longrightarrow> y \<in> set (drop n rows) \<Longrightarrow> mail_before x y"
    using assms(1) split by (metis sorted_wrt_append)+
  have "\<not> mail_before ?l x" if "x \<in> set (take n rows)" for x
  proof -
    have "take n rows = butlast (take n rows) @ [?l]" using ne by simp
    then have "x = ?l \<or> mail_before x ?l" using s(1) that by (metis (no_types, lifting) Un_iff list.set_intros(1) set_ConsD set_append empty_iff list.set(1) sorted_wrt_append)
    then show ?thesis using before_trans before_irrefl by blast
  qed
  then have "filter (mail_before ?l) (take n rows) = []" by (simp add: filter_empty_conv)
  moreover have "filter (mail_before ?l) (drop n rows) = drop n rows" using s(2) ne by (simp add: filter_id_conv)
  ultimately have "filter (mail_before ?l) rows = drop n rows" using split by (metis append_Nil filter_append)
  then show ?thesis by (simp add: cursor_before)
qed

lemma pages_of_rows:
  assumes db: "rows_ok (fd_mail db)" and sel: "page_rows U db user a folder unread = Inr (Some cond)"
  shows "select_rows db (\<lambda>m. cond m \<and> after_cursor cursor m) = drop k (select_rows db cond) \<Longrightarrow> length (select_rows db cond) - k < n \<Longrightarrow>
    \<exists>pages. read_pages n U db user a folder unread limit cursor = Some (Inr pages) \<and> concat pages = drop k (select_rows db cond) \<and>
      list_all (\<lambda>p. length p \<le> page_limit limit) pages"
proof (induction n arbitrary: cursor k)
  case (Suc n)
  let ?full = "select_rows db cond" and ?L = "page_limit limit"
  have L: "0 < ?L" by (simp add: page_limit_def)
  have page: "list_mail_page U db user a folder unread cursor limit = Inr (cut_page ?L (take (?L + 1) (drop k ?full)))"
    by (simp only: list_mail_page_def sel sum.case option.case Suc.prems(1))
  show ?case
  proof (cases "?L < length (drop k ?full)")
    case False
    then have "cut_page ?L (take (?L + 1) (drop k ?full)) = \<lparr>pg_messages = drop k ?full, pg_next = None\<rparr>" by (simp add: cut_page_def)
    then show ?thesis using False by (simp add: page)
  next
    case True
    let ?l = "last (take ?L (drop k ?full))"
    have cut: "cut_page ?L (take (?L + 1) (drop k ?full)) = \<lparr>pg_messages = take ?L (drop k ?full), pg_next = Some (ms_date_utc ?l, ms_id ?l)\<rparr>"
      using True by (simp add: cut_page_def Let_def)
    have l: "?l = last (take (k + ?L) ?full)"
    proof -
      have "take ?L (drop k ?full) \<noteq> []" using True L by auto
      then show ?thesis by (simp add: take_add)
    qed
    have "select_rows db (\<lambda>m. cond m \<and> after_cursor (Some (ms_date_utc ?l, ms_id ?l)) m) = filter (after_cursor (Some (ms_date_utc ?l, ms_id ?l))) ?full"
      using select_filter [OF db] by blast
    also have "\<dots> = drop (k + ?L) ?full"
      unfolding l by (rule rest_after [OF select_sorted [OF db]]) (use True L in auto)
    finally have following: "select_rows db (\<lambda>m. cond m \<and> after_cursor (Some (ms_date_utc ?l, ms_id ?l)) m) = drop (k + ?L) ?full" .
    have less: "length ?full - (k + ?L) < n" using Suc.prems(2) True L by simp
    obtain pages where p: "read_pages n U db user a folder unread limit (Some (ms_date_utc ?l, ms_id ?l)) = Some (Inr pages)"
      "concat pages = drop (k + ?L) ?full" "list_all (\<lambda>p. length p \<le> ?L) pages"
      using Suc.IH [OF following less] by blast
    have "take ?L (drop k ?full) @ drop (k + ?L) ?full = drop k ?full" by (metis append_take_drop_id drop_drop add.commute)
    then show ?thesis using p unfolding read_pages.simps(2) page cut by simp
  qed
qed simp

lemma page_rows_of_list:
  assumes "a \<noteq> []" "list_mail_for_account U db user a folder unread = Inr rows"
  shows "(\<exists>cond. page_rows U db user a folder unread = Inr (Some cond) \<and> rows = select_rows db cond) \<or>
    page_rows U db user a folder unread = Inr None \<and> rows = []"
proof -
  obtain hidden where h: "hidden_folders U db user a = Inr hidden" using assms(2) by (auto simp: list_mail_for_account_def split: sum.splits)
  let ?list = "\<lambda>locals m. of_live_account db user m \<and> ms_account m = a \<and> visible hidden m \<and>
    (case locals of None \<Rightarrow> True | Some ls \<Rightarrow> ms_folder m \<in> set ls) \<and> (unread \<longrightarrow> \<not> ms_read m)"
  let ?base = "\<lambda>m. of_live_account db user m \<and> visible hidden m \<and> (a = [] \<or> ms_account m = a) \<and> (unread \<longrightarrow> \<not> ms_read m)"
  have some: "(\<lambda>m. ?base m \<and> ms_folder m \<in> set ls) = ?list (Some ls)" for ls using assms(1) by (auto simp: fun_eq_iff)
  have all: "?base = ?list None" using assms(1) by (auto simp: fun_eq_iff)
  have gone: "select_rows db (?list locals) = []" if "find (\<lambda>r. ar_id r = a) (list_accounts db user) = None" for locals
  proof -
    have none: "\<not> of_live_account db user m" if "ms_account m = a" for m
      using that \<open>find _ _ = None\<close> by (auto simp: of_live_account_def find_None_iff list_ex_iff)
    have "filter (?list locals) (md_rows (fd_mail db)) = []" using none by (auto simp: filter_empty_conv)
    then show ?thesis unfolding select_rows_def by (simp add: sort_by_def)
  qed
  show ?thesis
  proof (cases "folder = []")
    case False
    then obtain ls where "folder_locals U db user a folder = Inr ls" "rows = select_rows db (?list (Some ls))"
      using assms(2) h by (cases "folder_locals U db user a folder") (auto simp: list_mail_for_account_def)
    then show ?thesis using False h some [of ls] by (auto simp: page_rows_def)
  next
    case True
    show ?thesis
    proof (cases "unread \<and> find (\<lambda>r. ar_id r = a) (list_accounts db user) = None")
      case True
      then show ?thesis using \<open>folder = []\<close> assms h gone by (auto simp: page_rows_def list_mail_for_account_def split: sum.splits)
    next
      case False
      show ?thesis
      proof (cases unread)
        case True
        then obtain r where r: "find (\<lambda>r. ar_id r = a) (list_accounts db user) = Some r" using False by auto
        then obtain ls where ls: "inbox_locals U db user r = Inr ls" using True \<open>folder = []\<close> assms(2) h
          by (cases "inbox_locals U db user r") (auto simp: list_mail_for_account_def)
        have "page_rows U db user a folder unread = Inr (Some (\<lambda>m. ?base m \<and> ms_folder m \<in> set ls))"
          using True \<open>folder = []\<close> assms(1) h r ls by (simp add: page_rows_def)
        moreover have "rows = select_rows db (?list (Some ls))" using True \<open>folder = []\<close> assms(2) h r ls by (simp add: list_mail_for_account_def)
        ultimately show ?thesis unfolding some by blast
      next
        case False
        have "page_rows U db user a folder unread = Inr (Some ?base)" using False \<open>folder = []\<close> h by (simp add: page_rows_def)
        moreover have "rows = select_rows db (?list None)" using False \<open>folder = []\<close> assms(2) h by (simp add: list_mail_for_account_def)
        ultimately show ?thesis unfolding all by blast
      qed
    qed
  qed
qed

text \<open>C6. Following the cursors of the pages of an account or folder, whatever the page size, ends and reads exactly the messages of
  the whole list in its order, each once, as long as the list does not change.\<close>

theorem pages_read_the_list:
  assumes db: "rows_ok (fd_mail db)" and a: "a \<noteq> []" and list: "list_mail_for_account U db user a folder unread = Inr rows"
  shows "\<exists>pages. read_pages (Suc (length rows)) U db user a folder unread limit None = Some (Inr pages) \<and> concat pages = rows \<and>
    list_all (\<lambda>p. length p \<le> page_limit limit) pages"
proof -
  consider cond where "page_rows U db user a folder unread = Inr (Some cond)" "rows = select_rows db cond"
    | "page_rows U db user a folder unread = Inr None" "rows = []"
    using page_rows_of_list [OF a list] by blast
  then show ?thesis
  proof cases
    case 1
    have "select_rows db (\<lambda>m. cond m \<and> after_cursor None m) = drop 0 (select_rows db cond)" by (simp add: after_cursor_def)
    then show ?thesis using pages_of_rows [OF db 1(1), of None 0 "Suc (length rows)" limit] 1(2) by simp
  next
    case 2
    then show ?thesis by (simp add: list_mail_page_def)
  qed
qed

section \<open>Only mail of the user\<close>

lemma collect_member: "collect f xs = Inr ys \<Longrightarrow> x \<in> set xs \<Longrightarrow> \<exists>zs. f x = Inr zs \<and> set zs \<subseteq> set ys"
proof (induction xs arbitrary: ys)
  case (Cons x' xs)
  then obtain ys1 ys2 where "f x' = Inr ys1" "collect f xs = Inr ys2" "ys = ys1 @ ys2" by (auto split: sum.splits)
  then show ?case using Cons.IH [of ys2] Cons.prems(2) by auto
qed simp

lemma live_account_of: "of_live_account db user m \<Longrightarrow> \<exists>r. live_account db user (ms_account m) = Some r"
proof -
  assume "of_live_account db user m"
  then obtain r where "r \<in> set (md_accounts (fd_mail db))" "ar_id r = ms_account m \<and> ar_user r = user \<and> \<not> ar_deleting r"
    unfolding of_live_account_def list_accounts_def list_ex_iff by auto
  then have "live_account db user (ms_account m) \<noteq> None" unfolding live_account_def find_None_iff by blast
  then show ?thesis by simp
qed

lemma hidden_member:
  assumes "hidden_folders U db user only = Inr hidden" "(a, p) \<in> set (fd_policies db)" "live_account db user a \<noteq> None" "only = [] \<or> a = only"
    and "remote \<in> set (po_excluded p)" "remote_local_paths U db user a = Inr paths"
    and "locals_of U (folder_directories U db a paths) paths remote = Inr ls" "l \<in> set ls"
  shows "\<exists>hs. (a, hs) \<in> set hidden \<and> l \<in> set hs"
proof -
  have "(a, p) \<in> set (filter (\<lambda>(a, p). live_account db user a \<noteq> None \<and> (only = [] \<or> a = only) \<and> po_excluded p \<noteq> []) (fd_policies db))"
    using assms(2-5) by auto
  from collect_member [OF assms(1) [unfolded hidden_folders_def] this]
  obtain hs where hs: "collect (locals_of U (folder_directories U db a paths) paths) (po_excluded p) = Inr hs" "(a, hs) \<in> set hidden"
    using assms(6) by (cases "collect (locals_of U (folder_directories U db a paths) paths) (po_excluded p)") auto
  then show ?thesis using collect_member [OF hs(1) assms(5)] assms(7,8) by auto
qed

lemma page_rows_base:
  assumes "page_rows U db user a folder unread = Inr (Some cond)" "cond m"
  shows "\<exists>hidden. hidden_folders U db user a = Inr hidden \<and> of_live_account db user m \<and> visible hidden m \<and> (a = [] \<or> ms_account m = a) \<and>
    (unread \<longrightarrow> \<not> ms_read m)"
  using assms by (auto simp: page_rows_def Let_def split: sum.splits if_splits option.splits)

text \<open>C38. A page holds only messages of accounts of the user that are not being deleted, none from a directory of an excluded folder,
  and for a query of unread messages no read one.\<close>

theorem page_is_private:
  assumes page: "list_mail_page U db user a folder unread cursor limit = Inr page" and m: "m \<in> set (pg_messages page)"
  shows "(\<exists>acct. acct \<in> set (md_accounts (fd_mail db)) \<and> ar_id acct = ms_account m \<and> ar_user acct = user \<and> \<not> ar_deleting acct) \<and>
    \<not> (\<exists>p remote paths ls. (ms_account m, p) \<in> set (fd_policies db) \<and> remote \<in> set (po_excluded p) \<and>
        remote_local_paths U db user (ms_account m) = Inr paths \<and>
        locals_of U (folder_directories U db (ms_account m) paths) paths remote = Inr ls \<and> ms_folder m \<in> set ls) \<and>
    \<not> (unread \<and> ms_read m)"
proof -
  obtain cond where cond: "page_rows U db user a folder unread = Inr (Some cond)" "cond m"
    using page m by (auto simp: list_mail_page_def cut_page_def select_rows_def Let_def split: sum.splits option.splits if_splits dest!: in_set_takeD)
  obtain hidden where h: "hidden_folders U db user a = Inr hidden" "of_live_account db user m" "visible hidden m" "a = [] \<or> ms_account m = a"
    "unread \<longrightarrow> \<not> ms_read m"
    using page_rows_base [OF cond] by blast
  have "\<exists>acct. acct \<in> set (md_accounts (fd_mail db)) \<and> ar_id acct = ms_account m \<and> ar_user acct = user \<and> \<not> ar_deleting acct"
    using h(2) by (auto simp: of_live_account_def list_accounts_def list_ex_iff)
  moreover have "ms_folder m \<notin> set ls" if p: "(ms_account m, p) \<in> set (fd_policies db)" "remote \<in> set (po_excluded p)"
    "remote_local_paths U db user (ms_account m) = Inr paths"
    "locals_of U (folder_directories U db (ms_account m) paths) paths remote = Inr ls" for p remote paths ls
  proof
    assume "ms_folder m \<in> set ls"
    then obtain hs where "(ms_account m, hs) \<in> set hidden" "ms_folder m \<in> set hs"
      using hidden_member [OF h(1) p(1) _ h(4) p(2,3,4)] live_account_of [OF h(2)] by auto
    then show False using h(3) by (auto simp: visible_def list_all_iff)
  qed
  ultimately show ?thesis using h(5) by blast
qed

section \<open>The count of unread messages\<close>

definition demo_unread :: "int \<Rightarrow> string \<Rightarrow> msg_row" where
  "demo_unread i folder = \<lparr>ms_id = i, ms_account = ''a'', ms_folder = folder, ms_path = folder, ms_message_id = folder, ms_sender = [],
     ms_recipients = [], ms_cc = [], ms_subject = [], ms_date = [], ms_date_utc = Some i, ms_read = False, ms_attachments = 0, ms_uid = 1,
     ms_validity = 1, ms_flags = [], ms_alerted = 0, ms_attempts = 0, ms_updated = [], ms_scan = [], ms_size = 1\<rparr>"

definition demo_group :: mailbox_group where
  "demo_group = \<lparr>gr_id = ''g'', gr_name = ''All'', gr_primary = ''INBOX'', gr_folders = [''INBOX'', ''Work'']\<rparr>"

definition demo_folders :: folder_db where
  "demo_folders = \<lparr>fd_mail = \<lparr>md_accounts = [\<lparr>ar_id = ''a'', ar_user = ''u'', ar_deleting = False, ar_folder_map = Some [], ar_version = 1\<rparr>],
       md_rows = [demo_unread 1 ''Inbox'', demo_unread 2 ''Work''], md_mutations = []\<rparr>,
     fd_remotes = [], fd_discovery = [], fd_bindings = [], fd_roles = [], fd_policies = [(''a'', \<lparr>po_groups = [demo_group], po_excluded = []\<rparr>)]\<rparr>"

lemma demo_paths: "remote_local_paths plain_unicode demo_folders ''u'' ''a'' = Inr []"
  by (simp add: remote_local_paths_def live_account_def demo_folders_def validate_folder_map_def observed_rows_def discovered_def sort_by_def)

lemma plain_fold: "list_all ascii s \<Longrightarrow> list_all ascii t \<Longrightarrow> equal_fold plain_unicode s t \<longleftrightarrow> s = t"
  by (simp add: equal_fold_def plain_unicode_def runes_ascii) (metis inj_map_eq_map inj_of_char)

lemma demo_locals: "locals_of plain_unicode [] [] ''INBOX'' = Inr [''Inbox'']" "locals_of plain_unicode [] [] ''Work'' = Inr [''Work'']"
  by (simp_all add: locals_of_def for_remote_def local_folder_path_def plain_fold ascii_def owners_def sort_by_def)

lemma demo_live: "live_account demo_folders ''u'' ''a'' = Some (hd (md_accounts (fd_mail demo_folders)))"
  by (simp add: live_account_def demo_folders_def)

lemma demo_snapshot: "folder_policy_snapshot demo_folders ''u'' ''a'' = Inr (\<lparr>po_groups = [demo_group], po_excluded = []\<rparr>, 1)"
  by (simp add: folder_policy_snapshot_def demo_live) (simp add: demo_folders_def)

lemma demo_directories: "folder_directories plain_unicode demo_folders ''a'' [] = []"
  by (simp add: folder_directories_def demo_folders_def)

lemma demo_collect: "collect (locals_of plain_unicode [] []) (gr_folders demo_group) = Inr [''Inbox'', ''Work'']"
  by (simp add: demo_group_def demo_locals)

lemma demo_group_folders: "physical_group_folders plain_unicode demo_folders ''u'' ''a'' ''/groups/g'' = Inr [''Inbox'', ''Work'']"
  by (simp add: physical_group_folders_def demo_snapshot demo_paths demo_directories demo_collect group_for_key_def group_key_def)
    (simp add: demo_group_def demo_locals)

lemma demo_inbox: "inbox_folder plain_unicode demo_folders (hd (md_accounts (fd_mail demo_folders))) = Inr ''Inbox''"
  by (simp add: inbox_folder_def demo_folders_def inbox_folder_legacy_def)

lemma demo_inbox_locals: "folder_locals plain_unicode demo_folders ''u'' ''a'' ''Inbox'' = Inr [''Inbox'', ''Work'']"
  by (simp add: folder_locals_def demo_snapshot demo_paths demo_directories demo_collect demo_group_folders has_prefix_def group_key_def Let_def)
    (simp add: demo_group_def demo_group_folders)

lemma demo_rows_ok: "rows_ok (fd_mail demo_folders)"
  by (simp add: rows_ok_def demo_folders_def demo_unread_def)

definition demo_inbox_rows :: "msg_row \<Rightarrow> bool" where
  "demo_inbox_rows m \<longleftrightarrow> of_live_account demo_folders ''u'' m \<and> ms_account m = ''a'' \<and> visible [] m \<and> ms_folder m \<in> set [''Inbox'', ''Work''] \<and> \<not> ms_read m"

lemma demo_hidden: "hidden_folders plain_unicode demo_folders ''u'' ''a'' = Inr []"
  by (simp add: hidden_folders_def demo_folders_def)

lemma demo_found: "find (\<lambda>r. ar_id r = ''a'') (list_accounts demo_folders ''u'') = Some (hd (md_accounts (fd_mail demo_folders)))"
  by (simp add: list_accounts_def demo_folders_def)

lemma demo_id: "ar_id (hd (md_accounts (fd_mail demo_folders))) = ''a''"
  by (simp add: demo_folders_def)

lemma demo_list: "list_mail_for_account plain_unicode demo_folders ''u'' ''a'' [] True = Inr (select_rows demo_folders demo_inbox_rows)"
  by (simp add: list_mail_for_account_def inbox_locals_def demo_inbox demo_inbox_locals demo_hidden demo_found demo_id demo_inbox_rows_def [abs_def])

lemma demo_selected: "select_rows demo_folders demo_inbox_rows = [demo_unread 2 ''Work'', demo_unread 1 ''Inbox'']"
  by (simp add: select_rows_def demo_inbox_rows_def demo_folders_def demo_unread_def of_live_account_def list_accounts_def visible_def sort_by_def
      mail_before_def)

lemma demo_page: "list_mail_page plain_unicode demo_folders ''u'' ''a'' [] True None 1 =
    Inr \<lparr>pg_messages = [demo_unread 2 ''Work''], pg_next = Some (Some 2, 2)\<rparr>"
proof -
  have "page_rows plain_unicode demo_folders ''u'' ''a'' [] True = Inr (Some (\<lambda>m. (of_live_account demo_folders ''u'' m \<and> visible [] m \<and> ms_account m = ''a'' \<and> \<not> ms_read m) \<and> ms_folder m \<in> set [''Inbox'', ''Work'']))"
    by (simp add: page_rows_def inbox_locals_def demo_inbox demo_inbox_locals demo_hidden demo_found demo_id)
  moreover have "(\<lambda>m. (of_live_account demo_folders ''u'' m \<and> visible [] m \<and> ms_account m = ''a'' \<and> \<not> ms_read m) \<and> ms_folder m \<in> set [''Inbox'', ''Work'']) = demo_inbox_rows"
    by (auto simp: demo_inbox_rows_def fun_eq_iff)
  ultimately have "list_mail_page plain_unicode demo_folders ''u'' ''a'' [] True None 1 = Inr (cut_page 1 (take 2 (select_rows demo_folders demo_inbox_rows)))"
    by (simp add: list_mail_page_def after_cursor_def page_limit_def numeral_2_eq_2)
  then show ?thesis by (simp add: demo_selected cut_page_def) (simp add: demo_unread_def)
qed

theorem pages_read_the_list_witness:
  "\<exists>pages. read_pages 3 plain_unicode demo_folders ''u'' ''a'' [] True 1 None = Some (Inr pages) \<and>
     concat pages = [demo_unread 2 ''Work'', demo_unread 1 ''Inbox''] \<and> list_all (\<lambda>p. length p \<le> 1) pages"
  using pages_read_the_list [OF demo_rows_ok _ demo_list, of 1] by (simp add: demo_selected page_limit_def numeral_3_eq_3)

theorem page_is_private_witness:
  "\<exists>acct. acct \<in> set (md_accounts (fd_mail demo_folders)) \<and> ar_id acct = ''a'' \<and> ar_user acct = ''u''"
  using page_is_private [OF demo_page, of "demo_unread 2 ''Work''"] by (auto simp: demo_unread_def)


end
