(* ===== verification/Draft_Store.thy ===== *)
theory Draft_Store
  imports Mail_Rows
begin

text \<open>
  Drafts and the journal of submissions in the database (internal/store/mail.go).  The rows of a child table are in the
  order of their ids; random ids of new drafts are a parameter, \<open>None\<close> when the random source fails.
\<close>

section \<open>State\<close>

record draft_file =
  df_filename :: string
  df_content_type :: string
  df_path :: string
  df_size :: int

record stored_draft =
  dr_id :: string
  dr_user :: string
  dr_account :: string
  dr_subject :: string
  dr_body :: string
  dr_mode :: string
  dr_original :: "int option"
  dr_to :: "string list"
  dr_cc :: "string list"
  dr_bcc :: "string list"
  dr_files :: "draft_file list"
  dr_created :: string
  dr_updated :: string

record draft_row =
  dw_id :: string
  dw_user :: string
  dw_account :: string
  dw_subject :: string
  dw_body :: string
  dw_mode :: string
  dw_original :: "int option"
  dw_created :: string
  dw_updated :: string

record submission_row =
  sb_message :: string
  sb_user :: string
  sb_account :: string
  sb_draft :: string
  sb_status :: string
  sb_error :: string
  sb_created :: string
  sb_updated :: string
  sb_accepted :: string

record draft_db =
  dd_accounts :: "acct_row list"
  dd_drafts :: "draft_row list"
  dd_recipients :: "(string \<times> string \<times> string) list"
  dd_files :: "(string \<times> draft_file) list"
  dd_submissions :: "submission_row list"

datatype draft_error = Draft_identity | No_account | Foreign_account | Foreign_draft | Draft_missing | No_random | Duplicate_message

section \<open>Drafts\<close>

definition account_owner :: "draft_db \<Rightarrow> string \<Rightarrow> string option" where
  "account_owner db a = map_option ar_user (find (\<lambda>r. ar_id r = a) (dd_accounts db))"

definition user_owns :: "draft_db \<Rightarrow> string \<Rightarrow> string \<Rightarrow> bool" where
  "user_owns db user a \<longleftrightarrow> list_ex (\<lambda>r. ar_id r = a \<and> ar_user r = user) (dd_accounts db)"

definition children :: "string \<Rightarrow> stored_draft \<Rightarrow> (string \<times> string \<times> string) list" where
  "children i d = map (\<lambda>x. (i, ''to'', x)) (dr_to d) @ map (\<lambda>x. (i, ''cc'', x)) (dr_cc d) @ map (\<lambda>x. (i, ''bcc'', x)) (dr_bcc d)"

definition rewrite_draft :: "string \<Rightarrow> stored_draft \<Rightarrow> draft_row \<Rightarrow> draft_row" where
  "rewrite_draft now d r =
     r\<lparr>dw_subject := dr_subject d, dw_body := dr_body d, dw_mode := dr_mode d, dw_original := dr_original d, dw_updated := now\<rparr>"

definition put_draft :: "string \<Rightarrow> string \<Rightarrow> stored_draft \<Rightarrow> draft_db \<Rightarrow> draft_db" where
  "put_draft now i d db =
     db\<lparr>dd_drafts := (if list_ex (\<lambda>r. dw_id r = i) (dd_drafts db)
          then map (\<lambda>r. if dw_id r = i then rewrite_draft now d r else r) (dd_drafts db)
          else dd_drafts db @ [\<lparr>dw_id = i, dw_user = dr_user d, dw_account = dr_account d, dw_subject = dr_subject d, dw_body = dr_body d,
            dw_mode = dr_mode d, dw_original = dr_original d, dw_created = now, dw_updated = now\<rparr>]),
        dd_recipients := filter (\<lambda>(x, _). x \<noteq> i) (dd_recipients db) @ children i d,
        dd_files := filter (\<lambda>(x, _). x \<noteq> i) (dd_files db) @ map (Pair i) (dr_files d)\<rparr>"

definition save_draft_row :: "string \<Rightarrow> string option \<Rightarrow> stored_draft \<Rightarrow> draft_db \<Rightarrow> draft_error option \<times> draft_db" where
  "save_draft_row now random d db =
     (if dr_user d = [] \<or> dr_account d = [] then (Some Draft_identity, db)
      else case (if dr_id d \<noteq> [] then Some (dr_id d) else map_option (\<lambda>r. ''draft-'' @ r) random) of
          None \<Rightarrow> (Some No_random, db)
        | Some i \<Rightarrow> (case account_owner db (dr_account d) of
              None \<Rightarrow> (Some No_account, db)
            | Some u \<Rightarrow>
                if u \<noteq> dr_user d then (Some Foreign_account, db)
                else if dr_id d \<noteq> [] \<and> (case find (\<lambda>r. dw_id r = i) (dd_drafts db) of None \<Rightarrow> False | Some r \<Rightarrow> dw_user r \<noteq> dr_user d)
                  then (Some Foreign_draft, db)
                else (None, put_draft now i d db)))"

definition of_kind :: "string \<Rightarrow> string \<Rightarrow> draft_db \<Rightarrow> string list" where
  "of_kind i kind db = map (\<lambda>(_, _, x). x) (filter (\<lambda>(d, k, _). d = i \<and> k = kind) (dd_recipients db))"

definition with_children :: "draft_db \<Rightarrow> draft_row \<Rightarrow> stored_draft" where
  "with_children db r = \<lparr>dr_id = dw_id r, dr_user = dw_user r, dr_account = dw_account r, dr_subject = dw_subject r, dr_body = dw_body r,
     dr_mode = dw_mode r, dr_original = dw_original r, dr_to = of_kind (dw_id r) ''to'' db, dr_cc = of_kind (dw_id r) ''cc'' db,
     dr_bcc = of_kind (dw_id r) ''bcc'' db, dr_files = map snd (filter (\<lambda>(d, _). d = dw_id r) (dd_files db)), dr_created = dw_created r,
     dr_updated = dw_updated r\<rparr>"

definition load_draft :: "string \<Rightarrow> string \<Rightarrow> draft_db \<Rightarrow> draft_error + stored_draft" where
  "load_draft user i db =
     (if trim_space user = [] \<or> trim_space i = [] then Inl Draft_identity
      else case find (\<lambda>r. dw_id r = i \<and> dw_user r = user \<and> user_owns db user (dw_account r)) (dd_drafts db) of
          None \<Rightarrow> Inl Draft_missing
        | Some r \<Rightarrow> Inr (with_children db r))"

definition list_drafts :: "string \<Rightarrow> string \<Rightarrow> draft_db \<Rightarrow> draft_error + stored_draft list" where
  "list_drafts user a db =
     (if trim_space user = [] then Inl Draft_identity
      else Inr (map (with_children db)
        (sort_by (\<lambda>x y. str_less (dw_updated y) (dw_updated x) \<or> dw_updated x = dw_updated y \<and> str_less (dw_id y) (dw_id x))
          (filter (\<lambda>r. dw_user r = user \<and> user_owns db user (dw_account r) \<and> (trim_space a = [] \<or> dw_account r = a)) (dd_drafts db)))))"

definition list_draft_ids :: "string \<Rightarrow> string \<Rightarrow> draft_db \<Rightarrow> draft_error + string list" where
  "list_draft_ids user a db =
     (if trim_space user = [] \<or> trim_space a = [] then Inl Draft_identity
      else Inr (map dw_id (filter (\<lambda>r. dw_user r = user \<and> dw_account r = a) (dd_drafts db))))"

definition delete_draft :: "string \<Rightarrow> string \<Rightarrow> draft_db \<Rightarrow> draft_error option \<times> draft_db" where
  "delete_draft user i db =
     (let sel = (\<lambda>r. dw_id r = i \<and> dw_user r = user \<and> user_owns db user (dw_account r)); n = length (filter sel (dd_drafts db))
      in (if n \<noteq> 1 then Some Draft_missing else None,
          if n = 0 then db
          else db\<lparr>dd_drafts := filter (\<lambda>r. \<not> sel r) (dd_drafts db), dd_recipients := filter (\<lambda>(x, _). x \<noteq> i) (dd_recipients db),
            dd_files := filter (\<lambda>(x, _). x \<noteq> i) (dd_files db)\<rparr>))"

section \<open>The journal of submissions\<close>

definition create_submission :: "string \<Rightarrow> submission_row \<Rightarrow> draft_db \<Rightarrow> draft_error option \<times> draft_db" where
  "create_submission now s db =
     (if trim_space (sb_message s) = [] \<or> trim_space (sb_user s) = [] \<or> trim_space (sb_account s) = [] then (Some Draft_identity, db)
      else if list_ex (\<lambda>x. sb_message x = sb_message s) (dd_submissions db) then (Some Duplicate_message, db)
      else (None, db\<lparr>dd_submissions := dd_submissions db @ [s\<lparr>sb_status := (if trim_space (sb_status s) = [] then ''pending'' else sb_status s),
          sb_created := (if sb_created s = [] then now else sb_created s), sb_updated := (if sb_updated s = [] then now else sb_updated s)\<rparr>]\<rparr>))"

definition settle_submission :: "string \<Rightarrow> string \<Rightarrow> string \<Rightarrow> submission_row \<Rightarrow> submission_row" where
  "settle_submission now status detail s = s\<lparr>sb_status := status, sb_error := detail, sb_updated := now,
     sb_accepted := (if status = ''accepted'' \<and> sb_accepted s = [] then now else sb_accepted s)\<rparr>"

definition update_submission :: "string \<Rightarrow> string \<Rightarrow> string \<Rightarrow> string \<Rightarrow> draft_db \<Rightarrow> draft_error option \<times> draft_db" where
  "update_submission now message status detail db =
     (if trim_space message = [] \<or> trim_space status = [] then (Some Draft_identity, db)
      else (if length (filter (\<lambda>s. sb_message s = message) (dd_submissions db)) \<noteq> 1 then Some Draft_missing else None,
        db\<lparr>dd_submissions := map (\<lambda>s. if sb_message s = message then settle_submission now status detail s else s) (dd_submissions db)\<rparr>))"

definition outbound_submission :: "string \<Rightarrow> draft_db \<Rightarrow> submission_row option" where
  "outbound_submission message db = find (\<lambda>s. sb_message s = message) (dd_submissions db)"

section \<open>Any user, any order\<close>

definition draft_keys :: "draft_db \<Rightarrow> (string \<times> string \<times> string) list" where
  "draft_keys db = map (\<lambda>r. (dw_id r, dw_account r, dw_user r)) (dd_drafts db)"

definition drafts_ok :: "draft_db \<Rightarrow> bool" where
  "drafts_ok db \<longleftrightarrow> distinct (map fst (draft_keys db)) \<and> fst ` set (dd_recipients db) \<subseteq> fst ` set (draft_keys db) \<and>
     fst ` set (dd_files db) \<subseteq> fst ` set (draft_keys db) \<and> distinct (map sb_message (dd_submissions db)) \<and>
     (\<forall>(i, a, u) \<in> set (draft_keys db). account_owner db a = Some u) \<and> distinct (map ar_id (dd_accounts db))"

datatype draft_op =
  D_save string "string option" stored_draft
| D_delete string string
| D_create string submission_row
| D_update string string string string

fun draft_step :: "draft_op \<Rightarrow> draft_db \<Rightarrow> draft_db" where
  "draft_step (D_save now random d) db = snd (save_draft_row now random d db)"
| "draft_step (D_delete user i) db = snd (delete_draft user i db)"
| "draft_step (D_create now s) db = snd (create_submission now s db)"
| "draft_step (D_update now message status detail) db = snd (update_submission now message status detail db)"

lemma rewrite_keys [simp]: "dw_id (rewrite_draft now d r) = dw_id r" "dw_account (rewrite_draft now d r) = dw_account r"
  "dw_user (rewrite_draft now d r) = dw_user r"
  by (simp_all add: rewrite_draft_def)

lemma put_other [simp]: "dd_accounts (put_draft now i d db) = dd_accounts db" "dd_submissions (put_draft now i d db) = dd_submissions db"
  "account_owner (put_draft now i d db) = account_owner db" "user_owns (put_draft now i d db) = user_owns db"
  by (simp_all add: put_draft_def account_owner_def [abs_def] user_owns_def [abs_def])

lemma put_keys: "draft_keys (put_draft now i d db) =
    (if i \<in> fst ` set (draft_keys db) then draft_keys db else draft_keys db @ [(i, dr_account d, dr_user d)])"
  by (auto simp: put_draft_def draft_keys_def list_ex_iff image_iff)

lemma put_children: "fst ` set (dd_recipients (put_draft now i d db)) \<subseteq> insert i (fst ` set (dd_recipients db))"
  "fst ` set (dd_files (put_draft now i d db)) \<subseteq> insert i (fst ` set (dd_files db))"
  by (auto simp: put_draft_def children_def)

lemma put_draft_ok:
  assumes "drafts_ok db" "account_owner db (dr_account d) = Some (dr_user d)"
  shows "drafts_ok (put_draft now i d db)"
proof (cases "i \<in> fst ` set (draft_keys db)")
  case True
  have "fst ` set (dd_recipients db) \<subseteq> fst ` set (draft_keys db)" "fst ` set (dd_files db) \<subseteq> fst ` set (draft_keys db)"
    using assms(1) by (simp_all add: drafts_ok_def)
  then have "insert i (fst ` set (dd_recipients db)) \<subseteq> fst ` set (draft_keys db)" "insert i (fst ` set (dd_files db)) \<subseteq> fst ` set (draft_keys db)"
    using True by (simp_all only: insert_subset)
  then have "fst ` set (dd_recipients (put_draft now i d db)) \<subseteq> fst ` set (draft_keys db)"
    "fst ` set (dd_files (put_draft now i d db)) \<subseteq> fst ` set (draft_keys db)"
    using put_children [of now i d db] by (meson subset_trans)+
  then show ?thesis using assms True unfolding drafts_ok_def put_keys by simp
next
  case False
  have "insert i (fst ` set (dd_recipients db)) \<subseteq> insert i (fst ` set (draft_keys db))"
    "insert i (fst ` set (dd_files db)) \<subseteq> insert i (fst ` set (draft_keys db))"
    using assms(1) unfolding drafts_ok_def by (meson insert_mono)+
  then have "fst ` set (dd_recipients (put_draft now i d db)) \<subseteq> insert i (fst ` set (draft_keys db))"
    "fst ` set (dd_files (put_draft now i d db)) \<subseteq> insert i (fst ` set (draft_keys db))"
    using put_children [of now i d db] by (meson subset_trans)+
  then show ?thesis using assms False unfolding drafts_ok_def put_keys by simp
qed

lemma save_draft_row_ok: "drafts_ok db \<Longrightarrow> drafts_ok (snd (save_draft_row now random d db))"
  by (auto simp: save_draft_row_def put_draft_ok split: option.splits)

lemma delete_draft_ok:
  assumes "drafts_ok db"
  shows "drafts_ok (snd (delete_draft user i db))"
proof -
  define sel :: "draft_row \<Rightarrow> bool" where "sel = (\<lambda>r. dw_id r = i \<and> dw_user r = user \<and> user_owns db user (dw_account r))"
  show ?thesis
  proof (cases "filter sel (dd_drafts db) = []")
    case True
    then show ?thesis using assms by (simp add: delete_draft_def Let_def sel_def)
  next
    case False
    then obtain x where x: "x \<in> set (dd_drafts db)" "sel x" by (auto simp: filter_empty_conv)
    let ?db = "db\<lparr>dd_drafts := filter (\<lambda>r. \<not> sel r) (dd_drafts db), dd_recipients := filter (\<lambda>(x, _). x \<noteq> i) (dd_recipients db),
            dd_files := filter (\<lambda>(x, _). x \<noteq> i) (dd_files db)\<rparr>"
    have db': "snd (delete_draft user i db) = ?db" using False by (simp add: delete_draft_def Let_def sel_def)
    have kept: "r \<in> set (filter (\<lambda>r. \<not> sel r) (dd_drafts db))" if "r \<in> set (dd_drafts db)" "dw_id r \<noteq> i" for r
      using that by (auto simp: sel_def)
    have keys: "draft_keys ?db = map (\<lambda>r. (dw_id r, dw_account r, dw_user r)) (filter (\<lambda>r. \<not> sel r) (dd_drafts db))"
      by (simp add: draft_keys_def)
    have left: "k \<in> fst ` set (draft_keys ?db)" if k: "k \<in> fst ` set (draft_keys db)" and ne: "k \<noteq> i" for k
    proof -
      obtain r where r: "r \<in> set (dd_drafts db)" "k = dw_id r" using k by (auto simp: draft_keys_def)
      then have "r \<in> set (filter (\<lambda>r. \<not> sel r) (dd_drafts db))" using ne kept by blast
      then show ?thesis unfolding r(2) keys by (simp add: image_image)
    qed
    have subset: "set (draft_keys ?db) \<subseteq> set (draft_keys db)" unfolding keys by (auto simp: draft_keys_def)
    have same: "account_owner ?db = account_owner db" by (simp add: account_owner_def [abs_def])
    have "drafts_ok ?db"
      unfolding drafts_ok_def
    proof (intro conjI)
      show "distinct (map fst (draft_keys ?db))"
        using assms unfolding keys by (simp add: drafts_ok_def draft_keys_def comp_def distinct_map_filter)
      show "fst ` set (dd_recipients ?db) \<subseteq> fst ` set (draft_keys ?db)"
      proof
        fix k
        assume "k \<in> fst ` set (dd_recipients ?db)"
        then have "k \<in> fst ` set (dd_recipients db)" "k \<noteq> i" by auto
        then show "k \<in> fst ` set (draft_keys ?db)" using assms left unfolding drafts_ok_def by blast
      qed
      show "fst ` set (dd_files ?db) \<subseteq> fst ` set (draft_keys ?db)"
      proof
        fix k
        assume "k \<in> fst ` set (dd_files ?db)"
        then have "k \<in> fst ` set (dd_files db)" "k \<noteq> i" by auto
        then show "k \<in> fst ` set (draft_keys ?db)" using assms left unfolding drafts_ok_def by blast
      qed
      show "\<forall>(i, a, u) \<in> set (draft_keys ?db). account_owner ?db a = Some u"
        using assms subset unfolding same drafts_ok_def by blast
    qed (use assms in \<open>simp_all add: drafts_ok_def\<close>)
    then show ?thesis by (simp only: db')
  qed
qed

lemma settle_key [simp]: "sb_message (settle_submission now status detail s) = sb_message s"
  by (simp add: settle_submission_def)

lemma submissions_ok:
  assumes "drafts_ok db" "distinct (map sb_message ss)"
  shows "drafts_ok (db\<lparr>dd_submissions := ss\<rparr>)"
  using assms by (simp add: drafts_ok_def draft_keys_def account_owner_def)

lemma create_submission_ok:
  assumes "drafts_ok db"
  shows "drafts_ok (snd (create_submission now s db))"
proof -
  have "distinct (map sb_message (dd_submissions db))" using assms by (simp add: drafts_ok_def)
  then have ok: "drafts_ok (db\<lparr>dd_submissions := dd_submissions db @ [x]\<rparr>)"
    if "\<not> list_ex (\<lambda>y. sb_message y = sb_message x) (dd_submissions db)" for x
    using submissions_ok [OF assms, of "dd_submissions db @ [x]"] that by (simp add: list_ex_iff image_iff) metis
  let ?new = "s\<lparr>sb_status := (if trim_space (sb_status s) = [] then ''pending'' else sb_status s),
          sb_created := (if sb_created s = [] then now else sb_created s), sb_updated := (if sb_updated s = [] then now else sb_updated s)\<rparr>"
  have "sb_message ?new = sb_message s" by (simp split del: if_split)
  then have "drafts_ok (db\<lparr>dd_submissions := dd_submissions db @ [?new]\<rparr>)"
    if "\<not> list_ex (\<lambda>x. sb_message x = sb_message s) (dd_submissions db)"
    using ok [of ?new] that by (simp only: not_False_eq_True)
  then show ?thesis using assms unfolding create_submission_def
    by (cases "trim_space (sb_message s) = [] \<or> trim_space (sb_user s) = [] \<or> trim_space (sb_account s) = []";
        cases "list_ex (\<lambda>x. sb_message x = sb_message s) (dd_submissions db)"; simp only: if_True if_False snd_conv not_False_eq_True)
qed

lemma update_submission_ok:
  assumes "drafts_ok db"
  shows "drafts_ok (snd (update_submission now message status detail db))"
proof -
  have "map sb_message (map (\<lambda>s. if sb_message s = message then settle_submission now status detail s else s) ss) = map sb_message ss" for ss by simp
  then have "distinct (map sb_message (map (\<lambda>s. if sb_message s = message then settle_submission now status detail s else s) (dd_submissions db)))"
    using assms by (simp only: drafts_ok_def)
  then have "drafts_ok (db\<lparr>dd_submissions := map (\<lambda>s. if sb_message s = message then settle_submission now status detail s else s) (dd_submissions db)\<rparr>)"
    by (rule submissions_ok [OF assms])
  then show ?thesis using assms by (simp add: update_submission_def)
qed

lemma draft_step_ok: "drafts_ok db \<Longrightarrow> drafts_ok (draft_step e db)"
  by (cases e) (simp_all add: save_draft_row_ok delete_draft_ok create_submission_ok update_submission_ok)

interpretation draft_table: machine draft_step drafts_ok
  by unfold_locales (rule draft_step_ok)

section \<open>Round trip and isolation\<close>

lemma find_put:
  fixes r :: draft_row
  assumes "drafts_ok db" "P (dw_id r, dw_account r, dw_user r) \<longleftrightarrow> True" "r \<in> set (dd_drafts db)"
    and "\<And>s :: draft_row. P (dw_id s, dw_account s, dw_user s) \<Longrightarrow> dw_id s = dw_id r"
  shows "find (\<lambda>s. P (dw_id s, dw_account s, dw_user s)) (dd_drafts db) = Some r"
proof -
  obtain s where s: "find (\<lambda>s. P (dw_id s, dw_account s, dw_user s)) (dd_drafts db) = Some s"
    using assms(2,3) by (cases "find (\<lambda>s. P (dw_id s, dw_account s, dw_user s)) (dd_drafts db)") (auto simp: find_None_iff)
  have "s \<in> set (dd_drafts db)" and P: "P (dw_id s, dw_account s, dw_user s)" using find_some [OF s] by simp_all
  moreover have "dw_id s = dw_id r" by (rule assms(4) [OF P])
  moreover have "inj_on dw_id (set (dd_drafts db))" using assms(1) by (simp add: drafts_ok_def draft_keys_def comp_def distinct_map)
  ultimately have "s = r" using assms(3) by (meson inj_onD)
  then show ?thesis using s by simp
qed

text \<open>C40. A saved draft loads with the content it was saved with; when its id was already in use, it keeps the account and the date of the
  first save.\<close>

theorem saved_draft_loads:
  assumes db: "drafts_ok db" and save: "save_draft_row now random d db = (None, db')" and u: "trim_space (dr_user d) \<noteq> []" and i: "trim_space (dr_id d) \<noteq> []"
  shows "\<exists>a created. load_draft (dr_user d) (dr_id d) db' = Inr (d\<lparr>dr_account := a, dr_created := created, dr_updated := now\<rparr>) \<and>
    (a, created) = (case find (\<lambda>r. dw_id r = dr_id d) (dd_drafts db) of None \<Rightarrow> (dr_account d, now) | Some r \<Rightarrow> (dw_account r, dw_created r))"
proof -
  have id: "dr_id d \<noteq> []" using i by (auto simp: trim_space_def trim_left.simps trim_right.simps)
  have owner: "account_owner db (dr_account d) = Some (dr_user d)" and db': "db' = put_draft now (dr_id d) d db"
    and mine: "\<And>r. find (\<lambda>r. dw_id r = dr_id d) (dd_drafts db) = Some r \<Longrightarrow> dw_user r = dr_user d"
    using save id by (auto simp: save_draft_row_def split: if_splits option.splits)
  have ok: "drafts_ok db'" unfolding db' by (rule put_draft_ok [OF db owner])
  define r where "r = (case find (\<lambda>r. dw_id r = dr_id d) (dd_drafts db) of
      None \<Rightarrow> \<lparr>dw_id = dr_id d, dw_user = dr_user d, dw_account = dr_account d, dw_subject = dr_subject d, dw_body = dr_body d,
            dw_mode = dr_mode d, dw_original = dr_original d, dw_created = now, dw_updated = now\<rparr>
    | Some x \<Rightarrow> rewrite_draft now d x)"
  have r: "r \<in> set (dd_drafts db')" "dw_id r = dr_id d" "dw_user r = dr_user d"
  proof -
    show "r \<in> set (dd_drafts db')"
    proof (cases "find (\<lambda>r. dw_id r = dr_id d) (dd_drafts db)")
      case None
      moreover have "\<not> list_ex (\<lambda>r. dw_id r = dr_id d) (dd_drafts db)" using None by (simp add: find_None_iff list_ex_iff)
      ultimately show ?thesis by (simp add: r_def db' put_draft_def)
    next
      case (Some x)
      then have "x \<in> set (dd_drafts db)" "dw_id x = dr_id d" by (auto dest: find_some)
      then show ?thesis using Some by (auto simp: r_def db' put_draft_def list_ex_iff image_iff intro!: bexI [of _ x])
    qed
    show "dw_id r = dr_id d" "dw_user r = dr_user d" using mine by (auto simp: r_def split: option.split dest: find_some)
  qed
  have "account_owner db' (dw_account r) = Some (dw_user r)" using ok r(1) by (auto simp: drafts_ok_def draft_keys_def)
  then have owns: "user_owns db' (dr_user d) (dw_account r)"
    using r(3) by (auto simp: account_owner_def user_owns_def list_ex_iff dest: find_some)
  have "find (\<lambda>s. dw_id s = dr_id d \<and> dw_user s = dr_user d \<and> user_owns db' (dr_user d) (dw_account s)) (dd_drafts db') = Some r"
    using find_put [OF ok, of "\<lambda>(i, a, u). i = dr_id d \<and> u = dr_user d \<and> user_owns db' (dr_user d) a" r] r owns by simp
  then have load: "load_draft (dr_user d) (dr_id d) db' = Inr (with_children db' r)" using u i by (simp add: load_draft_def)
  have kinds: "of_kind (dr_id d) ''to'' db' = dr_to d" "of_kind (dr_id d) ''cc'' db' = dr_cc d" "of_kind (dr_id d) ''bcc'' db' = dr_bcc d"
    by (simp_all add: of_kind_def db' put_draft_def children_def filter_False comp_def case_prod_beta cong: filter_cong)
  have files: "map snd (filter (\<lambda>(x, _). x = dr_id d) (dd_files db')) = dr_files d"
    by (simp add: db' put_draft_def comp_def case_prod_beta filter_False cong: filter_cong)
  show ?thesis
    by (rule exI [of _ "dw_account r"], rule exI [of _ "dw_created r"])
      (use load kinds files r(2,3) in \<open>auto simp: with_children_def r_def rewrite_draft_def split: option.split\<close>)
qed

lemma find_filter: "(\<And>x. P x \<Longrightarrow> Q x) \<Longrightarrow> find P xs = find P (filter Q xs)"
  by (induction xs) auto

lemma load_draft_cong:
  assumes "filter (\<lambda>r. dw_user r = u) (dd_drafts db') = filter (\<lambda>r. dw_user r = u) (dd_drafts db)" "dd_accounts db' = dd_accounts db"
    and "\<And>r. r \<in> set (dd_drafts db) \<Longrightarrow> dw_user r = u \<Longrightarrow> with_children db' r = with_children db r"
  shows "load_draft u i db' = load_draft u i db"
proof -
  have owns: "user_owns db' = user_owns db" using assms(2) by (simp add: user_owns_def [abs_def])
  have "find (\<lambda>r. dw_id r = i \<and> dw_user r = u \<and> user_owns db' u (dw_account r)) (dd_drafts db') =
      find (\<lambda>r. dw_id r = i \<and> dw_user r = u \<and> user_owns db u (dw_account r)) (filter (\<lambda>r. dw_user r = u) (dd_drafts db))"
    using find_filter [of "\<lambda>r. dw_id r = i \<and> dw_user r = u \<and> user_owns db' u (dw_account r)" "\<lambda>r. dw_user r = u" "dd_drafts db'"] assms(1) owns by simp
  also have "\<dots> = find (\<lambda>r. dw_id r = i \<and> dw_user r = u \<and> user_owns db u (dw_account r)) (dd_drafts db)"
    by (rule find_filter [symmetric]) simp
  finally show ?thesis using assms(3) by (auto simp: load_draft_def split: option.split dest: find_some)
qed

lemma children_elsewhere:
  assumes "\<And>x. x \<noteq> i \<Longrightarrow> filter (\<lambda>(y, _). y = x) (dd_recipients db') = filter (\<lambda>(y, _). y = x) (dd_recipients db)"
    and "\<And>x. x \<noteq> i \<Longrightarrow> filter (\<lambda>(y, _). y = x) (dd_files db') = filter (\<lambda>(y, _). y = x) (dd_files db)" and "dw_id r \<noteq> i"
  shows "with_children db' r = with_children db r"
proof -
  have "of_kind (dw_id r) k x = map (\<lambda>(_, _, x). x) (filter (\<lambda>(_, l, _). l = k) (filter (\<lambda>(y, _). y = dw_id r) (dd_recipients x)))" for k x
    unfolding of_kind_def filter_filter by (rule arg_cong2 [where f = map], simp, rule filter_cong) auto
  then have "of_kind (dw_id r) k db' = of_kind (dw_id r) k db" for k by (simp only: assms(1) [OF assms(3)])
  then show ?thesis by (simp only: with_children_def assms(2) [OF assms(3)])
qed

lemma same_id_same_user:
  assumes "drafts_ok db" "r \<in> set (dd_drafts db)" "s \<in> set (dd_drafts db)" "dw_id r = dw_id s"
  shows "r = s"
  using assms inj_onD [of dw_id "set (dd_drafts db)" r s] by (simp add: drafts_ok_def draft_keys_def comp_def distinct_map)

fun draft_actor :: "draft_op \<Rightarrow> string" where
  "draft_actor (D_save now random d) = dr_user d"
| "draft_actor (D_delete user i) = user"
| "draft_actor (D_create now s) = sb_user s"
| "draft_actor (D_update now message status detail) = []"

fun new_id_free :: "draft_op \<Rightarrow> draft_db \<Rightarrow> bool" where
  "new_id_free (D_save now (Some random) d) db = (dr_id d \<noteq> [] \<or> \<not> list_ex (\<lambda>r. dw_id r = ''draft-'' @ random) (dd_drafts db))"
| "new_id_free e db = True"

lemma put_elsewhere:
  assumes ok: "drafts_ok db" and other: "\<And>r. r \<in> set (dd_drafts db) \<Longrightarrow> dw_id r = i \<Longrightarrow> dw_user r = dr_user d" and ne: "dr_user d \<noteq> u"
  shows "load_draft u k (put_draft now i d db) = load_draft u k db"
proof (rule load_draft_cong)
  have mine: "dw_id r \<noteq> i" if "r \<in> set (dd_drafts db)" "dw_user r = u" for r using that other ne by auto
  show "filter (\<lambda>r. dw_user r = u) (dd_drafts (put_draft now i d db)) = filter (\<lambda>r. dw_user r = u) (dd_drafts db)"
  proof -
    have "filter (\<lambda>r. dw_user r = u) (map (\<lambda>r. if dw_id r = i then rewrite_draft now d r else r) rs) = filter (\<lambda>r. dw_user r = u) rs"
      if "set rs \<subseteq> set (dd_drafts db)" for rs
      using that mine by (induction rs) auto
    then show ?thesis using ne by (simp add: put_draft_def)
  qed
  show "dd_accounts (put_draft now i d db) = dd_accounts db" by simp
  show "with_children (put_draft now i d db) r = with_children db r" if "r \<in> set (dd_drafts db)" "dw_user r = u" for r
  proof (rule children_elsewhere [of i])
    show "filter (\<lambda>(y, _). y = x) (dd_recipients (put_draft now i d db)) = filter (\<lambda>(y, _). y = x) (dd_recipients db)" if "x \<noteq> i" for x
      using that by (auto simp: put_draft_def children_def case_prod_beta filter_empty_conv intro!: filter_cong)
    show "filter (\<lambda>(y, _). y = x) (dd_files (put_draft now i d db)) = filter (\<lambda>(y, _). y = x) (dd_files db)" if "x \<noteq> i" for x
      using that by (auto simp: put_draft_def case_prod_beta filter_empty_conv intro!: filter_cong)
    show "dw_id r \<noteq> i" by (rule mine [OF that])
  qed
qed

lemma delete_elsewhere:
  assumes ok: "drafts_ok db" and ne: "user \<noteq> u"
  shows "load_draft u k (snd (delete_draft user i db)) = load_draft u k db"
proof -
  define sel :: "draft_row \<Rightarrow> bool" where "sel = (\<lambda>r. dw_id r = i \<and> dw_user r = user \<and> user_owns db user (dw_account r))"
  show ?thesis
  proof (cases "filter sel (dd_drafts db) = []")
    case True
    then show ?thesis by (simp add: delete_draft_def Let_def sel_def)
  next
    case False
    then obtain x where x: "x \<in> set (dd_drafts db)" "sel x" by (auto simp: filter_empty_conv)
    let ?db = "db\<lparr>dd_drafts := filter (\<lambda>r. \<not> sel r) (dd_drafts db), dd_recipients := filter (\<lambda>(x, _). x \<noteq> i) (dd_recipients db),
            dd_files := filter (\<lambda>(x, _). x \<noteq> i) (dd_files db)\<rparr>"
    have db': "snd (delete_draft user i db) = ?db" using False by (simp add: delete_draft_def Let_def sel_def)
    have mine: "dw_id r \<noteq> i" if "r \<in> set (dd_drafts db)" "dw_user r = u" for r
      using same_id_same_user [OF ok that(1) x(1)] that(2) x(2) ne by (auto simp: sel_def)
    have "load_draft u k ?db = load_draft u k db"
    proof (rule load_draft_cong)
      show "filter (\<lambda>r. dw_user r = u) (dd_drafts ?db) = filter (\<lambda>r. dw_user r = u) (dd_drafts db)"
        using ne by (auto simp: sel_def intro!: filter_cong)
      show "dd_accounts ?db = dd_accounts db" by simp
      show "with_children ?db r = with_children db r" if "r \<in> set (dd_drafts db)" "dw_user r = u" for r
        by (rule children_elsewhere [of i]) (use mine [OF that] in \<open>auto simp: case_prod_beta intro!: filter_cong\<close>)
    qed
    then show ?thesis by (simp only: db')
  qed
qed

text \<open>C10. No operation of another user changes what a user loads as a draft: neither a save, whatever id it names, nor a deletion, nor a
  submission.\<close>

theorem drafts_of_others_untouched:
  assumes "drafts_ok db" "draft_actor e \<noteq> u" "new_id_free e db"
  shows "load_draft u i (draft_step e db) = load_draft u i db"
proof (cases e)
  case (D_save now random d)
  show ?thesis
  proof (cases "fst (save_draft_row now random d db)")
    case (Some x)
    then show ?thesis unfolding D_save by (auto simp: save_draft_row_def split: option.splits if_splits)
  next
    case None
    define k where "k = (if dr_id d \<noteq> [] then dr_id d else ''draft-'' @ the random)"
    have random: "dr_id d \<noteq> [] \<or> random \<noteq> None" using None by (cases random) (auto simp: save_draft_row_def split: if_splits)
    have db': "snd (save_draft_row now random d db) = put_draft now k d db"
      using None by (auto simp: save_draft_row_def k_def split: option.splits if_splits)
    have mine: "dw_user r = dr_user d" if r: "r \<in> set (dd_drafts db)" "dw_id r = k" for r
    proof (cases "dr_id d = []")
      case True
      then show ?thesis using assms(3) random r unfolding D_save by (auto simp: k_def list_ex_iff)
    next
      case False
      then have "find (\<lambda>r. dw_id r = k) (dd_drafts db) \<noteq> None" using r by (auto simp: find_None_iff)
      then obtain s where s: "find (\<lambda>r. dw_id r = k) (dd_drafts db) = Some s" by auto
      then have "s = r" using same_id_same_user [OF assms(1) _ r(1)] r(2) by (auto dest: find_some)
      then show ?thesis using None False s by (auto simp: save_draft_row_def k_def split: option.splits if_splits)
    qed
    show ?thesis unfolding D_save draft_step.simps db'
      by (rule put_elsewhere [OF assms(1) mine]) (use assms(2) D_save in simp_all)
  qed
next
  case (D_delete user j)
  then show ?thesis using delete_elsewhere [OF assms(1)] assms(2) by simp
next
  case (D_create now s)
  have "load_draft u i (db\<lparr>dd_submissions := ss\<rparr>) = load_draft u i db" for ss
    by (simp add: load_draft_def user_owns_def with_children_def of_kind_def split: option.split)
  then show ?thesis unfolding D_create draft_step.simps create_submission_def
    by (cases "trim_space (sb_message s) = [] \<or> trim_space (sb_user s) = [] \<or> trim_space (sb_account s) = []";
        cases "list_ex (\<lambda>x. sb_message x = sb_message s) (dd_submissions db)"; simp only: if_True if_False snd_conv)
next
  case (D_update now message status detail)
  have "load_draft u i (db\<lparr>dd_submissions := ss\<rparr>) = load_draft u i db" for ss
    by (simp add: load_draft_def user_owns_def with_children_def of_kind_def split: option.split)
  then show ?thesis unfolding D_update by (simp add: update_submission_def)
qed

section \<open>Witnesses\<close>

definition demo_drafts :: draft_db where
  "demo_drafts = \<lparr>dd_accounts = [\<lparr>ar_id = ''acc'', ar_user = ''u1'', ar_deleting = False, ar_folder_map = Some [], ar_version = 1\<rparr>,
     \<lparr>ar_id = ''other'', ar_user = ''u2'', ar_deleting = False, ar_folder_map = Some [], ar_version = 1\<rparr>], dd_drafts = [], dd_recipients = [], dd_files = [], dd_submissions = []\<rparr>"

definition demo_draft :: stored_draft where
  "demo_draft = \<lparr>dr_id = ''d1'', dr_user = ''u1'', dr_account = ''acc'', dr_subject = ''Hi'', dr_body = ''text'', dr_mode = ''new'',
     dr_original = None, dr_to = [''a@x'', ''b@x''], dr_cc = [''a@x''], dr_bcc = [], dr_files = [], dr_created = [], dr_updated = []\<rparr>"

lemma demo_drafts_ok: "drafts_ok demo_drafts"
  by (simp add: drafts_ok_def demo_drafts_def draft_keys_def)

lemma demo_draft_plain: "trim_space ''u1'' = ''u1''" "trim_space ''d1'' = ''d1''"
  by (rule trim_plain; simp add: is_space_def)+

lemma demo_saved: "save_draft_row ''t'' None demo_draft demo_drafts = (None, put_draft ''t'' ''d1'' demo_draft demo_drafts)"
  by (simp add: save_draft_row_def demo_draft_def demo_drafts_def account_owner_def)

lemma saved_draft_loads_witness:
  "load_draft ''u1'' ''d1'' (put_draft ''t'' ''d1'' demo_draft demo_drafts) =
     Inr (demo_draft\<lparr>dr_account := ''acc'', dr_created := ''t'', dr_updated := ''t''\<rparr>)"
proof -
  have "trim_space (dr_user demo_draft) \<noteq> []" "trim_space (dr_id demo_draft) \<noteq> []" by (simp_all add: demo_draft_def demo_draft_plain)
  then show ?thesis using saved_draft_loads [OF demo_drafts_ok demo_saved] by (auto simp: demo_draft_def demo_drafts_def)
qed

lemma drafts_of_others_untouched_witness:
  "let db = put_draft ''t'' ''d1'' demo_draft demo_drafts; theft = D_save ''t2'' None (demo_draft\<lparr>dr_user := ''u2'', dr_account := ''other''\<rparr>)
   in load_draft ''u1'' ''d1'' (draft_step theft db) = load_draft ''u1'' ''d1'' db \<and>
      fst (save_draft_row ''t2'' None (demo_draft\<lparr>dr_user := ''u2'', dr_account := ''other''\<rparr>) db) = Some Foreign_draft"
proof -
  have "account_owner demo_drafts (dr_account demo_draft) = Some (dr_user demo_draft)"
    by (simp add: demo_drafts_def demo_draft_def account_owner_def)
  then have "drafts_ok (put_draft ''t'' ''d1'' demo_draft demo_drafts)" by (rule put_draft_ok [OF demo_drafts_ok])
  moreover have "fst (save_draft_row ''t2'' None (demo_draft\<lparr>dr_user := ''u2'', dr_account := ''other''\<rparr>) (put_draft ''t'' ''d1'' demo_draft demo_drafts)) = Some Foreign_draft"
    by (simp add: save_draft_row_def account_owner_def put_draft_def demo_drafts_def demo_draft_def)
  ultimately show ?thesis
    using drafts_of_others_untouched [of _ "D_save ''t2'' None (demo_draft\<lparr>dr_user := ''u2'', dr_account := ''other''\<rparr>)" "''u1''" "''d1''"]
    by (simp add: Let_def del: draft_step.simps)
qed

end
