(* ===== verification/Spec2Isabelle.thy ===== *)
theory Spec2Isabelle
  imports Keypad Sessions Login_Guard Web_Limits Call_Drafts Call_Gaps Call_Events Call_Settings Alerts Sync_Jobs Idle_Watch
    Sync_Reconcile Speech_Pool Read_Retry Mail_Merge Folder_Views Mail_Lists Draft_Store
begin

text \<open>
  VOXMail is a telephone front end for mail: approved callers hear, write and manage their mail by keys on a call, a
  web console configures it, and a service keeps private copies of the mailboxes up to date.  This development models
  the Go packages under src/internal.

  \<^bold>\<open>How the code is represented.\<close>  A struct is a record, an enumeration a datatype, a string the list of its bytes
  (the theory Prelude has UTF-8, slicing and the functions of the package strings that the code uses), a map an
  association list where the code ranges over it or counts it (theory Maps) and a function to option where it only
  looks up.  A handler is a function from the state to the state, an error a value of a sum, and a Go panic the
  absence of a result, so that a theorem that nothing panics says something.  What lies behind a database, a mail
  server, a file or an engine is a field of a record of parameters (\<open>world\<close> for a call, \<open>desk\<close> for the call service,
  \<open>sync_env\<close> for a run of the synchronization), universally quantified in the theorems.  Clock readings are
  parameters in nanoseconds.  A critical section of the code is one operation; goroutines are interleavings of such
  operations (\<open>call_next\<close>, \<open>sync_job\<close> phases, \<open>pool_step\<close>), and the locales \<open>safe_machine\<close> and \<open>machine\<close> of the prelude
  carry invariants along them.

  \<^bold>\<open>A call.\<close>
  \<^item> Keypad (internal/keypad): the multi-tap editor.
  \<^item> Ivr\_Texts, Ivr (internal/ivr): the table of states, prompts and keys, its validation and the navigation session.
  \<^item> Speech\_Text (internal/calls/body\_speech.go, internal/speech/naturalize.go): how subjects and bodies are spoken.
  \<^item> Call\_State, Call\_Prompts, Call\_Compose, Call\_Browse, Call\_Mail, Call\_Menu: the session of a call (\<open>callSession\<close> of
    service.go) and its handlers, file by file: the prompts, composition.go, navigation\_handlers.go, mail\_handlers.go,
    dispatch.go and verification.go.  \<open>call_next\<close> is one key or one finished task.
  \<^item> Call\_Contract proves facts of every handler once, in the locale \<open>step_contract\<close>: Call\_Safety (no panic, cursor and
    editor stay well-formed) and Call\_Effects (only a confirmation menu changes mail) are its interpretations.
  \<^item> Call\_Demo has the concrete world of the witnesses; Call\_Run, Call\_Props, Call\_Drafts and Call\_Settings state the
    properties of whole calls.

  \<^bold>\<open>The call service.\<close>
  \<^item> Bridge (internal/bridge): frames of the control socket.
  \<^item> Call\_Service, Call\_Admission, Call\_System (admission.go, lifecycle.go, service.go, events.go): admission, lockouts,
    outgoing alert calls, the restart of SIP, and all events of the bridge as steps of one state.
  \<^item> Call\_Contracts has the locales \<open>service_contract\<close> and \<open>service_runs\<close>, Call\_Ledger, Call\_Promises and Call\_Gaps their
    interpretations and the properties.  Call\_Events is the dispatcher with its bounded queues.
  \<^item> Alerts (internal/alerts, internal/store/alerts.go): new-mail alerts, their claims and retries, over the call service.

  \<^bold>\<open>The web console.\<close>  Sessions, Login\_Guard and Web\_Limits (internal/web): session store with its quotas and grants,
  throttling of sign-ins, limits on setup attempts, recovery requests and voice previews.

  \<^bold>\<open>Synchronization.\<close>
  \<^item> Operation\_Errors (internal/operation): error trees and their categories.
  \<^item> Folder\_Policy (internal/folderpolicy): groups of folders, with a declarative specification of a valid policy.
  \<^item> Sync\_Store (internal/store/sync.go): the journal of runs; Sync\_Run (internal/mailsync/service.go): which run is due,
    of which kind, and its stages; Sync\_Jobs: ownership of an account, manual refreshes and the deletion of accounts;
    Idle\_Watch (idle.go): one watcher for each account, its replacement and its retry delays.
  \<^item> Mbsync\_State: the state files of mbsync, numbers as 32-bit words; Sync\_Reconcile: what a listing of the provider
    changes and removes locally.
  \<^item> Read\_Retry (queued\_reads.go, read\_cache.go): read changes that are sent to the provider outside of mbsync, with an
    uncertain answer confirmed before anything is acknowledged.

  \<^bold>\<open>The database\<close> (internal/store).  A table is the list of its rows in the order of their ids, a statement a function on
  lists, a transaction one operation; a column with JSON is the value it encodes.
  \<^item> Mail\_Rows (mail\_index.go, mail\_path.go, mail.go): the index of messages with the statements that change it and LIKE
    patterns; Mail\_Merge: what indexing and a change of path keep and drop.
  \<^item> Read\_Journal (queued\_reads.go): the journal of changes, its watermark and what a run acknowledges.
  \<^item> Folder\_Names, Folder\_Store, Folder\_Props, Folder\_Views (folder\_policy.go, folder\_directories.go and others): the check
    of folder maps and roles, the directories of each remote folder, logical mailboxes, and every change of them.
  \<^item> Mail\_Lists (mail.go): lists, pages and counts of messages.
  \<^item> Draft\_Store (mail.go): drafts and the journal of submissions.

  \<^bold>\<open>Speech.\<close>  Speech\_Pool (internal/speech/lifecycle.go): runtimes, shared engines, leases and warm-ups.

  \<^bold>\<open>What the theorems show.\<close>  Mail is sent, moved or deleted only from a confirmation menu, a caller is signed in only by
  the PIN of an approved user, no key and no event panics, sending is journalled once, an alert is settled once, and
  each bounded table stays bounded.  Of the synchronization: one run at a time for an account, none after its deletion,
  each run recorded, a local copy removed only when a complete listing lacks the message, and the state files read
  back.  A retained read change is sent at most once, indexing loses no alert, pages read the whole list, logical
  mailboxes divide the folders, and drafts are private to their user.  Where the code does less than its comments promise, a theorem shows the run that does so.

  \<^bold>\<open>Recursion.\<close>  Every loop is a structural recursion, a fold, or a \<open>function\<close> with a measure; no definition of the code
  needs fuel; \<open>read_pages\<close>, a reader that follows the cursors of pages, has a bound on the pages, and the theorem about it
  states a sufficient one.

  \<^bold>\<open>Not modelled.\<close>  The media pipeline (FIFOs, PCM, recording), the IMAP and SMTP protocol clients, MIME parsing (it
  rests on net/mail and mime), the text of the SQL, the HTTP handlers around the modelled stores, cryptography,
  child processes, and the C module of baresip.  The tables the modelled code relies on are modelled with it, or are
  parameters.
\<close>

end
